(* ===== verification/Prelude.thy ===== *)
theory Prelude
  imports
    Main
    "HOL-Library.AList"
    "HOL-Library.Char_ord"
    "HOL-Library.List_Lexorder"
    "HOL-Library.Product_Lexorder"
begin

text \<open>
  Shared vocabulary of the development: Python text, dictionaries, exceptions and the
  outside world (clocks, opaque identifiers, model and tool backends), with the generic
  lemmas the components use.

  \<^item> A Python \<open>str\<close> is a \<open>string\<close>, one \<open>char\<close> per code point; only code points below 256
    are representable, which is all the application's own vocabulary uses. \<open>length\<close>
    counts code points as Python's \<open>len\<close> does and the lexicographic order of
    \<open>List_Lexorder\<close> is Python's order on \<open>str\<close>.
  \<^item> A Python \<open>dict\<close> is an association list in insertion order, written with
    \<open>AList.update\<close>: an existing key keeps its place, a new key goes to the end.
  \<^item> An instant (\<open>UtcDatetime\<close>) is an \<open>int\<close>, the microseconds since the epoch: every
    timestamp of the code is normalised to UTC before it is compared or stored.
  \<^item> An exception is a value of \<open>exn\<close>, a call that may raise returns \<open>exn + 'a\<close>;
    message texts of exceptions are left out.
\<close>

named_theorems model_defs \<open>definitions unfolded by the component proofs\<close>
named_theorems frame_simps \<open>what an operation leaves unchanged\<close>

type_synonym instant = int
type_synonym 'v pydict = "(string \<times> 'v) list"

section \<open>Exceptions\<close>

text \<open>\<open>approvals.CheckpointStoreReasonCode\<close>, the reason a \<open>CheckpointStoreError\<close> carries.\<close>

datatype checkpoint_store_reason_code =
    THREAD_NOT_FOUND | NO_PENDING_INTERRUPT | CONFLICTING_DECISION | INVALID_REJECTION_NOTE
  | RESERVATION_NOT_SETTLEABLE | CEILING_BELOW_RESERVATION_BUFFER | CEILING_MALFORMED
  | STORE_UNAVAILABLE

datatype exn =
    ValueError
  | TypeError
  | KeyError
  | AssertionError
  | ValidationError
  | ReceiptAlreadySettled string
  | CostCeilingExceeded
  | InputTooLarge
  | AmbiguousReservationNotResent
  | GraphRecursionError
  | CheckpointStoreError checkpoint_store_reason_code
  | OtherError string

text \<open>\<open>type(error).__name__\<close>, the only part of an exception that reaches an event.\<close>

fun exn_name :: "exn \<Rightarrow> string" where
  "exn_name ValueError = ''ValueError''"
| "exn_name TypeError = ''TypeError''"
| "exn_name KeyError = ''KeyError''"
| "exn_name AssertionError = ''AssertionError''"
| "exn_name ValidationError = ''ValidationError''"
| "exn_name (ReceiptAlreadySettled _) = ''ReceiptAlreadySettled''"
| "exn_name CostCeilingExceeded = ''CostCeilingExceeded''"
| "exn_name InputTooLarge = ''InputTooLarge''"
| "exn_name AmbiguousReservationNotResent = ''AmbiguousReservationNotResent''"
| "exn_name GraphRecursionError = ''GraphRecursionError''"
| "exn_name (CheckpointStoreError _) = ''CheckpointStoreError''"
| "exn_name (OtherError n) = n"

fun bind_r :: "'e + 'a \<Rightarrow> ('a \<Rightarrow> 'e + 'b) \<Rightarrow> 'e + 'b" where
  "bind_r (Inl e) f = Inl e"
| "bind_r (Inr x) f = f x"

lemma bind_r_Inr: "bind_r m f = Inr y \<longleftrightarrow> (\<exists>x. m = Inr x \<and> f x = Inr y)"
  by (cases m) auto

text \<open>A list comprehension whose body may raise: the first failure is the result.\<close>

fun map_r :: "('a \<Rightarrow> 'e + 'b) \<Rightarrow> 'a list \<Rightarrow> 'e + 'b list" where
  "map_r f [] = Inr []"
| "map_r f (x # xs) =
     (case f x of Inl e \<Rightarrow> Inl e
      | Inr y \<Rightarrow> (case map_r f xs of Inl e \<Rightarrow> Inl e | Inr ys \<Rightarrow> Inr (y # ys)))"

lemma map_r_id:
  assumes "\<And>x. x \<in> set xs \<Longrightarrow> f x = Inr x"
  shows "map_r f xs = Inr xs"
  using assms by (induction xs) auto

lemma map_r_Inr_iff: "(\<exists>ys. map_r f xs = Inr ys) \<longleftrightarrow> (\<forall>x \<in> set xs. \<exists>y. f x = Inr y)"
  by (induction xs) (auto split: sum.splits)

section \<open>Dictionaries in insertion order\<close>

abbreviation dict_set :: "string \<Rightarrow> 'v \<Rightarrow> 'v pydict \<Rightarrow> 'v pydict" where
  "dict_set \<equiv> AList.update"

abbreviation dict_get :: "'v pydict \<Rightarrow> string \<Rightarrow> 'v option" where
  "dict_get \<equiv> map_of"

abbreviation dict_keys :: "'v pydict \<Rightarrow> string list" where
  "dict_keys d \<equiv> map fst d"

abbreviation dict_values :: "'v pydict \<Rightarrow> 'v list" where
  "dict_values d \<equiv> map snd d"

lemma update_fresh: "k \<notin> set (map fst d) \<Longrightarrow> AList.update k v d = d @ [(k, v)]"
  by (induction d) auto

lemma update_split:
  assumes "distinct (map fst d)" and "map_of d k = Some u"
  obtains d1 d2 where "d = d1 @ (k, u) # d2" and "AList.update k v d = d1 @ (k, v) # d2"
    and "k \<notin> set (map fst d1)"
proof -
  from assms have "\<exists>d1 d2. d = d1 @ (k, u) # d2 \<and> AList.update k v d = d1 @ (k, v) # d2
      \<and> k \<notin> set (map fst d1)"
  proof (induction d)
    case (Cons p d)
    show ?case
    proof (cases "fst p = k")
      case True
      with Cons.prems have "p = (k, u)" by (cases p) auto
      then have "p # d = [] @ (k, u) # d \<and> AList.update k v (p # d) = [] @ (k, v) # d" by simp
      then show ?thesis by fastforce
    next
      case False
      with Cons obtain d1 d2 where "d = d1 @ (k, u) # d2"
        "AList.update k v d = d1 @ (k, v) # d2" "k \<notin> set (map fst d1)" by (cases p) auto
      with False have "p # d = (p # d1) @ (k, u) # d2"
        "AList.update k v (p # d) = (p # d1) @ (k, v) # d2" "k \<notin> set (map fst (p # d1))"
        by (cases p; simp)+
      then show ?thesis by blast
    qed
  qed simp
  then show thesis using that by blast
qed

section \<open>Text\<close>

text \<open>\<open>str.isspace\<close> on the code points below 256.\<close>

definition is_space :: "char \<Rightarrow> bool" where
  "is_space c \<longleftrightarrow> of_char c \<in> {9, 10, 11, 12, 13, 28, 29, 30, 31, 32, 133, 160 :: nat}"

definition py_strip :: "string \<Rightarrow> string" where
  "py_strip s = rev (dropWhile is_space (rev (dropWhile is_space s)))"

text \<open>\<open>str.split()\<close>: the maximal runs of characters that are not white space.\<close>

function py_split :: "string \<Rightarrow> string list" where
  "py_split [] = []"
| "py_split (c # cs) =
     (if is_space c then py_split cs
      else (c # takeWhile (\<lambda>x. \<not> is_space x) cs) # py_split (dropWhile (\<lambda>x. \<not> is_space x) cs))"
  by pat_completeness auto
termination
  by (relation "measure length") (auto simp: le_imp_less_Suc length_dropWhile_le)

fun py_join :: "string \<Rightarrow> string list \<Rightarrow> string" where
  "py_join sep [] = []"
| "py_join sep [x] = x"
| "py_join sep (x # y # xs) = x @ sep @ py_join sep (y # xs)"

abbreviation newline :: string where
  "newline \<equiv> [CHR 0x0A]"

fun show_nat :: "nat \<Rightarrow> string" where
  "show_nat n = (if n < 10 then [char_of (48 + n)] else show_nat (n div 10) @ [char_of (48 + n mod 10)])"

declare show_nat.simps [simp del]

definition show_int :: "int \<Rightarrow> string" where
  "show_int i = (if i < 0 then ''-'' @ show_nat (nat (- i)) else show_nat (nat i))"

lemma py_strip_idem: "py_strip (py_strip s) = py_strip s"
proof -
  let ?d = "dropWhile is_space"
  have hd: "ys \<noteq> [] \<Longrightarrow> \<not> is_space (hd ys) \<Longrightarrow> ?d ys = ys" for ys by (cases ys) auto
  have hd_drop: "?d ys \<noteq> [] \<Longrightarrow> \<not> is_space (hd (?d ys))" for ys
    by (induction ys) auto
  show ?thesis
  proof (cases "py_strip s = []")
    case True
    have "py_strip [] = []" by (simp add: py_strip_def)
    with True show ?thesis by simp
  next
    case False
    let ?u = "?d s"
    let ?v = "?d (rev ?u)"
    from False have v: "?v \<noteq> []" by (simp add: py_strip_def)
    then have u: "?u \<noteq> []" by (metis dropWhile.simps(1) rev.simps(1))
    obtain w where w: "rev ?u = w @ ?v"
      by (metis takeWhile_dropWhile_id)
    then have "?u = rev ?v @ rev w" by (metis rev_append rev_rev_ident)
    with v have "hd (rev ?v) = hd ?u" by (metis hd_append2 rev_is_Nil_conv)
    with hd_drop [OF u] have "\<not> is_space (hd (rev ?v))" by simp
    with v have 1: "?d (rev ?v) = rev ?v" by (intro hd) auto
    have 2: "?d ?v = ?v" using v hd_drop [OF v] by (intro hd) auto
    show ?thesis by (simp add: py_strip_def 1 2)
  qed
qed

section \<open>Transition systems\<close>

text \<open>The contract of an invariant: every step keeps it. Then every reachable state has it.\<close>

locale invariant_system =
  fixes step :: "'s \<Rightarrow> 's \<Rightarrow> bool" and inv :: "'s \<Rightarrow> bool"
  assumes inv_step: "step s t \<Longrightarrow> inv s \<Longrightarrow> inv t"
begin

lemma inv_reachable: "step\<^sup>*\<^sup>* s t \<Longrightarrow> inv s \<Longrightarrow> inv t"
  by (induction rule: rtranclp_induct) (auto intro: inv_step)

end

end
