(* ===== verification/PyFloat.thy ===== *)
theory PyFloat
  imports Prelude "HOL-Library.Log_Nat"
begin

text \<open>
  Python's \<open>float\<close>, IEEE 754 binary64 with round-to-nearest-even. A finite value is the
  rational number it denotes (the sign of zero is left out: no comparison or sum of the
  code can observe it); \<open>rnd\<close> rounds an exact result to 53 significant bits with the
  subnormal grid \<open>2 powi (- 1074)\<close> below \<open>2 powi (- 1022)\<close>, and a result of magnitude
  \<open>2 powi 1024\<close> or more overflows to an infinity. The lemmas are the ones error analysis
  uses: rounding is monotone, keeps representable numbers, and its error is at most half
  a unit in the last place.
\<close>

datatype pyfloat = Fin rat | PosInf | NegInf | NaN

section \<open>Rounding to the nearest representable number\<close>

text \<open>Round half to even on the integers.\<close>

definition rne :: "rat \<Rightarrow> int" where
  "rne x = (let f = \<lfloor>x\<rfloor>; d = x - of_int f in
     if d < 1 / 2 then f else if 1 / 2 < d then f + 1 else if even f then f else f + 1)"

text \<open>The binary exponent of a positive rational.\<close>

definition ilog2 :: "rat \<Rightarrow> int" where
  "ilog2 x = (case quotient_of x of (p, q) \<Rightarrow>
     let k = bitlen p - bitlen q in if 2 powi k \<le> x then k else k - 1)"

definition ulp_exp :: "rat \<Rightarrow> int" where
  "ulp_exp x = max (ilog2 x - 52) (- 1074)"

definition rnd_pos :: "rat \<Rightarrow> rat" where
  "rnd_pos x = of_int (rne (x / 2 powi (ulp_exp x))) * 2 powi (ulp_exp x)"

definition rnd :: "rat \<Rightarrow> rat" where
  "rnd x = (if x = 0 then 0 else if 0 < x then rnd_pos x else - rnd_pos (- x))"

text \<open>A number is representable when it is at most \<open>2 ^ 53\<close> units of some power of two.\<close>

definition repr :: "rat \<Rightarrow> bool" where
  "repr x \<longleftrightarrow> (\<exists>m e. x = of_int m * 2 powi e \<and> \<bar>m\<bar> \<le> 2 ^ 53 \<and> - 1074 \<le> e)"

subsection \<open>The integer rounding\<close>

lemma rne_cases:
  obtains "rne x = \<lfloor>x\<rfloor>" "x - of_int \<lfloor>x\<rfloor> \<le> 1 / 2"
  | "rne x = \<lfloor>x\<rfloor> + 1" "1 / 2 \<le> x - of_int \<lfloor>x\<rfloor>"
  unfolding rne_def Let_def by (fastforce split: if_splits)

lemma rne_error: "\<bar>of_int (rne x) - x\<bar> \<le> 1 / 2"
  by (rule rne_cases [of x]) (use floor_correct [of x] in \<open>auto simp: abs_le_iff\<close>)

lemma rne_of_int [simp]: "rne (of_int n) = n"
  by (simp add: rne_def)

lemma rne_mono:
  assumes "x \<le> y"
  shows "rne x \<le> rne y"
proof (cases "\<lfloor>x\<rfloor> = \<lfloor>y\<rfloor>")
  case True
  with assms show ?thesis by (auto simp: rne_def Let_def)
next
  case False
  with assms have "\<lfloor>x\<rfloor> + 1 \<le> \<lfloor>y\<rfloor>" by (meson floor_mono order_le_less zless_imp_add1_zle)
  moreover have "rne x \<le> \<lfloor>x\<rfloor> + 1" by (rule rne_cases [of x]) auto
  moreover have "\<lfloor>y\<rfloor> \<le> rne y" by (rule rne_cases [of y]) auto
  ultimately show ?thesis by linarith
qed

lemma rne_le_int: "x \<le> of_int n \<Longrightarrow> rne x \<le> n"
  using rne_mono [of x "of_int n"] by (simp only: rne_of_int)

lemma rne_ge_int: "of_int n \<le> x \<Longrightarrow> n \<le> rne x"
  using rne_mono [of "of_int n" x] by (simp only: rne_of_int)

subsection \<open>The binary exponent\<close>

lemma powi_nat_less_mono: "j \<le> k \<Longrightarrow> (2::rat) powi j \<le> 2 powi k"
  by (rule power_int_increasing) auto

lemma powi_strict_mono: "j < k \<Longrightarrow> (2::rat) powi j < 2 powi k"
  by (rule power_int_strict_increasing) auto

lemma powi_less_iff: "(2::rat) powi j < 2 powi k \<longleftrightarrow> j < k"
  by (meson linorder_not_less powi_nat_less_mono powi_strict_mono)

lemma bitlen_powi_bounds:
  assumes "0 < (n::int)"
  shows "(2::rat) powi (bitlen n - 1) \<le> of_int n" and "of_int n < (2::rat) powi bitlen n"
proof -
  from assms have b: "1 \<le> bitlen n" by (simp add: bitlen_eq_zero_iff bitlen_nonneg order_less_le
        zless_imp_add1_zle [of 0, simplified])
  from bitlen_bounds [OF assms] have "2 ^ nat (bitlen n - 1) \<le> n" "n < 2 ^ nat (bitlen n)" by auto
  then have "(2::rat) ^ nat (bitlen n - 1) \<le> of_int n" "of_int n < (2::rat) ^ nat (bitlen n)"
    by (metis of_int_le_iff of_int_numeral of_int_power,
        metis of_int_less_iff of_int_numeral of_int_power)
  with b show "(2::rat) powi (bitlen n - 1) \<le> of_int n" "of_int n < (2::rat) powi bitlen n"
    by (simp_all add: power_int_def)
qed

lemma ilog2_bounds:
  assumes "0 < x"
  shows "2 powi (ilog2 x) \<le> x" and "x < 2 powi (ilog2 x + 1)"
proof -
  obtain p q where pq: "quotient_of x = (p, q)" by fastforce
  then have x: "x = of_int p / of_int q" by (rule quotient_of_div)
  have q: "0 < q" using pq by (rule quotient_of_denom_pos)
  with assms x have p: "0 < p"
    by (metis of_int_pos of_int_less_0_iff of_int_0_less_iff zero_less_divide_iff less_asym)
  let ?k = "bitlen p - bitlen q"
  note bp = bitlen_powi_bounds [OF p] and bq = bitlen_powi_bounds [OF q]
  have up: "x < 2 powi (?k + 1)"
  proof -
    have "of_int p < (2::rat) powi bitlen p" by (rule bp)
    also have "\<dots> = 2 powi (?k + 1) * 2 powi (bitlen q - 1)"
      by (simp add: power_int_add [symmetric])
    also have "\<dots> \<le> 2 powi (?k + 1) * of_int q" by (intro mult_left_mono bq) simp
    finally show ?thesis using q by (simp add: x pos_divide_less_eq)
  qed
  have low: "2 powi (?k - 1) \<le> x"
  proof -
    have "2 powi (?k - 1) * of_int q \<le> 2 powi (?k - 1) * (2::rat) powi bitlen q"
      using bq(2) by (intro mult_left_mono) auto
    also have "\<dots> = 2 powi (bitlen p - 1)" by (simp add: power_int_add [symmetric])
    also have "\<dots> \<le> of_int p" by (rule bp)
    finally show ?thesis using q by (simp add: x pos_le_divide_eq)
  qed
  show "2 powi (ilog2 x) \<le> x" "x < 2 powi (ilog2 x + 1)"
    using up low by (auto simp: ilog2_def pq Let_def)
qed

lemma ilog2_unique:
  assumes "2 powi k \<le> x" and "x < 2 powi (k + 1)"
  shows "ilog2 x = k"
proof -
  have x: "0 < x" using assms(1) by (meson zero_less_numeral zero_less_power_int order_less_le_trans)
  from ilog2_bounds [OF x] assms have "(2::rat) powi (ilog2 x) < 2 powi (k + 1)"
    "(2::rat) powi k < 2 powi (ilog2 x + 1)" by linarith+
  then show ?thesis by (simp add: powi_less_iff)
qed

lemma ilog2_mono:
  assumes "0 < x" and "x \<le> y"
  shows "ilog2 x \<le> ilog2 y"
proof -
  from ilog2_bounds(1) [OF assms(1)] ilog2_bounds(2) [of y] assms
  have "(2::rat) powi (ilog2 x) < 2 powi (ilog2 y + 1)" by linarith
  then show ?thesis by (simp add: powi_less_iff)
qed

subsection \<open>Monotonicity and representable numbers\<close>

lemma ulp_exp_mono: "0 < x \<Longrightarrow> x \<le> y \<Longrightarrow> ulp_exp x \<le> ulp_exp y"
  using ilog2_mono [of x y] by (simp add: ulp_exp_def)

lemma rnd_pos_le_power:
  assumes "0 < x" and "x \<le> 2 powi k" and "- 1074 \<le> k" and "ilog2 x < k"
  shows "rnd_pos x \<le> 2 powi k"
proof -
  let ?e = "ulp_exp x"
  from assms(3,4) have e: "?e \<le> k" by (simp add: ulp_exp_def)
  then obtain n where n: "k = ?e + int n" using zle_iff_zadd by blast
  have "x / 2 powi ?e \<le> of_int (2 ^ n)"
    using assms(2) by (simp add: n power_int_add pos_divide_le_eq mult.commute)
  then have "rne (x / 2 powi ?e) \<le> 2 ^ n" by (rule rne_le_int)
  then have "of_int (rne (x / 2 powi ?e)) \<le> (2 ^ n :: rat)"
    by (metis of_int_le_iff of_int_numeral of_int_power)
  then have "rnd_pos x \<le> 2 ^ n * 2 powi ?e"
    unfolding rnd_pos_def by (intro mult_right_mono) auto
  also have "\<dots> = 2 powi k" by (simp add: n power_int_add mult.commute)
  finally show ?thesis .
qed

lemma rnd_pos_ge_power:
  assumes "2 powi k \<le> x" and "- 1074 \<le> k" and "k = ilog2 x \<or> k = ulp_exp x"
  shows "2 powi k \<le> rnd_pos x"
proof -
  let ?e = "ulp_exp x"
  have x: "0 < x" using assms(1) by (meson zero_less_numeral zero_less_power_int order_less_le_trans)
  from assms(2,3) have e: "?e \<le> k" by (auto simp: ulp_exp_def)
  then obtain n where n: "k = ?e + int n" using zle_iff_zadd by blast
  have "of_int (2 ^ n) \<le> x / 2 powi ?e"
    using assms(1) by (simp add: n power_int_add pos_le_divide_eq mult.commute)
  then have "2 ^ n \<le> rne (x / 2 powi ?e)" by (rule rne_ge_int)
  then have "(2 ^ n :: rat) \<le> of_int (rne (x / 2 powi ?e))"
    by (metis of_int_le_iff of_int_numeral of_int_power)
  then have "2 ^ n * 2 powi ?e \<le> rnd_pos x"
    unfolding rnd_pos_def by (intro mult_right_mono) auto
  moreover have "2 powi k = 2 ^ n * (2::rat) powi ?e" by (simp add: n power_int_add mult.commute)
  ultimately show ?thesis by simp
qed

lemma rnd_pos_nonneg: "0 < x \<Longrightarrow> 0 \<le> rnd_pos x"
proof -
  assume "0 < x"
  then have "rne 0 \<le> rne (x / 2 powi ulp_exp x)" by (intro rne_mono) auto
  moreover have "rne 0 = 0" using rne_of_int [of 0] by simp
  ultimately show ?thesis by (simp add: rnd_pos_def)
qed

lemma rnd_pos_mono:
  assumes x: "0 < x" and xy: "x \<le> y"
  shows "rnd_pos x \<le> rnd_pos y"
proof (cases "ulp_exp x = ulp_exp y")
  case True
  have "x / 2 powi ulp_exp y \<le> y / 2 powi ulp_exp y" using xy by (intro divide_right_mono) auto
  then have "rne (x / 2 powi ulp_exp y) \<le> rne (y / 2 powi ulp_exp y)" by (rule rne_mono)
  then show ?thesis unfolding rnd_pos_def True by (intro mult_right_mono) auto
next
  case False
  with ulp_exp_mono [OF x xy] have e: "ulp_exp x < ulp_exp y" by simp
  let ?k = "ilog2 y"
  from e have k: "ulp_exp y = ?k - 52" "- 1074 \<le> ?k" "ilog2 x < ?k"
    using ilog2_mono [OF x xy] by (auto simp: ulp_exp_def max_def split: if_splits)
  have y: "0 < y" using x xy by simp
  have "(2::rat) powi (ilog2 x + 1) \<le> 2 powi ?k" using k(3) by (intro powi_nat_less_mono) simp
  then have "x \<le> 2 powi ?k" using ilog2_bounds(2) [OF x] by linarith
  then have "rnd_pos x \<le> 2 powi ?k" by (rule rnd_pos_le_power [OF x _ k(2,3)])
  also have "\<dots> \<le> rnd_pos y" by (rule rnd_pos_ge_power) (use ilog2_bounds(1) [OF y] k in auto)
  finally show ?thesis .
qed

lemma rnd_zero [simp]: "rnd 0 = 0"
  by (simp add: rnd_def)

lemma rnd_minus: "rnd (- x) = - rnd x"
  by (auto simp: rnd_def)

lemma rnd_nonneg: "0 \<le> x \<Longrightarrow> 0 \<le> rnd x"
  by (auto simp: rnd_def rnd_pos_nonneg)

lemma rnd_mono:
  assumes "x \<le> y"
  shows "rnd x \<le> rnd y"
proof -
  consider "0 < x" | "x \<le> 0" "0 \<le> y" | "y < 0" using assms by linarith
  then show ?thesis
  proof cases
    case 1
    with assms rnd_pos_mono [of x y] show ?thesis by (simp add: rnd_def)
  next
    case 2
    have "rnd x \<le> 0" using rnd_nonneg [of "- x"] 2 by (simp add: rnd_minus)
    also have "0 \<le> rnd y" using 2 by (rule_tac rnd_nonneg)
    finally show ?thesis .
  next
    case 3
    with assms rnd_pos_mono [of "- y" "- x"] show ?thesis by (simp add: rnd_def)
  qed
qed

lemma rne_div_exact:
  assumes "x = of_int m * 2 powi e" and "ulp_exp x \<le> e"
  shows "rnd_pos x = x"
proof -
  from assms(2) obtain n where n: "e = ulp_exp x + int n" using zle_iff_zadd by blast
  have x: "x = of_int (m * 2 ^ n) * 2 powi ulp_exp x"
    using assms(1) by (simp add: n power_int_add mult.assoc mult.commute mult.left_commute)
  then have "x / 2 powi ulp_exp x = of_int (m * 2 ^ n)"
    by (metis nonzero_mult_div_cancel_right power_int_not_zero zero_neq_numeral)
  then have "rne (x / 2 powi ulp_exp x) = m * 2 ^ n" by (simp only: rne_of_int)
  with x show ?thesis by (simp add: rnd_pos_def)
qed

lemma rnd_pos_repr:
  assumes "0 < x" and "repr x"
  shows "rnd_pos x = x"
proof -
  from assms(2) obtain m e where me: "x = of_int m * 2 powi e" "\<bar>m\<bar> \<le> 2 ^ 53" "- 1074 \<le> e"
    by (auto simp: repr_def)
  have "0 < (2::rat) powi e" by simp
  with assms(1) have "0 < (of_int m :: rat)" unfolding me(1) by (simp add: zero_less_mult_iff)
  then have m: "0 < m" by simp
  show ?thesis
  proof (cases "m = 2 ^ 53")
    case True
    then have x: "x = of_int (2 ^ 52) * 2 powi (e + 1)"
      using me(1) by (simp add: power_int_add)
    have "x = 2 powi (e + 53)" using me(1) True by (simp add: power_int_add)
    then have "ilog2 x = e + 53" by (intro ilog2_unique) (auto simp: powi_less_iff)
    then have "ulp_exp x \<le> e + 1" using me(3) by (simp add: ulp_exp_def)
    with x show ?thesis by (rule rne_div_exact)
  next
    case False
    with m me(2) have "m < 2 ^ 53" by simp
    then have "(of_int m :: rat) < 2 ^ 53" by (metis of_int_less_iff of_int_numeral of_int_power)
    then have "x < 2 ^ 53 * 2 powi e" unfolding me(1) by (intro mult_strict_right_mono) auto
    then have "x < 2 powi (e + 53)" by (simp add: power_int_add mult.commute)
    with ilog2_bounds(1) [OF assms(1)] have "(2::rat) powi (ilog2 x) < 2 powi (e + 53)" by linarith
    then have "ilog2 x \<le> e + 52" by (simp add: powi_less_iff)
    then have "ulp_exp x \<le> e" using me(3) by (simp add: ulp_exp_def)
    with me(1) show ?thesis by (rule rne_div_exact)
  qed
qed

lemma repr_minus: "repr (- x) \<longleftrightarrow> repr x"
  unfolding repr_def by (metis (no_types, lifting) abs_minus minus_minus mult_minus_left of_int_minus)

lemma rnd_repr [simp]: "repr x \<Longrightarrow> rnd x = x"
  using rnd_pos_repr [of x] rnd_pos_repr [of "- x"] by (auto simp: rnd_def repr_minus)

lemma repr_zero [simp]: "repr 0"
  unfolding repr_def by (rule exI [of _ 0], rule exI [of _ 0]) simp

lemma repr_rnd_pos:
  assumes "0 < x"
  shows "repr (rnd_pos x)"
proof -
  let ?e = "ulp_exp x"
  have "(2::rat) powi (ilog2 x + 1) \<le> 2 powi (?e + 53)"
    by (intro powi_nat_less_mono) (simp add: ulp_exp_def)
  then have "x \<le> 2 powi (?e + 53)" using ilog2_bounds(2) [OF assms] by linarith
  then have "x / 2 powi ?e \<le> of_int (2 ^ 53)"
    by (simp add: power_int_add pos_divide_le_eq mult.commute)
  then have "rne (x / 2 powi ?e) \<le> 2 ^ 53" by (rule rne_le_int)
  moreover have "0 \<le> rne (x / 2 powi ?e)"
    using rne_ge_int [of 0 "x / 2 powi ?e"] assms by simp
  ultimately show ?thesis
    unfolding repr_def rnd_pos_def by (intro exI conjI) (auto simp: ulp_exp_def)
qed

lemma repr_rnd [simp]: "repr (rnd x)"
  using repr_rnd_pos [of x] repr_rnd_pos [of "- x"] by (auto simp: rnd_def repr_minus)

subsection \<open>Rounding error\<close>

lemma rnd_pos_error:
  assumes "0 < x"
  shows "\<bar>rnd_pos x - x\<bar> \<le> x / 2 ^ 53 + 2 powi (- 1075)"
proof -
  let ?e = "ulp_exp x"
  have "rnd_pos x - x = (of_int (rne (x / 2 powi ?e)) - x / 2 powi ?e) * 2 powi ?e"
    by (simp add: rnd_pos_def left_diff_distrib)
  then have "\<bar>rnd_pos x - x\<bar> = \<bar>of_int (rne (x / 2 powi ?e)) - x / 2 powi ?e\<bar> * 2 powi ?e"
    by (simp add: abs_mult)
  also have "\<dots> \<le> 1 / 2 * 2 powi ?e" by (intro mult_right_mono rne_error) simp
  also have "\<dots> \<le> x / 2 ^ 53 + 2 powi (- 1075)"
  proof (cases "ilog2 x - 52 \<le> - 1074")
    case True
    then have e: "?e = - 1075 + 1" by (simp add: ulp_exp_def max_def)
    have "1 / 2 * (2::rat) powi (- 1075 + 1) = 2 powi (- 1075)"
      by (subst power_int_add) auto
    with e have "1 / 2 * (2::rat) powi ?e = 2 powi (- 1075)" by simp
    then show ?thesis using assms by simp
  next
    case False
    then have e: "?e = ilog2 x - 52" by (simp add: ulp_exp_def)
    have "1 / 2 * (2::rat) powi ?e = 2 powi (ilog2 x) / 2 ^ 53"
      by (simp add: e power_int_diff)
    also have "\<dots> \<le> x / 2 ^ 53" using ilog2_bounds(1) [OF assms] by (intro divide_right_mono) auto
    finally show ?thesis by (simp add: add_increasing2)
  qed
  finally show ?thesis .
qed

lemma rnd_error: "\<bar>rnd x - x\<bar> \<le> \<bar>x\<bar> / 2 ^ 53 + 2 powi (- 1075)"
proof -
  consider "x = 0" | "0 < x" | "x < 0" by linarith
  then show ?thesis
  proof cases
    case 1 then show ?thesis by simp
  next
    case 2
    then show ?thesis using rnd_pos_error [OF 2] by (simp add: rnd_def)
  next
    case 3
    then have "\<bar>rnd_pos (- x) - (- x)\<bar> \<le> (- x) / 2 ^ 53 + 2 powi (- 1075)"
      by (intro rnd_pos_error) simp
    with 3 show ?thesis by (simp add: rnd_def abs_if algebra_simps split: if_splits)
  qed
qed

section \<open>Arithmetic and comparison of floats\<close>

text \<open>An exact result becomes a float: rounded, or an infinity when it is too large.\<close>

definition fl :: "rat \<Rightarrow> pyfloat" where
  "fl x = (let r = rnd x in
     if 2 ^ 1024 \<le> r then PosInf else if r \<le> - (2 ^ 1024) then NegInf else Fin r)"

fun f_neg :: "pyfloat \<Rightarrow> pyfloat" where
  "f_neg (Fin a) = Fin (- a)"
| "f_neg PosInf = NegInf"
| "f_neg NegInf = PosInf"
| "f_neg NaN = NaN"

fun f_add :: "pyfloat \<Rightarrow> pyfloat \<Rightarrow> pyfloat" where
  "f_add (Fin a) (Fin b) = fl (a + b)"
| "f_add NaN _ = NaN"
| "f_add _ NaN = NaN"
| "f_add PosInf NegInf = NaN"
| "f_add NegInf PosInf = NaN"
| "f_add PosInf _ = PosInf"
| "f_add _ PosInf = PosInf"
| "f_add NegInf _ = NegInf"
| "f_add _ NegInf = NegInf"

definition f_sub :: "pyfloat \<Rightarrow> pyfloat \<Rightarrow> pyfloat" where
  "f_sub a b = f_add a (f_neg b)"

fun f_lt :: "pyfloat \<Rightarrow> pyfloat \<Rightarrow> bool" where
  "f_lt (Fin a) (Fin b) \<longleftrightarrow> a < b"
| "f_lt NaN _ \<longleftrightarrow> False"
| "f_lt _ NaN \<longleftrightarrow> False"
| "f_lt PosInf _ \<longleftrightarrow> False"
| "f_lt _ NegInf \<longleftrightarrow> False"
| "f_lt _ PosInf \<longleftrightarrow> True"
| "f_lt NegInf _ \<longleftrightarrow> True"

text \<open>\<open>a <= b\<close>: false as soon as one side is not a number.\<close>

definition f_le :: "pyfloat \<Rightarrow> pyfloat \<Rightarrow> bool" where
  "f_le a b \<longleftrightarrow> f_lt a b \<or> (a = b \<and> a \<noteq> NaN)"

text \<open>Python's \<open>max(a, b)\<close> keeps its first argument unless the second is greater.\<close>

definition f_max :: "pyfloat \<Rightarrow> pyfloat \<Rightarrow> pyfloat" where
  "f_max a b = (if f_lt a b then b else a)"

text \<open>True division of two ints is correctly rounded; here the divisor is positive.\<close>

definition f_div_int :: "int \<Rightarrow> int \<Rightarrow> pyfloat" where
  "f_div_int a b = fl (of_int a / of_int b)"

fun f_mul_fin :: "pyfloat \<Rightarrow> rat \<Rightarrow> pyfloat" where
  "f_mul_fin (Fin a) b = fl (a * b)"
| "f_mul_fin NaN b = NaN"
| "f_mul_fin PosInf b = (if b = 0 then NaN else if 0 < b then PosInf else NegInf)"
| "f_mul_fin NegInf b = (if b = 0 then NaN else if 0 < b then NegInf else PosInf)"

fun is_finite :: "pyfloat \<Rightarrow> bool" where
  "is_finite (Fin _) \<longleftrightarrow> True"
| "is_finite _ \<longleftrightarrow> False"

text \<open>The values a Python float can really take: finite ones lie on the binary64 grid.\<close>

definition wf_float :: "pyfloat \<Rightarrow> bool" where
  "wf_float v \<longleftrightarrow> (\<forall>a. v = Fin a \<longrightarrow> repr a \<and> \<bar>a\<bar> < 2 ^ 1024)"

definition nonneg_float :: "pyfloat \<Rightarrow> bool" where
  "nonneg_float v \<longleftrightarrow> wf_float v \<and> f_le (Fin 0) v"

lemma fl_repr: "repr a \<Longrightarrow> \<bar>a\<bar> < 2 ^ 1024 \<Longrightarrow> fl a = Fin a"
  by (auto simp: fl_def Let_def abs_less_iff)

lemma wf_fl [simp]: "wf_float (fl x)"
  by (auto simp: wf_float_def fl_def Let_def abs_less_iff split: if_splits)

lemma fl_Fin_iff: "fl x = Fin r \<longleftrightarrow> r = rnd x \<and> \<bar>r\<bar> < 2 ^ 1024"
  by (auto simp: fl_def Let_def abs_less_iff split: if_splits)

lemma f_le_refl [simp]: "f_le a a \<longleftrightarrow> a \<noteq> NaN"
  by (cases a) (auto simp: f_le_def)

lemma f_le_Fin [simp]: "f_le (Fin a) (Fin b) \<longleftrightarrow> a \<le> b"
  by (auto simp: f_le_def)

lemma f_le_PosInf [simp]: "f_le a PosInf \<longleftrightarrow> a \<noteq> NaN"
  by (cases a) (auto simp: f_le_def)

lemma f_le_trans: "f_le a b \<Longrightarrow> f_le b c \<Longrightarrow> f_le a c"
  by (cases a; cases b; cases c) (auto simp: f_le_def)

lemma fl_mono: "x \<le> y \<Longrightarrow> f_le (fl x) (fl y)"
  using rnd_mono [of x y] by (auto simp: fl_def Let_def f_le_def)

lemma nonneg_float_cases:
  assumes "nonneg_float v"
  obtains a where "v = Fin a" "0 \<le> a" "repr a" "a < 2 ^ 1024" | "v = PosInf"
  using assms by (cases v) (auto simp: nonneg_float_def wf_float_def f_le_def)

lemma nonneg_floatI: "0 \<le> a \<Longrightarrow> repr a \<Longrightarrow> a < 2 ^ 1024 \<Longrightarrow> nonneg_float (Fin a)"
  by (auto simp: nonneg_float_def wf_float_def)

lemma nonneg_PosInf [simp]: "nonneg_float PosInf"
  by (simp add: nonneg_float_def wf_float_def)

lemma nonneg_zero [simp]: "nonneg_float (Fin 0)"
  by (simp add: nonneg_float_def wf_float_def)

lemma nonneg_fl: "0 \<le> x \<Longrightarrow> nonneg_float (fl x)"
  using fl_mono [of 0 x] fl_repr [of 0] by (simp add: nonneg_float_def)

lemma f_add_nonneg:
  assumes "nonneg_float a" and "nonneg_float b"
  shows "nonneg_float (f_add a b)"
  using assms(1)
proof (cases rule: nonneg_float_cases)
  case (1 x)
  from assms(2) show ?thesis by (cases rule: nonneg_float_cases) (auto simp: 1 nonneg_fl)
next
  case 2
  from assms(2) show ?thesis by (cases rule: nonneg_float_cases) (auto simp: 2)
qed

text \<open>A sum of non-negative floats is monotone in both arguments and above each of them.\<close>

lemma f_add_mono:
  assumes "nonneg_float a" "nonneg_float a'" "nonneg_float b" "nonneg_float b'"
    and "f_le a a'" and "f_le b b'"
  shows "f_le (f_add a b) (f_add a' b')"
proof -
  have nn: "f_add a b \<noteq> NaN"
    using f_add_nonneg [OF assms(1,3)] by (auto simp: nonneg_float_def f_le_def)
  consider "a' = PosInf \<or> b' = PosInf" | x y where "a' = Fin x" "b' = Fin y"
    using assms(2,4) by (metis nonneg_float_cases)
  then show ?thesis
  proof cases
    case 1
    then have "f_add a' b' = PosInf" using assms(2,4) by (auto elim!: nonneg_float_cases)
    with nn show ?thesis by simp
  next
    case 2
    with assms obtain u v where "a = Fin u" "b = Fin v" "u \<le> x" "v \<le> y"
      by (auto elim!: nonneg_float_cases simp: f_le_def)
    with 2 show ?thesis by (auto intro!: fl_mono add_mono)
  qed
qed

lemma f_add_ge_left:
  assumes "nonneg_float a" "nonneg_float b"
  shows "f_le a (f_add a b)"
proof -
  have "f_le (f_add a (Fin 0)) (f_add a b)"
    using assms by (intro f_add_mono nonneg_zero) (auto simp: nonneg_float_def f_le_def)
  moreover have "f_add a (Fin 0) = a"
    using assms(1) by (cases rule: nonneg_float_cases) (auto simp: fl_repr)
  ultimately show ?thesis by simp
qed

lemma f_max_nonneg: "nonneg_float a \<Longrightarrow> nonneg_float b \<Longrightarrow> nonneg_float (f_max a b)"
  by (simp add: f_max_def)

lemma f_max_ge: "nonneg_float a \<Longrightarrow> nonneg_float b \<Longrightarrow> f_le a (f_max a b) \<and> f_le b (f_max a b)"
  by (auto elim!: nonneg_float_cases simp: f_max_def f_le_def)

section \<open>Left-to-right sums\<close>

text \<open>
  The contract of a running total: an addition that is monotone on non-negative amounts.
  Whatever is proved here holds for exact and for rounded money alike.
\<close>

locale running_total =
  fixes le :: "'m \<Rightarrow> 'm \<Rightarrow> bool" and add :: "'m \<Rightarrow> 'm \<Rightarrow> 'm" and zero :: 'm
    and amount :: "'m \<Rightarrow> bool"
  assumes le_refl': "amount a \<Longrightarrow> le a a"
    and le_trans': "le a b \<Longrightarrow> le b c \<Longrightarrow> le a c"
    and amount_zero: "amount zero"
    and amount_add: "amount a \<Longrightarrow> amount b \<Longrightarrow> amount (add a b)"
    and add_mono': "amount a \<Longrightarrow> amount a' \<Longrightarrow> amount b \<Longrightarrow> amount b' \<Longrightarrow>
        le a a' \<Longrightarrow> le b b' \<Longrightarrow> le (add a b) (add a' b')"
    and add_ge: "amount a \<Longrightarrow> amount b \<Longrightarrow> le a (add a b)"
begin

lemma total_amount:
  assumes "amount acc" and "\<And>x. x \<in> set xs \<Longrightarrow> amount x"
  shows "amount (foldl add acc xs)"
  using assms by (induction xs arbitrary: acc) (auto intro: amount_add)

lemma total_ge_start:
  assumes "amount acc" and "\<And>x. x \<in> set xs \<Longrightarrow> amount x"
  shows "le acc (foldl add acc xs)"
  using assms
proof (induction xs arbitrary: acc)
  case Nil
  then show ?case by (simp add: le_refl')
next
  case (Cons x xs)
  then have "le acc (add acc x)" by (simp add: add_ge)
  moreover have "le (add acc x) (foldl add (add acc x) xs)"
    using Cons by (intro Cons.IH) (auto intro: amount_add)
  ultimately show ?case by (auto intro: le_trans')
qed

lemma total_mono:
  assumes "list_all2 (\<lambda>x y. amount x \<and> amount y \<and> le x y) xs ys"
    and "amount a" "amount b" "le a b"
  shows "le (foldl add a xs) (foldl add b ys)"
  using assms by (induction xs ys arbitrary: a b rule: list_all2_induct) (auto intro: amount_add add_mono')

end

interpretation money: running_total f_le f_add "Fin 0" nonneg_float
proof
  fix a b c :: pyfloat
  show "nonneg_float a \<Longrightarrow> f_le a a" by (auto simp: nonneg_float_def f_le_def)
  show "f_le a b \<Longrightarrow> f_le b c \<Longrightarrow> f_le a c" by (rule f_le_trans)
qed (simp_all add: f_add_nonneg f_add_mono f_add_ge_left)

end
