(* ===== verification/Json.thy ===== *)
theory Json
  imports PyFloat
begin

text \<open>
  JSON values (\<open>pydantic.JsonValue\<close>), Python's \<open>json.dumps\<close> with its default and its
  compact separators, and \<open>datetime.isoformat\<close>. The shortest decimal text of a float
  (\<open>float.__repr__\<close>) is an argument: nothing below depends on which text it picks.
\<close>

datatype json =
    JNull
  | JBool bool
  | JInt int
  | JFloat pyfloat
  | JStr string
  | JList "json list"
  | JObj "(string \<times> json) list"

section \<open>json.dumps\<close>

definition hex_digit :: "nat \<Rightarrow> char" where
  "hex_digit n = (if n < 10 then char_of (48 + n) else char_of (87 + n))"

text \<open>\<open>ensure_ascii\<close> is on: a code point outside printable ASCII is written as an escape.\<close>

definition json_escape :: "char \<Rightarrow> string" where
  "json_escape c = (let n = of_char c :: nat in
     if n = 34 then [CHR 0x5C, CHR 0x22]
     else if n = 92 then [CHR 0x5C, CHR 0x5C]
     else if n = 10 then [CHR 0x5C, CHR ''n'']
     else if n = 13 then [CHR 0x5C, CHR ''r'']
     else if n = 9 then [CHR 0x5C, CHR ''t'']
     else if n = 8 then [CHR 0x5C, CHR ''b'']
     else if n = 12 then [CHR 0x5C, CHR ''f'']
     else if n < 32 \<or> 126 < n
       then [CHR 0x5C, CHR ''u'', CHR ''0'', CHR ''0'', hex_digit (n div 16), hex_digit (n mod 16)]
     else [c])"

definition json_string :: "string \<Rightarrow> string" where
  "json_string s = [CHR 0x22] @ concat (map json_escape s) @ [CHR 0x22]"

text \<open>\<open>item_sep\<close> and \<open>key_sep\<close> are the two separators of \<open>json.dumps\<close>.\<close>

fun json_dumps :: "(pyfloat \<Rightarrow> string) \<Rightarrow> string \<Rightarrow> string \<Rightarrow> json \<Rightarrow> string" where
  "json_dumps fr item_sep key_sep JNull = ''null''"
| "json_dumps fr item_sep key_sep (JBool b) = (if b then ''true'' else ''false'')"
| "json_dumps fr item_sep key_sep (JInt i) = show_int i"
| "json_dumps fr item_sep key_sep (JFloat x) = fr x"
| "json_dumps fr item_sep key_sep (JStr s) = json_string s"
| "json_dumps fr item_sep key_sep (JList xs) =
     ''['' @ py_join item_sep (map (json_dumps fr item_sep key_sep) xs) @ '']''"
| "json_dumps fr item_sep key_sep (JObj kvs) =
     ''{'' @ py_join item_sep
       (map (\<lambda>kv. json_string (fst kv) @ key_sep @ json_dumps fr item_sep key_sep (snd kv)) kvs) @ ''}''"

text \<open>\<open>sort_keys=True\<close> reorders every object by key before it is printed.\<close>

fun json_sort_keys :: "json \<Rightarrow> json" where
  "json_sort_keys (JList xs) = JList (map json_sort_keys xs)"
| "json_sort_keys (JObj kvs) = JObj (sort_key fst (map (\<lambda>kv. (fst kv, json_sort_keys (snd kv))) kvs))"
| "json_sort_keys j = j"

section \<open>datetime.isoformat\<close>

text \<open>The civil date of a day number counted from 1 January 1970.\<close>

definition civil_from_days :: "int \<Rightarrow> int \<times> int \<times> int" where
  "civil_from_days d = (let
     z = d + 719468; era = z div 146097; doe = z mod 146097;
     yoe = (doe - doe div 1460 + doe div 36524 - doe div 146096) div 365;
     doy = doe - (365 * yoe + yoe div 4 - yoe div 100);
     mp = (5 * doy + 2) div 153;
     day = doy - (153 * mp + 2) div 5 + 1;
     month = (if mp < 10 then mp + 3 else mp - 9);
     year = yoe + era * 400 + (if month \<le> 2 then 1 else 0)
   in (year, month, day))"

definition pad_int :: "nat \<Rightarrow> int \<Rightarrow> string" where
  "pad_int w i = (let s = show_nat (nat i) in replicate (w - length s) (CHR ''0'') @ s)"

definition isoformat :: "instant \<Rightarrow> string" where
  "isoformat t = (let
     secs = t div 1000000; us = t mod 1000000;
     d = secs div 86400; s = secs mod 86400
   in case civil_from_days d of (y, m, dd) \<Rightarrow>
     pad_int 4 y @ ''-'' @ pad_int 2 m @ ''-'' @ pad_int 2 dd @ ''T''
     @ pad_int 2 (s div 3600) @ '':'' @ pad_int 2 (s mod 3600 div 60) @ '':'' @ pad_int 2 (s mod 60)
     @ (if us = 0 then [] else ''.'' @ pad_int 6 us) @ ''+00:00'')"

end
