(* ===== verification/Tools.thy ===== *)
theory Tools
  imports Json
begin

text \<open>
  \<open>src/causalops/tools.py\<close>: the five registered read-only tools and their typed arguments.
\<close>

datatype tool_name =
    QUERY_METRIC | QUERY_LOGS | LIST_RECENT_CHANGES | GET_TOPOLOGY | SEARCH_RUNBOOKS

fun tool_value :: "tool_name \<Rightarrow> string" where
  "tool_value QUERY_METRIC = ''query_metric''"
| "tool_value QUERY_LOGS = ''query_logs''"
| "tool_value LIST_RECENT_CHANGES = ''list_recent_changes''"
| "tool_value GET_TOPOLOGY = ''get_topology''"
| "tool_value SEARCH_RUNBOOKS = ''search_runbooks''"

text \<open>\<open>ToolName(value)\<close> as the enum constructor: \<open>None\<close> where Python raises \<open>ValueError\<close>.\<close>

definition tool_of_value :: "string \<Rightarrow> tool_name option" where
  "tool_of_value s =
     find (\<lambda>t. tool_value t = s)
       [QUERY_METRIC, QUERY_LOGS, LIST_RECENT_CHANGES, GET_TOPOLOGY, SEARCH_RUNBOOKS]"

datatype metric_template =
    GATEWAY_ERROR_RATE | GATEWAY_LATENCY_P95 | DOWNSTREAM_TIMEOUT_SHARE
  | RESOURCE_POOL_ATTEMPTS_PER_CAPACITY

datatype log_filter = ERRORS_ONLY | TIMEOUTS_ONLY | POOL_EXHAUSTION | CONFIG_RELOAD

datatype runbook_topic =
    GATEWAY_ERRORS | GATEWAY_LATENCY | DOWNSTREAM_TIMEOUTS | RESOURCE_POOL_PRESSURE
  | RECENT_CONFIG_CHANGES

record query_metric_arguments =
  qm_template :: metric_template
  qm_service :: string
  qm_window_start :: "instant option"
  qm_window_end :: "instant option"

record query_logs_arguments =
  ql_log_filter :: log_filter
  ql_service :: string
  ql_window_start :: "instant option"
  ql_window_end :: "instant option"
  ql_row_limit :: int

record list_recent_changes_arguments =
  lc_service :: string
  lc_window_start :: "instant option"
  lc_window_end :: "instant option"

record get_topology_arguments =
  gt_incident_id :: string

record search_runbooks_arguments =
  sr_topic :: runbook_topic
  sr_limit :: int

datatype tool_arguments =
    QueryMetricArguments query_metric_arguments
  | QueryLogsArguments query_logs_arguments
  | ListRecentChangesArguments list_recent_changes_arguments
  | GetTopologyArguments get_topology_arguments
  | SearchRunbooksArguments search_runbooks_arguments

text \<open>The discriminator field \<open>tool\<close> of each argument class, fixed by its \<open>Literal\<close> type.\<close>

fun arguments_tool :: "tool_arguments \<Rightarrow> tool_name" where
  "arguments_tool (QueryMetricArguments _) = QUERY_METRIC"
| "arguments_tool (QueryLogsArguments _) = QUERY_LOGS"
| "arguments_tool (ListRecentChangesArguments _) = LIST_RECENT_CHANGES"
| "arguments_tool (GetTopologyArguments _) = GET_TOPOLOGY"
| "arguments_tool (SearchRunbooksArguments _) = SEARCH_RUNBOOKS"

text \<open>The schema bounds \<open>ge\<close>/\<open>le\<close> on the two integer arguments.\<close>

fun arguments_in_schema :: "tool_arguments \<Rightarrow> bool" where
  "arguments_in_schema (QueryLogsArguments a) \<longleftrightarrow> 1 \<le> ql_row_limit a \<and> ql_row_limit a \<le> 200"
| "arguments_in_schema (SearchRunbooksArguments a) \<longleftrightarrow> 1 \<le> sr_limit a \<and> sr_limit a \<le> 20"
| "arguments_in_schema _ \<longleftrightarrow> True"

text \<open>Service and window of the three window-carrying classes.\<close>

fun arguments_service :: "tool_arguments \<Rightarrow> string option" where
  "arguments_service (QueryMetricArguments a) = Some (qm_service a)"
| "arguments_service (QueryLogsArguments a) = Some (ql_service a)"
| "arguments_service (ListRecentChangesArguments a) = Some (lc_service a)"
| "arguments_service _ = None"

fun arguments_window :: "tool_arguments \<Rightarrow> (instant option \<times> instant option) option" where
  "arguments_window (QueryMetricArguments a) = Some (qm_window_start a, qm_window_end a)"
| "arguments_window (QueryLogsArguments a) = Some (ql_window_start a, ql_window_end a)"
| "arguments_window (ListRecentChangesArguments a) = Some (lc_window_start a, lc_window_end a)"
| "arguments_window _ = None"

lemma tool_of_value_value [simp]: "tool_of_value (tool_value t) = Some t"
  by (cases t) (simp_all add: tool_of_value_def)

lemma tool_of_value_Some: "tool_of_value s = Some t \<Longrightarrow> s = tool_value t"
  by (auto simp: tool_of_value_def split: if_splits)

lemma window_iff_service: "arguments_window a = None \<longleftrightarrow> arguments_service a = None"
  by (cases a) auto

lemma window_tools:
  "arguments_window a \<noteq> None \<longleftrightarrow>
     arguments_tool a \<in> {QUERY_METRIC, QUERY_LOGS, LIST_RECENT_CHANGES}"
  by (cases a) auto

end
