(* ===== verification/Domain.thy ===== *)
theory Domain
  imports Tools
begin

text \<open>
  \<open>src/causalops/domain.py\<close>: the typed contracts shared by the workflow, its artifacts and
  the reasoning model. Every pydantic class with a validator becomes a record and a
  \<open>*_validate\<close> function that returns \<open>Inl ValidationError\<close> where the constructor raises;
  field bounds (\<open>max_length\<close>, \<open>ge\<close>) are part of it.
\<close>

section \<open>Vocabularies\<close>

datatype root_cause_code =
    CONFIG_CHANGE | DOWNSTREAM_TIMEOUT_RETRY_AMPLIFICATION | RESOURCE_POOL_SATURATION
  | UNDETERMINED

datatype disposition = DIAGNOSED | INSUFFICIENT_EVIDENCE | FAILED_SAFE

text \<open>What a model may select; \<open>FAILED_SAFE\<close> has no counterpart.\<close>

datatype model_disposition = M_DIAGNOSED | M_INSUFFICIENT_EVIDENCE

datatype evidence_kind = SYMPTOM | TOPOLOGY | METRIC | LOG | CHANGE

fun kind_value :: "evidence_kind \<Rightarrow> string" where
  "kind_value SYMPTOM = ''SYMPTOM''"
| "kind_value TOPOLOGY = ''TOPOLOGY''"
| "kind_value METRIC = ''METRIC''"
| "kind_value LOG = ''LOG''"
| "kind_value CHANGE = ''CHANGE''"

datatype retrieval_mode = DISABLED | FTS5_LEXICAL | PINECONE_SEMANTIC

fun retrieval_mode_value :: "retrieval_mode \<Rightarrow> string" where
  "retrieval_mode_value DISABLED = ''disabled''"
| "retrieval_mode_value FTS5_LEXICAL = ''fts5_lexical''"
| "retrieval_mode_value PINECONE_SEMANTIC = ''pinecone_semantic''"

datatype gateway_symptom = ELEVATED_ERRORS | ELEVATED_LATENCY | ELEVATED_ERRORS_AND_LATENCY

fun symptom_value :: "gateway_symptom \<Rightarrow> string" where
  "symptom_value ELEVATED_ERRORS = ''ELEVATED_ERRORS''"
| "symptom_value ELEVATED_LATENCY = ''ELEVATED_LATENCY''"
| "symptom_value ELEVATED_ERRORS_AND_LATENCY = ''ELEVATED_ERRORS_AND_LATENCY''"

datatype policy_result = ALLOWED | DENIED

datatype tool_outcome = EXECUTED | TIMEOUT | UNAVAILABLE | ERROR | NOT_EXECUTED

fun outcome_value :: "tool_outcome \<Rightarrow> string" where
  "outcome_value EXECUTED = ''EXECUTED''"
| "outcome_value TIMEOUT = ''TIMEOUT''"
| "outcome_value UNAVAILABLE = ''UNAVAILABLE''"
| "outcome_value ERROR = ''ERROR''"
| "outcome_value NOT_EXECUTED = ''NOT_EXECUTED''"

datatype reason_code =
    BUDGET_EXHAUSTED | CROSS_INCIDENT_REQUEST | UNKNOWN_SERVICE | OUTSIDE_INCIDENT_WINDOW
  | UNRESOLVED_WINDOW | RESULT_LIMIT_EXCEEDED | DUPLICATE_PROPOSAL | TOOL_TIMEOUT
  | TOOL_UNAVAILABLE | TOOL_ERROR | MODEL_OUTPUT_INVALID | REPAIR_EXHAUSTED
  | MODEL_CALL_BUDGET_EXHAUSTED | WALL_CLOCK_EXPIRED | FORGED_EVIDENCE_REFERENCE
  | RESULT_ALREADY_FINALIZED | COST_CEILING_EXCEEDED | INPUT_TOKEN_CAP_EXCEEDED
  | AMBIGUOUS_MODEL_REQUEST | INTERNAL_ERROR

fun reason_value :: "reason_code \<Rightarrow> string" where
  "reason_value BUDGET_EXHAUSTED = ''BUDGET_EXHAUSTED''"
| "reason_value CROSS_INCIDENT_REQUEST = ''CROSS_INCIDENT_REQUEST''"
| "reason_value UNKNOWN_SERVICE = ''UNKNOWN_SERVICE''"
| "reason_value OUTSIDE_INCIDENT_WINDOW = ''OUTSIDE_INCIDENT_WINDOW''"
| "reason_value UNRESOLVED_WINDOW = ''UNRESOLVED_WINDOW''"
| "reason_value RESULT_LIMIT_EXCEEDED = ''RESULT_LIMIT_EXCEEDED''"
| "reason_value DUPLICATE_PROPOSAL = ''DUPLICATE_PROPOSAL''"
| "reason_value TOOL_TIMEOUT = ''TOOL_TIMEOUT''"
| "reason_value TOOL_UNAVAILABLE = ''TOOL_UNAVAILABLE''"
| "reason_value TOOL_ERROR = ''TOOL_ERROR''"
| "reason_value MODEL_OUTPUT_INVALID = ''MODEL_OUTPUT_INVALID''"
| "reason_value REPAIR_EXHAUSTED = ''REPAIR_EXHAUSTED''"
| "reason_value MODEL_CALL_BUDGET_EXHAUSTED = ''MODEL_CALL_BUDGET_EXHAUSTED''"
| "reason_value WALL_CLOCK_EXPIRED = ''WALL_CLOCK_EXPIRED''"
| "reason_value FORGED_EVIDENCE_REFERENCE = ''FORGED_EVIDENCE_REFERENCE''"
| "reason_value RESULT_ALREADY_FINALIZED = ''RESULT_ALREADY_FINALIZED''"
| "reason_value COST_CEILING_EXCEEDED = ''COST_CEILING_EXCEEDED''"
| "reason_value INPUT_TOKEN_CAP_EXCEEDED = ''INPUT_TOKEN_CAP_EXCEEDED''"
| "reason_value AMBIGUOUS_MODEL_REQUEST = ''AMBIGUOUS_MODEL_REQUEST''"
| "reason_value INTERNAL_ERROR = ''INTERNAL_ERROR''"

datatype graph_phase =
    CREATED | INVESTIGATE | DISPATCH_TOOL | NORMALIZE_EVIDENCE | FINAL_ASSESSMENT
  | ESCALATION_INTERRUPT | FINAL_REPORT

fun phase_value :: "graph_phase \<Rightarrow> string" where
  "phase_value CREATED = ''CREATED''"
| "phase_value INVESTIGATE = ''INVESTIGATE''"
| "phase_value DISPATCH_TOOL = ''DISPATCH_TOOL''"
| "phase_value NORMALIZE_EVIDENCE = ''NORMALIZE_EVIDENCE''"
| "phase_value FINAL_ASSESSMENT = ''FINAL_ASSESSMENT''"
| "phase_value ESCALATION_INTERRUPT = ''ESCALATION_INTERRUPT''"
| "phase_value FINAL_REPORT = ''FINAL_REPORT''"

datatype escalation_reason =
    CONFLICTING_EVIDENCE | ER_TOOL_UNAVAILABLE | INSUFFICIENT_EVIDENCE_WITH_CHECK_REMAINING
  | RETRIEVAL_COVERAGE_INSUFFICIENT

fun escalation_value :: "escalation_reason \<Rightarrow> string" where
  "escalation_value CONFLICTING_EVIDENCE = ''CONFLICTING_EVIDENCE''"
| "escalation_value ER_TOOL_UNAVAILABLE = ''TOOL_UNAVAILABLE''"
| "escalation_value INSUFFICIENT_EVIDENCE_WITH_CHECK_REMAINING =
     ''INSUFFICIENT_EVIDENCE_WITH_CHECK_REMAINING''"
| "escalation_value RETRIEVAL_COVERAGE_INSUFFICIENT = ''RETRIEVAL_COVERAGE_INSUFFICIENT''"

text \<open>\<open>record.kind\<close> is a \<open>StrEnum\<close> member: sorting compares the text of the value.\<close>

lemma kind_value_inj: "kind_value a = kind_value b \<longleftrightarrow> a = b"
  by (cases a; cases b; simp)

instantiation evidence_kind :: linorder
begin

definition less_eq_evidence_kind :: "evidence_kind \<Rightarrow> evidence_kind \<Rightarrow> bool" where
  "less_eq_evidence_kind a b \<longleftrightarrow> kind_value a \<le> kind_value b"

definition less_evidence_kind :: "evidence_kind \<Rightarrow> evidence_kind \<Rightarrow> bool" where
  "less_evidence_kind a b \<longleftrightarrow> kind_value a < kind_value b"

instance
proof
  fix a b c :: evidence_kind
  show "(a < b) = (a \<le> b \<and> \<not> b \<le> a)"
    unfolding less_eq_evidence_kind_def less_evidence_kind_def by (rule less_le_not_le)
  show "a \<le> a" by (simp add: less_eq_evidence_kind_def)
  show "a \<le> b \<Longrightarrow> b \<le> c \<Longrightarrow> a \<le> c" unfolding less_eq_evidence_kind_def by (rule order_trans)
  show "a \<le> b \<or> b \<le> a" unfolding less_eq_evidence_kind_def by (rule linear)
  show "a \<le> b \<Longrightarrow> b \<le> a \<Longrightarrow> a = b"
    unfolding less_eq_evidence_kind_def by (simp only: kind_value_inj [symmetric] antisym)
qed

end

section \<open>Budgets and incident identity\<close>

record budgets =
  wall_clock_seconds :: int
  tool_timeout_seconds :: int
  b_model_calls :: int
  b_executed_tools :: int
  b_runbook_searches :: int
  b_runbook_passages :: int
  b_repairs :: int
  b_log_rows :: int

definition budgets_validate :: "budgets \<Rightarrow> exn + budgets" where
  "budgets_validate b = (if 0 \<le> b_repairs b \<and> b_repairs b \<le> 2 then Inr b else Inl ValidationError)"

definition DEFAULT_BUDGETS :: budgets where
  "DEFAULT_BUDGETS =
    \<lparr> wall_clock_seconds = 360, tool_timeout_seconds = 10, b_model_calls = 4,
      b_executed_tools = 2, b_runbook_searches = 1, b_runbook_passages = 5,
      b_repairs = 2, b_log_rows = 40 \<rparr>"

record versions =
  v_schema_version :: string
  v_prompt_version :: string
  v_policy_version :: string
  v_tool_registry_version :: string

record model_usage =
  input_tokens :: int
  output_tokens :: int

record incident_scope =
  sc_incident_id :: string
  sc_environment :: string
  sc_services :: "string list"
  sc_started_at :: instant
  sc_ended_at :: instant
  sc_endpoint :: string

text \<open>\<open>services\<close> has \<open>min_length=1\<close>; \<open>check_window\<close> orders the two bounds.\<close>

definition incident_scope_validate :: "incident_scope \<Rightarrow> exn + incident_scope" where
  "incident_scope_validate s =
     (if sc_services s = [] then Inl ValidationError
      else if sc_ended_at s \<le> sc_started_at s then Inl ValidationError
      else Inr s)"

record evidence =
  ev_evidence_id :: string
  ev_incident_id :: string
  ev_kind :: evidence_kind
  ev_source :: string
  ev_observed_at :: instant
  ev_summary :: string
  ev_payload :: "json pydict"
  ev_receipt_id :: "string option"
  ev_content_hash :: string

definition evidence_validate :: "evidence \<Rightarrow> exn + evidence" where
  "evidence_validate e = (if length (ev_summary e) \<le> 400 then Inr e else Inl ValidationError)"

record initial_alert_packet =
  pk_incident_id :: string
  pk_window_start :: instant
  pk_window_end :: instant
  pk_endpoint :: string
  pk_symptom :: gateway_symptom
  pk_services :: "string list"
  pk_alerted_at :: instant
  pk_alert_source_version :: string
  pk_symptom_evidence_id :: string
  pk_topology_evidence_id :: string

record stored_incident =
  si_scope :: incident_scope
  si_packet :: initial_alert_packet
  si_evidence :: "evidence list"

text \<open>\<open>check_identity_agrees\<close>: one incident id across scope, packet and every record.\<close>

definition stored_incident_validate :: "stored_incident \<Rightarrow> exn + stored_incident" where
  "stored_incident_validate s =
     (if pk_incident_id (si_packet s) \<noteq> sc_incident_id (si_scope s) then Inl ValidationError
      else if list_ex (\<lambda>e. ev_incident_id e \<noteq> sc_incident_id (si_scope s)) (si_evidence s)
        then Inl ValidationError
      else Inr s)"

section \<open>Hypotheses, proposals, receipts\<close>

record hypothesis =
  h_root_cause :: root_cause_code
  h_rank :: int
  h_supporting_evidence_ids :: "string list"
  h_contrary_evidence_ids :: "string list"
  h_missing_evidence :: string

record tool_proposal =
  tp_arguments :: tool_arguments
  tp_evidence_gap :: string
  tp_expected_observation :: string

definition tp_tool :: "tool_proposal \<Rightarrow> tool_name" where
  "tp_tool p = arguments_tool (tp_arguments p)"

definition tool_proposal_validate :: "tool_proposal \<Rightarrow> exn + tool_proposal" where
  "tool_proposal_validate p =
     (if length (tp_evidence_gap p) \<le> 300 \<and> length (tp_expected_observation p) \<le> 300
      then Inr p else Inl ValidationError)"

datatype receipt_state = RESERVED | SETTLED

record tool_receipt =
  rc_receipt_id :: string
  rc_incident_id :: string
  rc_tool :: tool_name
  rc_fingerprint :: string
  rc_policy_result :: policy_result
  rc_state :: receipt_state
  rc_outcome :: "tool_outcome option"
  rc_reason_code :: "reason_code option"
  rc_requested_at :: instant
  rc_duration_ms :: int
  rc_result_digest :: "string option"
  rc_evidence_id :: "string option"
  rc_arguments :: "tool_arguments option"

text \<open>\<open>duration_ms\<close> has \<open>ge=0\<close>; then \<open>check_lifecycle_coherence\<close>.\<close>

definition tool_receipt_validate :: "tool_receipt \<Rightarrow> exn + tool_receipt" where
  "tool_receipt_validate r = (let
     carries_a_result = rc_outcome r \<noteq> None \<or> rc_result_digest r \<noteq> None \<or> rc_evidence_id r \<noteq> None
   in if rc_duration_ms r < 0 then Inl ValidationError
      else if rc_state r = RESERVED \<and> carries_a_result then Inl ValidationError
      else if rc_state r = SETTLED \<and> rc_outcome r = None then Inl ValidationError
      else Inr r)"

abbreviation receipt_valid :: "tool_receipt \<Rightarrow> bool" where
  "receipt_valid r \<equiv> tool_receipt_validate r = Inr r"

text \<open>
  \<open>InitialPlan\<close> and \<open>HypothesisUpdate\<close> have the same fields and the same validator; the
  model's answer to either stage is a \<open>stage_plan\<close>.
\<close>

record stage_plan =
  sp_hypotheses :: "hypothesis list"
  sp_proposal :: "tool_proposal option"
  sp_stop_reason :: "string option"

definition stage_plan_validate :: "stage_plan \<Rightarrow> exn + stage_plan" where
  "stage_plan_validate p =
     (if length (sp_hypotheses p) < 2 \<or> 3 < length (sp_hypotheses p) then Inl ValidationError
      else if \<exists>s \<in> set_option (sp_stop_reason p). s = [] \<or> 600 < length s then Inl ValidationError
      else if (sp_proposal p = None) = (sp_stop_reason p = None) then Inl ValidationError
      else Inr p)"

section \<open>Assessment, checks and reports\<close>

record final_assessment =
  fa_disposition :: model_disposition
  fa_root_cause :: root_cause_code
  fa_supporting_evidence_ids :: "string list"
  fa_contrary_evidence_ids :: "string list"
  fa_runbook_citations :: "string list"
  fa_uncertainty :: string
  fa_next_step :: string

definition final_assessment_validate :: "final_assessment \<Rightarrow> exn + final_assessment" where
  "final_assessment_validate a =
     (if 600 < length (fa_uncertainty a) \<or> 300 < length (fa_next_step a) then Inl ValidationError
      else if fa_disposition a = M_DIAGNOSED then
        (if fa_root_cause a = UNDETERMINED then Inl ValidationError
         else if fa_supporting_evidence_ids a = [] then Inl ValidationError
         else Inr a)
      else if fa_root_cause a \<noteq> UNDETERMINED then Inl ValidationError
      else Inr a)"

abbreviation assessment_valid :: "final_assessment \<Rightarrow> bool" where
  "assessment_valid a \<equiv> final_assessment_validate a = Inr a"

record check_outcome =
  co_outcome :: tool_outcome
  co_kind :: evidence_kind
  co_source :: string
  co_summary :: string
  co_payload :: "json pydict"
  co_reason_code :: "reason_code option"
  co_duration_ms :: int

record runbook_passage =
  rp_passage_id :: string
  rp_content :: string
  rp_source_version :: string
  rp_content_hash :: string
  rp_score :: pyfloat
  rp_retrieval_mode :: retrieval_mode

record runbook_check_outcome =
  ro_outcome :: tool_outcome
  ro_passages :: "runbook_passage list"
  ro_retrieval_mode :: retrieval_mode
  ro_reason_code :: "reason_code option"
  ro_duration_ms :: int

datatype decision = Accept | Reject

fun decision_value :: "decision \<Rightarrow> string" where
  "decision_value Accept = ''accept''"
| "decision_value Reject = ''reject''"

record escalation_record =
  er_reason :: escalation_reason
  er_decision :: decision
  er_rejection_note :: "string option"

text \<open>
  \<open>max_length=300\<close> on the note, then \<open>check_rejection_note_pairing\<close>: a rejection carries a
  note that is not blank, an acceptance carries none.
\<close>

definition escalation_record_validate :: "escalation_record \<Rightarrow> exn + escalation_record" where
  "escalation_record_validate e =
     (if \<exists>n \<in> set_option (er_rejection_note e). 300 < length n then Inl ValidationError
      else if er_decision e = Reject \<and>
        (case er_rejection_note e of None \<Rightarrow> True | Some n \<Rightarrow> n = [] \<or> py_strip n = [])
        then Inl ValidationError
      else if er_decision e = Accept \<and> er_rejection_note e \<noteq> None then Inl ValidationError
      else Inr e)"

record investigation_report =
  ir_investigation_id :: string
  ir_incident_id :: string
  ir_disposition :: disposition
  ir_root_cause :: root_cause_code
  ir_assessment :: "final_assessment option"
  ir_reason_code :: "reason_code option"
  ir_budgets :: budgets
  ir_versions :: versions
  ir_started_at :: instant
  ir_finished_at :: instant
  ir_latency_ms :: int
  ir_model_calls_used :: int
  ir_repairs_used :: int
  ir_tools_executed :: int
  ir_invalid_responses :: int
  ir_usage :: "model_usage option"
  ir_final_context_digest :: string
  ir_evidence_ids :: "string list"
  ir_receipt_ids :: "string list"
  ir_retrieval_mode :: retrieval_mode
  ir_runbook_passage_ids :: "string list"
  ir_limitations :: "string list"
  ir_escalation :: "escalation_record option"

definition report_counts_ok :: "investigation_report \<Rightarrow> bool" where
  "report_counts_ok r \<longleftrightarrow> 0 \<le> ir_latency_ms r \<and> 0 \<le> ir_model_calls_used r \<and> 0 \<le> ir_repairs_used r
     \<and> 0 \<le> ir_tools_executed r \<and> 0 \<le> ir_invalid_responses r"

definition investigation_report_validate :: "investigation_report \<Rightarrow> exn + investigation_report" where
  "investigation_report_validate r =
     (if \<not> report_counts_ok r then Inl ValidationError
      else if ir_disposition r = DIAGNOSED then
        (if ir_root_cause r = UNDETERMINED then Inl ValidationError
         else if ir_assessment r = None then Inl ValidationError
         else Inr r)
      else if ir_root_cause r \<noteq> UNDETERMINED then Inl ValidationError
      else if ir_disposition r = INSUFFICIENT_EVIDENCE then
        (if ir_assessment r = None then Inl ValidationError else Inr r)
      else if ir_assessment r \<noteq> None then Inl ValidationError
      else if ir_reason_code r = None then Inl ValidationError
      else Inr r)"

record investigation_result =
  res_report :: investigation_report
  res_evidence :: "evidence list"
  res_receipts :: "tool_receipt list"

record escalated_investigation =
  esc_thread_id :: string
  esc_run_id :: string
  esc_checkpoint_id :: string
  esc_reason :: escalation_reason
  esc_evidence :: "evidence list"
  esc_receipts :: "tool_receipt list"
  esc_remaining_check_count :: int
  esc_proposal_fingerprint :: "string option"

section \<open>Libraries the code calls\<close>

text \<open>
  Serialisation and field validation by pydantic and the SHA-256 digest are code outside the
  repository. They are the fields of a \<open>libs\<close> record, an argument of the definitions that
  use them: the JSON text and the JSON object of tool arguments, the parsers of tool arguments
  and of a final assessment (an error summary, or the value with its fields of the right
  types; the repository's own validators run afterwards), and the summaries of validation
  errors.
\<close>

record libs =
  sha256_hex :: "string \<Rightarrow> string"
  float_repr :: "pyfloat \<Rightarrow> string"
  args_model_dump_json :: "tool_arguments \<Rightarrow> string"
  args_model_dump :: "tool_arguments \<Rightarrow> json pydict"
  args_validate :: "json pydict \<Rightarrow> string + tool_arguments"
  assessment_fields :: "json pydict \<Rightarrow> string + final_assessment"
  proposal_errors :: "tool_proposal \<Rightarrow> string"
  assessment_errors :: "final_assessment \<Rightarrow> string"
  hypothesis_model_dump :: "hypothesis \<Rightarrow> json"

text \<open>\<open>sha256(arguments.model_dump_json().encode("utf-8")).hexdigest()\<close>.\<close>

definition fingerprint :: "libs \<Rightarrow> tool_arguments \<Rightarrow> string" where
  "fingerprint L arguments = sha256_hex L (args_model_dump_json L arguments)"

section \<open>Consequences of the validators\<close>

lemma validate_returns_input:
  "tool_receipt_validate r = Inr r' \<Longrightarrow> r' = r"
  "final_assessment_validate a = Inr a' \<Longrightarrow> a' = a"
  "evidence_validate e = Inr e' \<Longrightarrow> e' = e"
  "escalation_record_validate x = Inr x' \<Longrightarrow> x' = x"
  "investigation_report_validate p = Inr p' \<Longrightarrow> p' = p"
  "tool_proposal_validate t = Inr t' \<Longrightarrow> t' = t"
  by (auto simp: tool_receipt_validate_def final_assessment_validate_def evidence_validate_def
      escalation_record_validate_def investigation_report_validate_def tool_proposal_validate_def
      Let_def split: if_splits)

lemma receipt_valid_iff:
  "receipt_valid r \<longleftrightarrow> 0 \<le> rc_duration_ms r
     \<and> (rc_state r = RESERVED \<longrightarrow> rc_outcome r = None \<and> rc_result_digest r = None \<and> rc_evidence_id r = None)
     \<and> (rc_state r = SETTLED \<longrightarrow> rc_outcome r \<noteq> None)"
  by (auto simp: tool_receipt_validate_def Let_def)

lemma assessment_valid_iff:
  "assessment_valid a \<longleftrightarrow> length (fa_uncertainty a) \<le> 600 \<and> length (fa_next_step a) \<le> 300
     \<and> (fa_disposition a = M_DIAGNOSED \<longrightarrow>
          fa_root_cause a \<noteq> UNDETERMINED \<and> fa_supporting_evidence_ids a \<noteq> [])
     \<and> (fa_disposition a = M_INSUFFICIENT_EVIDENCE \<longrightarrow> fa_root_cause a = UNDETERMINED)"
  by (cases "fa_disposition a") (auto simp: final_assessment_validate_def)

lemma report_valid_iff:
  "investigation_report_validate r = Inr r \<longleftrightarrow> report_counts_ok r
     \<and> (ir_disposition r = DIAGNOSED \<longrightarrow> ir_root_cause r \<noteq> UNDETERMINED \<and> ir_assessment r \<noteq> None)
     \<and> (ir_disposition r \<noteq> DIAGNOSED \<longrightarrow> ir_root_cause r = UNDETERMINED)
     \<and> (ir_disposition r = INSUFFICIENT_EVIDENCE \<longrightarrow> ir_assessment r \<noteq> None)
     \<and> (ir_disposition r = FAILED_SAFE \<longrightarrow> ir_assessment r = None \<and> ir_reason_code r \<noteq> None)"
  by (cases "ir_disposition r") (auto simp: investigation_report_validate_def)

end
