(* ===== verification/Policy.thy ===== *)
theory Policy
  imports Domain
begin

text \<open>
  \<open>src/causalops/policy.py\<close>: the deterministic authorization of a proposed check, with the
  source's order of tests and its denial messages, and what an allowed decision guarantees.
\<close>

definition POLICY_VERSION :: string where
  "POLICY_VERSION = ''4''"

record policy_decision =
  pd_result :: policy_result
  pd_fingerprint :: string
  pd_reason_code :: "reason_code option"
  pd_message :: string

text \<open>\<open>check_reason_code\<close>: a denial names its reason, an allowed decision names none.\<close>

definition policy_decision_validate :: "policy_decision \<Rightarrow> exn + policy_decision" where
  "policy_decision_validate d =
     (if pd_result d = DENIED \<and> pd_reason_code d = None then Inl ValidationError
      else if pd_result d = ALLOWED \<and> pd_reason_code d \<noteq> None then Inl ValidationError
      else Inr d)"

definition deny :: "string \<Rightarrow> reason_code \<Rightarrow> string \<Rightarrow> policy_decision" where
  "deny mark reason message =
    \<lparr> pd_result = DENIED, pd_fingerprint = mark, pd_reason_code = Some reason, pd_message = message \<rparr>"

definition allow :: "string \<Rightarrow> policy_decision" where
  "allow mark = \<lparr> pd_result = ALLOWED, pd_fingerprint = mark, pd_reason_code = None, pd_message = [] \<rparr>"

text \<open>The tests on \<open>service\<close> and window that the three window-carrying tools share.\<close>

definition authorize_windowed ::
    "string \<Rightarrow> string \<Rightarrow> instant option \<Rightarrow> instant option \<Rightarrow> tool_arguments \<Rightarrow>
     incident_scope \<Rightarrow> budgets \<Rightarrow> policy_decision" where
  "authorize_windowed mark service window_start window_end arguments scope b =
     (if service \<notin> set (sc_services scope)
        then deny mark UNKNOWN_SERVICE ''that service is out of scope''
      else case (window_start, window_end) of
        (Some ws, Some we) \<Rightarrow>
          if ws < sc_started_at scope \<or> sc_ended_at scope < we
            then deny mark OUTSIDE_INCIDENT_WINDOW ''that window leaves the incident''
          else if we \<le> ws
            then deny mark OUTSIDE_INCIDENT_WINDOW ''that window ends before it starts''
          else (case arguments of
            QueryLogsArguments a \<Rightarrow>
              if b_log_rows b < ql_row_limit a
              then deny mark RESULT_LIMIT_EXCEEDED
                (''row_limit '' @ show_int (ql_row_limit a) @ '' is above the budget of ''
                 @ show_int (b_log_rows b) @ ''; propose row_limit '' @ show_int (b_log_rows b)
                 @ '' or less'')
              else allow mark
          | _ \<Rightarrow> allow mark)
      | _ \<Rightarrow> deny mark UNRESOLVED_WINDOW
               ''a direct caller must resolve the window before calling authorize'')"

definition authorize ::
    "libs \<Rightarrow> tool_proposal \<Rightarrow> incident_scope \<Rightarrow> string set \<Rightarrow> budgets \<Rightarrow> int \<Rightarrow> policy_decision" where
  "authorize L proposal scope seen_fingerprints b tools_remaining =
    (let arguments = tp_arguments proposal; mark = fingerprint L arguments in
     if tools_remaining \<le> 0
       then deny mark BUDGET_EXHAUSTED ''no diagnostic check budget left''
     else if mark \<in> seen_fingerprints
       then deny mark DUPLICATE_PROPOSAL ''this check was proposed already''
     else (case arguments of
       GetTopologyArguments a \<Rightarrow>
         if gt_incident_id a \<noteq> sc_incident_id scope
         then deny mark CROSS_INCIDENT_REQUEST ''that is another incident''
         else allow mark
     | SearchRunbooksArguments a \<Rightarrow>
         if b_runbook_passages b < sr_limit a
         then deny mark RESULT_LIMIT_EXCEEDED
           (''limit '' @ show_int (sr_limit a) @ '' is above the budget of ''
            @ show_int (b_runbook_passages b) @ ''; propose limit ''
            @ show_int (b_runbook_passages b) @ '' or less'')
         else allow mark
     | QueryMetricArguments a \<Rightarrow>
         authorize_windowed mark (qm_service a) (qm_window_start a) (qm_window_end a) arguments scope b
     | QueryLogsArguments a \<Rightarrow>
         authorize_windowed mark (ql_service a) (ql_window_start a) (ql_window_end a) arguments scope b
     | ListRecentChangesArguments a \<Rightarrow>
         authorize_windowed mark (lc_service a) (lc_window_start a) (lc_window_end a) arguments scope b))"

section \<open>What a decision guarantees\<close>

text \<open>
  The promise of the policy, stated without the code's order of tests: what must hold of a
  request for it to be inside the incident and inside the budgets.
\<close>

definition window_inside :: "incident_scope \<Rightarrow> instant \<Rightarrow> instant \<Rightarrow> bool" where
  "window_inside scope ws we \<longleftrightarrow> sc_started_at scope \<le> ws \<and> ws < we \<and> we \<le> sc_ended_at scope"

fun in_scope :: "incident_scope \<Rightarrow> budgets \<Rightarrow> tool_arguments \<Rightarrow> bool" where
  "in_scope scope b (GetTopologyArguments a) \<longleftrightarrow> gt_incident_id a = sc_incident_id scope"
| "in_scope scope b (SearchRunbooksArguments a) \<longleftrightarrow> sr_limit a \<le> b_runbook_passages b"
| "in_scope scope b (QueryLogsArguments a) \<longleftrightarrow>
     ql_service a \<in> set (sc_services scope) \<and> ql_row_limit a \<le> b_log_rows b
     \<and> (\<exists>ws we. ql_window_start a = Some ws \<and> ql_window_end a = Some we \<and> window_inside scope ws we)"
| "in_scope scope b (QueryMetricArguments a) \<longleftrightarrow>
     qm_service a \<in> set (sc_services scope)
     \<and> (\<exists>ws we. qm_window_start a = Some ws \<and> qm_window_end a = Some we \<and> window_inside scope ws we)"
| "in_scope scope b (ListRecentChangesArguments a) \<longleftrightarrow>
     lc_service a \<in> set (sc_services scope)
     \<and> (\<exists>ws we. lc_window_start a = Some ws \<and> lc_window_end a = Some we \<and> window_inside scope ws we)"

lemma deny_simps [simp]:
  "pd_result (deny m r t) = DENIED" "pd_fingerprint (deny m r t) = m"
  "pd_reason_code (deny m r t) = Some r" "pd_message (deny m r t) = t"
  by (simp_all add: deny_def)

lemma allow_simps [simp]:
  "pd_result (allow m) = ALLOWED" "pd_fingerprint (allow m) = m"
  "pd_reason_code (allow m) = None" "pd_message (allow m) = []"
  by (simp_all add: allow_def)

lemma authorize_fingerprint [simp]:
  "pd_fingerprint (authorize L p scope seen b n) = fingerprint L (tp_arguments p)"
  by (auto simp: authorize_def authorize_windowed_def Let_def split: tool_arguments.splits option.splits)

lemma authorize_allowed_iff:
  "pd_result (authorize L p scope seen b n) = ALLOWED \<longleftrightarrow>
     0 < n \<and> fingerprint L (tp_arguments p) \<notin> seen \<and> in_scope scope b (tp_arguments p)"
  by (cases "tp_arguments p")
    (auto simp: authorize_def authorize_windowed_def Let_def window_inside_def split: option.splits)

lemma authorize_reason_iff:
  "pd_reason_code (authorize L p scope seen b n) = None \<longleftrightarrow>
     pd_result (authorize L p scope seen b n) = ALLOWED"
  by (cases "tp_arguments p")
    (auto simp: authorize_def authorize_windowed_def Let_def split: option.splits)

text \<open>The seven reasons \<open>authorize\<close> can give, the ones \<open>prompts.denial_guidance\<close> has a text for.\<close>

definition denial_reasons :: "reason_code set" where
  "denial_reasons = {BUDGET_EXHAUSTED, DUPLICATE_PROPOSAL, CROSS_INCIDENT_REQUEST, UNKNOWN_SERVICE,
     UNRESOLVED_WINDOW, OUTSIDE_INCIDENT_WINDOW, RESULT_LIMIT_EXCEEDED}"

lemma authorize_denied_reason:
  assumes "pd_result (authorize L p scope seen b n) = DENIED"
  obtains r where "pd_reason_code (authorize L p scope seen b n) = Some r" and "r \<in> denial_reasons"
  using assms that
  by (cases "tp_arguments p")
    (auto simp: authorize_def authorize_windowed_def Let_def denial_reasons_def
      split: option.splits if_splits)

end
