(* ===== verification/World.thy ===== *)
theory World
  imports Domain
begin

text \<open>
  What the investigation reads from outside itself. Successive readings of the domain clock
  and of the event clock, and successive opaque identifiers (\<open>uuid4().hex\<close>), are the values
  of three sequences, each with the number of readings made so far; the rest of the world
  (the reasoning model, the lab behind the tool backends) is a state of arbitrary type.
\<close>

record 'w world =
  clock_at :: "nat \<Rightarrow> instant"
  clock_n :: nat
  event_clock_at :: "nat \<Rightarrow> instant"
  event_clock_n :: nat
  id_at :: "nat \<Rightarrow> string"
  id_n :: nat
  ext :: 'w

definition read_clock :: "'w world \<Rightarrow> instant \<times> 'w world" where
  "read_clock w = (clock_at w (clock_n w), w\<lparr>clock_n := Suc (clock_n w)\<rparr>)"

definition read_event_clock :: "'w world \<Rightarrow> instant \<times> 'w world" where
  "read_event_clock w = (event_clock_at w (event_clock_n w), w\<lparr>event_clock_n := Suc (event_clock_n w)\<rparr>)"

definition new_opaque_id :: "'w world \<Rightarrow> string \<times> 'w world" where
  "new_opaque_id w = (id_at w (id_n w), w\<lparr>id_n := Suc (id_n w)\<rparr>)"

text \<open>
  The identifiers still to be drawn never repeat and avoid a given set of used ones, the
  documented property of random UUIDs the ledgers rely on.
\<close>

definition ids_fresh :: "'w world \<Rightarrow> string set \<Rightarrow> bool" where
  "ids_fresh w used \<longleftrightarrow> inj (id_at w) \<and> (\<forall>n \<ge> id_n w. id_at w n \<notin> used)"

text \<open>How a world can evolve: the sequences stay, the reading positions only grow.\<close>

definition world_le :: "'w world \<Rightarrow> 'w world \<Rightarrow> bool" where
  "world_le w w' \<longleftrightarrow> clock_at w' = clock_at w \<and> event_clock_at w' = event_clock_at w
     \<and> id_at w' = id_at w \<and> clock_n w \<le> clock_n w' \<and> event_clock_n w \<le> event_clock_n w'
     \<and> id_n w \<le> id_n w'"

lemma world_le_refl [simp]: "world_le w w"
  by (simp add: world_le_def)

lemma world_le_trans [trans]: "world_le a b \<Longrightarrow> world_le b c \<Longrightarrow> world_le a c"
  by (auto simp: world_le_def)

lemma world_le_ext [simp]: "world_le w (w\<lparr>ext := x\<rparr>)"
  by (simp add: world_le_def)

lemma read_clock_le: "read_clock w = (t, w') \<Longrightarrow> world_le w w'"
  by (auto simp: read_clock_def world_le_def)

lemma read_event_clock_le: "read_event_clock w = (t, w') \<Longrightarrow> world_le w w'"
  by (auto simp: read_event_clock_def world_le_def)

lemma new_opaque_id_le: "new_opaque_id w = (i, w') \<Longrightarrow> world_le w w'"
  by (auto simp: new_opaque_id_def world_le_def)

lemma ids_fresh_le: "world_le w w' \<Longrightarrow> ids_fresh w used \<Longrightarrow> ids_fresh w' used"
  by (auto simp: ids_fresh_def world_le_def)

lemma ids_fresh_subset: "ids_fresh w used \<Longrightarrow> used' \<subseteq> used \<Longrightarrow> ids_fresh w used'"
  by (auto simp: ids_fresh_def)

lemma new_opaque_id_fresh:
  assumes "new_opaque_id w = (i, w')" and "ids_fresh w used"
  shows "i \<notin> used" and "ids_fresh w' (insert i used)"
proof -
  from assms have i: "i = id_at w (id_n w)" and w': "id_at w' = id_at w" "id_n w' = Suc (id_n w)"
    by (auto simp: new_opaque_id_def)
  show "i \<notin> used" using assms(2) by (simp add: i ids_fresh_def)
  have "id_at w n \<noteq> i" if "Suc (id_n w) \<le> n" for n
    using assms(2) that by (auto simp: i ids_fresh_def inj_eq)
  then show "ids_fresh w' (insert i used)" using assms(2) by (auto simp: ids_fresh_def w')
qed

end
