(* ===== verification/Evidence.thy ===== *)
theory Evidence
  imports World "HOL-Library.Sublist" "HOL-Library.Multiset"
begin

text \<open>
  \<open>src/causalops/evidence.py\<close>: the byte bound on a tool result (\<open>trim_to_bytes\<close>), the context
  quotas and the incident-scoped \<open>EvidenceStore\<close>.
\<close>

section \<open>Quotas\<close>

definition FIXED_CONTEXT_QUOTAS :: "evidence_kind \<Rightarrow> int option" where
  "FIXED_CONTEXT_QUOTAS k = (case k of SYMPTOM \<Rightarrow> Some 2 | TOPOLOGY \<Rightarrow> Some 2 | _ \<Rightarrow> None)"

definition TOOL_DERIVED_QUOTA_KINDS :: "evidence_kind list" where
  "TOOL_DERIVED_QUOTA_KINDS = [METRIC, LOG, CHANGE]"

text \<open>A quota dictionary: \<open>None\<close> is a missing key, on which the lookup raises \<open>KeyError\<close>.\<close>

definition derive_context_quotas :: "int \<Rightarrow> evidence_kind \<Rightarrow> int option" where
  "derive_context_quotas executed_tools =
     fold (\<lambda>k q. q(k \<mapsto> executed_tools + 1)) TOOL_DERIVED_QUOTA_KINDS FIXED_CONTEXT_QUOTAS"

definition CONTEXT_QUOTAS :: "evidence_kind \<Rightarrow> int option" where
  "CONTEXT_QUOTAS = derive_context_quotas 2"

section \<open>Hashes and results\<close>

definition digest_text :: "libs \<Rightarrow> string \<Rightarrow> string" where
  "digest_text L text = sha256_hex L text"

definition content_hash :: "libs \<Rightarrow> json pydict \<Rightarrow> string" where
  "content_hash L payload =
     digest_text L (json_dumps (float_repr L) '','' '':'' (json_sort_keys (JObj payload)))"

definition build_evidence ::
    "libs \<Rightarrow> string \<Rightarrow> evidence_kind \<Rightarrow> string \<Rightarrow> instant \<Rightarrow> string \<Rightarrow> json pydict \<Rightarrow> string option \<Rightarrow>
     'w world \<Rightarrow> (exn + evidence) \<times> 'w world" where
  "build_evidence L incident_id kind source observed_at summary payload receipt_id w =
     (case new_opaque_id w of (eid, w') \<Rightarrow>
        (evidence_validate
          \<lparr> ev_evidence_id = eid, ev_incident_id = incident_id, ev_kind = kind, ev_source = source,
            ev_observed_at = observed_at, ev_summary = summary, ev_payload = payload,
            ev_receipt_id = receipt_id, ev_content_hash = content_hash L payload \<rparr>, w'))"

definition failed_check ::
    "evidence_kind \<Rightarrow> string \<Rightarrow> tool_outcome \<Rightarrow> reason_code \<Rightarrow> string \<Rightarrow> check_outcome" where
  "failed_check kind source outcome reason note =
     \<lparr> co_outcome = outcome, co_kind = kind, co_source = source, co_summary = note,
       co_payload = [], co_reason_code = Some reason, co_duration_ms = 0 \<rparr>"

section \<open>The byte bound\<close>

definition MAX_RESULT_BYTES :: nat where
  "MAX_RESULT_BYTES = 12 * 1024"

text \<open>The printed text is ASCII (\<open>ensure_ascii\<close>), so its UTF-8 length is its length.\<close>

definition fits :: "(pyfloat \<Rightarrow> string) \<Rightarrow> json pydict \<Rightarrow> bool" where
  "fits fr payload \<longleftrightarrow> length (json_dumps fr '', '' '': '' (JObj payload)) \<le> MAX_RESULT_BYTES"

definition set_rows :: "string \<Rightarrow> string \<Rightarrow> json list \<Rightarrow> json pydict \<Rightarrow> json pydict" where
  "set_rows rows_key count_key kept payload =
     dict_set count_key (JInt (int (length kept))) (dict_set rows_key (JList kept) payload)"

definition set_truncated :: "json pydict \<Rightarrow> json pydict" where
  "set_truncated payload = dict_set ''truncated'' (JBool True) payload"

text \<open>\<open>while kept and not fits(payload)\<close>: the oldest row goes first.\<close>

fun drop_rows ::
    "(pyfloat \<Rightarrow> string) \<Rightarrow> string \<Rightarrow> string \<Rightarrow> json list \<Rightarrow> json pydict \<Rightarrow> json pydict" where
  "drop_rows fr rows_key count_key [] payload = payload"
| "drop_rows fr rows_key count_key (r # kept) payload =
     (if fits fr payload then payload
      else drop_rows fr rows_key count_key kept
             (set_truncated (set_rows rows_key count_key kept payload)))"

text \<open>The text held by a top-level key, if it is a string.\<close>

definition text_of :: "json pydict \<Rightarrow> string \<Rightarrow> string" where
  "text_of payload key = (case dict_get payload key of Some (JStr s) \<Rightarrow> s | _ \<Rightarrow> [])"

text \<open>Python's \<open>max\<close> with a key keeps the first of several maximal elements.\<close>

definition widest_key :: "json pydict \<Rightarrow> string option" where
  "widest_key payload =
     fold (\<lambda>k best. case best of None \<Rightarrow> Some k
             | Some b \<Rightarrow> if length (text_of payload b) < length (text_of payload k) then Some k else Some b)
       (filter (\<lambda>k. text_of payload k \<noteq> []) (dict_keys payload)) None"

definition halve :: "string \<Rightarrow> json pydict \<Rightarrow> json pydict" where
  "halve key payload = (let text = text_of payload key in
     set_truncated (dict_set key (JStr (take (length text div 2) text)) payload))"

fun text_size :: "json pydict \<Rightarrow> nat" where
  "text_size [] = 0"
| "text_size ((k, v) # p) = (case v of JStr s \<Rightarrow> length s | _ \<Rightarrow> 0) + text_size p"

definition json_text_len :: "json \<Rightarrow> nat" where
  "json_text_len v = (case v of JStr s \<Rightarrow> length s | _ \<Rightarrow> 0)"

lemma text_size_update:
  "text_size (AList.update k v p) + (case map_of p k of None \<Rightarrow> 0 | Some u \<Rightarrow> json_text_len u)
     = text_size p + json_text_len v"
  by (induction p) (auto simp: json_text_len_def)

lemma widest_key_Some:
  assumes "widest_key payload = Some k"
  shows "text_of payload k \<noteq> []"
proof -
  let ?f = "\<lambda>k best. case best of None \<Rightarrow> Some k
    | Some b \<Rightarrow> if length (text_of payload b) < length (text_of payload k) then Some k else Some b"
  have "fold ?f ks acc = Some k \<Longrightarrow> k \<in> set ks \<or> acc = Some k" for ks acc
    by (induction ks arbitrary: acc) (fastforce split: option.splits if_splits)+
  from this [of "filter (\<lambda>k. text_of payload k \<noteq> []) (dict_keys payload)" None]
  show ?thesis using assms by (simp add: widest_key_def)
qed

lemma text_size_halve:
  assumes "text_of payload k \<noteq> []"
  shows "text_size (halve k payload) < text_size payload"
proof -
  obtain s where s: "map_of payload k = Some (JStr s)" "s \<noteq> []" "text_of payload k = s"
    using assms by (auto simp: text_of_def split: option.splits json.splits)
  let ?p = "AList.update k (JStr (take (length s div 2) s)) payload"
  have "min (length s) (length s div 2) = length s div 2" by simp
  then have "text_size ?p + length s = text_size payload + length s div 2"
    using text_size_update [of k "JStr (take (length s div 2) s)" payload] s
    by (simp add: json_text_len_def)
  moreover have "length s div 2 < length s" using s(2) by simp
  ultimately have "text_size ?p < text_size payload" by linarith
  moreover have "text_size (set_truncated ?p) \<le> text_size ?p"
    using text_size_update [of "''truncated''" "JBool True" ?p]
    by (simp add: set_truncated_def json_text_len_def)
  ultimately show ?thesis by (simp add: halve_def s(3) Let_def)
qed

function shrink_text :: "(pyfloat \<Rightarrow> string) \<Rightarrow> json pydict \<Rightarrow> json pydict" where
  "shrink_text fr payload =
     (if fits fr payload then payload
      else case widest_key payload of None \<Rightarrow> payload
           | Some key \<Rightarrow> shrink_text fr (halve key payload))"
  by pat_completeness auto
termination
  by (relation "measure (\<lambda>(fr, p). text_size p)") (auto dest: widest_key_Some text_size_halve)

declare shrink_text.simps [simp del]

definition trim_to_bytes ::
    "(pyfloat \<Rightarrow> string) \<Rightarrow> json pydict \<Rightarrow> string \<Rightarrow> json list \<Rightarrow> string \<Rightarrow> json pydict" where
  "trim_to_bytes fr payload rows_key rows count_key =
     shrink_text fr (drop_rows fr rows_key count_key rows (set_rows rows_key count_key rows payload))"

section \<open>The store\<close>

record evidence_store =
  es_incident_id :: string
  es_records :: "evidence pydict"

definition evidence_store_new :: "string \<Rightarrow> evidence_store" where
  "evidence_store_new incident_id = \<lparr> es_incident_id = incident_id, es_records = [] \<rparr>"

definition evidence_store_add :: "evidence_store \<Rightarrow> evidence \<Rightarrow> exn + evidence_store" where
  "evidence_store_add store e =
     (if ev_incident_id e \<noteq> es_incident_id store then Inl ValueError
      else Inr (store\<lparr>es_records := dict_set (ev_evidence_id e) e (es_records store)\<rparr>))"

definition unknown_ids :: "evidence_store \<Rightarrow> string list \<Rightarrow> string list" where
  "unknown_ids store cited = filter (\<lambda>i. i \<notin> set (dict_keys (es_records store))) cited"

definition ordered :: "evidence_store \<Rightarrow> evidence list" where
  "ordered store =
     sort_key (\<lambda>e. (ev_observed_at e, ev_kind e, ev_evidence_id e)) (dict_values (es_records store))"

text \<open>The loop of \<open>context_evidence\<close>: \<open>used\<close> and \<open>dropped\<close> count per kind.\<close>

fun context_loop ::
    "(evidence_kind \<Rightarrow> int option) \<Rightarrow> evidence list \<Rightarrow> (evidence_kind \<Rightarrow> nat) \<Rightarrow> (evidence_kind \<Rightarrow> nat) \<Rightarrow>
     exn + (evidence list \<times> (evidence_kind \<Rightarrow> nat))" where
  "context_loop quotas [] used dropped = Inr ([], dropped)"
| "context_loop quotas (e # es) used dropped =
     (case quotas (ev_kind e) of None \<Rightarrow> Inl KeyError
      | Some q \<Rightarrow>
        if int (used (ev_kind e)) < q
        then (case context_loop quotas es (used(ev_kind e := used (ev_kind e) + 1)) dropped of
                Inl x \<Rightarrow> Inl x | Inr (kept, d) \<Rightarrow> Inr (e # kept, d))
        else context_loop quotas es used (dropped(ev_kind e := dropped (ev_kind e) + 1)))"

text \<open>\<open>sorted(dropped.items())\<close> lists the kinds in the order of their values.\<close>

definition truncation_markers :: "(evidence_kind \<Rightarrow> nat) \<Rightarrow> string list" where
  "truncation_markers dropped =
     map (\<lambda>k. ''[truncated: '' @ show_nat (dropped k) @ '' more '' @ kind_value k @ '' records omitted]'')
       (filter (\<lambda>k. 0 < dropped k) [CHANGE, LOG, METRIC, SYMPTOM, TOPOLOGY])"

definition context_evidence ::
    "evidence_store \<Rightarrow> (evidence_kind \<Rightarrow> int option) \<Rightarrow> exn + (evidence list \<times> string list)" where
  "context_evidence store quotas =
     (case context_loop quotas (ordered store) (\<lambda>_. 0) (\<lambda>_. 0) of
        Inl x \<Rightarrow> Inl x
      | Inr (kept, dropped) \<Rightarrow> Inr (kept, truncation_markers dropped))"

section \<open>Properties of the byte bound\<close>

lemma dict_get_set [simp]:
  "dict_get (AList.update k v p) k' = (if k' = k then Some v else dict_get p k')"
  by (simp add: update_conv)

lemma get_set_truncated [simp]:
  "dict_get (set_truncated p) k = (if k = ''truncated'' then Some (JBool True) else dict_get p k)"
  by (simp add: set_truncated_def)

lemma get_set_rows [simp]:
  "dict_get (set_rows rk ck kept p) k =
     (if k = ck then Some (JInt (int (length kept))) else if k = rk then Some (JList kept) else dict_get p k)"
  by (simp add: set_rows_def)

lemma widest_key_None:
  assumes "widest_key payload = None"
  shows "text_of payload k = []"
proof (rule ccontr)
  assume k: "text_of payload k \<noteq> []"
  let ?f = "\<lambda>k best. case best of None \<Rightarrow> Some k
    | Some b \<Rightarrow> if length (text_of payload b) < length (text_of payload k) then Some k else Some b"
  have some: "fold ?f ks (Some b) \<noteq> None" for ks b
    by (induction ks arbitrary: b) auto
  have "k \<in> set (dict_keys payload)"
    using k by (force simp: text_of_def dest: map_of_SomeD split: option.splits)
  with k obtain x xs where "filter (\<lambda>k. text_of payload k \<noteq> []) (dict_keys payload) = x # xs"
    by (metis (mono_tags, lifting) filter_empty_conv list.exhaust)
  with assms some [of xs x] show False by (simp add: widest_key_def)
qed

text \<open>Shrinking stops at a result that fits, or when there is no text left to shrink.\<close>

lemma shrink_text_stops: "fits fr (shrink_text fr p) \<or> (\<forall>k. text_of (shrink_text fr p) k = [])"
proof (induction fr p rule: shrink_text.induct)
  case (1 fr p)
  then show ?case
    by (subst (1 2) shrink_text.simps) (auto split: option.splits simp: widest_key_None)
qed

lemma get_halve:
  "dict_get (halve key p) k =
     (if k = ''truncated'' then Some (JBool True)
      else if k = key then Some (JStr (take (length (text_of p key) div 2) (text_of p key)))
      else dict_get p k)"
  by (simp add: halve_def Let_def)

text \<open>Only text changes, and only to a prefix of itself.\<close>

fun cut_value :: "json option \<Rightarrow> json option \<Rightarrow> bool" where
  "cut_value (Some (JStr s)) v \<longleftrightarrow> (\<exists>s'. v = Some (JStr s') \<and> prefix s' s)"
| "cut_value u v \<longleftrightarrow> v = u"

lemma cut_value_refl [simp]: "cut_value v v"
  by (cases "(v, v)" rule: cut_value.cases) auto

lemma cut_value_trans: "cut_value a b \<Longrightarrow> cut_value b c \<Longrightarrow> cut_value a c"
  by (cases "(a, b)" rule: cut_value.cases) (auto intro: prefix_order.trans)

definition only_text_cut :: "json pydict \<Rightarrow> json pydict \<Rightarrow> bool" where
  "only_text_cut p q \<longleftrightarrow> (\<forall>k. k \<noteq> ''truncated'' \<longrightarrow> cut_value (dict_get p k) (dict_get q k))"

lemma only_text_cut_refl: "only_text_cut p p"
  by (simp add: only_text_cut_def)

lemma only_text_cut_trans: "only_text_cut p q \<Longrightarrow> only_text_cut q r \<Longrightarrow> only_text_cut p r"
  unfolding only_text_cut_def by (blast intro: cut_value_trans)

lemma only_text_cut_halve:
  assumes "text_of p key \<noteq> []"
  shows "only_text_cut p (halve key p)"
proof -
  from assms obtain s where "dict_get p key = Some (JStr s)"
    by (auto simp: text_of_def split: option.splits json.splits)
  then show ?thesis
    by (auto simp: only_text_cut_def get_halve text_of_def take_is_prefix)
qed

lemma shrink_text_cut: "only_text_cut p (shrink_text fr p)"
proof (induction fr p rule: shrink_text.induct)
  case (1 fr p)
  show ?case
  proof (cases "fits fr p \<or> widest_key p = None")
    case True
    then show ?thesis by (subst shrink_text.simps) (auto simp: only_text_cut_refl)
  next
    case False
    then obtain k where k: "widest_key p = Some k" by auto
    then have "only_text_cut p (halve k p)" by (intro only_text_cut_halve widest_key_Some)
    moreover have "only_text_cut (halve k p) (shrink_text fr (halve k p))" using False k 1 by auto
    ultimately show ?thesis using False k
      by (subst shrink_text.simps) (auto intro: only_text_cut_trans)
  qed
qed

lemma shrink_text_truncated:
  "dict_get p ''truncated'' = Some (JBool True) \<Longrightarrow> dict_get (shrink_text fr p) ''truncated'' = Some (JBool True)"
proof (induction fr p rule: shrink_text.induct)
  case (1 fr p)
  then show ?case by (subst shrink_text.simps) (auto split: option.splits simp: get_halve)
qed

lemma drop_rows_result:
  assumes "dict_get p rk = Some (JList rows)" and "dict_get p ck = Some (JInt (int (length rows)))"
    and keys: "rk \<noteq> ck" "rk \<noteq> ''truncated''" "ck \<noteq> ''truncated''"
  shows "\<exists>kept. suffix kept rows
     \<and> dict_get (drop_rows fr rk ck rows p) rk = Some (JList kept)
     \<and> dict_get (drop_rows fr rk ck rows p) ck = Some (JInt (int (length kept)))
     \<and> (kept = [] \<or> fits fr (drop_rows fr rk ck rows p))
     \<and> (kept \<noteq> rows \<longrightarrow> dict_get (drop_rows fr rk ck rows p) ''truncated'' = Some (JBool True))
     \<and> (\<forall>k. k \<notin> {rk, ck, ''truncated''} \<longrightarrow> dict_get (drop_rows fr rk ck rows p) k = dict_get p k)"
  using assms(1,2)
proof (induction rows arbitrary: p)
  case Nil
  then show ?case by simp
next
  case (Cons r rows)
  show ?case
  proof (cases "fits fr p")
    case True
    with Cons.prems show ?thesis by (intro exI [of _ "r # rows"]) simp
  next
    case False
    let ?p = "set_truncated (set_rows rk ck rows p)"
    have "dict_get ?p rk = Some (JList rows)" "dict_get ?p ck = Some (JInt (int (length rows)))"
      using keys by simp_all
    from Cons.IH [OF this] obtain kept where kept: "suffix kept rows"
      "dict_get (drop_rows fr rk ck rows ?p) rk = Some (JList kept)"
      "dict_get (drop_rows fr rk ck rows ?p) ck = Some (JInt (int (length kept)))"
      "kept = [] \<or> fits fr (drop_rows fr rk ck rows ?p)"
      "kept \<noteq> rows \<longrightarrow> dict_get (drop_rows fr rk ck rows ?p) ''truncated'' = Some (JBool True)"
      "\<forall>k. k \<notin> {rk, ck, ''truncated''} \<longrightarrow> dict_get (drop_rows fr rk ck rows ?p) k = dict_get ?p k"
      by blast
    have tr: "dict_get (drop_rows fr rk ck rows ?p) ''truncated'' = Some (JBool True)"
      if "kept = rows"
    proof -
      have mono: "dict_get q ''truncated'' = Some (JBool True) \<Longrightarrow>
        dict_get (drop_rows fr rk ck rs q) ''truncated'' = Some (JBool True)" for rs q
        using keys by (induction rs arbitrary: q) auto
      show ?thesis by (rule mono) simp
    qed
    show ?thesis
      using False kept tr by (intro exI [of _ kept]) (auto intro: suffix_ConsI)
  qed
qed

lemma shrink_text_fits: "fits fr p \<Longrightarrow> shrink_text fr p = p"
  by (subst shrink_text.simps) simp

lemma keys_set: "dict_keys (AList.update k v p) = (if k \<in> set (dict_keys p) then dict_keys p else dict_keys p @ [k])"
  by (rule update_keys)

lemma shrink_text_keys: "''truncated'' \<in> set (dict_keys p) \<Longrightarrow> dict_keys (shrink_text fr p) = dict_keys p"
proof (induction fr p rule: shrink_text.induct)
  case (1 fr p)
  have "key \<in> set (dict_keys p)" if "widest_key p = Some key" for key
    using widest_key_Some [OF that] by (force simp: text_of_def dest: map_of_SomeD split: option.splits)
  with 1 show ?case
    by (subst shrink_text.simps) (auto split: option.splits simp: halve_def Let_def set_truncated_def keys_set simp del: map_map)
qed

lemma drop_rows_keys:
  "{''truncated'', rk, ck} \<subseteq> set (dict_keys p) \<Longrightarrow> dict_keys (drop_rows fr rk ck rows p) = dict_keys p"
proof (induction rows arbitrary: p)
  case (Cons r rows)
  let ?p = "set_truncated (set_rows rk ck rows p)"
  have k: "dict_keys ?p = dict_keys p" using Cons.prems by (auto simp: set_truncated_def set_rows_def keys_set dom_update)
  then have "dict_keys (drop_rows fr rk ck rows ?p) = dict_keys ?p" using Cons.prems by (intro Cons.IH) metis
  with k show ?case by simp
qed simp

text \<open>
  What trimming does: it keeps the newest rows and counts them, cuts other text only to a prefix
  and only when no row is left, and touches nothing else; the result fits the byte bound,
  unless every row is gone and no text is left to cut; and whenever rows were dropped it says so.
\<close>

definition trimmed ::
    "(pyfloat \<Rightarrow> string) \<Rightarrow> json pydict \<Rightarrow> string \<Rightarrow> json list \<Rightarrow> string \<Rightarrow> json list \<Rightarrow> json pydict \<Rightarrow> bool" where
  "trimmed fr payload rows_key rows count_key kept t \<longleftrightarrow> suffix kept rows
     \<and> dict_get t rows_key = Some (JList kept) \<and> dict_get t count_key = Some (JInt (int (length kept)))
     \<and> (fits fr t \<or> kept = [] \<and> (\<forall>k. text_of t k = []))
     \<and> (kept \<noteq> rows \<longrightarrow> dict_get t ''truncated'' = Some (JBool True))
     \<and> dict_get t ''truncated'' \<in> {Some (JBool True), dict_get payload ''truncated''}
     \<and> (\<forall>k. k \<notin> {rows_key, count_key, ''truncated''} \<longrightarrow>
          cut_value (dict_get payload k) (dict_get t k) \<and> (kept \<noteq> [] \<longrightarrow> dict_get t k = dict_get payload k))
     \<and> (''truncated'' \<in> set (dict_keys payload) \<longrightarrow> dict_keys t = dict_keys (set_rows rows_key count_key rows payload))"

lemma shrink_text_says: "dict_get (shrink_text fr p) ''truncated'' \<in> {Some (JBool True), dict_get p ''truncated''}"
proof (induction fr p rule: shrink_text.induct)
  case (1 fr p)
  then show ?case by (subst shrink_text.simps) (auto split: option.splits simp: get_halve)
qed

lemma drop_rows_says:
  "dict_get (drop_rows fr rk ck rows p) ''truncated'' \<in> {Some (JBool True), dict_get p ''truncated''}"
  if "rk \<noteq> ''truncated''" "ck \<noteq> ''truncated''"
proof (induction rows arbitrary: p)
  case (Cons r rows)
  from Cons.IH [of "set_truncated (set_rows rk ck rows p)"] show ?case by auto
qed simp

lemma trim_result:
  assumes "rows_key \<noteq> count_key" and "rows_key \<noteq> ''truncated''" and "count_key \<noteq> ''truncated''"
  shows "\<exists>kept. trimmed fr payload rows_key rows count_key kept (trim_to_bytes fr payload rows_key rows count_key)"
proof -
  let ?p = "set_rows rows_key count_key rows payload"
  let ?d = "drop_rows fr rows_key count_key rows ?p"
  have p: "dict_get ?p rows_key = Some (JList rows)" "dict_get ?p count_key = Some (JInt (int (length rows)))"
    using assms(1) by simp_all
  obtain kept where k: "suffix kept rows" "dict_get ?d rows_key = Some (JList kept)"
    "dict_get ?d count_key = Some (JInt (int (length kept)))" "kept = [] \<or> fits fr ?d"
    "kept \<noteq> rows \<longrightarrow> dict_get ?d ''truncated'' = Some (JBool True)"
    "\<forall>k. k \<notin> {rows_key, count_key, ''truncated''} \<longrightarrow> dict_get ?d k = dict_get ?p k"
    using drop_rows_result [OF p assms] by blast
  have t: "trim_to_bytes fr payload rows_key rows count_key = shrink_text fr ?d" by (simp add: trim_to_bytes_def)
  have cut: "cut_value (dict_get ?d k) (dict_get (shrink_text fr ?d) k)" if "k \<noteq> ''truncated''" for k
    using shrink_text_cut [of ?d fr] that by (simp add: only_text_cut_def)
  have same: "shrink_text fr ?d = ?d" if "kept \<noteq> []" using k(4) that by (simp add: shrink_text_fits)
  have says: "dict_get (shrink_text fr ?d) ''truncated'' \<in> {Some (JBool True), dict_get payload ''truncated''}"
    using shrink_text_says [of fr ?d] drop_rows_says [OF assms(2,3), of fr rows ?p] assms(2,3) by auto
  have "dict_keys (shrink_text fr ?d) = dict_keys ?p" if "''truncated'' \<in> set (dict_keys payload)"
  proof -
    have keys: "{''truncated'', rows_key, count_key} \<subseteq> set (dict_keys ?p)" using that by (auto simp: set_rows_def keys_set)
    then have d: "dict_keys ?d = dict_keys ?p" by (rule drop_rows_keys)
    with keys show ?thesis by (subst shrink_text_keys) auto
  qed
  moreover have "fits fr (shrink_text fr ?d) \<or> kept = [] \<and> (\<forall>k. text_of (shrink_text fr ?d) k = [])"
    using k(4) shrink_text_stops [of fr ?d] shrink_text_fits [of fr ?d] by auto
  moreover have "dict_get (shrink_text fr ?d) ''truncated'' = Some (JBool True)" if "kept \<noteq> rows"
    using k(5) that by (intro shrink_text_truncated) simp
  moreover have "dict_get (shrink_text fr ?d) rows_key = Some (JList kept)" "dict_get (shrink_text fr ?d) count_key = Some (JInt (int (length kept)))"
    using cut [OF assms(2)] cut [OF assms(3)] k(2,3) by simp_all
  moreover have "cut_value (dict_get payload j) (dict_get (shrink_text fr ?d) j)
      \<and> (kept \<noteq> [] \<longrightarrow> dict_get (shrink_text fr ?d) j = dict_get payload j)" if "j \<notin> {rows_key, count_key, ''truncated''}" for j
    using cut [of j] k(6) that same by auto
  ultimately show ?thesis unfolding t trimmed_def using k(1) says by blast
qed

section \<open>Properties of the store\<close>

lemma derive_context_quotas_total:
  "derive_context_quotas n k = Some (if k \<in> {SYMPTOM, TOPOLOGY} then 2 else n + 1)"
  by (cases k) (simp_all add: derive_context_quotas_def TOOL_DERIVED_QUOTA_KINDS_def
      FIXED_CONTEXT_QUOTAS_def)

text \<open>The records a store accepted, in the order they were added.\<close>

fun add_all :: "evidence_store \<Rightarrow> evidence list \<Rightarrow> exn + evidence_store" where
  "add_all store [] = Inr store"
| "add_all store (e # es) = bind_r (evidence_store_add store e) (\<lambda>s. add_all s es)"

definition store_wf :: "evidence_store \<Rightarrow> bool" where
  "store_wf s \<longleftrightarrow> distinct (dict_keys (es_records s))
     \<and> (\<forall>(k, e) \<in> set (es_records s). k = ev_evidence_id e \<and> ev_incident_id e = es_incident_id s)"

lemma store_wf_new: "store_wf (evidence_store_new i)"
  by (simp add: store_wf_def evidence_store_new_def)

lemma set_update_subset: "set (AList.update k v d) \<subseteq> insert (k, v) (set d)"
  by (induction d) auto

lemma store_wf_add:
  assumes "store_wf s" and "evidence_store_add s e = Inr s'"
  shows "store_wf s'"
proof -
  from assms(2) have s': "s' = s\<lparr>es_records := AList.update (ev_evidence_id e) e (es_records s)\<rparr>"
    and e: "ev_incident_id e = es_incident_id s"
    by (auto simp: evidence_store_add_def split: if_splits)
  with assms(1) set_update_subset [of "ev_evidence_id e" e "es_records s"] show ?thesis
    by (auto simp: store_wf_def distinct_update)
qed

lemma add_all_wf: "store_wf s \<Longrightarrow> add_all s es = Inr s' \<Longrightarrow> store_wf s'"
  by (induction es arbitrary: s) (auto simp: bind_r_Inr dest: store_wf_add)

text \<open>Adding succeeds exactly on this incident's own records, and then keeps every id.\<close>

lemma add_all_ok_iff:
  "(\<exists>s'. add_all s es = Inr s') \<longleftrightarrow> (\<forall>e \<in> set es. ev_incident_id e = es_incident_id s)"
proof (induction es arbitrary: s)
  case (Cons e es)
  show ?case
  proof (cases "ev_incident_id e = es_incident_id s")
    case True
    let ?s = "s\<lparr>es_records := AList.update (ev_evidence_id e) e (es_records s)\<rparr>"
    from Cons [of ?s] True show ?thesis by (simp add: evidence_store_add_def)
  qed (simp add: evidence_store_add_def)
qed simp

lemma add_all_keys:
  "add_all s es = Inr s' \<Longrightarrow>
     set (dict_keys (es_records s')) = set (dict_keys (es_records s)) \<union> ev_evidence_id ` set es"
  by (induction es arbitrary: s)
    (auto simp: bind_r_Inr evidence_store_add_def dom_map_of_conv_image_fst [symmetric] update_conv'
      split: if_splits)

lemma add_all_incident: "add_all s es = Inr s' \<Longrightarrow> es_incident_id s' = es_incident_id s"
  by (induction es arbitrary: s) (auto simp: bind_r_Inr evidence_store_add_def split: if_splits)

lemma mem_unknown_ids: "i \<in> set (unknown_ids s cited) \<longleftrightarrow> i \<in> set cited \<and> i \<notin> set (dict_keys (es_records s))"
  by (auto simp: unknown_ids_def)

lemma unknown_ids_empty_iff:
  "unknown_ids s cited = [] \<longleftrightarrow> set cited \<subseteq> set (dict_keys (es_records s))"
  by (auto simp: unknown_ids_def filter_empty_conv)

lemma store_wf_key: "store_wf s \<Longrightarrow> (k, e) \<in> set (es_records s) \<Longrightarrow> k = ev_evidence_id e"
  by (auto simp: store_wf_def)

text \<open>The order is a function of the set of records: insertion order does not show.\<close>

lemma ordered_perm:
  assumes "mset (dict_values (es_records s)) = mset (dict_values (es_records t))"
    and "store_wf s"
  shows "ordered s = ordered t"
proof -
  let ?key = "\<lambda>e. (ev_observed_at e, ev_kind e, ev_evidence_id e)"
  have "inj_on ?key (set (dict_values (es_records s)))"
  proof (rule inj_onI)
    fix a b assume a: "a \<in> set (dict_values (es_records s))" and b: "b \<in> set (dict_values (es_records s))"
      and eq: "?key a = ?key b"
    from a b obtain j k where "(j, a) \<in> set (es_records s)" "(k, b) \<in> set (es_records s)" by auto
    moreover from this eq have "j = k" using store_wf_key [OF assms(2)] by simp
    moreover from assms(2) have "distinct (dict_keys (es_records s))" by (simp add: store_wf_def)
    ultimately show "a = b" by (metis eq_key_imp_eq_value)
  qed
  moreover have "mset (dict_values (es_records s)) = mset (ordered t)"
    using assms(1) by (simp add: ordered_def)
  moreover have "sorted (map ?key (ordered t))" by (simp add: ordered_def)
  ultimately show ?thesis unfolding ordered_def [of s] by (intro sort_key_inj_key_eq)
qed

text \<open>
  The quota loop keeps, of every kind, exactly the first records up to the quota, and counts
  the others.
\<close>

lemma context_loop_spec:
  assumes "\<And>k. quotas k = Some (q k)"
  shows "\<exists>kept d. context_loop quotas es used dropped = Inr (kept, d)
     \<and> subseq kept es
     \<and> (\<forall>k. filter (\<lambda>e. ev_kind e = k) kept
            = take (nat (q k - int (used k))) (filter (\<lambda>e. ev_kind e = k) es))
     \<and> (\<forall>k. d k = dropped k + (length (filter (\<lambda>e. ev_kind e = k) es)
                            - length (filter (\<lambda>e. ev_kind e = k) kept)))"
proof (induction es arbitrary: used dropped)
  case Nil
  then show ?case by simp
next
  case (Cons e es)
  let ?k = "ev_kind e"
  show ?case
  proof (cases "int (used ?k) < q ?k")
    case True
    let ?u = "used(?k := used ?k + 1)"
    from Cons.IH [of ?u dropped] obtain kept d where IH:
      "context_loop quotas es ?u dropped = Inr (kept, d)" "subseq kept es"
      "\<forall>k. filter (\<lambda>e. ev_kind e = k) kept = take (nat (q k - int (?u k))) (filter (\<lambda>e. ev_kind e = k) es)"
      "\<forall>k. d k = dropped k + (length (filter (\<lambda>e. ev_kind e = k) es)
                            - length (filter (\<lambda>e. ev_kind e = k) kept))" by blast
    have n: "nat (q ?k - int (used ?k)) = Suc (nat (q ?k - int (Suc (used ?k))))" using True by linarith
    show ?thesis
    proof (intro exI conjI allI)
      show "context_loop quotas (e # es) used dropped = Inr (e # kept, d)"
        using True IH(1) assms [of ?k] by simp
      show "subseq (e # kept) (e # es)" using IH(2) by simp
      fix k
      show "filter (\<lambda>e. ev_kind e = k) (e # kept)
          = take (nat (q k - int (used k))) (filter (\<lambda>e. ev_kind e = k) (e # es))"
        using IH(3) n by auto
      show "d k = dropped k + (length (filter (\<lambda>e. ev_kind e = k) (e # es))
          - length (filter (\<lambda>e. ev_kind e = k) (e # kept)))" using IH(4) by simp
    qed
  next
    case False
    let ?d = "dropped(?k := dropped ?k + 1)"
    from Cons.IH [of used ?d] obtain kept d where IH:
      "context_loop quotas es used ?d = Inr (kept, d)" "subseq kept es"
      "\<forall>k. filter (\<lambda>e. ev_kind e = k) kept = take (nat (q k - int (used k))) (filter (\<lambda>e. ev_kind e = k) es)"
      "\<forall>k. d k = ?d k + (length (filter (\<lambda>e. ev_kind e = k) es)
                            - length (filter (\<lambda>e. ev_kind e = k) kept))" by blast
    have z: "filter (\<lambda>e. ev_kind e = ?k) kept = []" using False IH(3) by simp
    show ?thesis
    proof (intro exI conjI allI)
      show "context_loop quotas (e # es) used dropped = Inr (kept, d)"
        using False IH(1) assms [of ?k] by simp
      show "subseq kept (e # es)" using IH(2) by (rule list_emb_Cons)
      fix k
      show "filter (\<lambda>e. ev_kind e = k) kept
          = take (nat (q k - int (used k))) (filter (\<lambda>e. ev_kind e = k) (e # es))"
        using IH(3) False by auto
      show "d k = dropped k + (length (filter (\<lambda>e. ev_kind e = k) (e # es))
          - length (filter (\<lambda>e. ev_kind e = k) kept))"
        using IH(4) z by auto
    qed
  qed
qed

end
