(* ===== verification/Samples.thy ===== *)
theory Samples
  imports Policy Evidence
begin

text \<open>
  Concrete inputs at which the properties of the other theories are applied: an incident, a
  world with identifiers that never repeat, and simple stand-ins for the external libraries
  (the digest is the identity, the dump of tool arguments lists their fields and parses back).
\<close>

definition opt_int :: "int option \<Rightarrow> json" where
  "opt_int v = (case v of None \<Rightarrow> JNull | Some i \<Rightarrow> JInt i)"

fun int_opt :: "json option \<Rightarrow> int option" where
  "int_opt (Some (JInt i)) = Some i"
| "int_opt _ = None"

fun str_of :: "json option \<Rightarrow> string" where
  "str_of (Some (JStr s)) = s"
| "str_of _ = []"

definition sample_service :: string where
  "sample_service = ''gateway''"

text \<open>Only the argument classes the samples use are dumped in full.\<close>

fun sample_dump :: "tool_arguments \<Rightarrow> json pydict" where
  "sample_dump (GetTopologyArguments a) =
     [(''tool'', JStr ''get_topology''), (''incident_id'', JStr (gt_incident_id a))]"
| "sample_dump (ListRecentChangesArguments a) =
     [(''tool'', JStr ''list_recent_changes''), (''service'', JStr (lc_service a)),
      (''window_start'', opt_int (lc_window_start a)), (''window_end'', opt_int (lc_window_end a))]"
| "sample_dump a = [(''tool'', JStr (tool_value (arguments_tool a)))]"

definition sample_parse :: "json pydict \<Rightarrow> string + tool_arguments" where
  "sample_parse d =
     (if dict_get d ''tool'' = Some (JStr ''get_topology'')
        then Inr (GetTopologyArguments \<lparr> gt_incident_id = str_of (dict_get d ''incident_id'') \<rparr>)
      else if dict_get d ''tool'' = Some (JStr ''list_recent_changes'')
        then Inr (ListRecentChangesArguments \<lparr> lc_service = str_of (dict_get d ''service''),
               lc_window_start = int_opt (dict_get d ''window_start''),
               lc_window_end = int_opt (dict_get d ''window_end'') \<rparr>)
      else Inl ''not understood'')"

definition sample_assessment :: final_assessment where
  "sample_assessment = \<lparr> fa_disposition = M_INSUFFICIENT_EVIDENCE, fa_root_cause = UNDETERMINED,
     fa_supporting_evidence_ids = [], fa_contrary_evidence_ids = [], fa_runbook_citations = [],
     fa_uncertainty = ''unclear'', fa_next_step = ''wait'' \<rparr>"

definition sample_libs :: libs where
  "sample_libs = \<lparr> sha256_hex = id, float_repr = (\<lambda>_. ''0.0''),
     args_model_dump_json = (\<lambda>a. json_dumps (\<lambda>_. ''0.0'') '','' '':'' (JObj (sample_dump a))),
     args_model_dump = sample_dump, args_validate = sample_parse,
     assessment_fields = (\<lambda>_. Inr sample_assessment),
     proposal_errors = (\<lambda>_. ''too long''), assessment_errors = (\<lambda>_. ''invalid''),
     hypothesis_model_dump = (\<lambda>_. JNull) \<rparr>"

definition sample_scope :: incident_scope where
  "sample_scope = \<lparr> sc_incident_id = ''inc-1'', sc_environment = ''local-lab'',
     sc_services = [''gateway'', ''checkout''], sc_started_at = 0, sc_ended_at = 1000,
     sc_endpoint = ''/checkout'' \<rparr>"

definition sample_world :: "unit world" where
  "sample_world = \<lparr> clock_at = int, clock_n = 0, event_clock_at = int, event_clock_n = 0,
     id_at = (\<lambda>n. replicate (Suc n) CHR ''i''), id_n = 0, ext = () \<rparr>"

text \<open>A change query that reaches past both ends of the incident, and a topology query for another incident.\<close>

definition sample_changes :: tool_proposal where
  "sample_changes = \<lparr> tp_arguments = ListRecentChangesArguments
       \<lparr> lc_service = ''gateway'', lc_window_start = Some (-50), lc_window_end = None \<rparr>,
     tp_evidence_gap = ''was anything deployed'', tp_expected_observation = ''a change'' \<rparr>"

definition sample_foreign :: tool_proposal where
  "sample_foreign = \<lparr> tp_arguments = GetTopologyArguments \<lparr> gt_incident_id = ''inc-2'' \<rparr>,
     tp_evidence_gap = ''who calls whom'', tp_expected_observation = ''a graph'' \<rparr>"

lemma sample_ids_fresh: "ids_fresh sample_world {}"
proof -
  have "inj (\<lambda>n. replicate (Suc n) CHR ''i'')"
    by (rule injI) (metis Suc_inject length_replicate)
  then show ?thesis by (simp add: ids_fresh_def sample_world_def)
qed

end
