(* ===== verification/ToolWrappers.thy ===== *)
theory ToolWrappers
  imports Samples
begin

text \<open>
  \<open>src/causalops/tool_wrappers.py\<close>: the reservation ledger that owns the check slots, the
  window clamp, and the one dispatch path from a parsed proposal to a backend: authorize,
  reserve, run, settle once. Mutation of the ledger and of the set of seen fingerprints is
  explicit: every operation returns them, on its raising paths too.
\<close>

section \<open>The reservation ledger\<close>

record reservation_ledger =
  lg_budget :: int
  lg_runbook_budget :: int
  lg_receipts :: "tool_receipt pydict"
  lg_evidence :: "evidence pydict"

definition ledger_new :: "int \<Rightarrow> int \<Rightarrow> reservation_ledger" where
  "ledger_new executed_tools_budget runbook_searches_budget =
     \<lparr> lg_budget = executed_tools_budget, lg_runbook_budget = runbook_searches_budget,
       lg_receipts = [], lg_evidence = [] \<rparr>"

fun load_receipts :: "tool_receipt list \<Rightarrow> tool_receipt pydict \<Rightarrow> exn + tool_receipt pydict" where
  "load_receipts [] d = Inr d"
| "load_receipts (r # rs) d =
     (if rc_receipt_id r \<in> set (dict_keys d) then Inl ValueError
      else load_receipts rs (dict_set (rc_receipt_id r) r d))"

definition from_receipts :: "tool_receipt list \<Rightarrow> int \<Rightarrow> int \<Rightarrow> exn + reservation_ledger" where
  "from_receipts receipts executed_tools_budget runbook_searches_budget =
     bind_r (load_receipts receipts [])
       (\<lambda>d. Inr ((ledger_new executed_tools_budget runbook_searches_budget)\<lparr>lg_receipts := d\<rparr>))"

definition spends :: "bool \<Rightarrow> tool_receipt \<Rightarrow> bool" where
  "spends runbook r \<longleftrightarrow> rc_policy_result r = ALLOWED \<and> (rc_tool r = SEARCH_RUNBOOKS) = runbook"

definition spent :: "bool \<Rightarrow> reservation_ledger \<Rightarrow> int" where
  "spent runbook ledger = int (length (filter (spends runbook) (dict_values (lg_receipts ledger))))"

definition slots_left :: "reservation_ledger \<Rightarrow> int" where
  "slots_left ledger = lg_budget ledger - spent False ledger"

definition runbook_slots_left :: "reservation_ledger \<Rightarrow> int" where
  "runbook_slots_left ledger = lg_runbook_budget ledger - spent True ledger"

definition slots_left_for :: "reservation_ledger \<Rightarrow> tool_name \<Rightarrow> int" where
  "slots_left_for ledger tool =
     (if tool = SEARCH_RUNBOOKS then runbook_slots_left ledger else slots_left ledger)"

definition reserve ::
    "reservation_ledger \<Rightarrow> string \<Rightarrow> tool_name \<Rightarrow> string \<Rightarrow> instant \<Rightarrow> tool_arguments \<Rightarrow> 'w world \<Rightarrow>
     tool_receipt option \<times> reservation_ledger \<times> 'w world" where
  "reserve ledger incident_id tool mark requested_at arguments w =
     (if slots_left_for ledger tool \<le> 0 then (None, ledger, w)
      else case new_opaque_id w of (rid, w') \<Rightarrow>
        (let r = \<lparr> rc_receipt_id = rid, rc_incident_id = incident_id, rc_tool = tool,
                   rc_fingerprint = mark, rc_policy_result = ALLOWED, rc_state = RESERVED,
                   rc_outcome = None, rc_reason_code = None, rc_requested_at = requested_at,
                   rc_duration_ms = 0, rc_result_digest = None, rc_evidence_id = None,
                   rc_arguments = Some arguments \<rparr>
         in (Some r, ledger\<lparr>lg_receipts := dict_set rid r (lg_receipts ledger)\<rparr>, w')))"

definition settle ::
    "reservation_ledger \<Rightarrow> string \<Rightarrow> tool_outcome \<Rightarrow> reason_code option \<Rightarrow> int \<Rightarrow> string option \<Rightarrow>
     string option \<Rightarrow> evidence option \<Rightarrow> exn + (tool_receipt \<times> reservation_ledger)" where
  "settle ledger receipt_id outcome reason duration_ms result_digest evidence_id evidence =
     (case dict_get (lg_receipts ledger) receipt_id of
        None \<Rightarrow> Inl (ReceiptAlreadySettled receipt_id)
      | Some current \<Rightarrow>
        if rc_state current \<noteq> RESERVED then Inl (ReceiptAlreadySettled receipt_id)
        else bind_r (tool_receipt_validate
               (current\<lparr>rc_state := SETTLED, rc_outcome := Some outcome, rc_reason_code := reason,
                  rc_duration_ms := duration_ms, rc_result_digest := result_digest,
                  rc_evidence_id := evidence_id\<rparr>))
               (\<lambda>settled. Inr (settled,
                  ledger\<lparr>lg_receipts := dict_set receipt_id settled (lg_receipts ledger),
                         lg_evidence := (case evidence of None \<Rightarrow> lg_evidence ledger
                            | Some e \<Rightarrow> dict_set receipt_id e (lg_evidence ledger))\<rparr>)))"

definition record_receipt :: "reservation_ledger \<Rightarrow> tool_receipt \<Rightarrow> exn + reservation_ledger" where
  "record_receipt ledger r =
     (if rc_state r \<noteq> SETTLED then Inl ValueError
      else if rc_receipt_id r \<in> set (dict_keys (lg_receipts ledger)) then Inl ValueError
      else if rc_policy_result r \<noteq> DENIED then Inl ValueError
      else Inr (ledger\<lparr>lg_receipts := dict_set (rc_receipt_id r) r (lg_receipts ledger)\<rparr>))"

definition ledger_receipts :: "reservation_ledger \<Rightarrow> tool_receipt list" where
  "ledger_receipts ledger = dict_values (lg_receipts ledger)"

definition ledger_evidence :: "reservation_ledger \<Rightarrow> evidence list" where
  "ledger_evidence ledger = dict_values (lg_evidence ledger)"

section \<open>Dispatch\<close>

record dispatch_result =
  dr_receipt :: tool_receipt
  dr_evidence :: "evidence option"
  dr_passages :: "runbook_passage list"
  dr_retrieval_mode :: "retrieval_mode option"
  dr_message :: string

datatype check_result = Check check_outcome | RunbookCheck runbook_check_outcome

text \<open>A backend seam reads its arguments and the scope, may change the world, may raise.\<close>

type_synonym 'w backend = "tool_arguments \<Rightarrow> incident_scope \<Rightarrow> 'w \<Rightarrow> (exn + check_result) \<times> 'w"

definition clamp_start :: "incident_scope \<Rightarrow> instant option \<Rightarrow> instant" where
  "clamp_start scope ws = max (case ws of None \<Rightarrow> sc_started_at scope | Some t \<Rightarrow> t) (sc_started_at scope)"

definition clamp_end :: "incident_scope \<Rightarrow> instant option \<Rightarrow> instant" where
  "clamp_end scope we = min (case we of None \<Rightarrow> sc_ended_at scope | Some t \<Rightarrow> t) (sc_ended_at scope)"

fun resolve_effective_window :: "tool_arguments \<Rightarrow> incident_scope \<Rightarrow> tool_arguments" where
  "resolve_effective_window (QueryMetricArguments a) scope =
     QueryMetricArguments (a\<lparr>qm_window_start := Some (clamp_start scope (qm_window_start a)),
                             qm_window_end := Some (clamp_end scope (qm_window_end a))\<rparr>)"
| "resolve_effective_window (QueryLogsArguments a) scope =
     QueryLogsArguments (a\<lparr>ql_window_start := Some (clamp_start scope (ql_window_start a)),
                           ql_window_end := Some (clamp_end scope (ql_window_end a))\<rparr>)"
| "resolve_effective_window (ListRecentChangesArguments a) scope =
     ListRecentChangesArguments (a\<lparr>lc_window_start := Some (clamp_start scope (lc_window_start a)),
                                   lc_window_end := Some (clamp_end scope (lc_window_end a))\<rparr>)"
| "resolve_effective_window arguments scope = arguments"

definition denied_receipt ::
    "tool_proposal \<Rightarrow> incident_scope \<Rightarrow> string \<Rightarrow> reason_code option \<Rightarrow> string \<Rightarrow> 'w world \<Rightarrow>
     dispatch_result \<times> 'w world" where
  "denied_receipt proposal scope mark reason message w =
     (case new_opaque_id w of (rid, w1) \<Rightarrow> case read_clock w1 of (now, w2) \<Rightarrow>
        (\<lparr> dr_receipt = \<lparr> rc_receipt_id = rid, rc_incident_id = sc_incident_id scope,
             rc_tool = tp_tool proposal, rc_fingerprint = mark, rc_policy_result = DENIED,
             rc_state = SETTLED, rc_outcome = Some NOT_EXECUTED, rc_reason_code = reason,
             rc_requested_at = now, rc_duration_ms = 0, rc_result_digest = None,
             rc_evidence_id = None, rc_arguments = Some (tp_arguments proposal) \<rparr>,
           dr_evidence = None, dr_passages = [], dr_retrieval_mode = None, dr_message = message \<rparr>, w2))"

type_synonym 'w dispatch_outcome =
  "(exn + dispatch_result) \<times> string set \<times> reservation_ledger \<times> 'w world"

text \<open>After the backend returned: mint evidence or pass guidance on, and settle once.\<close>

definition settle_check ::
    "libs \<Rightarrow> incident_scope \<Rightarrow> string \<Rightarrow> check_result \<Rightarrow> reservation_ledger \<Rightarrow> 'w world \<Rightarrow>
     (exn + dispatch_result) \<times> reservation_ledger \<times> 'w world" where
  "settle_check L scope rid result ledger w =
     (case result of
        RunbookCheck o_r \<Rightarrow>
          (case settle ledger rid (ro_outcome o_r) (ro_reason_code o_r) (ro_duration_ms o_r)
                  None None None of
             Inl e \<Rightarrow> (Inl e, ledger, w)
           | Inr (settled, ledger') \<Rightarrow>
               (Inr \<lparr> dr_receipt = settled, dr_evidence = None, dr_passages = ro_passages o_r,
                      dr_retrieval_mode = Some (ro_retrieval_mode o_r), dr_message = [] \<rparr>, ledger', w))
      | Check o_c \<Rightarrow>
          (if co_outcome o_c = EXECUTED then
             (case read_clock w of (now, w1) \<Rightarrow>
              case build_evidence L (sc_incident_id scope) (co_kind o_c) (co_source o_c) now
                     (co_summary o_c) (co_payload o_c) (Some rid) w1 of
                (Inl e, w2) \<Rightarrow> (Inl e, ledger, w2)
              | (Inr ev, w2) \<Rightarrow>
                  (case settle ledger rid (co_outcome o_c) (co_reason_code o_c) (co_duration_ms o_c)
                          (Some (ev_content_hash ev)) (Some (ev_evidence_id ev)) (Some ev) of
                     Inl e \<Rightarrow> (Inl e, ledger, w2)
                   | Inr (settled, ledger') \<Rightarrow>
                       (Inr \<lparr> dr_receipt = settled, dr_evidence = Some ev, dr_passages = [],
                              dr_retrieval_mode = None, dr_message = [] \<rparr>, ledger', w2)))
           else
             (case settle ledger rid (co_outcome o_c) (co_reason_code o_c) (co_duration_ms o_c)
                     None None None of
                Inl e \<Rightarrow> (Inl e, ledger, w)
              | Inr (settled, ledger') \<Rightarrow>
                  (Inr \<lparr> dr_receipt = settled, dr_evidence = None, dr_passages = [],
                         dr_retrieval_mode = None, dr_message = [] \<rparr>, ledger', w))))"

text \<open>
  The closure \<open>_make_wrapper\<close> builds. \<open>arguments_type\<close> stands for the argument class, named by
  its discriminator.
\<close>

definition dispatch ::
    "libs \<Rightarrow> tool_name \<Rightarrow> tool_name \<Rightarrow> 'w backend \<Rightarrow> tool_proposal \<Rightarrow> incident_scope \<Rightarrow> string set \<Rightarrow>
     budgets \<Rightarrow> reservation_ledger \<Rightarrow> 'w world \<Rightarrow> 'w dispatch_outcome" where
  "dispatch L tool arguments_type run_check proposal scope seen b ledger w =
     (if arguments_tool (tp_arguments proposal) \<noteq> arguments_type
        then (Inl ValueError, seen, ledger, w)
      else let
        effective_arguments = resolve_effective_window (tp_arguments proposal) scope;
        effective_proposal = proposal\<lparr>tp_arguments := effective_arguments\<rparr>;
        decision = authorize L effective_proposal scope seen b (slots_left_for ledger tool);
        seen' = insert (pd_fingerprint decision) seen
      in if pd_result decision = DENIED then
           (case denied_receipt effective_proposal scope (pd_fingerprint decision)
                   (pd_reason_code decision) (pd_message decision) w of (result, w1) \<Rightarrow>
              (case record_receipt ledger (dr_receipt result) of
                 Inl e \<Rightarrow> (Inl e, seen', ledger, w1)
               | Inr ledger' \<Rightarrow> (Inr result, seen', ledger', w1)))
         else
           (case read_clock w of (now, w1) \<Rightarrow>
            case reserve ledger (sc_incident_id scope) (tp_tool effective_proposal)
                   (pd_fingerprint decision) now effective_arguments w1 of
              (None, ledger1, w2) \<Rightarrow> (Inl AssertionError, seen', ledger1, w2)
            | (Some reserved, ledger1, w2) \<Rightarrow>
                (case run_check effective_arguments scope (ext w2) of
                   (Inl e, x) \<Rightarrow> (Inl e, seen', ledger1, w2\<lparr>ext := x\<rparr>)
                 | (Inr outcome, x) \<Rightarrow>
                     (case settle_check L scope (rc_receipt_id reserved) outcome ledger1 (w2\<lparr>ext := x\<rparr>) of
                        (res, ledger2, w3) \<Rightarrow> (res, seen', ledger2, w3)))))"

text \<open>A registry entry, and the registry \<open>dispatch_registry\<close> builds from the five backends.\<close>

record 'w tool_wrapper =
  tw_tool :: tool_name
  tw_arguments_type :: tool_name
  tw_run_check :: "'w backend"

definition make_wrapper :: "tool_name \<Rightarrow> tool_name \<Rightarrow> 'w backend \<Rightarrow> 'w tool_wrapper" where
  "make_wrapper tool arguments_type run_check =
     \<lparr> tw_tool = tool, tw_arguments_type = arguments_type, tw_run_check = run_check \<rparr>"

definition wrapper_dispatch ::
    "libs \<Rightarrow> 'w tool_wrapper \<Rightarrow> tool_proposal \<Rightarrow> incident_scope \<Rightarrow> string set \<Rightarrow> budgets \<Rightarrow>
     reservation_ledger \<Rightarrow> 'w world \<Rightarrow> 'w dispatch_outcome" where
  "wrapper_dispatch L wr = dispatch L (tw_tool wr) (tw_arguments_type wr) (tw_run_check wr)"

definition dispatch_registry ::
    "'w backend \<Rightarrow> 'w backend \<Rightarrow> 'w backend \<Rightarrow> 'w backend \<Rightarrow> 'w backend \<Rightarrow>
     tool_name \<Rightarrow> 'w tool_wrapper option" where
  "dispatch_registry run_metric run_logs run_changes run_topology run_search =
     [QUERY_METRIC \<mapsto> make_wrapper QUERY_METRIC QUERY_METRIC run_metric,
      QUERY_LOGS \<mapsto> make_wrapper QUERY_LOGS QUERY_LOGS run_logs,
      LIST_RECENT_CHANGES \<mapsto> make_wrapper LIST_RECENT_CHANGES LIST_RECENT_CHANGES run_changes,
      GET_TOPOLOGY \<mapsto> make_wrapper GET_TOPOLOGY GET_TOPOLOGY run_topology,
      SEARCH_RUNBOOKS \<mapsto> make_wrapper SEARCH_RUNBOOKS SEARCH_RUNBOOKS run_search]"

section \<open>The window clamp\<close>

lemma resolve_keeps_tool [simp]:
  "arguments_tool (resolve_effective_window a scope) = arguments_tool a"
  by (cases a) simp_all

lemma resolve_window:
  "arguments_window a = Some (ws, we) \<Longrightarrow>
     arguments_window (resolve_effective_window a scope)
       = Some (Some (clamp_start scope ws), Some (clamp_end scope we))"
  by (cases a) auto

lemma resolve_no_window: "arguments_window a = None \<Longrightarrow> resolve_effective_window a scope = a"
  by (cases a) auto

lemma resolve_service [simp]:
  "arguments_service (resolve_effective_window a scope) = arguments_service a"
  by (cases a) simp_all

lemma resolve_idem [simp]:
  "resolve_effective_window (resolve_effective_window a scope) scope = resolve_effective_window a scope"
  by (cases a) (simp_all add: clamp_start_def clamp_end_def)

text \<open>A clamped window denotes exactly the instants of the request that lie in the incident.\<close>

definition in_window :: "instant option \<Rightarrow> instant option \<Rightarrow> instant \<Rightarrow> bool" where
  "in_window ws we t \<longleftrightarrow> (\<forall>s \<in> set_option ws. s \<le> t) \<and> (\<forall>e \<in> set_option we. t \<le> e)"

lemma clamp_within:
  "in_window (Some (clamp_start scope ws)) (Some (clamp_end scope we)) t \<longleftrightarrow>
     in_window ws we t \<and> sc_started_at scope \<le> t \<and> t \<le> sc_ended_at scope"
  by (cases ws; cases we) (auto simp: in_window_def clamp_start_def clamp_end_def)

section \<open>The ledger's lifecycle\<close>

text \<open>
  What every ledger of an investigation satisfies: one entry per receipt id, entries that are
  receipts of the incident and pass the receipt validator, denials that are settled and say
  why, and no pool overspent.
\<close>

definition receipt_ok :: "string \<Rightarrow> tool_receipt \<Rightarrow> bool" where
  "receipt_ok incident_id r \<longleftrightarrow> receipt_valid r \<and> rc_incident_id r = incident_id
     \<and> (rc_policy_result r = DENIED \<longrightarrow> rc_state r = SETTLED \<and> rc_outcome r = Some NOT_EXECUTED
          \<and> (\<exists>reason \<in> denial_reasons. rc_reason_code r = Some reason) \<and> rc_evidence_id r = None)"

definition ledger_wf :: "string \<Rightarrow> reservation_ledger \<Rightarrow> bool" where
  "ledger_wf incident_id ledger \<longleftrightarrow> distinct (dict_keys (lg_receipts ledger))
     \<and> (\<forall>(k, r) \<in> set (lg_receipts ledger). k = rc_receipt_id r \<and> receipt_ok incident_id r)"

definition within_pools :: "reservation_ledger \<Rightarrow> bool" where
  "within_pools ledger \<longleftrightarrow> (\<forall>tool. 0 \<le> slots_left_for ledger tool)"

lemma slots_left_for_alt:
  "slots_left_for ledger tool =
     (if tool = SEARCH_RUNBOOKS then lg_runbook_budget ledger else lg_budget ledger)
       - spent (tool = SEARCH_RUNBOOKS) ledger"
  by (simp add: slots_left_for_def slots_left_def runbook_slots_left_def)

lemma load_receipts_iff:
  "load_receipts rs d = Inr d' \<longleftrightarrow>
     d' = d @ map (\<lambda>r. (rc_receipt_id r, r)) rs \<and> distinct (map rc_receipt_id rs)
       \<and> set (map rc_receipt_id rs) \<inter> set (dict_keys d) = {}"
proof (induction rs arbitrary: d)
  case (Cons r rs)
  show ?case
  proof (cases "rc_receipt_id r \<in> set (dict_keys d)")
    case True
    then show ?thesis by auto
  next
    case False
    then have "load_receipts (r # rs) d = load_receipts rs (d @ [(rc_receipt_id r, r)])"
      by (simp add: update_fresh)
    with Cons False show ?thesis by auto
  qed
qed auto

lemma from_receipts_iff:
  "from_receipts rs n k = Inr ledger \<longleftrightarrow> distinct (map rc_receipt_id rs)
     \<and> ledger = \<lparr> lg_budget = n, lg_runbook_budget = k,
          lg_receipts = map (\<lambda>r. (rc_receipt_id r, r)) rs, lg_evidence = [] \<rparr>"
  by (auto simp: from_receipts_def bind_r_Inr load_receipts_iff ledger_new_def)

text \<open>A ledger rebuilt from the receipts another one reports is that ledger again.\<close>

lemma ledger_wf_keys:
  "ledger_wf i ledger \<Longrightarrow> lg_receipts ledger = map (\<lambda>r. (rc_receipt_id r, r)) (ledger_receipts ledger)"
  unfolding ledger_wf_def ledger_receipts_def map_map o_def
  by (rule map_idI [symmetric]) auto

lemma ledger_rebuild:
  assumes "ledger_wf i ledger"
  shows "from_receipts (ledger_receipts ledger) (lg_budget ledger) (lg_runbook_budget ledger)
     = Inr (ledger\<lparr>lg_evidence := []\<rparr>)"
proof -
  note keys = ledger_wf_keys [OF assms]
  have "map rc_receipt_id (ledger_receipts ledger) = dict_keys (lg_receipts ledger)"
    by (subst keys) (simp add: o_def)
  with assms have "distinct (map rc_receipt_id (ledger_receipts ledger))" by (simp add: ledger_wf_def)
  with keys show ?thesis by (simp add: from_receipts_iff)
qed

lemma reserve_refused: "slots_left_for ledger tool \<le> 0 \<Longrightarrow>
    reserve ledger i tool mark tm arguments w = (None, ledger, w)"
  by (simp add: reserve_def)

lemma reserve_fresh:
  assumes "0 < slots_left_for ledger tool" and "ids_fresh w (set (dict_keys (lg_receipts ledger)))"
  obtains r w' where
    "reserve ledger i tool mark tm arguments w =
       (Some r, ledger\<lparr>lg_receipts := lg_receipts ledger @ [(rc_receipt_id r, r)]\<rparr>, w')"
    and "r = \<lparr> rc_receipt_id = rc_receipt_id r, rc_incident_id = i, rc_tool = tool,
                   rc_fingerprint = mark, rc_policy_result = ALLOWED, rc_state = RESERVED,
                   rc_outcome = None, rc_reason_code = None, rc_requested_at = tm,
                   rc_duration_ms = 0, rc_result_digest = None, rc_evidence_id = None,
                   rc_arguments = Some arguments \<rparr>"
    and "world_le w w'" and "ext w' = ext w" and "rc_receipt_id r \<notin> set (dict_keys (lg_receipts ledger))"
    and "ids_fresh w' (insert (rc_receipt_id r) (set (dict_keys (lg_receipts ledger))))"
proof -
  obtain rid w' where id: "new_opaque_id w = (rid, w')" by force
  let ?r = "\<lparr> rc_receipt_id = rid, rc_incident_id = i, rc_tool = tool, rc_fingerprint = mark,
      rc_policy_result = ALLOWED, rc_state = RESERVED, rc_outcome = None, rc_reason_code = None,
      rc_requested_at = tm, rc_duration_ms = 0, rc_result_digest = None, rc_evidence_id = None,
      rc_arguments = Some arguments \<rparr>"
  from new_opaque_id_fresh [OF id assms(2)]
  have fresh: "rid \<notin> set (dict_keys (lg_receipts ledger))"
    and fresh': "ids_fresh w' (insert rid (set (dict_keys (lg_receipts ledger))))" by auto
  from id have "ext w' = ext w" by (auto simp: new_opaque_id_def)
  moreover from assms(1) id fresh have "reserve ledger i tool mark tm arguments w =
      (Some ?r, ledger\<lparr>lg_receipts := lg_receipts ledger @ [(rc_receipt_id ?r, ?r)]\<rparr>, w')"
    by (simp add: reserve_def Let_def update_fresh)
  ultimately show thesis using fresh fresh' new_opaque_id_le [OF id] by (intro that [of ?r w']) simp_all
qed

text \<open>Settling the entry that was reserved last replaces it in place.\<close>

definition settled_as ::
    "tool_receipt \<Rightarrow> tool_outcome \<Rightarrow> reason_code option \<Rightarrow> int \<Rightarrow> string option \<Rightarrow> string option \<Rightarrow> tool_receipt" where
  "settled_as r outcome reason duration digest eid =
     r\<lparr>rc_state := SETTLED, rc_outcome := Some outcome, rc_reason_code := reason,
       rc_duration_ms := duration, rc_result_digest := digest, rc_evidence_id := eid\<rparr>"

lemma validate_settled_as:
  "tool_receipt_validate (settled_as r out reason d dig eid) =
     (if 0 \<le> d then Inr (settled_as r out reason d dig eid) else Inl ValidationError)"
  by (simp add: tool_receipt_validate_def settled_as_def)

lemma settled_as_simps [simp]:
  "rc_receipt_id (settled_as r out reason d dig eid) = rc_receipt_id r"
  "rc_incident_id (settled_as r out reason d dig eid) = rc_incident_id r"
  "rc_tool (settled_as r out reason d dig eid) = rc_tool r"
  "rc_fingerprint (settled_as r out reason d dig eid) = rc_fingerprint r"
  "rc_policy_result (settled_as r out reason d dig eid) = rc_policy_result r"
  "rc_state (settled_as r out reason d dig eid) = SETTLED"
  "rc_outcome (settled_as r out reason d dig eid) = Some out"
  "rc_evidence_id (settled_as r out reason d dig eid) = eid"
  "rc_result_digest (settled_as r out reason d dig eid) = dig"
  "rc_arguments (settled_as r out reason d dig eid) = rc_arguments r"
  by (simp_all add: settled_as_def)

lemma settle_iff:
  "settle ledger rid out reason d dig eid ev = Inr (r', ledger') \<longleftrightarrow>
     (\<exists>r. dict_get (lg_receipts ledger) rid = Some r \<and> rc_state r = RESERVED \<and> 0 \<le> d
        \<and> r' = settled_as r out reason d dig eid
        \<and> ledger' = ledger\<lparr>lg_receipts := dict_set rid r' (lg_receipts ledger),
             lg_evidence := (case ev of None \<Rightarrow> lg_evidence ledger
                | Some e \<Rightarrow> dict_set rid e (lg_evidence ledger))\<rparr>)"
  unfolding settle_def settled_as_def [symmetric] validate_settled_as
  by (auto split: option.splits)

lemma settle_last:
  assumes "lg_receipts ledger = d @ [(rid, r)]" and "rid \<notin> set (dict_keys d)" and "rc_state r = RESERVED"
    and "settle ledger rid out reason dur dig eid ev = Inr (r', ledger')"
  shows "r' = settled_as r out reason dur dig eid" and "0 \<le> dur"
    and "ledger' = ledger\<lparr>lg_receipts := d @ [(rid, r')],
             lg_evidence := (case ev of None \<Rightarrow> lg_evidence ledger
                | Some e \<Rightarrow> dict_set rid e (lg_evidence ledger))\<rparr>"
proof -
  from assms(2) have get: "dict_get (d @ [(rid, r)]) rid = Some r" by (simp add: map_of_eq_None_iff [THEN iffD2] map_add_def)
  from assms(2) have set: "dict_set rid r' (d @ [(rid, r)]) = d @ [(rid, r')]"
    by (induction d) auto
  from assms(1,4) get set show "r' = settled_as r out reason dur dig eid" "0 \<le> dur"
    "ledger' = ledger\<lparr>lg_receipts := d @ [(rid, r')],
             lg_evidence := (case ev of None \<Rightarrow> lg_evidence ledger
                | Some e \<Rightarrow> dict_set rid e (lg_evidence ledger))\<rparr>"
    by (auto simp: settle_iff)
qed

text \<open>
  The lifecycle as a step relation: a reservation under a fresh id, a settlement, the record
  of a denial.
\<close>

inductive ledger_step :: "reservation_ledger \<Rightarrow> reservation_ledger \<Rightarrow> bool" where
  step_reserve:
    "reserve ledger i tool mark tm arguments (w :: unit world) = (Some r, ledger', w') \<Longrightarrow>
     rc_receipt_id r \<notin> set (dict_keys (lg_receipts ledger)) \<Longrightarrow> ledger_step ledger ledger'"
| step_settle:
    "settle ledger rid out reason d dig eid ev = Inr (r, ledger') \<Longrightarrow> ledger_step ledger ledger'"
| step_record:
    "record_receipt ledger r = Inr ledger' \<Longrightarrow> ledger_step ledger ledger'"

inductive_cases ledger_stepE: "ledger_step ledger ledger'"

text \<open>
  The contract a client of the pools relies on: each step leaves a pool alone or takes one
  slot from it, and only when one is left.
\<close>

locale slot_pools =
  fixes left :: "'l \<Rightarrow> 't \<Rightarrow> int" and step :: "'l \<Rightarrow> 'l \<Rightarrow> bool"
  assumes step_takes: "step l l' \<Longrightarrow> left l' t = left l t \<or> 0 < left l t \<and> left l' t = left l t - 1"
begin

lemma never_overdrawn: "step\<^sup>*\<^sup>* l l' \<Longrightarrow> 0 \<le> left l t \<Longrightarrow> 0 \<le> left l' t"
proof (induction rule: rtranclp_induct)
  case (step y z)
  then show ?case using step_takes [of y z t] by auto
qed

lemma never_refilled: "step\<^sup>*\<^sup>* l l' \<Longrightarrow> left l' t \<le> left l t"
proof (induction rule: rtranclp_induct)
  case (step y z)
  then show ?case using step_takes [of y z t] by auto
qed simp

end

lemma filter_values_update:
  "dict_get d k = Some u \<Longrightarrow> P v = P u \<Longrightarrow>
     length (filter (P \<circ> snd) (dict_set k v d)) = length (filter (P \<circ> snd) d)"
  by (induction d) auto

lemma spends_settled [simp]: "spends rb (settled_as r out reason d dig eid) = spends rb r"
  by (simp add: spends_def)

lemma spent_settle:
  "settle ledger rid out reason d dig eid ev = Inr (r, ledger') \<Longrightarrow> spent rb ledger' = spent rb ledger"
  by (auto simp: settle_iff spent_def filter_values_update)

lemma spent_record: "record_receipt ledger r = Inr ledger' \<Longrightarrow> spent rb ledger' = spent rb ledger"
  by (auto simp: record_receipt_def spent_def spends_def update_fresh split: if_splits)

lemma spent_append:
  "spent rb (ledger\<lparr>lg_receipts := d @ [(k, r)]\<rparr>)
     = spent rb (ledger\<lparr>lg_receipts := d\<rparr>) + (if spends rb r then 1 else 0)"
  by (simp add: spent_def)

lemma ledger_step_budgets:
  "ledger_step l l' \<Longrightarrow> lg_budget l' = lg_budget l \<and> lg_runbook_budget l' = lg_runbook_budget l"
  by (induction rule: ledger_step.induct)
    (auto simp: reserve_def settle_iff record_receipt_def Let_def split: if_splits prod.splits)

lemma reserve_takes:
  assumes "reserve l i tool mark tm arguments w = (Some r, l', w')"
    and "rc_receipt_id r \<notin> set (dict_keys (lg_receipts l))"
  shows "0 < slots_left_for l tool" and "rc_tool r = tool"
    and "slots_left_for l' t = slots_left_for l t -
           (if (t = SEARCH_RUNBOOKS) = (tool = SEARCH_RUNBOOKS) then 1 else 0)"
proof -
  from assms have "l' = l\<lparr>lg_receipts := lg_receipts l @ [(rc_receipt_id r, r)]\<rparr>"
    and r: "rc_tool r = tool" "rc_policy_result r = ALLOWED" and pos: "0 < slots_left_for l tool"
    by (auto simp: reserve_def Let_def update_fresh split: if_splits prod.splits)
  then have "spent rb l' = spent rb l + (if (tool = SEARCH_RUNBOOKS) = rb then 1 else 0)"
    "lg_budget l' = lg_budget l" "lg_runbook_budget l' = lg_runbook_budget l" for rb
    by (simp_all add: spent_append) (simp add: spends_def)
  then show "slots_left_for l' t = slots_left_for l t -
      (if (t = SEARCH_RUNBOOKS) = (tool = SEARCH_RUNBOOKS) then 1 else 0)"
    by (auto simp: slots_left_for_alt)
  show "0 < slots_left_for l tool" "rc_tool r = tool" by fact+
qed

lemma slots_left_for_pool:
  "(t = SEARCH_RUNBOOKS) = (u = SEARCH_RUNBOOKS) \<Longrightarrow> slots_left_for l t = slots_left_for l u"
  by (simp add: slots_left_for_alt)

interpretation checks: slot_pools slots_left_for ledger_step
proof
  fix l l' t
  assume "ledger_step l l'"
  then show "slots_left_for l' t = slots_left_for l t
     \<or> 0 < slots_left_for l t \<and> slots_left_for l' t = slots_left_for l t - 1"
  proof (cases rule: ledger_step.cases)
    case (step_reserve i tool mark tm arguments w r w')
    from reserve_takes [OF this] show ?thesis
      using slots_left_for_pool [of t tool l] by (auto split: if_splits)
  next
    case (step_settle rid out reason d dig eid ev r)
    from spent_settle [OF this] ledger_step_budgets [OF \<open>ledger_step l l'\<close>] show ?thesis
      by (simp add: slots_left_for_alt)
  next
    case (step_record r)
    from spent_record [OF this] ledger_step_budgets [OF \<open>ledger_step l l'\<close>] show ?thesis
      by (simp add: slots_left_for_alt)
  qed
qed

section \<open>What one dispatch does\<close>

abbreviation effective :: "tool_proposal \<Rightarrow> incident_scope \<Rightarrow> tool_arguments" where
  "effective p scope \<equiv> resolve_effective_window (tp_arguments p) scope"

abbreviation known_ids :: "reservation_ledger \<Rightarrow> string set" where
  "known_ids ledger \<equiv> set (dict_keys (lg_receipts ledger))"

text \<open>The condition under which \<open>authorize\<close> lets the dispatch go on.\<close>

definition permitted ::
    "libs \<Rightarrow> tool_proposal \<Rightarrow> incident_scope \<Rightarrow> string set \<Rightarrow> budgets \<Rightarrow> reservation_ledger \<Rightarrow> bool" where
  "permitted L p scope seen b ledger \<longleftrightarrow> 0 < slots_left_for ledger (tp_tool p)
     \<and> fingerprint L (effective p scope) \<notin> seen \<and> in_scope scope b (effective p scope)"

lemma tp_tool_effective [simp]: "tp_tool (p\<lparr>tp_arguments := effective p scope\<rparr>) = tp_tool p"
  by (simp add: tp_tool_def)

lemma authorize_permitted:
  "pd_result (authorize L (p\<lparr>tp_arguments := effective p scope\<rparr>) scope seen b
      (slots_left_for ledger (tp_tool p))) = ALLOWED \<longleftrightarrow> permitted L p scope seen b ledger"
  by (simp add: authorize_allowed_iff permitted_def)

lemma not_allowed_iff: "r \<noteq> ALLOWED \<longleftrightarrow> r = DENIED"
  by (cases r) auto

lemma dispatch_mismatch:
  "arguments_tool (tp_arguments p) \<noteq> ty \<Longrightarrow> dispatch L tool ty run p scope seen b ledger w =
     (Inl ValueError, seen, ledger, w)"
  by (simp add: dispatch_def)

lemma dispatch_denied:
  assumes "\<not> permitted L p scope seen b ledger" and "ids_fresh w (known_ids ledger)"
  obtains r message w' where
    "dispatch L (tp_tool p) (tp_tool p) run p scope seen b ledger w =
       (Inr \<lparr> dr_receipt = r, dr_evidence = None, dr_passages = [], dr_retrieval_mode = None,
              dr_message = message \<rparr>,
        insert (fingerprint L (effective p scope)) seen,
        ledger\<lparr>lg_receipts := lg_receipts ledger @ [(rc_receipt_id r, r)]\<rparr>, w')"
    and "receipt_ok (sc_incident_id scope) r" and "rc_policy_result r = DENIED"
    and "rc_tool r = tp_tool p"
    and "rc_arguments r = Some (effective p scope)"
    and "rc_fingerprint r = fingerprint L (effective p scope)"
    and "rc_receipt_id r \<notin> known_ids ledger"
    and "ids_fresh w' (insert (rc_receipt_id r) (known_ids ledger))"
    and "ext w' = ext w" and "world_le w w'"
proof -
  let ?q = "p\<lparr>tp_arguments := effective p scope\<rparr>"
  let ?d = "authorize L ?q scope seen b (slots_left_for ledger (tp_tool p))"
  from assms(1) have d: "pd_result ?d = DENIED" by (simp add: authorize_permitted flip: not_allowed_iff)
  then obtain reason where reason: "pd_reason_code ?d = Some reason" "reason \<in> denial_reasons"
    by (rule authorize_denied_reason)
  obtain rid w1 where id: "new_opaque_id w = (rid, w1)" by force
  obtain now w2 where clk: "read_clock w1 = (now, w2)" by force
  let ?r = "\<lparr> rc_receipt_id = rid, rc_incident_id = sc_incident_id scope, rc_tool = tp_tool p,
      rc_fingerprint = fingerprint L (effective p scope), rc_policy_result = DENIED,
      rc_state = SETTLED, rc_outcome = Some NOT_EXECUTED, rc_reason_code = Some reason,
      rc_requested_at = now, rc_duration_ms = 0, rc_result_digest = None, rc_evidence_id = None,
      rc_arguments = Some (effective p scope) \<rparr>"
  from new_opaque_id_fresh [OF id assms(2)]
  have fresh: "rid \<notin> known_ids ledger" "ids_fresh w1 (insert rid (known_ids ledger))" by auto
  have "world_le w w2" using new_opaque_id_le [OF id] read_clock_le [OF clk] by (rule world_le_trans)
  moreover have "ext w2 = ext w" using id clk by (auto simp: new_opaque_id_def read_clock_def)
  moreover have "receipt_ok (sc_incident_id scope) ?r"
    using reason(2) by (simp add: receipt_ok_def receipt_valid_iff)
  moreover have "dispatch L (tp_tool p) (tp_tool p) run p scope seen b ledger w =
       (Inr \<lparr> dr_receipt = ?r, dr_evidence = None, dr_passages = [], dr_retrieval_mode = None,
              dr_message = pd_message ?d \<rparr>,
        insert (fingerprint L (effective p scope)) seen,
        ledger\<lparr>lg_receipts := lg_receipts ledger @ [(rc_receipt_id ?r, ?r)]\<rparr>, w2)"
    using d reason id clk fresh
    by (simp add: dispatch_def Let_def tp_tool_def denied_receipt_def record_receipt_def update_fresh)
  ultimately show thesis using reason fresh ids_fresh_le [OF read_clock_le [OF clk] fresh(2)]
    by (intro that [of ?r "pd_message ?d" w2]) simp_all
qed

text \<open>
  What settling leaves behind when the reservation is the last entry: the entry is settled in
  place, and evidence exists exactly when the receipt names it.
\<close>

definition minted :: "libs \<Rightarrow> incident_scope \<Rightarrow> string \<Rightarrow> 'w world \<Rightarrow> evidence \<Rightarrow> bool" where
  "minted L scope rid w ev \<longleftrightarrow> ev_incident_id ev = sc_incident_id scope \<and> ev_receipt_id ev = Some rid
     \<and> ev_content_hash ev = content_hash L (ev_payload ev) \<and> evidence_validate ev = Inr ev
     \<and> (\<forall>used. ids_fresh w used \<longrightarrow> ev_evidence_id ev \<notin> used)"

definition settled_by :: "tool_receipt \<Rightarrow> dispatch_result \<Rightarrow> bool" where
  "settled_by r dr \<longleftrightarrow> (\<exists>out reason dur. 0 \<le> dur
     \<and> dr_receipt dr = settled_as r out reason dur (map_option ev_content_hash (dr_evidence dr))
         (map_option ev_evidence_id (dr_evidence dr))
     \<and> (dr_evidence dr \<noteq> None \<longrightarrow> out = EXECUTED))"

lemma build_evidence_minted:
  assumes "build_evidence L (sc_incident_id scope) k src tm sm pl (Some rid) w = (Inr ev, w')"
  shows "minted L scope rid w ev"
  using assms
  by (auto simp: build_evidence_def minted_def new_opaque_id_def ids_fresh_def evidence_validate_def
      split: if_splits)

lemma ids_fresh_read_clock [simp]: "ids_fresh (w\<lparr>clock_n := n\<rparr>) used = ids_fresh w used"
  by (simp add: ids_fresh_def)

lemma settle_check_frame:
  assumes "settle_check L scope rid result ledger w = (res, ledger', w')"
  shows "world_le w w'" and "ext w' = ext w" and "\<And>e. res = Inl e \<Longrightarrow> ledger' = ledger"
  using assms
  by (auto simp: settle_check_def build_evidence_def world_le_def read_clock_def new_opaque_id_def
      split: check_result.splits sum.splits if_splits)

lemma settle_check_settled:
  assumes last: "lg_receipts ledger = d @ [(rid, r)]" "rid \<notin> set (dict_keys d)" "rc_state r = RESERVED"
    and run: "settle_check L scope rid result ledger w = (Inr dr, ledger', w')"
  shows "settled_by r dr" and "\<And>ev. dr_evidence dr = Some ev \<Longrightarrow> minted L scope rid w ev"
    and "ledger' = ledger\<lparr>lg_receipts := d @ [(rid, dr_receipt dr)],
              lg_evidence := (case dr_evidence dr of None \<Rightarrow> lg_evidence ledger
                 | Some e \<Rightarrow> dict_set rid e (lg_evidence ledger))\<rparr>"
proof -
  have "settled_by r dr \<and> (\<forall>ev. dr_evidence dr = Some ev \<longrightarrow> minted L scope rid w ev)
    \<and> ledger' = ledger\<lparr>lg_receipts := d @ [(rid, dr_receipt dr)],
              lg_evidence := (case dr_evidence dr of None \<Rightarrow> lg_evidence ledger
                 | Some e \<Rightarrow> dict_set rid e (lg_evidence ledger))\<rparr>"
  proof (cases "\<exists>c. result = Check c \<and> co_outcome c = EXECUTED")
    case False
    with run show ?thesis
      by (auto simp: settle_check_def settled_by_def split: check_result.splits sum.splits if_splits
          dest: settle_last [OF last]) (blast dest: settle_last [OF last])+
  next
    case True
    then obtain c where c: "result = Check c" "co_outcome c = EXECUTED" by blast
    obtain now w1 where clk: "read_clock w = (now, w1)" by force
    then have fresh: "ids_fresh w1 used = ids_fresh w used" for used by (auto simp: read_clock_def)
    from run c clk obtain ev w2 where
      ev: "build_evidence L (sc_incident_id scope) (co_kind c) (co_source c) now (co_summary c)
             (co_payload c) (Some rid) w1 = (Inr ev, w2)"
      by (auto simp: settle_check_def split: sum.splits prod.splits)
    from run c clk ev have "dr_evidence dr = Some ev" "dr_passages dr = []" "dr_message dr = []"
      "dr_retrieval_mode dr = None"
      and st: "settle ledger rid (co_outcome c) (co_reason_code c) (co_duration_ms c)
         (Some (ev_content_hash ev)) (Some (ev_evidence_id ev)) (Some ev) = Inr (dr_receipt dr, ledger')"
      by (auto simp: settle_check_def split: sum.splits prod.splits)
    moreover from build_evidence_minted [OF ev] have "minted L scope rid w ev"
      by (simp add: minted_def fresh)
    ultimately show ?thesis using settle_last [OF last st] c by (auto simp: settled_by_def)
  qed
  then show "settled_by r dr" and "\<And>ev. dr_evidence dr = Some ev \<Longrightarrow> minted L scope rid w ev"
    and "ledger' = ledger\<lparr>lg_receipts := d @ [(rid, dr_receipt dr)],
              lg_evidence := (case dr_evidence dr of None \<Rightarrow> lg_evidence ledger
                 | Some e \<Rightarrow> dict_set rid e (lg_evidence ledger))\<rparr>" by blast+
qed

text \<open>A permitted dispatch reserves, hands the effective arguments to the backend, settles.\<close>

lemma dispatch_allowed:
  assumes "permitted L p scope seen b ledger" and "ids_fresh w (known_ids ledger)"
  obtains r w1 where
    "dispatch L (tp_tool p) (tp_tool p) run p scope seen b ledger w =
      (let seen' = insert (fingerprint L (effective p scope)) seen;
           ledger1 = ledger\<lparr>lg_receipts := lg_receipts ledger @ [(rc_receipt_id r, r)]\<rparr>
       in case run (effective p scope) scope (ext w) of
            (Inl e, x) \<Rightarrow> (Inl e, seen', ledger1, w1\<lparr>ext := x\<rparr>)
          | (Inr outcome, x) \<Rightarrow>
              (case settle_check L scope (rc_receipt_id r) outcome ledger1 (w1\<lparr>ext := x\<rparr>) of
                 (res, ledger2, w3) \<Rightarrow> (res, seen', ledger2, w3)))"
    and "receipt_ok (sc_incident_id scope) r" and "rc_policy_result r = ALLOWED"
    and "rc_state r = RESERVED" and "rc_tool r = tp_tool p"
    and "rc_arguments r = Some (effective p scope)"
    and "rc_fingerprint r = fingerprint L (effective p scope)"
    and "rc_receipt_id r \<notin> known_ids ledger"
    and "ids_fresh w1 (insert (rc_receipt_id r) (known_ids ledger))"
    and "world_le w w1"
proof -
  let ?q = "p\<lparr>tp_arguments := effective p scope\<rparr>"
  obtain now w0 where clk: "read_clock w = (now, w0)" by force
  then have w0: "ids_fresh w0 (known_ids ledger)" "ext w0 = ext w" "world_le w w0"
    using assms(2) by (auto simp: read_clock_def world_le_def)
  have slots: "0 < slots_left_for ledger (tp_tool p)" using assms(1) by (simp add: permitted_def)
  obtain r w1 where res:
    "reserve ledger (sc_incident_id scope) (tp_tool p) (fingerprint L (effective p scope)) now
       (effective p scope) w0 =
       (Some r, ledger\<lparr>lg_receipts := lg_receipts ledger @ [(rc_receipt_id r, r)]\<rparr>, w1)"
    and r: "r = \<lparr> rc_receipt_id = rc_receipt_id r, rc_incident_id = sc_incident_id scope,
       rc_tool = tp_tool p, rc_fingerprint = fingerprint L (effective p scope),
       rc_policy_result = ALLOWED, rc_state = RESERVED, rc_outcome = None, rc_reason_code = None,
       rc_requested_at = now, rc_duration_ms = 0, rc_result_digest = None, rc_evidence_id = None,
       rc_arguments = Some (effective p scope) \<rparr>"
    and w1: "world_le w0 w1" "ext w1 = ext w0" "rc_receipt_id r \<notin> known_ids ledger"
      "ids_fresh w1 (insert (rc_receipt_id r) (known_ids ledger))"
    by (rule reserve_fresh [OF slots w0(1)])
  have ok: "receipt_ok (sc_incident_id scope) r" "rc_policy_result r = ALLOWED"
    "rc_state r = RESERVED" "rc_tool r = tp_tool p" "rc_arguments r = Some (effective p scope)"
    "rc_fingerprint r = fingerprint L (effective p scope)"
    by (subst r, simp add: receipt_ok_def receipt_valid_iff)+
  have d: "pd_result (authorize L ?q scope seen b (slots_left_for ledger (tp_tool p))) = ALLOWED"
    using assms(1) by (simp add: authorize_permitted)
  show thesis
  proof (rule that [of r w1])
    show "world_le w w1" using w0(3) w1(1) by (rule world_le_trans)
  qed (use d clk res w0 w1 ok in \<open>simp_all add: dispatch_def Let_def tp_tool_def split: prod.split sum.split\<close>)
qed

text \<open>
  The summary the workflow builds on: one receipt is appended, whatever happens; it is settled
  exactly when the dispatch returned.
\<close>

definition appended ::
    "libs \<Rightarrow> tool_proposal \<Rightarrow> incident_scope \<Rightarrow> reservation_ledger \<Rightarrow> tool_receipt \<Rightarrow> reservation_ledger \<Rightarrow> bool" where
  "appended L p scope ledger r ledger' \<longleftrightarrow>
     lg_receipts ledger' = lg_receipts ledger @ [(rc_receipt_id r, r)]
     \<and> lg_budget ledger' = lg_budget ledger \<and> lg_runbook_budget ledger' = lg_runbook_budget ledger
     \<and> rc_receipt_id r \<notin> known_ids ledger \<and> receipt_ok (sc_incident_id scope) r
     \<and> rc_tool r = tp_tool p \<and> rc_arguments r = Some (effective p scope)
     \<and> rc_fingerprint r = fingerprint L (effective p scope)"

lemma settled_by_ok:
  assumes "settled_by r dr" and "receipt_ok i r" and "rc_policy_result r = ALLOWED"
  shows "receipt_ok i (dr_receipt dr)"
  using assms validate_settled_as by (fastforce simp: settled_by_def receipt_ok_def)

lemma dispatch_appends:
  assumes run: "dispatch L (tp_tool p) (tp_tool p) run p scope seen b ledger w = (res, seen', ledger', w')"
    and fresh: "ids_fresh w (known_ids ledger)"
  obtains r where "appended L p scope ledger r ledger'"
    and "seen' = insert (fingerprint L (effective p scope)) seen" and "world_le w w'"
    and "rc_policy_result r = ALLOWED \<longleftrightarrow> permitted L p scope seen b ledger"
    and "rc_state r = RESERVED \<longleftrightarrow> (\<exists>e. res = Inl e)"
    and "ids_fresh w' (insert (rc_receipt_id r) (known_ids ledger))"
    and "\<forall>e. res = Inl e \<longrightarrow> lg_evidence ledger' = lg_evidence ledger"
    and "\<forall>dr. res = Inr dr \<longrightarrow> dr_receipt dr = r \<and> rc_evidence_id r = map_option ev_evidence_id (dr_evidence dr)
           \<and> (\<forall>ev. dr_evidence dr = Some ev \<longrightarrow> minted L scope (rc_receipt_id r) w ev)"
proof (cases "permitted L p scope seen b ledger")
  case False
  show thesis
    by (rule dispatch_denied [OF False fresh, of run])
      (rule that, use run False in \<open>auto simp: appended_def receipt_ok_def\<close>)
next
  case True
  obtain r w1 where D: "dispatch L (tp_tool p) (tp_tool p) run p scope seen b ledger w =
      (let seen' = insert (fingerprint L (effective p scope)) seen;
           ledger1 = ledger\<lparr>lg_receipts := lg_receipts ledger @ [(rc_receipt_id r, r)]\<rparr>
       in case run (effective p scope) scope (ext w) of
            (Inl e, x) \<Rightarrow> (Inl e, seen', ledger1, w1\<lparr>ext := x\<rparr>)
          | (Inr outcome, x) \<Rightarrow>
              (case settle_check L scope (rc_receipt_id r) outcome ledger1 (w1\<lparr>ext := x\<rparr>) of
                 (res, ledger2, w3) \<Rightarrow> (res, seen', ledger2, w3)))"
    and r: "receipt_ok (sc_incident_id scope) r" "rc_policy_result r = ALLOWED"
    "rc_state r = RESERVED" "rc_tool r = tp_tool p" "rc_arguments r = Some (effective p scope)"
    "rc_fingerprint r = fingerprint L (effective p scope)" "rc_receipt_id r \<notin> known_ids ledger"
    and w1: "ids_fresh w1 (insert (rc_receipt_id r) (known_ids ledger))" "world_le w w1"
    by (rule dispatch_allowed [OF True fresh, of run])
  let ?l1 = "ledger\<lparr>lg_receipts := lg_receipts ledger @ [(rc_receipt_id r, r)]\<rparr>"
  have app: "appended L p scope ledger r ?l1" using r by (simp add: appended_def)
  obtain out x where out: "run (effective p scope) scope (ext w) = (out, x)" by force
  have w1x: "world_le w (w1\<lparr>ext := x\<rparr>)" using w1(2) world_le_ext by (rule world_le_trans)
  have fr: "ids_fresh w' (insert (rc_receipt_id r) (known_ids ledger))" if "world_le (w1\<lparr>ext := x\<rparr>) w'"
    using ids_fresh_le [OF world_le_trans [OF world_le_ext that] w1(1)] .
  show thesis
  proof (cases "\<exists>outcome ledger2 w3 dr. out = Inr outcome \<and>
      settle_check L scope (rc_receipt_id r) outcome ?l1 (w1\<lparr>ext := x\<rparr>) = (Inr dr, ledger2, w3)")
    case False
    then have "\<exists>e. res = Inl e" "ledger' = ?l1" "seen' = insert (fingerprint L (effective p scope)) seen"
      "world_le (w1\<lparr>ext := x\<rparr>) w'"
      using run D out
      by (cases res; auto simp: Let_def split: sum.splits prod.splits dest: settle_check_frame(1,3))+
    with app r True show thesis using world_le_trans [OF w1x] fr by (intro that [of r]) auto
  next
    case True
    then obtain outcome w3 dr ledger2 where o: "out = Inr outcome"
      and S: "settle_check L scope (rc_receipt_id r) outcome ?l1 (w1\<lparr>ext := x\<rparr>) = (Inr dr, ledger2, w3)"
      by blast
    with run D out have res: "res = Inr dr" "ledger' = ledger2" "w' = w3"
      "seen' = insert (fingerprint L (effective p scope)) seen" by (auto simp: Let_def)
    note st = settle_check_settled [OF _ r(7,3) S]
    have st: "settled_by r dr" "\<And>ev. dr_evidence dr = Some ev \<Longrightarrow> minted L scope (rc_receipt_id r) (w1\<lparr>ext := x\<rparr>) ev"
      "lg_receipts ledger2 = lg_receipts ledger @ [(rc_receipt_id r, dr_receipt dr)]"
      "lg_budget ledger2 = lg_budget ledger" "lg_runbook_budget ledger2 = lg_runbook_budget ledger"
      using st by simp_all
    from st(1) have dr: "rc_receipt_id (dr_receipt dr) = rc_receipt_id r"
      "rc_policy_result (dr_receipt dr) = rc_policy_result r" "rc_state (dr_receipt dr) = SETTLED"
      "rc_tool (dr_receipt dr) = rc_tool r" "rc_arguments (dr_receipt dr) = rc_arguments r"
      "rc_fingerprint (dr_receipt dr) = rc_fingerprint r"
      "rc_evidence_id (dr_receipt dr) = map_option ev_evidence_id (dr_evidence dr)"
      by (auto simp: settled_by_def)
    have "minted L scope (rc_receipt_id r) w ev" if "dr_evidence dr = Some ev" for ev
      using st(2) [OF that] ids_fresh_le [OF w1x] by (simp add: minted_def)
    moreover have "appended L p scope ledger (dr_receipt dr) ledger'"
      using st(3-5) r dr settled_by_ok [OF st(1) r(1,2)] by (simp add: appended_def res)
    moreover have "world_le w w'" using w1x settle_check_frame(1) [OF S] unfolding res by (rule world_le_trans)
    moreover have "ids_fresh w' (insert (rc_receipt_id r) (known_ids ledger))"
      using fr settle_check_frame(1) [OF S] by (simp add: res)
    ultimately show thesis using res dr r \<open>permitted L p scope seen b ledger\<close>
      by (intro that [of "dr_receipt dr"]) auto
  qed
qed

lemma appended_wf: "appended L p scope ledger r ledger' \<Longrightarrow> ledger_wf (sc_incident_id scope) ledger \<Longrightarrow>
    ledger_wf (sc_incident_id scope) ledger'"
  by (auto simp: appended_def ledger_wf_def)

lemma appended_slots:
  assumes "appended L p scope ledger r ledger'"
  shows "slots_left_for ledger' t = slots_left_for ledger t -
     (if rc_policy_result r = ALLOWED \<and> (t = SEARCH_RUNBOOKS) = (tp_tool p = SEARCH_RUNBOOKS) then 1 else 0)"
proof -
  have "spent rb ledger' = spent rb ledger + (if spends rb r then 1 else 0)" for rb
    using assms by (simp add: appended_def spent_def)
  then show ?thesis using assms by (auto simp: slots_left_for_alt appended_def spends_def)
qed

lemma receipts_known: "ledger_wf i ledger \<Longrightarrow> known_ids ledger = rc_receipt_id ` set (ledger_receipts ledger)"
  by (subst ledger_wf_keys) (auto simp: o_def)

section \<open>Properties of the dispatch path\<close>

definition sample_denial :: tool_receipt where
  "sample_denial = \<lparr> rc_receipt_id = ''r'', rc_incident_id = ''inc-1'', rc_tool = GET_TOPOLOGY,
     rc_fingerprint = ''f'', rc_policy_result = DENIED, rc_state = SETTLED,
     rc_outcome = Some NOT_EXECUTED, rc_reason_code = Some CROSS_INCIDENT_REQUEST,
     rc_requested_at = 0, rc_duration_ms = 0, rc_result_digest = None, rc_evidence_id = None,
     rc_arguments = None \<rparr>"

definition sample_backend :: "unit backend" where
  "sample_backend a scope x = (Inr (Check \<lparr> co_outcome = EXECUTED, co_kind = CHANGE,
     co_source = ''changes'', co_summary = ''one change'', co_payload = [], co_reason_code = None,
     co_duration_ms = 3 \<rparr>), x)"

text \<open>
  C9: a proposal that policy does not permit (no slot left in its pool, a fingerprint seen
  before, or effective arguments outside the incident or the budgets) never reaches a backend:
  the world outside is untouched, the caller gets a denied receipt that names one of the
  policy's reasons, and no slot of either pool is spent.
\<close>

theorem denied_dispatch_reaches_no_backend:
  assumes "\<not> permitted L p scope seen b ledger" and "ids_fresh w (known_ids ledger)"
  shows "\<exists>dr ledger' w'. dispatch L (tp_tool p) (tp_tool p) run p scope seen b ledger w
       = (Inr dr, insert (fingerprint L (effective p scope)) seen, ledger', w')
     \<and> ext w' = ext w \<and> ledger_receipts ledger' = ledger_receipts ledger @ [dr_receipt dr]
     \<and> rc_policy_result (dr_receipt dr) = DENIED
     \<and> (\<exists>reason \<in> denial_reasons. rc_reason_code (dr_receipt dr) = Some reason)
     \<and> dr_evidence dr = None \<and> (\<forall>tool. slots_left_for ledger' tool = slots_left_for ledger tool)"
proof -
  have slots: "slots_left_for (ledger\<lparr>lg_receipts := lg_receipts ledger @ [(k, r)]\<rparr>) tool
      = slots_left_for ledger tool" if "rc_policy_result r = DENIED" for k r tool
    using that by (simp add: slots_left_for_alt spent_def spends_def)
  obtain r message w' where
    "dispatch L (tp_tool p) (tp_tool p) run p scope seen b ledger w =
       (Inr \<lparr> dr_receipt = r, dr_evidence = None, dr_passages = [], dr_retrieval_mode = None,
              dr_message = message \<rparr>,
        insert (fingerprint L (effective p scope)) seen,
        ledger\<lparr>lg_receipts := lg_receipts ledger @ [(rc_receipt_id r, r)]\<rparr>, w')"
    and "receipt_ok (sc_incident_id scope) r" "rc_policy_result r = DENIED" "ext w' = ext w"
    by (rule dispatch_denied [OF assms, of run])
  then show ?thesis using slots by (auto simp: ledger_receipts_def receipt_ok_def)
qed

theorem denied_dispatch_reaches_no_backend_witness:
  "\<exists>dr ledger' w'. dispatch sample_libs GET_TOPOLOGY GET_TOPOLOGY sample_backend sample_foreign
       sample_scope {} DEFAULT_BUDGETS (ledger_new 2 1) sample_world
       = (Inr dr, {fingerprint sample_libs (tp_arguments sample_foreign)}, ledger', w')
     \<and> rc_policy_result (dr_receipt dr) = DENIED \<and> ext w' = ()"
proof -
  have n: "\<not> permitted sample_libs sample_foreign sample_scope {} DEFAULT_BUDGETS (ledger_new 2 1)"
    by (simp add: permitted_def sample_foreign_def sample_scope_def)
  have t: "tp_tool sample_foreign = GET_TOPOLOGY"
    "effective sample_foreign sample_scope = tp_arguments sample_foreign"
    by (simp_all add: tp_tool_def sample_foreign_def)
  have f: "ids_fresh sample_world (known_ids (ledger_new 2 1))"
    using sample_ids_fresh by (simp add: ledger_new_def)
  show ?thesis
    using denied_dispatch_reaches_no_backend [OF n f, of sample_backend] by (auto simp: t)
qed

text \<open>
  C10: whatever a backend would do on arguments outside the incident or above the budgets does
  not matter: two backends that agree on in-scope arguments of the wrapper's own tool are
  indistinguishable through dispatch. So a backend only ever runs on arguments whose service
  is in the incident, whose window lies inside the incident and is not empty, whose incident
  id is the incident's and whose row or passage limit is within budget.
\<close>

theorem backend_runs_only_in_scope:
  assumes "\<And>a x. in_scope scope b a \<Longrightarrow> arguments_tool a = ty \<Longrightarrow> run a scope x = run' a scope x"
  shows "dispatch L tool ty run p scope seen b ledger w = dispatch L tool ty run' p scope seen b ledger w"
proof -
  let ?q = "p\<lparr>tp_arguments := effective p scope\<rparr>"
  let ?d = "authorize L ?q scope seen b (slots_left_for ledger tool)"
  show ?thesis
  proof (cases "arguments_tool (tp_arguments p) = ty \<and> pd_result ?d = ALLOWED")
    case True
    then have "in_scope scope b (effective p scope)" by (simp add: authorize_allowed_iff)
    with True assms have "run (effective p scope) scope x = run' (effective p scope) scope x" for x
      by simp
    then show ?thesis by (simp add: dispatch_def Let_def split: prod.split option.split)
  next
    case False
    then show ?thesis
      by (cases "arguments_tool (tp_arguments p) = ty") (simp_all add: dispatch_def Let_def not_allowed_iff)
  qed
qed

theorem backend_runs_only_in_scope_witness:
  "dispatch sample_libs GET_TOPOLOGY GET_TOPOLOGY
      (\<lambda>a sc x. if a = GetTopologyArguments \<lparr> gt_incident_id = ''inc-2'' \<rparr> then (Inl TypeError, x)
                else sample_backend a sc x)
      sample_foreign sample_scope {} DEFAULT_BUDGETS (ledger_new 2 1) sample_world
   = dispatch sample_libs GET_TOPOLOGY GET_TOPOLOGY sample_backend sample_foreign sample_scope {}
      DEFAULT_BUDGETS (ledger_new 2 1) sample_world"
  by (rule backend_runs_only_in_scope) (auto simp: sample_scope_def)

text \<open>
  C11: every dispatch on a well-formed ledger, whether denied, failed, raising or successful,
  leaves exactly one new receipt, a valid receipt of this incident for the effective
  arguments; it is allowed exactly when policy permits, and it is still \<open>RESERVED\<close> exactly
  when the dispatch raised; the ledger stays well-formed, and the pool of the tool loses one
  slot exactly for an allowed dispatch, the other pool none.
\<close>

theorem dispatch_accounts_for_every_call:
  assumes "ledger_wf (sc_incident_id scope) ledger" and "within_pools ledger"
    and "ids_fresh w (known_ids ledger)"
    and "dispatch L (tp_tool p) (tp_tool p) run p scope seen b ledger w = (res, seen', ledger', w')"
  shows "\<exists>r. ledger_receipts ledger' = ledger_receipts ledger @ [r]
     \<and> rc_arguments r = Some (effective p scope) \<and> rc_incident_id r = sc_incident_id scope
     \<and> (rc_policy_result r = ALLOWED \<longleftrightarrow> permitted L p scope seen b ledger)
     \<and> (rc_state r = RESERVED \<longleftrightarrow> (\<exists>e. res = Inl e))
     \<and> (\<forall>tool. slots_left_for ledger' tool = slots_left_for ledger tool -
          (if permitted L p scope seen b ledger \<and> (tool = SEARCH_RUNBOOKS) = (tp_tool p = SEARCH_RUNBOOKS)
           then 1 else 0))
     \<and> ledger_wf (sc_incident_id scope) ledger' \<and> within_pools ledger'"
proof -
  obtain r where app: "appended L p scope ledger r ledger'"
    and r: "rc_policy_result r = ALLOWED \<longleftrightarrow> permitted L p scope seen b ledger"
      "rc_state r = RESERVED \<longleftrightarrow> (\<exists>e. res = Inl e)"
    by (rule dispatch_appends [OF assms(4,3)])
  have slots: "slots_left_for ledger' tool = slots_left_for ledger tool -
      (if permitted L p scope seen b ledger \<and> (tool = SEARCH_RUNBOOKS) = (tp_tool p = SEARCH_RUNBOOKS)
       then 1 else 0)" for tool
    using appended_slots [OF app] r(1) by simp
  moreover have "within_pools ledger'"
    unfolding within_pools_def
  proof
    fix tool
    have "0 \<le> slots_left_for ledger tool" using assms(2) by (simp add: within_pools_def)
    moreover have "0 < slots_left_for ledger tool" if "permitted L p scope seen b ledger"
      "(tool = SEARCH_RUNBOOKS) = (tp_tool p = SEARCH_RUNBOOKS)"
      using that slots_left_for_pool [of tool "tp_tool p" ledger] by (simp add: permitted_def)
    ultimately show "0 \<le> slots_left_for ledger' tool" by (auto simp: slots)
  qed
  ultimately show ?thesis using app r appended_wf [OF app assms(1)]
    by (intro exI [of _ r]) (simp add: appended_def ledger_receipts_def receipt_ok_def)
qed

lemma ledger_new_wf: "ledger_wf i (ledger_new n k)" "0 \<le> n \<Longrightarrow> 0 \<le> k \<Longrightarrow> within_pools (ledger_new n k)"
  by (simp_all add: ledger_wf_def ledger_new_def within_pools_def slots_left_for_alt spent_def)

theorem dispatch_accounts_for_every_call_witness:
  "\<exists>r res seen' ledger' w'. dispatch sample_libs LIST_RECENT_CHANGES LIST_RECENT_CHANGES sample_backend
       sample_changes sample_scope {} DEFAULT_BUDGETS (ledger_new 2 1) sample_world = (res, seen', ledger', w')
     \<and> ledger_receipts ledger' = [r] \<and> rc_policy_result r = ALLOWED \<and> slots_left_for ledger' QUERY_LOGS = 1"
proof -
  have t: "tp_tool sample_changes = LIST_RECENT_CHANGES" by (simp add: tp_tool_def sample_changes_def)
  have p: "permitted sample_libs sample_changes sample_scope {} DEFAULT_BUDGETS (ledger_new 2 1)"
    by (simp add: permitted_def t sample_changes_def sample_scope_def slots_left_for_alt
        ledger_new_def spent_def window_inside_def clamp_start_def clamp_end_def)
  have f: "ids_fresh sample_world (known_ids (ledger_new 2 1))"
    using sample_ids_fresh by (simp add: ledger_new_def)
  obtain res seen' ledger' w' where d: "dispatch sample_libs LIST_RECENT_CHANGES LIST_RECENT_CHANGES
      sample_backend sample_changes sample_scope {} DEFAULT_BUDGETS (ledger_new 2 1) sample_world
      = (res, seen', ledger', w')" by (metis prod_cases4)
  have wf: "within_pools (ledger_new 2 1)" by (rule ledger_new_wf) simp_all
  have "ledger_receipts (ledger_new 2 1) = []" "slots_left_for (ledger_new 2 1) QUERY_LOGS = 2"
    by (simp_all add: ledger_receipts_def ledger_new_def slots_left_for_alt spent_def)
  with dispatch_accounts_for_every_call [OF ledger_new_wf(1) wf f d [folded t]] p d
  show ?thesis by (auto simp: t)
qed

text \<open>
  Dispatching a proposal again, or any proposal with the same effective arguments, in the
  seen-set the first dispatch left behind is denied, whether the first one was allowed or not:
  the policy answers \<open>DUPLICATE_PROPOSAL\<close>, or \<open>BUDGET_EXHAUSTED\<close> when the pool is empty.
\<close>

lemma repeated_proposal_denied:
  assumes "dispatch L (tp_tool p) (tp_tool p) run p scope seen b ledger w = (res, seen', ledger', w')"
    and "effective q scope = effective p scope"
  shows "pd_reason_code (authorize L (q\<lparr>tp_arguments := effective q scope\<rparr>) scope seen' b n) =
     Some (if n \<le> 0 then BUDGET_EXHAUSTED else DUPLICATE_PROPOSAL)"
proof -
  have "fingerprint L (effective p scope) \<in> seen'"
    using assms(1)
    by (auto simp: dispatch_def Let_def tp_tool_def split: if_splits prod.splits sum.splits option.splits)
  then show ?thesis using assms(2) by (simp add: authorize_def)
qed

lemma repeated_proposal_denied_witness:
  "\<exists>res seen' ledger' w'. dispatch sample_libs LIST_RECENT_CHANGES LIST_RECENT_CHANGES sample_backend
       sample_changes sample_scope {} DEFAULT_BUDGETS (ledger_new 2 1) sample_world = (res, seen', ledger', w')
     \<and> pd_reason_code (authorize sample_libs (sample_changes\<lparr>tp_arguments := effective sample_changes
          sample_scope\<rparr>) sample_scope seen' DEFAULT_BUDGETS 1) = Some DUPLICATE_PROPOSAL"
proof -
  obtain res seen' ledger' w' where d: "dispatch sample_libs LIST_RECENT_CHANGES LIST_RECENT_CHANGES
      sample_backend sample_changes sample_scope {} DEFAULT_BUDGETS (ledger_new 2 1) sample_world
      = (res, seen', ledger', w')" by (metis prod_cases4)
  have t: "tp_tool sample_changes = LIST_RECENT_CHANGES" by (simp add: tp_tool_def sample_changes_def)
  from repeated_proposal_denied [OF d [folded t] refl, of 1] d show ?thesis by auto
qed

text \<open>
  The window clamp of \<open>resolve_effective_window\<close> keeps exactly the requested instants that
  lie in the incident (an omitted bound asks for everything on that side), never changes the
  tool or the service, and clamping twice is clamping once.
\<close>

lemma effective_window_is_intersection:
  assumes "arguments_window a = Some (ws, we)"
  shows "\<exists>s e. arguments_window (resolve_effective_window a scope) = Some (Some s, Some e)
     \<and> (\<forall>t. s \<le> t \<and> t \<le> e \<longleftrightarrow> in_window ws we t \<and> sc_started_at scope \<le> t \<and> t \<le> sc_ended_at scope)
     \<and> arguments_tool (resolve_effective_window a scope) = arguments_tool a
     \<and> arguments_service (resolve_effective_window a scope) = arguments_service a
     \<and> resolve_effective_window (resolve_effective_window a scope) scope = resolve_effective_window a scope"
  using resolve_window [OF assms, of scope] clamp_within [of scope ws we]
  by (simp add: in_window_def)

lemma effective_window_is_intersection_witness:
  "arguments_window (resolve_effective_window (tp_arguments sample_changes) sample_scope)
     = Some (Some 0, Some 1000)
   \<and> arguments_tool (resolve_effective_window (tp_arguments sample_changes) sample_scope) = LIST_RECENT_CHANGES"
proof -
  have "arguments_window (tp_arguments sample_changes) = Some (Some (-50), None)"
    by (simp add: sample_changes_def)
  from effective_window_is_intersection [OF this, of sample_scope] show ?thesis
    by (simp add: sample_changes_def sample_scope_def clamp_start_def clamp_end_def)
qed

text \<open>
  Over any sequence of reservations under fresh ids, settlements and recorded denials, no
  pool is ever overdrawn and none is ever refilled.
\<close>

lemma pools_never_overdrawn:
  assumes "ledger_step\<^sup>*\<^sup>* ledger ledger'" and "0 \<le> slots_left_for ledger tool"
  shows "0 \<le> slots_left_for ledger' tool \<and> slots_left_for ledger' tool \<le> slots_left_for ledger tool"
  using checks.never_overdrawn [OF assms] checks.never_refilled [OF assms(1)] by simp

lemma pools_never_overdrawn_witness:
  "\<exists>l. record_receipt (ledger_new 2 1) sample_denial = Inr l \<and> 0 \<le> slots_left_for l GET_TOPOLOGY"
proof -
  obtain l where l: "record_receipt (ledger_new 2 1) sample_denial = Inr l"
    by (simp add: record_receipt_def ledger_new_def sample_denial_def)
  then have "ledger_step\<^sup>*\<^sup>* (ledger_new 2 1) l" by (blast intro: step_record)
  from pools_never_overdrawn [OF this, of GET_TOPOLOGY] l show ?thesis
    by (simp add: slots_left_for_alt ledger_new_def spent_def)
qed

end
