(* ===== verification/ToolCalls.thy ===== *)
theory ToolCalls
  imports Domain
begin

text \<open>
  \<open>src/causalops/tool_calls.py\<close>: selecting the one tool call of a model turn and turning it
  into a typed proposal, or refusing it with an account of why; and the encoder the replay
  adapter uses in the other direction.
\<close>

record native_tool_call =
  tc_name :: string
  tc_args :: "json pydict"
  tc_id :: string

definition select_single_tool_call :: "native_tool_call list \<Rightarrow> native_tool_call option" where
  "select_single_tool_call calls = (case calls of [c] \<Rightarrow> Some c | _ \<Rightarrow> None)"

text \<open>
  \<open>str.__repr__\<close>, as \<open>f"{text!r}"\<close> writes it: single quotes unless the text holds one and no
  double quote, with escapes for the quote, the backslash and what is not printable.
\<close>

definition py_repr :: "string \<Rightarrow> string" where
  "py_repr s = (let q = (if CHR 0x27 \<in> set s \<and> CHR 0x22 \<notin> set s then CHR 0x22 else CHR 0x27) in
     [q] @ concat (map (\<lambda>c. let n = of_char c :: nat in
        if c = q \<or> n = 92 then [CHR 0x5C, c]
        else if n = 10 then [CHR 0x5C, CHR ''n'']
        else if n = 13 then [CHR 0x5C, CHR ''r'']
        else if n = 9 then [CHR 0x5C, CHR ''t'']
        else if n < 32 \<or> (127 \<le> n \<and> n \<le> 160) \<or> n = 173
          then [CHR 0x5C, CHR ''x'', hex_digit (n div 16), hex_digit (n mod 16)]
        else [c]) s) @ [q])"

text \<open>The keys of a call that are siblings of the tool's own arguments.\<close>

definition sibling_keys :: "string list" where
  "sibling_keys = [''evidence_gap'', ''expected_observation'', ''hypotheses'']"

text \<open>The arguments proper, with the discriminator restored from the call's name.\<close>

definition argument_values :: "tool_name \<Rightarrow> json pydict \<Rightarrow> json pydict" where
  "argument_values declared_name args =
     dict_set ''tool'' (JStr (tool_value declared_name))
       (filter (\<lambda>kv. fst kv \<notin> set sibling_keys) args)"

text \<open>The tail of \<open>parse_tool_call\<close>: the two rationale strings and the whole proposal.\<close>

definition parse_rationale ::
    "libs \<Rightarrow> json pydict \<Rightarrow> tool_arguments \<Rightarrow> tool_proposal option \<times> string" where
  "parse_rationale L args arguments =
     (case (dict_get args ''evidence_gap'', dict_get args ''expected_observation'') of
        (Some (JStr gap), Some (JStr observation)) \<Rightarrow>
          (let p = \<lparr> tp_arguments = arguments, tp_evidence_gap = gap,
                     tp_expected_observation = observation \<rparr>
           in case tool_proposal_validate p of
                Inl _ \<Rightarrow> (None, proposal_errors L p)
              | Inr p' \<Rightarrow> (Some p', []))
      | _ \<Rightarrow> (None, ''evidence_gap and expected_observation must both be present strings''))"

definition parse_tool_call :: "libs \<Rightarrow> native_tool_call \<Rightarrow> tool_proposal option \<times> string" where
  "parse_tool_call L call =
     (case tool_of_value (tc_name call) of
        None \<Rightarrow> (None, ''unknown registered tool name '' @ py_repr (tc_name call))
      | Some declared_name \<Rightarrow>
        (case dict_get (tc_args call) ''tool'' of
           Some (JStr declared_tool) \<Rightarrow>
             if declared_tool \<noteq> tool_value declared_name
             then (None, ''the tool call's name '' @ py_repr (tc_name call)
                   @ '' does not match its arguments' declared tool '' @ py_repr declared_tool)
             else (case args_validate L (argument_values declared_name (tc_args call)) of
                     Inl errors \<Rightarrow> (None, errors)
                   | Inr arguments \<Rightarrow> parse_rationale L (tc_args call) arguments)
         | Some _ \<Rightarrow> (None, ''tool must be a string when present'')
         | None \<Rightarrow> (case args_validate L (argument_values declared_name (tc_args call)) of
                     Inl errors \<Rightarrow> (None, errors)
                   | Inr arguments \<Rightarrow> parse_rationale L (tc_args call) arguments)))"

definition to_tool_call :: "libs \<Rightarrow> tool_proposal \<Rightarrow> string \<Rightarrow> native_tool_call" where
  "to_tool_call L proposal call_id =
     \<lparr> tc_name = tool_value (tp_tool proposal),
       tc_args = dict_set ''expected_observation'' (JStr (tp_expected_observation proposal))
          (dict_set ''evidence_gap'' (JStr (tp_evidence_gap proposal))
             (args_model_dump L (tp_arguments proposal))),
       tc_id = call_id \<rparr>"

section \<open>Properties\<close>

lemma select_single_iff: "select_single_tool_call calls = Some c \<longleftrightarrow> calls = [c]"
  by (auto simp: select_single_tool_call_def split: list.splits)

lemma parse_rationale_valid:
  "parse_rationale L args a = (Some p, e) \<Longrightarrow>
     tool_proposal_validate p = Inr p \<and> tp_arguments p = a \<and> e = []"
  by (auto simp: parse_rationale_def Let_def split: option.splits json.splits sum.splits
      dest: validate_returns_input)

text \<open>
  What the code relies on of pydantic: the dumped object carries the discriminator, none of
  the sibling keys, and validating it gives the value back.
\<close>

definition dump_roundtrips :: "libs \<Rightarrow> tool_arguments \<Rightarrow> bool" where
  "dump_roundtrips L a \<longleftrightarrow>
     dict_get (args_model_dump L a) ''tool'' = Some (JStr (tool_value (arguments_tool a)))
     \<and> set sibling_keys \<inter> set (dict_keys (args_model_dump L a)) = {}
     \<and> distinct (dict_keys (args_model_dump L a))
     \<and> args_validate L (args_model_dump L a) = Inr a"

lemma update_same: "map_of d k = Some v \<Longrightarrow> AList.update k v d = d"
  by (induction d) (auto split: if_splits)

lemma argument_values_dump:
  assumes "dump_roundtrips L a"
  shows "argument_values (arguments_tool a)
      (dict_set ''expected_observation'' x (dict_set ''evidence_gap'' y (args_model_dump L a)))
     = args_model_dump L a"
proof -
  let ?d = "args_model_dump L a"
  have sib: "''expected_observation'' \<notin> set (dict_keys ?d)" "''evidence_gap'' \<notin> set (dict_keys ?d)"
    using assms by (fastforce simp: dump_roundtrips_def sibling_keys_def)+
  have all: "\<forall>kv \<in> set ?d. fst kv \<notin> set sibling_keys"
    using assms unfolding dump_roundtrips_def by (metis disjoint_iff imageI list.set_map)
  have "dict_set ''expected_observation'' x (dict_set ''evidence_gap'' y ?d)
      = ?d @ [(''evidence_gap'', y), (''expected_observation'', x)]"
    using sib by (simp add: update_fresh)
  moreover have "filter (\<lambda>kv. fst kv \<notin> set sibling_keys) ?d = ?d" using all by (simp add: filter_id_conv)
  moreover have "filter (\<lambda>kv. fst kv \<notin> set sibling_keys)
      [(''evidence_gap'', y), (''expected_observation'', x)] = []" by (simp add: sibling_keys_def)
  ultimately have "filter (\<lambda>kv. fst kv \<notin> set sibling_keys)
      (dict_set ''expected_observation'' x (dict_set ''evidence_gap'' y ?d)) = ?d" by simp
  then show ?thesis using assms by (simp add: argument_values_def update_same dump_roundtrips_def)
qed

text \<open>The encoded call of a valid proposal is read back as the proposal.\<close>

lemma to_tool_call_parses:
  assumes "dump_roundtrips L (tp_arguments p)" and "tool_proposal_validate p = Inr p"
  shows "parse_tool_call L (to_tool_call L p call_id) = (Some p, [])"
proof -
  let ?args = "dict_set ''expected_observation'' (JStr (tp_expected_observation p))
      (dict_set ''evidence_gap'' (JStr (tp_evidence_gap p)) (args_model_dump L (tp_arguments p)))"
  have t: "tp_tool p = arguments_tool (tp_arguments p)" by (simp add: tp_tool_def)
  have a: "dict_get ?args ''tool'' = Some (JStr (tool_value (tp_tool p)))"
    using assms(1) by (simp add: dump_roundtrips_def t update_conv)
  have v: "args_validate L (argument_values (tp_tool p) ?args) = Inr (tp_arguments p)"
    using assms(1) by (simp only: t argument_values_dump) (simp add: dump_roundtrips_def)
  have eta: "\<lparr> tp_arguments = tp_arguments p, tp_evidence_gap = tp_evidence_gap p,
      tp_expected_observation = tp_expected_observation p \<rparr> = p" by simp
  have r: "parse_rationale L ?args (tp_arguments p) = (Some p, [])"
    using assms(2) by (simp add: parse_rationale_def Let_def eta update_conv)
  show ?thesis using a v r
    by (simp add: parse_tool_call_def to_tool_call_def tool_of_value_value)
qed

end
