(* ===== verification/RunRecords.thy ===== *)
theory RunRecords
  imports Samples
begin

text \<open>
  \<open>src/causalops/run_records.py\<close>: the ordered events of a run. A recorder is the list of the
  events recorded so far; its clock is the event clock of the world.
\<close>

definition SCHEMA_VERSION :: string where
  "SCHEMA_VERSION = ''1''"

record run_event =
  re_schema_version :: string
  re_sequence :: int
  re_at :: instant
  re_state :: string
  re_name :: string
  re_fields :: "json pydict"

definition record_event ::
    "graph_phase \<Rightarrow> string \<Rightarrow> json pydict \<Rightarrow> run_event list \<Rightarrow> 'w world \<Rightarrow> run_event list \<times> 'w world" where
  "record_event state name flds recorded w =
     (case read_event_clock w of (now, w') \<Rightarrow>
        (recorded @ [\<lparr> re_schema_version = SCHEMA_VERSION, re_sequence = int (length recorded) + 1,
           re_at = now, re_state = phase_value state, re_name = name, re_fields = flds \<rparr>], w'))"

text \<open>Events are numbered from one, without gaps.\<close>

definition events_ok :: "run_event list \<Rightarrow> bool" where
  "events_ok evs \<longleftrightarrow> map re_sequence evs = map (\<lambda>n. int n + 1) [0..<length evs]"

lemma events_ok_Nil [simp]: "events_ok []"
  by (simp add: events_ok_def)

lemma record_event_ok:
  assumes "record_event st nm fs evs w = (evs', w')"
  shows "events_ok evs \<Longrightarrow> events_ok evs'" and "world_le w w'" and "ext w' = ext w"
    and "prefix evs evs'" and "clock_n w' = clock_n w" and "id_n w' = id_n w"
  using assms by (auto simp: record_event_def read_event_clock_def events_ok_def world_le_def)

end
