(* ===== verification/Approvals.thy ===== *)
theory Approvals
  imports Samples
begin

text \<open>
  \<open>src/causalops/approvals.py\<close>: the owner's decision on a paused investigation, validated
  before anything durable is written, and the append-only \<open>owner_decisions\<close> table. The table is
  a list of rows; flags say where SQLite raises.
\<close>

section \<open>Decisions\<close>

record owner_decision =
  od_decision :: decision
  od_rejection_note :: "string option"

text \<open>\<open>_normalize_note\<close>: \<open>note.strip() or None\<close> for a text, before the fields are validated.\<close>

definition normalize_note :: "string option \<Rightarrow> string option" where
  "normalize_note note = (case note of None \<Rightarrow> None
     | Some n \<Rightarrow> if py_strip n = [] then None else Some (py_strip n))"

definition owner_decision_new :: "decision \<Rightarrow> string option \<Rightarrow> exn + owner_decision" where
  "owner_decision_new d note = (let n = normalize_note note in
     if \<exists>t \<in> set_option n. 300 < length t then Inl ValidationError
     else if d = Reject \<and> n = None then Inl ValidationError
     else if d = Accept \<and> n \<noteq> None then Inl ValidationError
     else Inr \<lparr> od_decision = d, od_rejection_note = n \<rparr>)"

text \<open>The resume value is a JSON mapping.\<close>

definition note_json :: "string option \<Rightarrow> json" where
  "note_json note = (case note of None \<Rightarrow> JNull | Some n \<Rightarrow> JStr n)"

definition resume_value :: "owner_decision \<Rightarrow> json" where
  "resume_value d = JObj [(''decision'', JStr (decision_value (od_decision d))),
     (''rejection_note'', note_json (od_rejection_note d))]"

record decision_row =
  dc_thread_id :: string
  dc_checkpoint_id :: string
  dc_decision :: decision
  dc_rejection_note :: "string option"
  dc_decided_at :: instant

definition decision_row_validate :: "decision_row \<Rightarrow> exn + decision_row" where
  "decision_row_validate r =
     (if dc_decision r = Reject \<and>
        (case dc_rejection_note r of None \<Rightarrow> True | Some n \<Rightarrow> n = [] \<or> py_strip n = [])
        then Inl ValidationError
      else if dc_decision r = Accept \<and> dc_rejection_note r \<noteq> None then Inl ValidationError
      else Inr r)"

definition matches :: "decision_row \<Rightarrow> owner_decision \<Rightarrow> bool" where
  "matches r d \<longleftrightarrow> dc_decision r = od_decision d \<and> dc_rejection_note r = od_rejection_note d"

section \<open>The table\<close>

definition ensure_decisions_table :: "bool \<Rightarrow> exn + unit" where
  "ensure_decisions_table fault = (if fault then Inl (CheckpointStoreError STORE_UNAVAILABLE) else Inr ())"

text \<open>\<open>ORDER BY decided_at DESC LIMIT 1\<close>: the newest row of the thread, the earliest of several.\<close>

definition newest :: "decision_row list \<Rightarrow> decision_row option" where
  "newest rows = fold (\<lambda>r best. case best of None \<Rightarrow> Some r
      | Some b \<Rightarrow> if dc_decided_at b < dc_decided_at r then Some r else Some b) rows None"

definition read_decision_for_thread ::
    "bool \<Rightarrow> decision_row list \<Rightarrow> string \<Rightarrow> exn + decision_row option" where
  "read_decision_for_thread fault rows thread_id =
     (if fault then Inl (CheckpointStoreError STORE_UNAVAILABLE)
      else case newest (filter (\<lambda>r. dc_thread_id r = thread_id) rows) of
        None \<Rightarrow> Inr None
      | Some r \<Rightarrow> (case decision_row_validate r of
            Inl _ \<Rightarrow> Inl (CheckpointStoreError STORE_UNAVAILABLE)
          | Inr r' \<Rightarrow> Inr (Some r')))"

definition record_decision_before_resume ::
    "bool \<Rightarrow> decision_row list \<Rightarrow> string \<Rightarrow> string \<Rightarrow> owner_decision \<Rightarrow> instant \<Rightarrow>
     (exn + unit) \<times> decision_row list" where
  "record_decision_before_resume fault rows thread_id checkpoint_id d decided_at =
     (if fault then (Inl (CheckpointStoreError STORE_UNAVAILABLE), rows)
      else if \<exists>r \<in> set rows. dc_thread_id r = thread_id \<and> dc_checkpoint_id r = checkpoint_id
        then (Inl (CheckpointStoreError CONFLICTING_DECISION), rows)
      else (Inr (), rows @ [\<lparr> dc_thread_id = thread_id, dc_checkpoint_id = checkpoint_id,
              dc_decision = od_decision d, dc_rejection_note = od_rejection_note d,
              dc_decided_at = decided_at \<rparr>]))"

section \<open>Properties\<close>

lemma owner_decision_new_iff:
  "owner_decision_new d note = Inr od \<longleftrightarrow> od = \<lparr> od_decision = d, od_rejection_note = normalize_note note \<rparr>
     \<and> (d = Accept \<longleftrightarrow> normalize_note note = None)
     \<and> (\<forall>t \<in> set_option (normalize_note note). length t \<le> 300)"
  by (cases d) (auto simp: owner_decision_new_def Let_def)

lemma normalize_note_Some: "normalize_note note = Some n \<Longrightarrow> n \<noteq> [] \<and> py_strip n = n"
  by (auto simp: normalize_note_def py_strip_idem split: option.splits if_splits)

text \<open>
  C24: a decision the CLI boundary accepts carries a note exactly when it is a rejection, the
  note is stripped, not blank and at most 300 characters long; recorded and read back for its
  thread it is the very row written, which matches the decision and no other, and the report's
  escalation record accepts the same pair of values.
\<close>

theorem recorded_decision_reads_back:
  assumes "owner_decision_new d note = Inr od"
    and "\<forall>r \<in> set rows. dc_thread_id r \<noteq> thread"
    and "record_decision_before_resume False rows thread cp od at_time = (res, rows')"
  shows "res = Inr () \<and> (\<exists>row. rows' = rows @ [row]
     \<and> read_decision_for_thread False rows' thread = Inr (Some row)
     \<and> (\<forall>od'. matches row od' \<longleftrightarrow> od' = od))
     \<and> escalation_record_validate \<lparr> er_reason = reason, er_decision = od_decision od,
         er_rejection_note = od_rejection_note od \<rparr>
       = Inr \<lparr> er_reason = reason, er_decision = od_decision od,
         er_rejection_note = od_rejection_note od \<rparr>
     \<and> (case od_rejection_note od of None \<Rightarrow> d = Accept
        | Some n \<Rightarrow> d = Reject \<and> n \<noteq> [] \<and> py_strip n = n \<and> length n \<le> 300)"
proof -
  let ?row = "\<lparr> dc_thread_id = thread, dc_checkpoint_id = cp, dc_decision = od_decision od,
      dc_rejection_note = od_rejection_note od, dc_decided_at = at_time \<rparr>"
  from assms(1) have od: "od_decision od = d" "od_rejection_note od = normalize_note note"
    and pair: "d = Accept \<longleftrightarrow> normalize_note note = None"
    and len: "\<forall>t \<in> set_option (normalize_note note). length t \<le> 300"
    by (simp_all add: owner_decision_new_iff)
  have d: "d \<noteq> Accept \<longleftrightarrow> d = Reject" by (cases d) auto
  have "filter (\<lambda>r. dc_thread_id r = thread) (rows @ [?row]) = [?row]" using assms(2) by (simp add: filter_empty_conv)
  moreover have "decision_row_validate ?row = Inr ?row"
    using od pair d normalize_note_Some [of "note"]
    by (auto simp: decision_row_validate_def split: option.splits)
  ultimately have "read_decision_for_thread False (rows @ [?row]) thread = Inr (Some ?row)"
    by (simp add: read_decision_for_thread_def newest_def)
  moreover have "res = Inr ()" "rows' = rows @ [?row]"
    using assms(2,3) by (auto simp: record_decision_before_resume_def split: if_splits)
  moreover have "matches ?row od' \<longleftrightarrow> od' = od" for od'
    by (cases od; cases od') (auto simp: matches_def)
  ultimately show ?thesis
    using od pair d len normalize_note_Some [of "note"]
    by (auto simp: escalation_record_validate_def split: option.splits)
qed

theorem recorded_decision_reads_back_witness:
  "\<exists>od rows'. owner_decision_new Reject (Some '' not convinced '') = Inr od
     \<and> record_decision_before_resume False [] ''t'' ''c'' od 5 = (Inr (), rows')
     \<and> (\<exists>row. read_decision_for_thread False rows' ''t'' = Inr (Some row) \<and> matches row od)"
proof -
  obtain od where od: "owner_decision_new Reject (Some '' not convinced '') = Inr od"
    by (simp add: owner_decision_new_def normalize_note_def py_strip_def is_space_def Let_def)
  obtain res rows' where r: "record_decision_before_resume False [] ''t'' ''c'' od 5 = (res, rows')"
    by (metis surj_pair)
  from recorded_decision_reads_back [OF od _ r, of CONFLICTING_EVIDENCE] od r show ?thesis by auto
qed

text \<open>
  Decisions are append-only: recording never changes or removes a row, a second decision for the
  same paused checkpoint is refused, and a store failure writes nothing.
\<close>

lemma decisions_are_append_only:
  "(\<exists>tail. snd (record_decision_before_resume fault rows thread cp od t) = rows @ tail)
   \<and> ((\<exists>r \<in> set rows. dc_thread_id r = thread \<and> dc_checkpoint_id r = cp) \<and> \<not> fault \<longrightarrow>
       record_decision_before_resume fault rows thread cp od t = (Inl (CheckpointStoreError CONFLICTING_DECISION), rows))
   \<and> (fault \<longrightarrow> record_decision_before_resume fault rows thread cp od t
        = (Inl (CheckpointStoreError STORE_UNAVAILABLE), rows))"
  by (auto simp: record_decision_before_resume_def)

end
