(* ===== verification/CostLedger.thy ===== *)
theory CostLedger
  imports Samples
begin

text \<open>
  \<open>src/causalops/pricing.py\<close> and \<open>src/causalops/cost_ledger.py\<close>: the price of a request and
  the application-wide spend gate. Money is a binary64 value. The \<open>cost_ledger\<close> table is the
  list of its rows in the order SQLite scans them (insertion order); a parameter says at which
  step of an operation SQLite raises, and every operation returns the committed table with its
  result, on its raising paths too.
\<close>

section \<open>Pricing\<close>

definition MAX_INPUT_TOKENS :: int where
  "MAX_INPUT_TOKENS = 9600"

definition MAX_OUTPUT_TOKENS :: int where
  "MAX_OUTPUT_TOKENS = 1600"

definition estimate_input_tokens :: "string \<Rightarrow> int" where
  "estimate_input_tokens text = (if text = [] then 0 else - ((- int (length text)) div 1))"

record pricing_snapshot =
  ps_model_name :: string
  ps_input_usd_per_million_tokens :: rat
  ps_output_usd_per_million_tokens :: rat
  ps_supports_adaptive_thinking :: bool

definition token_cost :: "int \<Rightarrow> rat \<Rightarrow> pyfloat" where
  "token_cost tokens usd_per_million = f_mul_fin (f_div_int tokens 1000000) usd_per_million"

definition actual_cost_usd :: "pricing_snapshot \<Rightarrow> int \<Rightarrow> int \<Rightarrow> pyfloat" where
  "actual_cost_usd ps tokens_in tokens_out =
     f_add (token_cost tokens_in (ps_input_usd_per_million_tokens ps))
           (token_cost tokens_out (ps_output_usd_per_million_tokens ps))"

definition reservation_usd :: "pricing_snapshot \<Rightarrow> int \<Rightarrow> int \<Rightarrow> pyfloat" where
  "reservation_usd ps tokens_in max_output_tokens =
     f_add (token_cost tokens_in (ps_input_usd_per_million_tokens ps))
           (token_cost max_output_tokens (ps_output_usd_per_million_tokens ps))"

definition CLAUDE_SONNET_5_PRICING :: pricing_snapshot where
  "CLAUDE_SONNET_5_PRICING = \<lparr> ps_model_name = ''claude-sonnet-5'',
     ps_input_usd_per_million_tokens = 2, ps_output_usd_per_million_tokens = 10,
     ps_supports_adaptive_thinking = True \<rparr>"

definition CLAUDE_HAIKU_4_5_PRICING :: pricing_snapshot where
  "CLAUDE_HAIKU_4_5_PRICING = \<lparr> ps_model_name = ''claude-haiku-4-5-20251001'',
     ps_input_usd_per_million_tokens = 1, ps_output_usd_per_million_tokens = 5,
     ps_supports_adaptive_thinking = False \<rparr>"

definition CLAUDE_OPUS_5_PRICING :: pricing_snapshot where
  "CLAUDE_OPUS_5_PRICING = \<lparr> ps_model_name = ''claude-opus-5'',
     ps_input_usd_per_million_tokens = 5, ps_output_usd_per_million_tokens = 25,
     ps_supports_adaptive_thinking = True \<rparr>"

section \<open>Rows\<close>

text \<open>The literal \<open>0.10\<close>.\<close>

definition RESERVATION_CEILING_BUFFER_USD :: pyfloat where
  "RESERVATION_CEILING_BUFFER_USD = fl (1 / 10)"

datatype ledger_state = L_RESERVED | L_SETTLED

record cost_ledger_row =
  cl_run_id :: string
  cl_graph_phase :: string
  cl_model_turn :: int
  cl_context_digest :: string
  cl_state :: ledger_state
  cl_reserved_usd :: pyfloat
  cl_actual_usd :: "pyfloat option"
  cl_input_tokens :: "int option"
  cl_output_tokens :: "int option"
  cl_reserved_at :: instant
  cl_settled_at :: "instant option"

type_synonym cost_table = "cost_ledger_row list"
type_synonym request_key = "string \<times> string \<times> int \<times> string"

definition row_key :: "cost_ledger_row \<Rightarrow> request_key" where
  "row_key r = (cl_run_id r, cl_graph_phase r, cl_model_turn r, cl_context_digest r)"

text \<open>\<open>Field(ge=0, allow_inf_nan=False)\<close> on the amounts, \<open>ge=0\<close> on the token counts.\<close>

definition valid_amount :: "pyfloat \<Rightarrow> bool" where
  "valid_amount v \<longleftrightarrow> is_finite v \<and> \<not> f_lt v (Fin 0)"

definition row_fields_ok :: "cost_ledger_row \<Rightarrow> bool" where
  "row_fields_ok r \<longleftrightarrow> valid_amount (cl_reserved_usd r)
     \<and> (case cl_actual_usd r of None \<Rightarrow> True | Some a \<Rightarrow> valid_amount a)
     \<and> (case cl_input_tokens r of None \<Rightarrow> True | Some n \<Rightarrow> 0 \<le> n)
     \<and> (case cl_output_tokens r of None \<Rightarrow> True | Some n \<Rightarrow> 0 \<le> n)"

definition lifecycle_is_complete :: "cost_ledger_row \<Rightarrow> exn + cost_ledger_row" where
  "lifecycle_is_complete r = (let
     some_metadata = cl_actual_usd r \<noteq> None \<or> cl_input_tokens r \<noteq> None
       \<or> cl_output_tokens r \<noteq> None \<or> cl_settled_at r \<noteq> None;
     some_missing = cl_actual_usd r = None \<or> cl_input_tokens r = None
       \<or> cl_output_tokens r = None \<or> cl_settled_at r = None
   in if cl_state r = L_RESERVED \<and> some_metadata then Inl ValidationError
      else if cl_state r = L_SETTLED \<and> some_missing then Inl ValidationError
      else Inr r)"

definition parse_cost_ledger_row :: "cost_ledger_row \<Rightarrow> exn + cost_ledger_row" where
  "parse_cost_ledger_row raw =
     (if \<not> row_fields_ok raw then Inl ValidationError else lifecycle_is_complete raw)"

section \<open>Reads\<close>

text \<open>The statements of an operation at which SQLite can raise.\<close>

datatype db_step = Ensure_Table | Begin_Immediate | Read_Key | Scan_All | Write_Row | Commit | Read_Back

type_synonym db_faults = "db_step \<Rightarrow> bool"

abbreviation store_unavailable :: exn where
  "store_unavailable \<equiv> CheckpointStoreError STORE_UNAVAILABLE"

abbreviation sqlite_error :: exn where
  "sqlite_error \<equiv> OtherError ''OperationalError''"

text \<open>\<open>_read_row\<close>: a \<open>sqlite3.Error\<close> is the caller's to convert.\<close>

definition read_row :: "bool \<Rightarrow> cost_table \<Rightarrow> request_key \<Rightarrow> exn + cost_ledger_row option" where
  "read_row fault table key =
     (if fault then Inl sqlite_error
      else case find (\<lambda>r. row_key r = key) table of
        None \<Rightarrow> Inr None
      | Some raw \<Rightarrow> (case parse_cost_ledger_row raw of
            Inl _ \<Rightarrow> Inl store_unavailable
          | Inr row \<Rightarrow> Inr (Some row)))"

definition valid_money :: "pyfloat \<Rightarrow> exn + pyfloat" where
  "valid_money amount = (if \<not> is_finite amount \<or> f_lt amount (Fin 0) then Inl ValueError else Inr amount)"

definition valid_tokens :: "int \<Rightarrow> exn + int" where
  "valid_tokens n = (if n < 0 then Inl ValueError else Inr n)"

text \<open>
  The builtin \<open>sum\<close> over floats (Python 3.12): Neumaier's compensated summation, started from
  the first element; \<open>0\<close> for no element.
\<close>

fun f_abs :: "pyfloat \<Rightarrow> pyfloat" where
  "f_abs (Fin a) = Fin (abs a)"
| "f_abs NegInf = PosInf"
| "f_abs v = v"

definition cs_add :: "pyfloat \<times> pyfloat \<Rightarrow> pyfloat \<Rightarrow> pyfloat \<times> pyfloat" where
  "cs_add acc x = (case acc of (hi, lo) \<Rightarrow> let t = f_add hi x in
     (t, f_add lo (if f_le (f_abs x) (f_abs hi) then f_add (f_sub hi t) x else f_add (f_sub x t) hi)))"

definition cs_to_double :: "pyfloat \<times> pyfloat \<Rightarrow> pyfloat" where
  "cs_to_double acc = (case acc of (hi, lo) \<Rightarrow>
     if lo \<noteq> Fin 0 \<and> is_finite lo then f_add hi lo else hi)"

definition py_sum :: "pyfloat list \<Rightarrow> pyfloat" where
  "py_sum xs = (case xs of [] \<Rightarrow> Fin 0
     | x # ys \<Rightarrow> cs_to_double (foldl cs_add (x, Fin 0) ys))"

definition run_cost_totals :: "db_faults \<Rightarrow> cost_table \<Rightarrow> string \<Rightarrow> exn + (pyfloat \<times> pyfloat \<times> bool)" where
  "run_cost_totals flt table run_id =
     (if flt Ensure_Table \<or> flt Scan_All then Inl store_unavailable
      else case map_r parse_cost_ledger_row (filter (\<lambda>r. cl_run_id r = run_id) table) of
        Inl _ \<Rightarrow> Inl store_unavailable
      | Inr parsed \<Rightarrow> Inr (py_sum (map cl_reserved_usd parsed),
           py_sum (map (\<lambda>r. case cl_actual_usd r of None \<Rightarrow> Fin 0 | Some a \<Rightarrow> a)
                     (filter (\<lambda>r. cl_state r = L_SETTLED) parsed)),
           list_all (\<lambda>r. cl_state r = L_SETTLED) parsed))"

definition accounted_usd :: "cost_ledger_row \<Rightarrow> pyfloat" where
  "accounted_usd r =
     (if cl_state r = L_SETTLED
      then f_max (cl_reserved_usd r) (case cl_actual_usd r of None \<Rightarrow> Fin 0 | Some a \<Rightarrow> a)
      else cl_reserved_usd r)"

fun total_loop :: "cost_table \<Rightarrow> pyfloat \<Rightarrow> exn + pyfloat" where
  "total_loop [] acc = Inr acc"
| "total_loop (raw # rows) acc =
     bind_r (parse_cost_ledger_row raw) (\<lambda>row. total_loop rows (f_add acc (accounted_usd row)))"

definition reserved_and_settled_total :: "bool \<Rightarrow> cost_table \<Rightarrow> exn + pyfloat" where
  "reserved_and_settled_total fault table =
     (if fault then Inl store_unavailable
      else case total_loop table (Fin 0) of Inl _ \<Rightarrow> Inl store_unavailable | Inr t \<Rightarrow> Inr t)"

definition application_wide_spend_usd :: "db_faults \<Rightarrow> cost_table \<Rightarrow> exn + pyfloat" where
  "application_wide_spend_usd flt table = reserved_and_settled_total (flt Scan_All) table"

section \<open>Reserving and settling\<close>

definition reserved_row :: "request_key \<Rightarrow> pyfloat \<Rightarrow> instant \<Rightarrow> cost_ledger_row" where
  "reserved_row key reserved requested_at = (case key of (run_id, phase, turn, digest) \<Rightarrow>
     \<lparr> cl_run_id = run_id, cl_graph_phase = phase, cl_model_turn = turn, cl_context_digest = digest,
       cl_state = L_RESERVED, cl_reserved_usd = reserved, cl_actual_usd = None,
       cl_input_tokens = None, cl_output_tokens = None, cl_reserved_at = requested_at,
       cl_settled_at = None \<rparr>)"

definition read_back :: "bool \<Rightarrow> cost_table \<Rightarrow> request_key \<Rightarrow> exn + cost_ledger_row" where
  "read_back fault table key =
     bind_r (read_row fault table key) (\<lambda>r. case r of None \<Rightarrow> Inl AssertionError | Some row \<Rightarrow> Inr row)"

text \<open>
  Inside the transaction a \<open>sqlite3.Error\<close> rolls back and becomes a \<open>CheckpointStoreError\<close>;
  any other exception rolls back and passes through.
\<close>

definition record_reservation_before_request ::
    "db_faults \<Rightarrow> cost_table \<Rightarrow> request_key \<Rightarrow> pyfloat \<Rightarrow> instant \<Rightarrow> pyfloat \<Rightarrow>
     (exn + (cost_ledger_row \<times> bool)) \<times> cost_table" where
  "record_reservation_before_request flt table key reserved requested_at ceil =
     (if flt Ensure_Table then (Inl store_unavailable, table)
      else case valid_money reserved of Inl _ \<Rightarrow> (Inl store_unavailable, table) | Inr reserved_usd \<Rightarrow>
      case valid_money ceil of Inl _ \<Rightarrow> (Inl store_unavailable, table) | Inr ceiling_usd \<Rightarrow>
      if flt Begin_Immediate then (Inl store_unavailable, table)
      else if flt Read_Key then (Inl store_unavailable, table)
      else case read_row False table key of Inl e \<Rightarrow> (Inl e, table)
      | Inr (Some existing) \<Rightarrow>
          if flt Commit then (Inl store_unavailable, table) else (Inr (existing, False), table)
      | Inr None \<Rightarrow>
        (case reserved_and_settled_total (flt Scan_All) table of Inl e \<Rightarrow> (Inl e, table)
         | Inr spent \<Rightarrow>
           let remaining = f_sub (f_sub ceiling_usd RESERVATION_CEILING_BUFFER_USD) spent in
           if f_lt remaining reserved_usd then (Inl CostCeilingExceeded, table)
           else if flt Write_Row \<or> flt Commit then (Inl store_unavailable, table)
           else let table' = table @ [reserved_row key reserved_usd requested_at] in
             (map_sum id (\<lambda>row. (row, True)) (read_back (flt Read_Back) table' key), table')))"

definition settle_row :: "pyfloat \<Rightarrow> int \<Rightarrow> int \<Rightarrow> instant \<Rightarrow> cost_ledger_row \<Rightarrow> cost_ledger_row" where
  "settle_row actual input output settled_at r =
     r\<lparr>cl_state := L_SETTLED, cl_actual_usd := Some actual, cl_input_tokens := Some input,
       cl_output_tokens := Some output, cl_settled_at := Some settled_at\<rparr>"

definition update_reserved ::
    "request_key \<Rightarrow> (cost_ledger_row \<Rightarrow> cost_ledger_row) \<Rightarrow> cost_table \<Rightarrow> cost_table" where
  "update_reserved key f table =
     map (\<lambda>r. if row_key r = key \<and> cl_state r = L_RESERVED then f r else r) table"

definition settle_reservation ::
    "db_faults \<Rightarrow> cost_table \<Rightarrow> request_key \<Rightarrow> pyfloat \<Rightarrow> int \<Rightarrow> int \<Rightarrow> instant \<Rightarrow>
     (exn + cost_ledger_row) \<times> cost_table" where
  "settle_reservation flt table key actual input output settled_at =
     (if flt Ensure_Table then (Inl store_unavailable, table)
      else case valid_money actual of
        Inl _ \<Rightarrow> (Inl (CheckpointStoreError RESERVATION_NOT_SETTLEABLE), table)
      | Inr actual_usd \<Rightarrow> (case valid_tokens input of
        Inl _ \<Rightarrow> (Inl (CheckpointStoreError RESERVATION_NOT_SETTLEABLE), table)
      | Inr tokens_in \<Rightarrow> (case valid_tokens output of
        Inl _ \<Rightarrow> (Inl (CheckpointStoreError RESERVATION_NOT_SETTLEABLE), table)
      | Inr tokens_out \<Rightarrow>
        if flt Write_Row then (Inl store_unavailable, table)
        else if \<not> list_ex (\<lambda>r. row_key r = key \<and> cl_state r = L_RESERVED) table
          then (Inl (CheckpointStoreError RESERVATION_NOT_SETTLEABLE), table)
        else if flt Commit then (Inl store_unavailable, table)
        else let table' = update_reserved key
                   (settle_row actual_usd tokens_in tokens_out settled_at) table in
          (read_back (flt Read_Back) table' key, table'))))"

section \<open>Well-formed tables and their total\<close>

text \<open>Rows that parse, with amounts a Python float can hold; the primary key is unique.\<close>

definition row_ok :: "cost_ledger_row \<Rightarrow> bool" where
  "row_ok r \<longleftrightarrow> parse_cost_ledger_row r = Inr r \<and> wf_float (cl_reserved_usd r)
     \<and> (\<forall>a \<in> set_option (cl_actual_usd r). wf_float a)"

definition table_ok :: "cost_table \<Rightarrow> bool" where
  "table_ok t \<longleftrightarrow> (\<forall>r \<in> set t. row_ok r) \<and> distinct (map row_key t)"

definition spend :: "cost_table \<Rightarrow> pyfloat" where
  "spend t = foldl f_add (Fin 0) (map accounted_usd t)"

lemma valid_amount_nonneg: "valid_amount v \<Longrightarrow> wf_float v \<Longrightarrow> nonneg_float v"
  by (cases v) (auto simp: valid_amount_def nonneg_float_def)

lemma parse_returns_row: "parse_cost_ledger_row r = Inr r' \<Longrightarrow> r' = r"
  by (auto simp: parse_cost_ledger_row_def lifecycle_is_complete_def Let_def split: if_splits)

lemma row_ok_fields: "row_ok r \<Longrightarrow> row_fields_ok r"
  by (auto simp: row_ok_def parse_cost_ledger_row_def split: if_splits)

lemma accounted_nonneg:
  assumes "row_ok r"
  shows "nonneg_float (accounted_usd r)"
proof -
  from row_ok_fields [OF assms] assms have r: "nonneg_float (cl_reserved_usd r)"
    by (auto simp: row_fields_ok_def row_ok_def intro: valid_amount_nonneg)
  moreover have "nonneg_float a" if "cl_actual_usd r = Some a" for a
    using row_ok_fields [OF assms] assms that
    by (auto simp: row_fields_ok_def row_ok_def intro: valid_amount_nonneg)
  ultimately show ?thesis by (auto simp: accounted_usd_def split: option.splits intro: f_max_nonneg)
qed

lemma total_loop_ok:
  "\<forall>r \<in> set t. row_ok r \<Longrightarrow> total_loop t acc = Inr (foldl f_add acc (map accounted_usd t))"
  by (induction t arbitrary: acc) (auto simp: row_ok_def)

lemma total_of_ok: "table_ok t \<Longrightarrow> reserved_and_settled_total False t = Inr (spend t)"
  by (simp add: reserved_and_settled_total_def table_ok_def spend_def total_loop_ok)

lemma spend_nonneg: "table_ok t \<Longrightarrow> nonneg_float (spend t)"
  unfolding spend_def by (rule money.total_amount) (auto simp: table_ok_def accounted_nonneg)

lemma spend_snoc: "spend (t @ [r]) = f_add (spend t) (accounted_usd r)"
  by (simp add: spend_def)

lemma find_row: "find (\<lambda>r. row_key r = key) t = None \<longleftrightarrow> key \<notin> row_key ` set t"
  by (auto simp: find_None_iff)

lemma read_row_ok:
  assumes "table_ok t"
  shows "read_row False t key = Inr (find (\<lambda>r. row_key r = key) t)"
proof (cases "find (\<lambda>r. row_key r = key) t")
  case None
  then show ?thesis by (simp add: read_row_def)
next
  case (Some r)
  then have "r \<in> set t" by (auto simp: find_Some_iff)
  with assms Some show ?thesis by (simp add: read_row_def table_ok_def row_ok_def)
qed

lemma reserved_row_simps [simp]:
  "row_key (reserved_row key v tm) = key" "cl_state (reserved_row key v tm) = L_RESERVED"
  "cl_reserved_usd (reserved_row key v tm) = v" "accounted_usd (reserved_row key v tm) = v"
  by (auto simp: reserved_row_def row_key_def accounted_usd_def split: prod.splits)

lemma row_ok_reserved: "valid_amount v \<Longrightarrow> wf_float v \<Longrightarrow> row_ok (reserved_row key v tm)"
  by (auto simp: row_ok_def parse_cost_ledger_row_def row_fields_ok_def lifecycle_is_complete_def
      reserved_row_def split: prod.splits)

lemma valid_money_iff: "valid_money v = Inr v' \<longleftrightarrow> v' = v \<and> valid_amount v"
  by (auto simp: valid_money_def valid_amount_def)

section \<open>The float arithmetic of the gate\<close>

definition buffer :: rat where
  "buffer = rnd (1 / 10)"

lemma rnd_bounds:
  "rnd x \<le> x + \<bar>x\<bar> / 2 ^ 53 + 1 / 1024" "x - \<bar>x\<bar> / 2 ^ 53 - 1 / 1024 \<le> rnd x"
proof -
  have "(2::rat) powi (- 1075) \<le> 2 powi (- 10)" by (rule power_int_increasing) auto
  then have tiny: "(2::rat) powi (- 1075) \<le> 1 / 1024"
    by (simp only: power_int_minus_divide power_int_numeral power_numeral) simp
  have e: "rnd x - x \<le> \<bar>x\<bar> / 2 ^ 53 + 2 powi (- 1075)" "- (rnd x - x) \<le> \<bar>x\<bar> / 2 ^ 53 + 2 powi (- 1075)"
    using rnd_error [of x] unfolding abs_le_iff by blast+
  show "rnd x \<le> x + \<bar>x\<bar> / 2 ^ 53 + 1 / 1024" using e(1) tiny by linarith
  show "x - \<bar>x\<bar> / 2 ^ 53 - 1 / 1024 \<le> rnd x" using e(2) tiny by linarith
qed

lemma buffer_bounds: "9 / 100 \<le> buffer" "buffer \<le> 11 / 100"
  using rnd_bounds [of "1 / 10"] by (simp_all add: buffer_def)

lemma buffer_float: "RESERVATION_CEILING_BUFFER_USD = Fin buffer"
proof -
  have "\<bar>rnd (1 / 10)\<bar> < (2::rat) ^ 1024"
    using buffer_bounds one_le_power [of "2::rat" 1024] by (simp add: buffer_def abs_less_iff)
  then show ?thesis by (simp add: RESERVATION_CEILING_BUFFER_USD_def buffer_def fl_Fin_iff)
qed

text \<open>
  The ceiling up to which two roundings stay far below the ten-cent buffer. \<open>2 ^ 48\<close> dollars is
  beyond any configuration of the program.
\<close>

definition ceiling_ok :: "rat \<Rightarrow> bool" where
  "ceiling_ok c \<longleftrightarrow> repr c \<and> 0 \<le> c \<and> c \<le> 2 ^ 48"

lemma pow48_lt: "(2::rat) ^ 48 + 1 < 2 ^ 1024"
proof -
  have "(2::rat) ^ 49 \<le> 2 ^ 1024" by (rule power_increasing) auto
  then show ?thesis by simp
qed

lemma reduced_ceiling:
  assumes "ceiling_ok c"
  obtains d where "f_sub (Fin c) RESERVATION_CEILING_BUFFER_USD = Fin d" and "repr d"
    and "d \<le> c - 5 / 100" and "- 1 \<le> d"
proof -
  let ?d = "rnd (c - buffer)"
  note e = rnd_bounds [of "c - buffer"] buffer_bounds
  have "\<bar>c - buffer\<bar> \<le> 2 ^ 48 + 1" using assms buffer_bounds by (simp add: ceiling_ok_def abs_le_iff)
  then have "\<bar>c - buffer\<bar> / 2 ^ 53 \<le> (2 ^ 48 + 1) / 2 ^ 53" by (rule divide_right_mono) simp
  then have small: "\<bar>c - buffer\<bar> / 2 ^ 53 \<le> 1 / 31" by simp
  have d: "?d \<le> c - 5 / 100" "- 1 \<le> ?d"
    using e small assms unfolding ceiling_ok_def by linarith+
  then have "\<bar>?d\<bar> < 2 ^ 1024" using pow48_lt assms by (auto simp: ceiling_ok_def abs_less_iff)
  then have "f_sub (Fin c) RESERVATION_CEILING_BUFFER_USD = Fin ?d"
    by (simp add: buffer_float f_sub_def fl_Fin_iff)
  then show thesis using d by (intro that [of ?d]) auto
qed

lemma remaining_bound:
  assumes d: "repr d" "- 1 \<le> d" "d \<le> 2 ^ 48" and s: "0 \<le> s"
    and nlt: "\<not> f_lt (f_sub (Fin d) (Fin s)) (Fin r)" and r: "0 \<le> r"
  shows "s + r \<le> d + 4 / 100"
proof -
  let ?x = "d - s"
  have le: "rnd ?x \<le> d" using rnd_mono [of ?x d] d s by simp
  have "d < 2 ^ 1024" using d(3) pow48_lt by linarith
  with le have "fl ?x = Fin (rnd ?x) \<or> fl ?x = NegInf" by (auto simp: fl_def Let_def)
  with nlt have rx: "r \<le> rnd ?x" by (auto simp: f_sub_def)
  show ?thesis
  proof (cases "0 \<le> ?x")
    case True
    then have "\<bar>?x\<bar> / 2 ^ 53 \<le> (2 ^ 48) / 2 ^ 53" using d s by (intro divide_right_mono) auto
    then have "\<bar>?x\<bar> / 2 ^ 53 \<le> 1 / 32" by simp
    with rnd_bounds(1) [of ?x] rx show ?thesis by linarith
  next
    case False
    then have "\<bar>?x\<bar> = s - d" by simp
    with rnd_bounds(1) [of ?x] have "rnd ?x \<le> ?x + (s - d) / 2 ^ 53 + 1 / 1024" by (simp only:)
    with rx have *: "s + r \<le> d + (s - d) / 2 ^ 53 + 1 / 1024" by linarith
    with r have "(s - d) - (s - d) / 2 ^ 53 \<le> 1 / 1024" by linarith
    moreover have "(s - d) / 2 ^ 53 \<le> (s - d) / 2"
      using False by (intro divide_left_mono) auto
    ultimately have "s - d \<le> 2 / 1024" by (simp add: field_simps)
    then have "(s - d) / 2 \<le> 1 / 1024" by simp
    with \<open>(s - d) / 2 ^ 53 \<le> (s - d) / 2\<close> have "(s - d) / 2 ^ 53 \<le> 1 / 1024" by (rule order_trans)
    with * show ?thesis by linarith
  qed
qed

text \<open>An accepted amount leaves the new total, rounding included, at or below the ceiling.\<close>

lemma gate_sound:
  assumes c: "ceiling_ok c" and s: "nonneg_float s" and r: "nonneg_float r" "is_finite r"
    and acc: "\<not> f_lt (f_sub (f_sub (Fin c) RESERVATION_CEILING_BUFFER_USD) s) r"
  shows "f_le (f_add s r) (Fin c)"
proof -
  from c obtain d where d: "f_sub (Fin c) RESERVATION_CEILING_BUFFER_USD = Fin d" "repr d"
    "d \<le> c - 5 / 100" "- 1 \<le> d" by (rule reduced_ceiling)
  from r obtain r' where r': "r = Fin r'" "0 \<le> r'" by (cases rule: nonneg_float_cases) auto
  from s show ?thesis
  proof (cases rule: nonneg_float_cases)
    case (1 s')
    have "d \<le> 2 ^ 48" using c d(3) by (simp add: ceiling_ok_def)
    with d acc 1 r' have "s' + r' \<le> d + 4 / 100" by (intro remaining_bound) auto
    with d(3) have "s' + r' \<le> c" by simp
    then have "f_le (fl (s' + r')) (fl c)" by (rule fl_mono)
    moreover have "fl c = Fin c"
      using c pow48_lt by (intro fl_repr) (auto simp: ceiling_ok_def)
    ultimately show ?thesis by (simp add: 1 r')
  next
    case 2
    with acc d r' show ?thesis by (simp add: f_sub_def)
  qed
qed

lemma repr_int: "\<bar>n\<bar> \<le> 2 ^ 53 \<Longrightarrow> repr (of_int n)"
  unfolding repr_def by (rule exI [of _ n], rule exI [of _ 0]) simp

text \<open>
  How far the accounted total can come. Four roundings (of the buffer, of the reduced ceiling, of
  what remains and of the new total) can add to the exact \<open>c - 1/10\<close> less than \<open>c + 1\<close> parts in
  two to the fifty; below a ceiling of ten cents nothing is admitted.
\<close>

definition spend_bound :: "rat \<Rightarrow> rat" where
  "spend_bound c = max 0 (c - 1 / 10 + (c + 1) / 2 ^ 50)"

lemma rnd_close: "rnd x \<le> x + \<bar>x\<bar> / 2 ^ 53 + 1 / 2 ^ 60" "x - \<bar>x\<bar> / 2 ^ 53 - 1 / 2 ^ 60 \<le> rnd x"
proof -
  have "(2::rat) powi (- 1075) \<le> 2 powi (- 60)" by (rule power_int_increasing) auto
  then have tiny: "(2::rat) powi (- 1075) \<le> 1 / 2 ^ 60"
    by (simp only: power_int_minus_divide power_int_numeral)
  have e: "rnd x - x \<le> \<bar>x\<bar> / 2 ^ 53 + 2 powi (- 1075)" "- (rnd x - x) \<le> \<bar>x\<bar> / 2 ^ 53 + 2 powi (- 1075)"
    using rnd_error [of x] unfolding abs_le_iff by blast+
  show "rnd x \<le> x + \<bar>x\<bar> / 2 ^ 53 + 1 / 2 ^ 60" using e(1) tiny by linarith
  show "x - \<bar>x\<bar> / 2 ^ 53 - 1 / 2 ^ 60 \<le> rnd x" using e(2) tiny by linarith
qed

lemma reduced_ceiling_close:
  assumes "ceiling_ok c" and "f_sub (Fin c) RESERVATION_CEILING_BUFFER_USD = Fin d"
  shows "d \<le> c - 1 / 10 + (c + 2) / 2 ^ 53 + 2 / 2 ^ 60"
proof -
  have d: "d = rnd (c - buffer)" using assms(2) by (simp add: buffer_float f_sub_def fl_Fin_iff)
  have b: "1 / 10 - 1 / 10 / 2 ^ 53 - 1 / 2 ^ 60 \<le> buffer" using rnd_close(2) [of "1 / 10"] by (simp add: buffer_def)
  have "\<bar>c - buffer\<bar> \<le> c + 1" using assms(1) buffer_bounds by (simp add: ceiling_ok_def abs_le_iff)
  then have "\<bar>c - buffer\<bar> / 2 ^ 53 \<le> (c + 1) / 2 ^ 53" by (rule divide_right_mono) simp
  with rnd_close(1) [of "c - buffer"] have "d \<le> c - buffer + (c + 1) / 2 ^ 53 + 1 / 2 ^ 60" unfolding d by linarith
  with b show ?thesis by (simp add: add_divide_distrib)
qed

lemma remaining_close:
  assumes d: "repr d" "\<bar>d\<bar> \<le> m" "m \<le> 2 ^ 48 + 1" and s: "0 \<le> s"
    and nlt: "\<not> f_lt (f_sub (Fin d) (Fin s)) (Fin r)" and r: "0 \<le> r"
  shows "s + r \<le> d + m / 2 ^ 53 + 2 / 2 ^ 60"
proof -
  let ?x = "d - s"
  have le: "rnd ?x \<le> d" using rnd_mono [of ?x d] d(1) s by simp
  have "d < 2 ^ 1024" using d pow48_lt by (auto simp: abs_le_iff)
  with le have "fl ?x = Fin (rnd ?x) \<or> fl ?x = NegInf" by (auto simp: fl_def Let_def)
  with nlt have rx: "r \<le> rnd ?x" by (auto simp: f_sub_def)
  show ?thesis
  proof (cases "0 \<le> ?x")
    case True
    then have "\<bar>?x\<bar> / 2 ^ 53 \<le> m / 2 ^ 53" using d s by (intro divide_right_mono) auto
    moreover have "1 / 2 ^ 60 \<le> (2::rat) / 2 ^ 60" by simp
    ultimately show ?thesis using rnd_close(1) [of ?x] rx by linarith
  next
    case False
    then have "\<bar>?x\<bar> = s - d" by simp
    with rnd_close(1) [of ?x] rx have *: "r \<le> d - s + (s - d) / 2 ^ 53 + 1 / 2 ^ 60" by simp
    moreover have half: "(s - d) / 2 ^ 53 \<le> (s - d) / 2" using False by (intro divide_left_mono) auto
    ultimately have "(s - d) / 2 \<le> 1 / 2 ^ 60" using r by (simp add: field_simps)
    with half have "(s - d) / 2 ^ 53 \<le> 1 / 2 ^ 60" by (rule order_trans)
    moreover have "1 / 2 ^ 60 + 1 / 2 ^ 60 = (2::rat) / 2 ^ 60" by simp
    ultimately have "s + r \<le> d + 2 / 2 ^ 60" using * by linarith
    moreover have "0 \<le> m / 2 ^ 53" using d(2) by (intro divide_nonneg_nonneg) auto
    ultimately show ?thesis by linarith
  qed
qed

text \<open>An accepted amount leaves the new total below the ceiling less the buffer, up to rounding.\<close>

lemma gate_keeps_buffer:
  assumes c: "ceiling_ok c" and s: "nonneg_float s" and r: "nonneg_float r" "is_finite r"
    and acc: "\<not> f_lt (f_sub (f_sub (Fin c) RESERVATION_CEILING_BUFFER_USD) s) r"
  shows "\<exists>total. f_add s r = Fin total \<and> total \<le> spend_bound c"
proof -
  from c obtain d where d: "f_sub (Fin c) RESERVATION_CEILING_BUFFER_USD = Fin d" "repr d"
    "d \<le> c - 5 / 100" "- 1 \<le> d" by (rule reduced_ceiling)
  from r obtain r' where r': "r = Fin r'" "0 \<le> r'" by (cases rule: nonneg_float_cases) auto
  have c48: "0 \<le> c" "c \<le> 2 ^ 48" using c by (simp_all add: ceiling_ok_def)
  from s show ?thesis
  proof (cases rule: nonneg_float_cases)
    case (1 s')
    let ?y = "s' + r'"
    have y0: "0 \<le> ?y" using 1 r' by simp
    have "\<not> f_lt (f_sub (Fin d) (Fin s')) (Fin r')" using acc 1(1) r'(1) d(1) by simp
    then have "?y \<le> d + (c + 1) / 2 ^ 53 + 2 / 2 ^ 60"
      using d c48 1(2) r'(2) by (intro remaining_close) (auto simp: abs_le_iff)
    with reduced_ceiling_close [OF c d(1)] have y: "?y \<le> c - 1 / 10 + ((c + 2) + (c + 1)) / 2 ^ 53 + 4 / 2 ^ 60"
      unfolding add_divide_distrib by linarith
    have "((c + 2) + (c + 1)) / 2 ^ 53 \<le> ((2 ^ 48 + 2) + (2 ^ 48 + 1)) / (2::rat) ^ 53" using c48 by (intro divide_right_mono) auto
    then have "((c + 2) + (c + 1)) / 2 ^ 53 \<le> 1 / 2" by simp
    moreover have "4 / 2 ^ 60 \<le> (1::rat) / 2" by simp
    ultimately have yc: "?y \<le> c + 1" using y by linarith
    then have "?y / 2 ^ 53 \<le> (c + 1) / 2 ^ 53" by (rule divide_right_mono) simp
    moreover have "\<bar>?y\<bar> = ?y" using y0 by simp
    ultimately have "\<bar>?y\<bar> / 2 ^ 53 \<le> (c + 1) / 2 ^ 53" by (simp only:)
    then have "rnd ?y \<le> ?y + (c + 1) / 2 ^ 53 + 1 / 2 ^ 60" using rnd_close(1) [of ?y] by linarith
    moreover have "4 / 2 ^ 60 + 1 / 2 ^ 60 = (5::rat) / 2 ^ 60" by simp
    ultimately have t: "rnd ?y \<le> c - 1 / 10 + ((c + 2) + (c + 1) + (c + 1)) / 2 ^ 53 + 5 / 2 ^ 60"
      using y unfolding add_divide_distrib by linarith
    have "((c + 2) + (c + 1) + (c + 1)) / 2 ^ 53 + 5 / 2 ^ 60 \<le> (c + 1) / (2::rat) ^ 50" using c48 by (simp add: field_simps)
    with t have bound: "rnd ?y \<le> spend_bound c" unfolding spend_bound_def by linarith
    have "0 \<le> rnd ?y" using y0 by (rule rnd_nonneg)
    moreover have "rnd ?y \<le> rnd (2 ^ 49)" using yc c48 by (intro rnd_mono) simp
    moreover have "rnd (2 ^ 49) = (2 ^ 49 :: rat)" using repr_int [of "2 ^ 49"] by simp
    moreover have "(2::rat) ^ 49 < 2 ^ 1024" by (rule power_strict_increasing) auto
    ultimately have "\<bar>rnd ?y\<bar> < 2 ^ 1024" by linarith
    then show ?thesis using bound 1(1) r'(1) by (auto simp: fl_Fin_iff)
  next
    case 2
    with acc d r' show ?thesis by (simp add: f_sub_def)
  qed
qed

text \<open>Once the total has reached the ceiling, every amount is refused.\<close>

lemma gate_closes:
  assumes c: "ceiling_ok c" and s: "nonneg_float s" "f_le (Fin c) s" and r: "nonneg_float r"
  shows "f_lt (f_sub (f_sub (Fin c) RESERVATION_CEILING_BUFFER_USD) s) r"
proof (rule ccontr)
  assume acc: "\<not> ?thesis"
  from c obtain d where d: "f_sub (Fin c) RESERVATION_CEILING_BUFFER_USD = Fin d" "repr d"
    "d \<le> c - 5 / 100" "- 1 \<le> d" by (rule reduced_ceiling)
  have d48: "d \<le> 2 ^ 48" using c d(3) by (simp add: ceiling_ok_def)
  have "\<not> f_lt (f_sub (Fin d) s) (Fin 0)"
    using acc r unfolding d(1) by (cases "f_sub (Fin d) s") (auto elim!: nonneg_float_cases)
  with s show False
  proof (cases rule: nonneg_float_cases)
    case (1 s')
    with d d48 \<open>\<not> f_lt (f_sub (Fin d) s) (Fin 0)\<close> have "s' + 0 \<le> d + 4 / 100"
      by (intro remaining_bound) auto
    with s(2) d(3) show False by (simp add: 1)
  qed (simp add: f_sub_def)
qed

section \<open>What the two operations do to the table\<close>

lemma table_ok_snoc:
  "table_ok (t @ [r]) \<longleftrightarrow> table_ok t \<and> row_ok r \<and> row_key r \<notin> row_key ` set t"
  by (auto simp: table_ok_def)

lemma find_snoc: "key \<notin> row_key ` set t \<Longrightarrow> row_key r = key \<Longrightarrow>
    find (\<lambda>r. row_key r = key) (t @ [r]) = Some r"
  by (induction t) auto

lemma valid_money_eq: "valid_money v = (if valid_amount v then Inr v else Inl ValueError)"
  by (simp add: valid_money_def valid_amount_def)

lemma valid_tokens_eq: "valid_tokens n = (if 0 \<le> n then Inr n else Inl ValueError)"
  by (simp add: valid_tokens_def)

text \<open>On a well-formed table the operation is this decision list.\<close>

lemma reservation_eq:
  assumes "table_ok t"
  shows "record_reservation_before_request flt t key r tm ceil =
    (if flt Ensure_Table \<or> \<not> valid_amount r \<or> \<not> valid_amount ceil \<or> flt Begin_Immediate \<or> flt Read_Key
       then (Inl store_unavailable, t)
     else case find (\<lambda>r. row_key r = key) t of
       Some existing \<Rightarrow> (if flt Commit then Inl store_unavailable else Inr (existing, False), t)
     | None \<Rightarrow>
         if flt Scan_All then (Inl store_unavailable, t)
         else if f_lt (f_sub (f_sub ceil RESERVATION_CEILING_BUFFER_USD) (spend t)) r
           then (Inl CostCeilingExceeded, t)
         else if flt Write_Row \<or> flt Commit then (Inl store_unavailable, t)
         else (map_sum id (\<lambda>row. (row, True))
                 (read_back (flt Read_Back) (t @ [reserved_row key r tm]) key),
               t @ [reserved_row key r tm]))"
proof -
  have total: "reserved_and_settled_total (flt Scan_All) t =
      (if flt Scan_All then Inl store_unavailable else Inr (spend t))"
    using total_of_ok [OF assms] by (simp add: reserved_and_settled_total_def)
  show ?thesis
    unfolding record_reservation_before_request_def read_row_ok [OF assms] valid_money_eq total
    by (simp add: Let_def split: option.split)
qed

lemma reservation_outcome:
  assumes t: "table_ok t" and r: "wf_float r"
    and run: "record_reservation_before_request flt t key r tm ceil = (res, t')"
  obtains (unchanged) "t' = t" and "\<And>row. res \<noteq> Inr (row, True)"
  | (inserted) "valid_amount r" and "valid_amount ceil" and "key \<notin> row_key ` set t"
      and "\<not> f_lt (f_sub (f_sub ceil RESERVATION_CEILING_BUFFER_USD) (spend t)) r"
      and "t' = t @ [reserved_row key r tm]" and "table_ok t'"
      and "res = (if flt Read_Back then Inl sqlite_error else Inr (reserved_row key r tm, True))"
proof -
  let ?new = "reserved_row key r tm"
  note eq = run [unfolded reservation_eq [OF t]]
  show thesis
  proof (cases "t' = t")
    case True
    moreover have "res \<noteq> Inr (row, True)" for row
      using eq True by (auto split: if_splits option.splits)
    ultimately show thesis by (rule unchanged)
  next
    case False
    with eq have *: "valid_amount r" "valid_amount ceil" "find (\<lambda>r. row_key r = key) t = None"
      "\<not> f_lt (f_sub (f_sub ceil RESERVATION_CEILING_BUFFER_USD) (spend t)) r" "t' = t @ [?new]"
      "res = map_sum id (\<lambda>row. (row, True)) (read_back (flt Read_Back) t' key)"
      by (auto split: if_splits option.splits)
    from *(3) have key: "key \<notin> row_key ` set t" by (simp add: find_row)
    have ok: "table_ok t'" using t key *(1) r by (simp add: *(5) table_ok_snoc row_ok_reserved)
    have "read_row False t' key = Inr (Some ?new)"
      using read_row_ok [OF ok] find_snoc [OF key, of ?new] by (simp add: *(5))
    then have "res = (if flt Read_Back then Inl sqlite_error else Inr (?new, True))"
      by (simp add: *(6) read_back_def read_row_def)
    with * key ok show thesis by (intro inserted)
  qed
qed

lemma settle_row_simps [simp]:
  "row_key (settle_row a i n tm r) = row_key r" "cl_state (settle_row a i n tm r) = L_SETTLED"
  "cl_reserved_usd (settle_row a i n tm r) = cl_reserved_usd r"
  "accounted_usd (settle_row a i n tm r) = f_max (cl_reserved_usd r) a"
  by (simp_all add: settle_row_def row_key_def accounted_usd_def)

lemma accounted_reserved [simp]: "cl_state r = L_RESERVED \<Longrightarrow> accounted_usd r = cl_reserved_usd r"
  by (simp add: accounted_usd_def)

lemma row_ok_settle:
  assumes "row_ok r" and "valid_amount a" and "wf_float a" and "0 \<le> i" and "0 \<le> n"
  shows "row_ok (settle_row a i n tm r)"
  using row_ok_fields [OF assms(1)] assms
  by (auto simp: row_ok_def parse_cost_ledger_row_def row_fields_ok_def lifecycle_is_complete_def
      settle_row_def)

lemma map_key_update: "\<forall>r. row_key (f r) = row_key r \<Longrightarrow> map row_key (update_reserved key f t) = map row_key t"
  by (simp add: update_reserved_def)

lemma table_ok_update:
  assumes "table_ok t" and "\<And>r. row_ok r \<Longrightarrow> row_ok (f r)" and "\<forall>r. row_key (f r) = row_key r"
  shows "table_ok (update_reserved key f t)"
  unfolding table_ok_def map_key_update [OF assms(3)]
  using assms(1,2) by (auto simp: table_ok_def update_reserved_def)

lemma find_update:
  assumes "distinct (map row_key t)" and "r \<in> set t" and "row_key r = key" and "cl_state r = L_RESERVED"
    and "\<forall>r. row_key (f r) = row_key r"
  shows "find (\<lambda>r. row_key r = key) (update_reserved key f t) = Some (f r)"
  using assms by (induction t) (auto simp: update_reserved_def image_iff)

lemma settlement_eq:
  "settle_reservation flt t key a i n tm =
    (if flt Ensure_Table then (Inl store_unavailable, t)
     else if \<not> valid_amount a \<or> i < 0 \<or> n < 0
       then (Inl (CheckpointStoreError RESERVATION_NOT_SETTLEABLE), t)
     else if flt Write_Row then (Inl store_unavailable, t)
     else if \<not> (\<exists>r \<in> set t. row_key r = key \<and> cl_state r = L_RESERVED)
       then (Inl (CheckpointStoreError RESERVATION_NOT_SETTLEABLE), t)
     else if flt Commit then (Inl store_unavailable, t)
     else (read_back (flt Read_Back) (update_reserved key (settle_row a i n tm) t) key,
           update_reserved key (settle_row a i n tm) t))"
  by (auto simp: settle_reservation_def valid_money_eq valid_tokens_eq list_ex_iff Let_def)

lemma settlement_outcome:
  assumes t: "table_ok t" and a: "wf_float a"
    and run: "settle_reservation flt t key a i n tm = (res, t')"
  obtains (unchanged) e where "t' = t" and "res = Inl e"
  | (settled) r where "valid_amount a" and "0 \<le> i" and "0 \<le> n" and "r \<in> set t"
      and "row_key r = key" and "cl_state r = L_RESERVED"
      and "t' = update_reserved key (settle_row a i n tm) t" and "table_ok t'"
      and "res = (if flt Read_Back then Inl sqlite_error else Inr (settle_row a i n tm r))"
proof (cases "t' = t \<and> (\<exists>e. res = Inl e)")
  case True
  then show thesis using unchanged by blast
next
  case False
  with run [unfolded settlement_eq]
  have *: "valid_amount a" "0 \<le> i" "0 \<le> n" "\<exists>r \<in> set t. row_key r = key \<and> cl_state r = L_RESERVED"
    "t' = update_reserved key (settle_row a i n tm) t" "res = read_back (flt Read_Back) t' key"
    by (auto split: if_splits)
  then obtain r where r: "r \<in> set t" "row_key r = key" "cl_state r = L_RESERVED" by blast
  have ok: "table_ok t'" unfolding *(5) using * t a by (intro table_ok_update row_ok_settle) simp_all
  have "find (\<lambda>r. row_key r = key) t' = Some (settle_row a i n tm r)"
    using t r unfolding *(5) by (intro find_update) (simp_all add: table_ok_def)
  with read_row_ok [OF ok, of key]
  have "res = (if flt Read_Back then Inl sqlite_error else Inr (settle_row a i n tm r))"
    by (simp add: *(6) read_back_def read_row_def)
  with * r ok show thesis by (intro settled)
qed

lemma spend_update_mono:
  assumes "table_ok t" and "valid_amount a" and "wf_float a"
  shows "f_le (spend t) (spend (update_reserved key (settle_row a i n tm) t))"
  unfolding spend_def
proof (rule money.total_mono)
  let ?g = "\<lambda>r. if row_key r = key \<and> cl_state r = L_RESERVED then settle_row a i n tm r else r"
  have a: "nonneg_float a" using assms(2,3) by (rule valid_amount_nonneg)
  have "nonneg_float (accounted_usd r) \<and> nonneg_float (accounted_usd (?g r))
      \<and> f_le (accounted_usd r) (accounted_usd (?g r))" if "r \<in> set t" for r
  proof -
    have r: "nonneg_float (accounted_usd r)" using assms(1) that by (simp add: table_ok_def accounted_nonneg)
    then have "f_le (accounted_usd r) (accounted_usd r)" by (auto simp: nonneg_float_def f_le_def)
    with r a f_max_ge [of "cl_reserved_usd r" a] f_max_nonneg [of "cl_reserved_usd r" a] show ?thesis
      by auto
  qed
  then show "list_all2 (\<lambda>x y. nonneg_float x \<and> nonneg_float y \<and> f_le x y) (map accounted_usd t)
      (map accounted_usd (update_reserved key (settle_row a i n tm) t))"
    by (simp add: update_reserved_def list_all2_map1 list_all2_map2 list_all2_same)
qed simp_all

lemma spend_update_same:
  assumes "\<forall>r \<in> set t. row_key r = key \<longrightarrow> \<not> f_lt (cl_reserved_usd r) a"
  shows "spend (update_reserved key (settle_row a i n tm) t) = spend t"
proof -
  have "map accounted_usd (update_reserved key (settle_row a i n tm) t) = map accounted_usd t"
    using assms by (auto simp: update_reserved_def f_max_def)
  then show ?thesis by (simp add: spend_def)
qed

section \<open>Histories of the ledger\<close>

text \<open>
  One operation of a history under a fixed ceiling: any reservation attempt, and any settlement
  whose bill does not exceed the reservation it settles, each with any fault.
\<close>

inductive cost_step :: "pyfloat \<Rightarrow> cost_table \<Rightarrow> cost_table \<Rightarrow> bool" for ceil where
  step_reserve_cost:
    "record_reservation_before_request flt t key r tm ceil = (res, t') \<Longrightarrow> wf_float r \<Longrightarrow>
     cost_step ceil t t'"
| step_settle_cost:
    "settle_reservation flt t key a i n tm = (res', t') \<Longrightarrow> wf_float a \<Longrightarrow>
     \<forall>row \<in> set t. row_key row = key \<longrightarrow> \<not> f_lt (cl_reserved_usd row) a \<Longrightarrow> cost_step ceil t t'"

definition below :: "rat \<Rightarrow> cost_table \<Rightarrow> bool" where
  "below c t \<longleftrightarrow> ceiling_ok c \<and> table_ok t \<and> f_le (spend t) (Fin c) \<and> f_le (spend t) (Fin (spend_bound c))"

lemma below_empty: "ceiling_ok c \<Longrightarrow> below c []"
  by (simp add: below_def table_ok_def spend_def ceiling_ok_def spend_bound_def)

lemma new_reservation_below:
  assumes "ceiling_ok c" and "table_ok t" and "wf_float r" and "valid_amount r"
    and "\<not> f_lt (f_sub (f_sub (Fin c) RESERVATION_CEILING_BUFFER_USD) (spend t)) r"
  shows "f_le (spend (t @ [reserved_row key r tm])) (Fin c)"
    and "f_le (spend (t @ [reserved_row key r tm])) (Fin (spend_bound c))"
proof -
  have r: "nonneg_float (spend t)" "nonneg_float r" "is_finite r"
    using assms(2-4) by (auto intro: spend_nonneg valid_amount_nonneg simp: valid_amount_def)
  show "f_le (spend (t @ [reserved_row key r tm])) (Fin c)"
    unfolding spend_snoc reserved_row_simps using assms(1,5) r by (intro gate_sound)
  show "f_le (spend (t @ [reserved_row key r tm])) (Fin (spend_bound c))"
    unfolding spend_snoc reserved_row_simps using gate_keeps_buffer [OF assms(1) r assms(5)] by auto
qed

interpretation gate: invariant_system "cost_step (Fin c)" "below c"
proof
  fix s t
  assume "cost_step (Fin c) s t" and inv: "below c s"
  then show "below c t"
  proof (cases rule: cost_step.cases)
    case (step_reserve_cost flt key r tm res)
    from inv have ok: "table_ok s" by (simp add: below_def)
    from ok step_reserve_cost(2,1) show ?thesis
    proof (cases rule: reservation_outcome)
      case unchanged
      with inv show ?thesis by simp
    next
      case inserted
      with inv step_reserve_cost show ?thesis by (simp add: below_def new_reservation_below)
    qed
  next
    case (step_settle_cost flt key a i n tm res)
    from inv have ok: "table_ok s" by (simp add: below_def)
    from ok step_settle_cost(2,1) show ?thesis
    proof (cases rule: settlement_outcome)
      case unchanged
      with inv show ?thesis by simp
    next
      case settled
      with inv step_settle_cost show ?thesis by (simp add: below_def spend_update_same)
    qed
  qed
qed

section \<open>Properties of the spend gate\<close>

definition sample_key :: request_key where
  "sample_key = (''run-1'', ''INVESTIGATE'', 0, ''digest'')"

definition no_faults :: db_faults where
  "no_faults = (\<lambda>_. False)"

lemma sample_amounts: "wf_float (Fin 1)" "valid_amount (Fin 1)" "ceiling_ok 5" "valid_amount (Fin 5)"
  using repr_int [of 1] repr_int [of 5]
  by (simp_all add: wf_float_def valid_amount_def ceiling_ok_def)

lemma table_ok_Nil: "table_ok []" "spend [] = Fin 0"
  by (simp_all add: table_ok_def spend_def)

lemma sample_accepts: "\<not> f_lt (f_sub (f_sub (Fin 5) RESERVATION_CEILING_BUFFER_USD) (Fin 0)) (Fin 1)"
proof -
  have "rnd (5 - buffer) \<ge> rnd 1" using buffer_bounds by (intro rnd_mono) simp
  then have *: "1 \<le> rnd (5 - buffer)" using repr_int [of 1] by simp
  obtain d where "f_sub (Fin 5) RESERVATION_CEILING_BUFFER_USD = Fin d" "repr d" "d \<le> 5 - 5 / 100" "- 1 \<le> d"
    by (rule reduced_ceiling [OF sample_amounts(3)])
  moreover from this have "d = rnd (5 - buffer)" by (simp add: buffer_float f_sub_def fl_Fin_iff)
  moreover have "fl d = Fin d"
    using calculation one_le_power [of "2::rat" 1024] by (intro fl_repr) (auto simp: abs_less_iff intro: order.strict_trans1)
  ultimately show ?thesis using * by (simp add: f_sub_def)
qed

text \<open>
  C21: over any history of reservation attempts and of settlements that bill no more than was
  reserved, each possibly failing at any SQLite step, the spend the application accounts for, as
  its own floating-point sum computes it, stays at or below the configured ceiling, for ceilings
  up to 2^48 dollars; and it keeps the ten-cent buffer: it never exceeds the ceiling less ten cents
  by more than the rounding of the arithmetic, \<open>(c + 1) / 2^50\<close> dollars (under a ceiling of ten
  cents nothing is spent at all beyond that).
\<close>

theorem accounted_spend_never_exceeds_ceiling:
  assumes "(cost_step (Fin c))\<^sup>*\<^sup>* [] t" and "ceiling_ok c"
  shows "\<exists>total. application_wide_spend_usd (\<lambda>_. False) t = Inr (Fin total)
     \<and> total \<le> c \<and> total \<le> max 0 (c - 1 / 10 + (c + 1) / 2 ^ 50)"
proof -
  have t: "below c t" using gate.inv_reachable [OF assms(1)] below_empty [OF assms(2)] .
  then obtain total where "spend t = Fin total"
    using spend_nonneg [of t] by (cases "spend t") (auto simp: below_def f_le_def nonneg_float_def)
  with t show ?thesis by (auto simp: below_def spend_bound_def application_wide_spend_usd_def total_of_ok)
qed

theorem accounted_spend_never_exceeds_ceiling_witness:
  "\<exists>total. application_wide_spend_usd (\<lambda>_. False) [reserved_row sample_key (Fin 1) 0] = Inr (Fin total)
     \<and> total \<le> 491 / 100"
proof -
  have "record_reservation_before_request no_faults [] sample_key (Fin 1) 0 (Fin 5) =
      (fst (record_reservation_before_request no_faults [] sample_key (Fin 1) 0 (Fin 5)),
       [reserved_row sample_key (Fin 1) 0])"
    using sample_amounts sample_accepts by (simp add: reservation_eq table_ok_Nil no_faults_def)
  then have "cost_step (Fin 5) [] [reserved_row sample_key (Fin 1) 0]"
    using sample_amounts(1) by (rule step_reserve_cost)
  then have "(cost_step (Fin 5))\<^sup>*\<^sup>* [] [reserved_row sample_key (Fin 1) 0]" by blast
  from accounted_spend_never_exceeds_ceiling [OF this sample_amounts(3)] show ?thesis by auto
qed

text \<open>
  Whatever happened before, overruns included, a reservation that is newly accepted leaves
  the accounted total at or below the ceiling; and once the accounted total has reached the
  ceiling, every request under a new key is refused with \<open>CostCeilingExceeded\<close> and the table
  does not change.
\<close>

lemma gate_accepts_only_below_ceiling:
  assumes "table_ok t" and "ceiling_ok c" and "wf_float r" and "valid_amount r"
  shows "(\<forall>row t' flt. record_reservation_before_request flt t key r tm (Fin c) = (Inr (row, True), t')
            \<longrightarrow> reserved_and_settled_total False t' = Inr (f_add (spend t) r)
                \<and> f_le (f_add (spend t) r) (Fin c))
     \<and> (f_le (Fin c) (spend t) \<and> key \<notin> row_key ` set t \<longrightarrow>
         record_reservation_before_request (\<lambda>_. False) t key r tm (Fin c) = (Inl CostCeilingExceeded, t))"
proof (intro conjI allI impI)
  fix row t' flt
  assume "record_reservation_before_request flt t key r tm (Fin c) = (Inr (row, True), t')"
  with assms(1,3) show "reserved_and_settled_total False t' = Inr (f_add (spend t) r)"
    by (cases rule: reservation_outcome) (auto simp: total_of_ok spend_snoc)
next
  fix row t' flt
  assume "record_reservation_before_request flt t key r tm (Fin c) = (Inr (row, True), t')"
  with assms(1,3) show "f_le (f_add (spend t) r) (Fin c)"
  proof (cases rule: reservation_outcome)
    case inserted
    with new_reservation_below [OF assms(2,1,3,4), of key tm] show ?thesis by (simp add: spend_snoc)
  qed auto
next
  assume full: "f_le (Fin c) (spend t) \<and> key \<notin> row_key ` set t"
  then have "f_lt (f_sub (f_sub (Fin c) RESERVATION_CEILING_BUFFER_USD) (spend t)) r"
    using assms by (intro gate_closes spend_nonneg valid_amount_nonneg) auto
  moreover have "valid_amount (Fin c)" using assms(2) by (simp add: valid_amount_def ceiling_ok_def)
  ultimately show "record_reservation_before_request (\<lambda>_. False) t key r tm (Fin c) = (Inl CostCeilingExceeded, t)"
    using assms full by (simp add: reservation_eq find_row [THEN iffD2])
qed

lemma gate_accepts_only_below_ceiling_witness:
  "record_reservation_before_request (\<lambda>_. False) [reserved_row sample_key (Fin 5) 0]
     (''run-2'', ''INVESTIGATE'', 0, ''d'') (Fin 1) 0 (Fin 5)
     = (Inl CostCeilingExceeded, [reserved_row sample_key (Fin 5) 0])"
proof -
  let ?t = "[reserved_row sample_key (Fin 5) 0]"
  have five: "wf_float (Fin 5)" "valid_amount (Fin 5)" "fl 5 = Fin 5"
    using repr_int [of 5] one_le_power [of "2::rat" 1021]
    by (simp_all add: wf_float_def valid_amount_def fl_repr)
  then have ok: "table_ok ?t" using row_ok_reserved by (simp add: table_ok_def)
  have "spend ?t = Fin 5" by (simp add: spend_def five)
  with gate_accepts_only_below_ceiling [OF ok sample_amounts(3,1,2),
      of "(''run-2'', ''INVESTIGATE'', 0, ''d'')" 0]
  show ?thesis by (simp add: sample_key_def)
qed

text \<open>
  The reservation of a request key is made at most once. After a reservation succeeded, a
  retry under the same key, with any amount and any ceiling, changes nothing and returns the
  row already there with \<open>is_new = False\<close>, so the caller can tell it must not send again.
\<close>

theorem retry_reads_the_reservation_back:
  assumes "table_ok t" and "wf_float r"
    and "record_reservation_before_request flt t key r tm ceil = (Inr (row, True), t')"
    and "valid_amount r'" and "valid_amount ceil'"
  shows "record_reservation_before_request (\<lambda>_. False) t' key r' tm' ceil' = (Inr (row, False), t')
     \<and> row_key row = key \<and> cl_state row = L_RESERVED \<and> cl_reserved_usd row = r"
  using assms(1-3)
proof (cases rule: reservation_outcome)
  case inserted
  then have row: "row = reserved_row key r tm" by (simp split: if_splits)
  have "find (\<lambda>r. row_key r = key) t' = Some row"
    using inserted find_snoc [of key t row] by (simp add: row)
  with inserted assms(4,5) show ?thesis by (simp add: reservation_eq row)
qed auto

theorem retry_reads_the_reservation_back_witness:
  "record_reservation_before_request (\<lambda>_. False) [reserved_row sample_key (Fin 1) 0] sample_key
      (Fin 5) 7 (Fin 1) = (Inr (reserved_row sample_key (Fin 1) 0, False), [reserved_row sample_key (Fin 1) 0])"
proof -
  let ?t = "[reserved_row sample_key (Fin 1) 0]"
  have ok: "table_ok ?t" using row_ok_reserved sample_amounts by (simp add: table_ok_def)
  have "record_reservation_before_request (\<lambda>_. False) [] sample_key (Fin 1) 0 (Fin 5) =
      (Inr (reserved_row sample_key (Fin 1) 0, True), ?t)"
    using sample_amounts sample_accepts read_row_ok [OF ok, of sample_key]
    by (simp add: reservation_eq table_ok_Nil read_back_def)
  from retry_reads_the_reservation_back [OF table_ok_Nil(1) sample_amounts(1) this sample_amounts(4,2)]
  show ?thesis by simp
qed

text \<open>
  A settlement needs a \<open>RESERVED\<close> row of exactly its key. It succeeds at most once per key:
  it settles that one row at the true bill, keeps every other row, never lowers the accounted
  total, and leaves it unchanged when the bill is within the reservation; a second settlement
  of the key, or one without a reservation, is refused and changes nothing.
\<close>

theorem settlement_happens_once:
  assumes "table_ok t" and "wf_float a"
    and "settle_reservation flt t key a i n tm = (Inr row, t')"
  shows "(\<exists>r \<in> set t. row_key r = key \<and> cl_state r = L_RESERVED \<and> row = settle_row a i n tm r
           \<and> (\<not> f_lt (cl_reserved_usd r) a \<longrightarrow> spend t' = spend t))
     \<and> table_ok t' \<and> f_le (spend t) (spend t')
     \<and> filter (\<lambda>r. row_key r \<noteq> key) t' = filter (\<lambda>r. row_key r \<noteq> key) t
     \<and> (\<forall>flt' a' i' n' tm'. settle_reservation flt' t' key a' i' n' tm' \<in>
          {Inl store_unavailable, Inl (CheckpointStoreError RESERVATION_NOT_SETTLEABLE)} \<times> {t'})"
  using assms
proof (cases rule: settlement_outcome)
  case (settled r)
  let ?f = "settle_row a i n tm"
  have row: "row = ?f r" using settled by (simp split: if_splits)
  have only: "row_key q = key \<longrightarrow> q = r" if "q \<in> set t" for q
    using that settled assms(1) by (auto simp: table_ok_def distinct_map inj_on_def)
  have "spend t' = spend t" if "\<not> f_lt (cl_reserved_usd r) a"
    unfolding settled(7) using that only by (intro spend_update_same) auto
  moreover have "f_le (spend t) (spend t')"
    unfolding settled(7) using assms(1,2) settled(1) by (intro spend_update_mono)
  moreover have "filter (\<lambda>r. row_key r \<noteq> key) t' = filter (\<lambda>r. row_key r \<noteq> key) t"
    unfolding settled(7) by (induction t) (auto simp: update_reserved_def)
  moreover
  have "\<not> (\<exists>q \<in> set t'. row_key q = key \<and> cl_state q = L_RESERVED)"
    unfolding settled(7) by (simp add: update_reserved_def ball_Un)
  then have "settle_reservation flt' t' key a' i' n' tm' \<in>
      {Inl store_unavailable, Inl (CheckpointStoreError RESERVATION_NOT_SETTLEABLE)} \<times> {t'}" for flt' a' i' n' tm'
    by (simp add: settlement_eq)
  ultimately show ?thesis using settled(4-6,8) row by blast
qed simp

theorem settlement_happens_once_witness:
  "\<exists>t'. settle_reservation (\<lambda>_. False) [reserved_row sample_key (Fin 5) 0] sample_key (Fin 1) 10 20 9
      = (Inr (settle_row (Fin 1) 10 20 9 (reserved_row sample_key (Fin 5) 0)), t')
    \<and> spend t' = spend [reserved_row sample_key (Fin 5) 0]"
proof -
  let ?t = "[reserved_row sample_key (Fin 5) 0]"
  let ?t' = "[settle_row (Fin 1) 10 20 9 (reserved_row sample_key (Fin 5) 0)]"
  have five: "wf_float (Fin 5)" using repr_int [of 5] one_le_power [of "2::rat" 1021]
    by (simp add: wf_float_def)
  have r: "row_ok (reserved_row sample_key (Fin 5) 0)" using five sample_amounts by (intro row_ok_reserved)
  have ok: "table_ok ?t" "table_ok ?t'"
    using r row_ok_settle [OF r sample_amounts(2,1)] by (simp_all add: table_ok_def)
  have "settle_reservation (\<lambda>_. False) ?t sample_key (Fin 1) 10 20 9 = (Inr (hd ?t'), ?t')"
    using sample_amounts read_row_ok [OF ok(2), of sample_key]
    by (simp add: settlement_eq update_reserved_def read_back_def)
  with settlement_happens_once [OF ok(1) sample_amounts(1) this] show ?thesis by simp
qed

text \<open>
  A failed operation on the ledger is invisible: when a reservation or a settlement raises,
  the table is as before, except that the one read after the commit may fail with the row
  already written, which is a \<open>RESERVED\<close> row that keeps counting against the ceiling, or a row
  settled at its true cost.
\<close>

theorem failed_ledger_operation_leaves_table:
  assumes "table_ok t" and "wf_float v"
  shows "(record_reservation_before_request flt t key v tm ceil = (Inl e, t') \<longrightarrow>
            t' = t \<or> flt Read_Back \<and> t' = t @ [reserved_row key v tm])
     \<and> (settle_reservation flt t key v i n tm = (Inl e, t') \<longrightarrow>
            t' = t \<or> flt Read_Back \<and> t' = update_reserved key (settle_row v i n tm) t)"
proof (intro conjI impI)
  assume "record_reservation_before_request flt t key v tm ceil = (Inl e, t')"
  with assms show "t' = t \<or> flt Read_Back \<and> t' = t @ [reserved_row key v tm]"
    by (cases rule: reservation_outcome) (auto split: if_splits)
next
  assume "settle_reservation flt t key v i n tm = (Inl e, t')"
  with assms show "t' = t \<or> flt Read_Back \<and> t' = update_reserved key (settle_row v i n tm) t"
    by (cases rule: settlement_outcome) (auto split: if_splits)
qed

theorem failed_ledger_operation_leaves_table_witness:
  "snd (settle_reservation (\<lambda>_. False) [] sample_key (Fin 1) 1 1 0) = []"
proof -
  have s: "settle_reservation (\<lambda>_. False) [] sample_key (Fin 1) 1 1 0
      = (Inl (CheckpointStoreError RESERVATION_NOT_SETTLEABLE), [])"
    using sample_amounts by (simp add: settlement_eq)
  have "snd (settle_reservation (\<lambda>_. False) [] sample_key (Fin 1) 1 1 0) = [] \<or> False"
    using failed_ledger_operation_leaves_table [OF table_ok_Nil(1) sample_amounts(1),
        of "\<lambda>_. False" sample_key 0 "Fin 5" _ "snd (settle_reservation (\<lambda>_. False) [] sample_key (Fin 1) 1 1 0)" 1 1] s
    by simp
  then show ?thesis by simp
qed

text \<open>The cost of a request is monotone in both token counts.\<close>

lemma fl_not_NaN [simp]: "fl x \<noteq> NaN"
  by (simp add: fl_def Let_def)

lemma f_mul_fin_nonneg: "nonneg_float a \<Longrightarrow> 0 < p \<Longrightarrow> nonneg_float (f_mul_fin a p)"
  by (erule nonneg_float_cases) (simp_all add: nonneg_fl)

lemma token_cost_nonneg: "0 \<le> n \<Longrightarrow> 0 < p \<Longrightarrow> nonneg_float (token_cost n p)"
  unfolding token_cost_def f_div_int_def by (intro f_mul_fin_nonneg nonneg_fl) simp_all

lemma f_mul_fin_mono:
  assumes "nonneg_float a" and "nonneg_float b" and "f_le a b" and "0 < p"
  shows "f_le (f_mul_fin a p) (f_mul_fin b p)"
  using assms(1)
proof (cases rule: nonneg_float_cases)
  case (1 x)
  from assms(2) show ?thesis
    by (cases rule: nonneg_float_cases) (use 1 assms(3,4) in \<open>auto intro!: fl_mono mult_right_mono\<close>)
next
  case 2
  with assms(3) have "b = PosInf" by (cases b) (auto simp: f_le_def)
  with 2 assms(4) show ?thesis by simp
qed

lemma token_cost_mono:
  assumes "0 \<le> n" and "n \<le> m" and "0 < p"
  shows "f_le (token_cost n p) (token_cost m p)"
  unfolding token_cost_def f_div_int_def
  using assms by (intro f_mul_fin_mono nonneg_fl fl_mono divide_right_mono) auto

text \<open>
  C22: a reservation is a worst case: when the provider reports no more input tokens than were
  estimated and no more output tokens than allowed, the actual cost, computed with the same
  rounding, does not exceed the reserved amount.
\<close>

theorem reservation_covers_actual_cost:
  assumes "0 < ps_input_usd_per_million_tokens ps" and "0 < ps_output_usd_per_million_tokens ps"
    and "0 \<le> tokens_in" and "tokens_in \<le> estimated" and "0 \<le> tokens_out" and "tokens_out \<le> max_out"
  shows "f_le (actual_cost_usd ps tokens_in tokens_out) (reservation_usd ps estimated max_out)"
  unfolding actual_cost_usd_def reservation_usd_def
  using assms by (intro f_add_mono token_cost_nonneg token_cost_mono) auto

theorem reservation_covers_actual_cost_witness:
  "f_le (actual_cost_usd CLAUDE_SONNET_5_PRICING 1200 300)
        (reservation_usd CLAUDE_SONNET_5_PRICING (estimate_input_tokens (replicate 2000 CHR ''x'')) MAX_OUTPUT_TOKENS)"
  by (rule reservation_covers_actual_cost)
    (simp_all add: CLAUDE_SONNET_5_PRICING_def estimate_input_tokens_def MAX_OUTPUT_TOKENS_def)

end
