(* ===== verification/GraphState.thy ===== *)
theory GraphState
  imports ToolWrappers ToolCalls Prompts RunRecords Approvals CostLedger
begin

text \<open>
  \<open>src/causalops/graph.py\<close>, first part: the state of an investigation, the helpers that rebuild
  domain objects from it, the report assembly, and asking a model one stage with one repair.
  State holds the domain values themselves where the code holds their JSON dumps; reading one
  back runs the class's own validators again, as \<open>model_validate\<close> does.
\<close>

section \<open>State\<close>

record graph_state =
  gs_investigation_id :: string
  gs_run_id :: string
  gs_incident_id :: string
  gs_model_name :: string
  gs_phase :: graph_phase
  gs_model_turn :: int
  gs_model_calls_used :: int
  gs_repairs_used :: int
  gs_invalid_responses :: int
  gs_started_at :: instant
  gs_context_digest :: string
  gs_seen_fingerprints :: "string list"
  gs_receipts :: "tool_receipt list"
  gs_evidence :: "evidence list"
  gs_runbook_passages :: "runbook_passage list"
  gs_retrieval_mode :: retrieval_mode
  gs_events :: "run_event list"
  gs_pending_proposal :: "tool_proposal option"
  gs_assessment :: "final_assessment option"
  gs_usage :: "model_usage option"
  gs_failure_reason :: "reason_code option"
  gs_escalation_reason :: "escalation_reason option"
  gs_escalation_decision :: "decision option"
  gs_rejection_note :: "string option"
  gs_report :: "investigation_report option"

text \<open>The two operations of a \<open>ToolCallingModel\<close>; either may raise and change the world.\<close>

record 'w tool_calling_model =
  propose :: "model_request \<Rightarrow> 'w \<Rightarrow> (exn + native_tool_call proposed_turn) \<times> 'w"
  respond :: "model_request \<Rightarrow> 'w \<Rightarrow> (exn + model_response) \<times> 'w"

text \<open>What \<open>build_graph\<close> closes its nodes over.\<close>

record 'w graph_config =
  g_libs :: libs
  g_scope :: incident_scope
  g_packet :: initial_alert_packet
  g_budgets :: budgets
  g_model :: "'w tool_calling_model"
  g_registry :: "tool_name \<Rightarrow> 'w tool_wrapper option"
  g_suppress_escalation :: bool
  g_no_tool_baseline :: bool

section \<open>Rebuilding domain objects\<close>

definition rebuild_store :: "string \<Rightarrow> evidence list \<Rightarrow> exn + evidence_store" where
  "rebuild_store incident_id dumps =
     bind_r (map_r evidence_validate dumps) (\<lambda>es. add_all (evidence_store_new incident_id) es)"

definition rebuild_receipts :: "graph_state \<Rightarrow> exn + tool_receipt list" where
  "rebuild_receipts st =
     bind_r (map_r tool_receipt_validate (gs_receipts st))
       (\<lambda>rs. if list_ex (\<lambda>r. rc_incident_id r \<noteq> gs_incident_id st) rs then Inl AssertionError else Inr rs)"

definition proposal_turn :: "graph_state \<Rightarrow> int" where
  "proposal_turn st = gs_model_turn st - 1"

definition tools_left :: "tool_receipt list \<Rightarrow> budgets \<Rightarrow> exn + int" where
  "tools_left receipts b =
     map_sum id slots_left (from_receipts receipts (b_executed_tools b) (b_runbook_searches b))"

definition runbook_searches_left :: "tool_receipt list \<Rightarrow> budgets \<Rightarrow> exn + int" where
  "runbook_searches_left receipts b =
     map_sum id runbook_slots_left (from_receipts receipts (b_executed_tools b) (b_runbook_searches b))"

definition model_calls_left :: "int \<Rightarrow> int \<Rightarrow> budgets \<Rightarrow> int" where
  "model_calls_left model_calls_used repairs_used b = b_model_calls b - (model_calls_used - repairs_used)"

definition denied_check_note :: "budgets \<Rightarrow> tool_receipt \<Rightarrow> exn + denied_check_note" where
  "denied_check_note b r =
     (case rc_reason_code r of
        None \<Rightarrow> Inl AssertionError
      | Some reason \<Rightarrow> map_sum id
          (\<lambda>g. \<lparr> dn_tool = rc_tool r, dn_reason_code = reason, dn_guidance = g \<rparr>)
          (denial_guidance (rc_tool r) reason b))"

definition denied_check_notes :: "tool_receipt list \<Rightarrow> budgets \<Rightarrow> exn + denied_check_note list" where
  "denied_check_notes receipts b =
     map_r (denied_check_note b) (filter (\<lambda>r. rc_policy_result r = DENIED) receipts)"

text \<open>\<open>None\<close> where the exception is not one of the three refusals.\<close>

fun money_refusal_reason_code :: "exn \<Rightarrow> reason_code option" where
  "money_refusal_reason_code CostCeilingExceeded = Some COST_CEILING_EXCEEDED"
| "money_refusal_reason_code InputTooLarge = Some INPUT_TOKEN_CAP_EXCEEDED"
| "money_refusal_reason_code AmbiguousReservationNotResent = Some AMBIGUOUS_MODEL_REQUEST"
| "money_refusal_reason_code _ = None"

text \<open>\<open>timedelta.total_seconds()\<close>: microseconds divided by a million, correctly rounded.\<close>

definition total_seconds :: "instant \<Rightarrow> instant \<Rightarrow> pyfloat" where
  "total_seconds later earlier = f_div_int (later - earlier) 1000000"

text \<open>Python compares a float with an int exactly.\<close>

fun f_gt_int :: "pyfloat \<Rightarrow> int \<Rightarrow> bool" where
  "f_gt_int (Fin q) n \<longleftrightarrow> of_int n < q"
| "f_gt_int PosInf n \<longleftrightarrow> True"
| "f_gt_int _ n \<longleftrightarrow> False"

definition expired :: "instant \<Rightarrow> budgets \<Rightarrow> 'w world \<Rightarrow> bool \<times> 'w world" where
  "expired started_at b w = (case read_clock w of (now, w') \<Rightarrow>
     (f_gt_int (total_seconds now started_at) (wall_clock_seconds b), w'))"

definition accumulate_usage :: "model_usage option \<Rightarrow> model_usage option \<Rightarrow> model_usage option" where
  "accumulate_usage existing latest =
     (case latest of None \<Rightarrow> existing
      | Some l \<Rightarrow> (case existing of None \<Rightarrow> Some l
         | Some t \<Rightarrow> Some \<lparr> input_tokens = input_tokens t + input_tokens l,
                           output_tokens = output_tokens t + output_tokens l \<rparr>))"

definition unresolved_runbook_citations ::
    "final_assessment option \<Rightarrow> runbook_passage list \<Rightarrow> string list" where
  "unresolved_runbook_citations assessment passages =
     (case assessment of None \<Rightarrow> []
      | Some a \<Rightarrow> filter (\<lambda>i. i \<notin> set (map rp_passage_id passages)) (fa_runbook_citations a))"

section \<open>The report\<close>

definition TOOL_REGISTRY_VERSION :: string where
  "TOOL_REGISTRY_VERSION = ''8''"

definition current_versions :: versions where
  "current_versions = \<lparr> v_schema_version = SCHEMA_VERSION, v_prompt_version = PROMPT_VERSION,
     v_policy_version = POLICY_VERSION, v_tool_registry_version = TOOL_REGISTRY_VERSION \<rparr>"

text \<open>\<open>int(x)\<close> truncates; it raises on an infinity or a NaN.\<close>

fun f_to_int :: "pyfloat \<Rightarrow> exn + int" where
  "f_to_int (Fin q) = Inr (if 0 \<le> q then \<lfloor>q\<rfloor> else \<lceil>q\<rceil>)"
| "f_to_int NaN = Inl ValueError"
| "f_to_int _ = Inl (OtherError ''OverflowError'')"

definition latency_ms :: "instant \<Rightarrow> instant \<Rightarrow> exn + int" where
  "latency_ms finished_at started_at = f_to_int (f_mul_fin (total_seconds finished_at started_at) 1000)"

definition tools_executed :: "tool_receipt list \<Rightarrow> int" where
  "tools_executed receipts =
     int (length (filter (\<lambda>r. rc_policy_result r = ALLOWED \<and> rc_state r = SETTLED) receipts))"

definition report_disposition :: "final_assessment option \<Rightarrow> disposition \<times> root_cause_code" where
  "report_disposition assessment =
     (case assessment of
        None \<Rightarrow> (FAILED_SAFE, UNDETERMINED)
      | Some a \<Rightarrow> (if fa_disposition a = M_DIAGNOSED then DIAGNOSED else INSUFFICIENT_EVIDENCE, fa_root_cause a))"

definition report_reason :: "final_assessment option \<Rightarrow> reason_code option \<Rightarrow> reason_code option \<Rightarrow> reason_code option" where
  "report_reason assessment forced failure =
     (case assessment of Some _ \<Rightarrow> None
      | None \<Rightarrow> Some (case forced of Some r \<Rightarrow> r
          | None \<Rightarrow> (case failure of Some r \<Rightarrow> r | None \<Rightarrow> INTERNAL_ERROR)))"

definition report_limitations :: "model_usage option \<Rightarrow> string list \<Rightarrow> string list" where
  "report_limitations usage unresolved =
     (if usage = None then [''this model reports no token usage''] else [])
     @ (if unresolved = [] then [] else
        [show_nat (length unresolved) @ '' cited runbook passage id(s) ''
         @ ''could not be resolved against what this run actually retrieved''])"

definition report_escalation :: "graph_state \<Rightarrow> exn + escalation_record option" where
  "report_escalation st =
     (case gs_escalation_reason st of
        None \<Rightarrow> Inr None
      | Some reason \<Rightarrow> (case gs_escalation_decision st of
            None \<Rightarrow> Inl AssertionError
          | Some d \<Rightarrow> map_sum id Some (escalation_record_validate
              \<lparr> er_reason = reason, er_decision = d, er_rejection_note = gs_rejection_note st \<rparr>)))"

definition build_report ::
    "graph_state \<Rightarrow> budgets \<Rightarrow> reason_code option \<Rightarrow> 'w world \<Rightarrow>
     (exn + investigation_report) \<times> 'w world" where
  "build_report st b force_failure_reason w =
     (case rebuild_receipts st of Inl e \<Rightarrow> (Inl e, w) | Inr receipts \<Rightarrow>
      case rebuild_store (gs_incident_id st) (gs_evidence st) of Inl e \<Rightarrow> (Inl e, w) | Inr store \<Rightarrow>
      case read_clock w of (finished_at, w') \<Rightarrow>
      case (if force_failure_reason \<noteq> None then Inr None
            else case gs_assessment st of None \<Rightarrow> Inr None
              | Some a \<Rightarrow> map_sum id Some (final_assessment_validate a)) of
        Inl e \<Rightarrow> (Inl e, w')
      | Inr assessment \<Rightarrow>
        (let unresolved = unresolved_runbook_citations assessment (gs_runbook_passages st) in
         case report_escalation st of Inl e \<Rightarrow> (Inl e, w') | Inr escalation \<Rightarrow>
         case latency_ms finished_at (gs_started_at st) of Inl e \<Rightarrow> (Inl e, w') | Inr latency \<Rightarrow>
         (investigation_report_validate
           \<lparr> ir_investigation_id = gs_investigation_id st, ir_incident_id = gs_incident_id st,
             ir_disposition = fst (report_disposition assessment),
             ir_root_cause = snd (report_disposition assessment), ir_assessment = assessment,
             ir_reason_code = report_reason assessment force_failure_reason (gs_failure_reason st),
             ir_budgets = b, ir_versions = current_versions, ir_started_at = gs_started_at st,
             ir_finished_at = finished_at, ir_latency_ms = latency,
             ir_model_calls_used = gs_model_calls_used st, ir_repairs_used = gs_repairs_used st,
             ir_tools_executed = tools_executed receipts,
             ir_invalid_responses = gs_invalid_responses st, ir_usage = gs_usage st,
             ir_final_context_digest = gs_context_digest st,
             ir_evidence_ids = map ev_evidence_id (ordered store),
             ir_receipt_ids = map rc_receipt_id receipts,
             ir_retrieval_mode = gs_retrieval_mode st,
             ir_runbook_passage_ids = map rp_passage_id (gs_runbook_passages st),
             ir_limitations = report_limitations (gs_usage st) unresolved,
             ir_escalation = escalation \<rparr>, w')))"

section \<open>Asking one stage\<close>

text \<open>\<open>_StageCounters\<close> with the locals its closures mutate and the world.\<close>

record 'w stage_counters =
  sc_model_calls_used :: int
  sc_repairs_used :: int
  sc_invalid_responses :: int
  sc_usage :: "model_usage option"
  sc_context_digest :: string
  sc_stop_reason :: "reason_code option"
  sc_last_proposal :: "tool_proposal option"
  sc_events :: "run_event list"
  sc_world :: "'w world"

definition stage_counters_new :: "graph_state \<Rightarrow> run_event list \<Rightarrow> 'w world \<Rightarrow> 'w stage_counters" where
  "stage_counters_new st evs w =
     \<lparr> sc_model_calls_used = gs_model_calls_used st, sc_repairs_used = gs_repairs_used st,
       sc_invalid_responses = gs_invalid_responses st, sc_usage = gs_usage st,
       sc_context_digest = gs_context_digest st, sc_stop_reason = None, sc_last_proposal = None,
       sc_events = evs, sc_world = w \<rparr>"

definition record_call :: "string \<Rightarrow> 'w stage_counters \<Rightarrow> 'w stage_counters" where
  "record_call digest s = s\<lparr>sc_context_digest := digest, sc_model_calls_used := sc_model_calls_used s + 1\<rparr>"

definition record_usage :: "model_usage option \<Rightarrow> 'w stage_counters \<Rightarrow> 'w stage_counters" where
  "record_usage latest s = s\<lparr>sc_usage := accumulate_usage (sc_usage s) latest\<rparr>"

definition may_repair :: "budgets \<Rightarrow> 'w stage_counters \<Rightarrow> bool" where
  "may_repair b s \<longleftrightarrow> sc_repairs_used s < b_repairs b"

text \<open>An event recorded by a stage.\<close>

definition stage_event :: "graph_phase \<Rightarrow> string \<Rightarrow> json pydict \<Rightarrow> 'w stage_counters \<Rightarrow> 'w stage_counters" where
  "stage_event phase name flds s =
     (case record_event phase name flds (sc_events s) (sc_world s) of (evs, w) \<Rightarrow>
        s\<lparr>sc_events := evs, sc_world := w\<rparr>)"

definition render_stage_request ::
    "libs \<Rightarrow> initial_alert_packet \<Rightarrow> incident_scope \<Rightarrow> evidence_store \<Rightarrow> tool_receipt list \<Rightarrow> budgets \<Rightarrow>
     stage \<Rightarrow> string option \<Rightarrow> runbook_passage list \<Rightarrow> int \<Rightarrow> int \<Rightarrow> string \<Rightarrow> graph_phase \<Rightarrow> int \<Rightarrow>
     exn + (model_request \<times> string)" where
  "render_stage_request L packet scope store receipts b stage repair_errors passages calls repairs
       run_id phase model_turn =
     bind_r (context_evidence store (derive_context_quotas (b_executed_tools b))) (\<lambda>(evidence, markers).
     bind_r (tools_left receipts b) (\<lambda>checks_left.
     bind_r (denied_check_notes receipts b) (\<lambda>denied.
     bind_r (runbook_searches_left receipts b) (\<lambda>searches_left.
       let context_text = render_context packet scope evidence markers (model_calls_left calls repairs b)
             checks_left passages denied searches_left
             @ newline @ newline @ ''## Task'' @ newline @ STAGE_INSTRUCTIONS stage;
           digest = digest_text L (SYSTEM_TEXT @ context_text
             @ (case repair_errors of None \<Rightarrow> [] | Some e \<Rightarrow> e))
       in Inr (\<lparr> mr_stage = stage, mr_system_text = SYSTEM_TEXT, mr_context_text = context_text,
                 mr_repair_errors = repair_errors, mr_run_id = run_id,
                 mr_graph_phase = phase_value phase, mr_model_turn = model_turn,
                 mr_context_digest = digest \<rparr>, digest)))))"

definition stop_with ::
    "(reason_code \<Rightarrow> 'w stage_counters \<Rightarrow> 'w stage_counters) \<Rightarrow> reason_code \<Rightarrow> 'w stage_counters \<Rightarrow>
     (exn + 't option) \<times> 'w stage_counters" where
  "stop_with on_stop reason s = (Inr None, on_stop reason (s\<lparr>sc_stop_reason := Some reason\<rparr>))"

definition ask_with_repair ::
    "budgets \<Rightarrow> instant \<Rightarrow>
     (string option \<Rightarrow> 'w stage_counters \<Rightarrow> (exn + ('t option \<times> string)) \<times> 'w stage_counters) \<Rightarrow>
     (reason_code \<Rightarrow> 'w stage_counters \<Rightarrow> 'w stage_counters) \<Rightarrow>
     (string \<Rightarrow> 'w stage_counters \<Rightarrow> 'w stage_counters) \<Rightarrow>
     'w stage_counters \<Rightarrow> (exn + 't option) \<times> 'w stage_counters" where
  "ask_with_repair b started_at ask_once on_stop on_invalid s =
     (case expired started_at b (sc_world s) of (is_expired, w1) \<Rightarrow>
      let s1 = s\<lparr>sc_world := w1\<rparr> in
      if is_expired then stop_with on_stop WALL_CLOCK_EXPIRED s1
      else if model_calls_left (sc_model_calls_used s1) (sc_repairs_used s1) b \<le> 0
        then stop_with on_stop MODEL_CALL_BUDGET_EXHAUSTED s1
      else case ask_once None s1 of
        (Inl e, s2) \<Rightarrow> (Inl e, s2)
      | (Inr (Some parsed, _), s2) \<Rightarrow> (Inr (Some parsed), s2)
      | (Inr (None, errors), s2) \<Rightarrow>
          let s3 = on_invalid errors (s2\<lparr>sc_invalid_responses := sc_invalid_responses s2 + 1\<rparr>) in
          if \<not> may_repair b s3 then stop_with on_stop REPAIR_EXHAUSTED s3
          else case ask_once (Some errors) (s3\<lparr>sc_repairs_used := sc_repairs_used s3 + 1\<rparr>) of
            (Inl e, s4) \<Rightarrow> (Inl e, s4)
          | (Inr (Some parsed, _), s4) \<Rightarrow> (Inr (Some parsed), s4)
          | (Inr (None, second_errors), s4) \<Rightarrow>
              stop_with on_stop MODEL_OUTPUT_INVALID
                (on_invalid second_errors (s4\<lparr>sc_invalid_responses := sc_invalid_responses s4 + 1\<rparr>)))"

end
