(* ===== verification/GraphNodes.thy ===== *)
theory GraphNodes
  imports GraphState
begin

text \<open>
  \<open>src/causalops/graph.py\<close>, second part: the six nodes. A node maps a state and the world to an
  exception or the updated state, or, for the escalation, to a pause.
\<close>

section \<open>Investigate\<close>

text \<open>The closures \<open>log_invalid\<close> and \<open>log_stop\<close> of the two asking nodes.\<close>

definition log_invalid :: "graph_phase \<Rightarrow> stage \<Rightarrow> string \<Rightarrow> 'w stage_counters \<Rightarrow> 'w stage_counters" where
  "log_invalid phase stage reason = stage_event phase ''invalid_response''
     [(''stage'', JStr (stage_value stage)), (''reason'', JStr reason)]"

definition log_stop :: "graph_phase \<Rightarrow> reason_code \<Rightarrow> 'w stage_counters \<Rightarrow> 'w stage_counters" where
  "log_stop phase reason = stage_event phase ''stage_stopped'' [(''reason'', JStr (reason_value reason))]"

text \<open>The closure \<open>ask_once\<close> of \<open>investigate\<close>.\<close>

definition propose_once ::
    "'w graph_config \<Rightarrow> graph_state \<Rightarrow> stage \<Rightarrow> evidence_store \<Rightarrow> tool_receipt list \<Rightarrow> string option \<Rightarrow>
     'w stage_counters \<Rightarrow> (exn + (stage_plan option \<times> string)) \<times> 'w stage_counters" where
  "propose_once cfg st stage store receipts repair_errors s =
     (case render_stage_request (g_libs cfg) (g_packet cfg) (g_scope cfg) store receipts (g_budgets cfg)
             stage repair_errors (gs_runbook_passages st) (sc_model_calls_used s) (sc_repairs_used s)
             (gs_run_id st) INVESTIGATE (gs_model_turn st) of
        Inl e \<Rightarrow> (Inl e, s)
      | Inr (request, digest) \<Rightarrow>
        let s1 = record_call digest s in
        case propose (g_model cfg) request (ext (sc_world s1)) of
          (Inl e, x) \<Rightarrow> (Inl e, s1\<lparr>sc_world := (sc_world s1)\<lparr>ext := x\<rparr>\<rparr>)
        | (Inr turn, x) \<Rightarrow>
          let s2 = record_usage (pt_usage turn) (s1\<lparr>sc_world := (sc_world s1)\<lparr>ext := x\<rparr>\<rparr>) in
          (case pt_parsed turn of
             None \<Rightarrow> (Inr (None, pt_errors turn), s2)
           | Some plan \<Rightarrow>
             if pt_tool_call turn = [] then (Inr (Some plan, []), s2\<lparr>sc_last_proposal := None\<rparr>)
             else (case select_single_tool_call (pt_tool_call turn) of
               None \<Rightarrow> (Inr (None, ''the model proposed '' @ show_nat (length (pt_tool_call turn))
                         @ '' checks in one turn; exactly one is allowed''), s2)
             | Some selected \<Rightarrow> (case parse_tool_call (g_libs cfg) selected of
                 (None, reason) \<Rightarrow> (Inr (None, reason), s2)
               | (Some proposal, _) \<Rightarrow> (Inr (Some plan, []), s2\<lparr>sc_last_proposal := Some proposal\<rparr>)))))"

text \<open>The counters, the digest, the usage and the events a stage hands back to the state.\<close>

definition counted :: "graph_phase \<Rightarrow> 'w stage_counters \<Rightarrow> graph_state \<Rightarrow> graph_state" where
  "counted phase s st = st\<lparr>gs_phase := phase, gs_model_calls_used := sc_model_calls_used s,
     gs_repairs_used := sc_repairs_used s, gs_invalid_responses := sc_invalid_responses s,
     gs_context_digest := sc_context_digest s, gs_usage := sc_usage s, gs_events := sc_events s\<rparr>"

definition stopped_state :: "reason_code option \<Rightarrow> 'w stage_counters \<Rightarrow> graph_state \<Rightarrow> graph_state" where
  "stopped_state reason s st = (counted INVESTIGATE s st)\<lparr>gs_pending_proposal := None,
     gs_failure_reason := (if gs_model_turn st = 0 then reason else None)\<rparr>"

definition opt_json :: "('a \<Rightarrow> json) \<Rightarrow> 'a option \<Rightarrow> json" where
  "opt_json f v = (case v of None \<Rightarrow> JNull | Some x \<Rightarrow> f x)"

definition proposal_fields :: "libs \<Rightarrow> int \<Rightarrow> stage \<Rightarrow> stage_plan \<Rightarrow> tool_proposal option \<Rightarrow> json pydict" where
  "proposal_fields L turn stage plan p =
     [(''proposal_turn'', JInt turn), (''stage'', JStr (stage_value stage)),
      (''hypotheses'', JList (map (hypothesis_model_dump L) (sp_hypotheses plan))),
      (''tool'', opt_json (\<lambda>p. JStr (tool_value (tp_tool p))) p),
      (''evidence_gap'', opt_json (\<lambda>p. JStr (tp_evidence_gap p)) p),
      (''expected_observation'', opt_json (\<lambda>p. JStr (tp_expected_observation p)) p),
      (''arguments'', opt_json (\<lambda>p. JObj (args_model_dump L (tp_arguments p))) p)]"

definition investigate ::
    "'w graph_config \<Rightarrow> graph_state \<Rightarrow> 'w world \<Rightarrow> (exn + graph_state) \<times> 'w world" where
  "investigate cfg st w =
     (let turn_index = gs_model_turn st;
          stage = (if turn_index = 0 then INITIAL_PLAN else HYPOTHESIS_UPDATE) in
      case record_event INVESTIGATE ''stage_started'' [(''stage'', JStr (stage_value stage))] (gs_events st) w of
        (evs, w1) \<Rightarrow>
      case rebuild_receipts st of Inl e \<Rightarrow> (Inl e, w1) | Inr receipts \<Rightarrow>
      case rebuild_store (gs_incident_id st) (gs_evidence st) of Inl e \<Rightarrow> (Inl e, w1) | Inr store \<Rightarrow>
      case ask_with_repair (g_budgets cfg) (gs_started_at st) (propose_once cfg st stage store receipts)
             (log_stop INVESTIGATE) (log_invalid INVESTIGATE stage) (stage_counters_new st evs w1) of
        (Inr None, s) \<Rightarrow> (Inr (stopped_state (sc_stop_reason s) s st), sc_world s)
      | (Inr (Some plan), s) \<Rightarrow>
          let p = sc_last_proposal s;
              s1 = stage_event INVESTIGATE ''stage_finished'' [(''proposed'', JBool (p \<noteq> None))] s;
              s2 = stage_event INVESTIGATE ''proposal_recorded''
                     (proposal_fields (g_libs cfg) turn_index stage plan p) s1
          in (Inr ((counted INVESTIGATE s2 st)\<lparr>gs_model_turn := turn_index + 1,
                 gs_pending_proposal := p, gs_failure_reason := None\<rparr>), sc_world s2)
      | (Inl e, s) \<Rightarrow>
          (case money_refusal_reason_code e of
             Some reason \<Rightarrow> let s1 = log_stop INVESTIGATE reason s in (Inr (stopped_state (Some reason) s1 st), sc_world s1)
           | None \<Rightarrow>
             let s1 = stage_event INVESTIGATE ''internal_error'' [(''error'', JStr (exn_name e))] s in
             (Inr ((counted INVESTIGATE s1 st)\<lparr>gs_pending_proposal := None,
                gs_failure_reason := Some INTERNAL_ERROR\<rparr>), sc_world s1)))"

section \<open>Dispatch and normalize\<close>

definition dispatch_events ::
    "graph_state \<Rightarrow> tool_proposal \<Rightarrow> dispatch_result \<Rightarrow> run_event list \<Rightarrow> 'w world \<Rightarrow>
     run_event list \<times> 'w world" where
  "dispatch_events st p result evs w =
     (let r = dr_receipt result in
      if rc_policy_result r = DENIED then
        record_event DISPATCH_TOOL ''proposal_denied''
          [(''proposal_turn'', JInt (proposal_turn st)), (''receipt_id'', JStr (rc_receipt_id r)),
           (''reason'', JStr (case rc_reason_code r of None \<Rightarrow> [] | Some c \<Rightarrow> reason_value c)),
           (''message'', JStr (dr_message result))] evs w
      else case record_event DISPATCH_TOOL ''check_started'' [(''tool'', JStr (tool_value (tp_tool p)))] evs w of
        (evs1, w1) \<Rightarrow> record_event DISPATCH_TOOL ''check_finished''
          [(''proposal_turn'', JInt (proposal_turn st)), (''receipt_id'', JStr (rc_receipt_id r)),
           (''outcome'', JStr (case rc_outcome r of None \<Rightarrow> [] | Some c \<Rightarrow> outcome_value c)),
           (''duration_ms'', JInt (rc_duration_ms r))] evs1 w1)"

definition dispatch_tool ::
    "'w graph_config \<Rightarrow> graph_state \<Rightarrow> 'w world \<Rightarrow> (exn + graph_state) \<times> 'w world" where
  "dispatch_tool cfg st w =
     (case gs_pending_proposal st of None \<Rightarrow> (Inl AssertionError, w) | Some pending \<Rightarrow>
      case tool_proposal_validate pending of Inl e \<Rightarrow> (Inl e, w) | Inr proposal \<Rightarrow>
      case rebuild_receipts st of Inl e \<Rightarrow> (Inl e, w) | Inr receipts \<Rightarrow>
      case from_receipts receipts (b_executed_tools (g_budgets cfg)) (b_runbook_searches (g_budgets cfg)) of
        Inl e \<Rightarrow> (Inl e, w)
      | Inr ledger \<Rightarrow>
      (let seen = set (gs_seen_fingerprints st) in
       case record_event DISPATCH_TOOL ''proposal_received'' [(''tool'', JStr (tool_value (tp_tool proposal)))]
              (gs_events st) w of (evs, w1) \<Rightarrow>
       case (case g_registry cfg (tp_tool proposal) of
               None \<Rightarrow> (Inl KeyError, seen, ledger, w1)
             | Some wrapper \<Rightarrow> wrapper_dispatch (g_libs cfg) wrapper proposal (g_scope cfg) seen (g_budgets cfg) ledger w1) of
         (Inr result, seen', ledger', w2) \<Rightarrow>
           (case dispatch_events st proposal result evs w2 of (evs', w3) \<Rightarrow>
             (Inr (st\<lparr>gs_phase := DISPATCH_TOOL, gs_receipts := ledger_receipts ledger',
                gs_seen_fingerprints := sorted_list_of_set seen', gs_pending_proposal := None,
                gs_evidence := gs_evidence st @ (case dr_evidence result of None \<Rightarrow> [] | Some e \<Rightarrow> [e]),
                gs_runbook_passages := gs_runbook_passages st @ dr_passages result,
                gs_retrieval_mode := (case dr_retrieval_mode result of None \<Rightarrow> gs_retrieval_mode st | Some m \<Rightarrow> m),
                gs_events := evs'\<rparr>), w3))
       | (Inl e, seen', ledger', w2) \<Rightarrow>
           (case record_event DISPATCH_TOOL ''backend_crashed'' [(''error'', JStr (exn_name e))] evs w2 of
              (evs', w3) \<Rightarrow>
             (Inr (st\<lparr>gs_phase := DISPATCH_TOOL, gs_receipts := ledger_receipts ledger',
                gs_seen_fingerprints := sorted_list_of_set seen', gs_pending_proposal := None,
                gs_evidence := gs_evidence st @ ledger_evidence ledger',
                gs_failure_reason := Some INTERNAL_ERROR, gs_events := evs'\<rparr>), w3))))"

definition normalize_evidence ::
    "graph_state \<Rightarrow> 'w world \<Rightarrow> (exn + graph_state) \<times> 'w world" where
  "normalize_evidence st w =
     (case record_event NORMALIZE_EVIDENCE ''evidence_normalized''
             [(''count'', JInt (int (length (gs_evidence st))))] (gs_events st) w of
        (evs, w') \<Rightarrow> (Inr (st\<lparr>gs_phase := NORMALIZE_EVIDENCE, gs_events := evs\<rparr>), w'))"

section \<open>Final assessment\<close>

definition respond_once ::
    "'w graph_config \<Rightarrow> graph_state \<Rightarrow> evidence_store \<Rightarrow> tool_receipt list \<Rightarrow> string option \<Rightarrow>
     'w stage_counters \<Rightarrow> (exn + (final_assessment option \<times> string)) \<times> 'w stage_counters" where
  "respond_once cfg st store receipts repair_errors s =
     (case render_stage_request (g_libs cfg) (g_packet cfg) (g_scope cfg) store receipts (g_budgets cfg)
             STAGE_FINAL_ASSESSMENT repair_errors (gs_runbook_passages st) (sc_model_calls_used s)
             (sc_repairs_used s) (gs_run_id st) FINAL_ASSESSMENT (gs_model_turn st) of
        Inl e \<Rightarrow> (Inl e, s)
      | Inr (request, digest) \<Rightarrow>
        let s1 = record_call digest s in
        case respond (g_model cfg) request (ext (sc_world s1)) of
          (Inl e, x) \<Rightarrow> (Inl e, s1\<lparr>sc_world := (sc_world s1)\<lparr>ext := x\<rparr>\<rparr>)
        | (Inr response, x) \<Rightarrow>
          let s2 = record_usage (resp_usage response) (s1\<lparr>sc_world := (sc_world s1)\<lparr>ext := x\<rparr>\<rparr>) in
          if resp_errors response \<noteq> [] then (Inr (None, resp_errors response), s2)
          else (Inr (parse_response (g_libs cfg) (resp_content response)), s2))"

definition failed_state :: "reason_code \<Rightarrow> 'w stage_counters \<Rightarrow> graph_state \<Rightarrow> graph_state" where
  "failed_state reason s st = (counted FINAL_ASSESSMENT s st)\<lparr>gs_assessment := None,
     gs_failure_reason := Some reason\<rparr>"

definition final_assessment_node ::
    "'w graph_config \<Rightarrow> graph_state \<Rightarrow> 'w world \<Rightarrow> (exn + graph_state) \<times> 'w world" where
  "final_assessment_node cfg st w =
     (case record_event FINAL_ASSESSMENT ''stage_started''
             [(''stage'', JStr (stage_value STAGE_FINAL_ASSESSMENT))] (gs_events st) w of (evs, w1) \<Rightarrow>
      case rebuild_receipts st of Inl e \<Rightarrow> (Inl e, w1) | Inr receipts \<Rightarrow>
      case rebuild_store (gs_incident_id st) (gs_evidence st) of Inl e \<Rightarrow> (Inl e, w1) | Inr store \<Rightarrow>
      let crash = (\<lambda>e s. let s1 = stage_event FINAL_ASSESSMENT ''internal_error'' [(''error'', JStr (exn_name e))] s in
             (Inr (failed_state INTERNAL_ERROR s1 st), sc_world s1))
      in case ask_with_repair (g_budgets cfg) (gs_started_at st) (respond_once cfg st store receipts)
             (log_stop FINAL_ASSESSMENT) (log_invalid FINAL_ASSESSMENT STAGE_FINAL_ASSESSMENT) (stage_counters_new st evs w1) of
        (Inr None, s) \<Rightarrow> (case sc_stop_reason s of
             None \<Rightarrow> crash AssertionError s
           | Some reason \<Rightarrow> (Inr (failed_state reason s st), sc_world s))
      | (Inr (Some parsed), s) \<Rightarrow>
          let forged = unknown_ids store (fa_supporting_evidence_ids parsed @ fa_contrary_evidence_ids parsed) in
          if forged \<noteq> [] then
            let s1 = stage_event FINAL_ASSESSMENT ''forged_citation'' [(''cited'', JInt (int (length forged)))] s in
            (Inr (failed_state FORGED_EVIDENCE_REFERENCE s1 st), sc_world s1)
          else (Inr ((counted FINAL_ASSESSMENT s st)\<lparr>gs_assessment := Some parsed,
                  gs_failure_reason := None\<rparr>), sc_world s)
      | (Inl e, s) \<Rightarrow>
          (case money_refusal_reason_code e of
             Some reason \<Rightarrow> let s1 = log_stop FINAL_ASSESSMENT reason s in (Inr (failed_state reason s1 st), sc_world s1)
           | None \<Rightarrow> crash e s))"

section \<open>Escalation and report\<close>

definition escalation_reason_of ::
    "tool_receipt list \<Rightarrow> final_assessment \<Rightarrow> budgets \<Rightarrow> nat \<Rightarrow> exn + escalation_reason option" where
  "escalation_reason_of receipts assessment b retrieved_passage_count =
     (if list_ex (\<lambda>r. rc_outcome r = Some UNAVAILABLE) receipts then Inr (Some ER_TOOL_UNAVAILABLE)
      else if list_ex (\<lambda>r. rc_tool r = SEARCH_RUNBOOKS \<and> rc_policy_result r = ALLOWED
                \<and> rc_state r = SETTLED) receipts \<and> retrieved_passage_count = 0
        then Inr (Some RETRIEVAL_COVERAGE_INSUFFICIENT)
      else if fa_disposition assessment = M_INSUFFICIENT_EVIDENCE then
        bind_r (tools_left receipts b) (\<lambda>left.
          if 0 < left then Inr (Some INSUFFICIENT_EVIDENCE_WITH_CHECK_REMAINING)
          else if fa_contrary_evidence_ids assessment \<noteq> [] then Inr (Some CONFLICTING_EVIDENCE)
          else Inr None)
      else if fa_contrary_evidence_ids assessment \<noteq> [] then Inr (Some CONFLICTING_EVIDENCE)
      else Inr None)"

text \<open>A resume value is any JSON value; only a mapping can be a decision.\<close>

definition parse_resume_decision :: "json \<Rightarrow> (decision \<times> string option) option" where
  "parse_resume_decision v =
     (case v of
        JObj d \<Rightarrow>
          (let decision = dict_get d ''decision''; note = dict_get d ''rejection_note'' in
           if decision = Some (JStr ''accept'') then
             (if note = None \<or> note = Some JNull then Some (Accept, None) else None)
           else if decision = Some (JStr ''reject'') then
             (case note of
                Some (JStr n) \<Rightarrow> if py_strip n \<noteq> [] then Some (Reject, Some (py_strip n)) else None
              | _ \<Rightarrow> None)
           else None)
      | _ \<Rightarrow> None)"

text \<open>
  The successive values of \<open>interrupt(...)\<close> on one attempt are the resume values given so far,
  in order; when they are used up without a valid one, the attempt pauses.
\<close>

fun resolve_resume :: "json list \<Rightarrow> (decision \<times> string option) option" where
  "resolve_resume [] = None"
| "resolve_resume (v # vs) =
     (case parse_resume_decision v of Some d \<Rightarrow> Some d | None \<Rightarrow> resolve_resume vs)"

record interrupt_payload =
  ip_reason :: escalation_reason
  ip_evidence_ids :: "string list"
  ip_remaining_check_count :: int
  ip_retry :: bool

datatype node_outcome = Updated graph_state | Interrupted interrupt_payload

definition escalation_interrupt ::
    "budgets \<Rightarrow> json list \<Rightarrow> graph_state \<Rightarrow> 'w world \<Rightarrow> (exn + node_outcome) \<times> 'w world" where
  "escalation_interrupt b resumes st w =
     (case rebuild_receipts st of Inl e \<Rightarrow> (Inl e, w) | Inr receipts \<Rightarrow>
      case (case gs_assessment st of None \<Rightarrow> Inl ValidationError | Some a \<Rightarrow> final_assessment_validate a) of
        Inl e \<Rightarrow> (Inl e, w)
      | Inr assessment \<Rightarrow>
      case rebuild_store (gs_incident_id st) (gs_evidence st) of Inl e \<Rightarrow> (Inl e, w) | Inr store \<Rightarrow>
      case escalation_reason_of receipts assessment b (length (gs_runbook_passages st)) of
        Inl e \<Rightarrow> (Inl e, w)
      | Inr None \<Rightarrow> (Inl AssertionError, w)
      | Inr (Some reason) \<Rightarrow>
      case tools_left receipts b of Inl e \<Rightarrow> (Inl e, w) | Inr left \<Rightarrow>
      case resolve_resume resumes of
        None \<Rightarrow> (Inr (Interrupted \<lparr> ip_reason = reason,
             ip_evidence_ids = map ev_evidence_id (ordered store),
             ip_remaining_check_count = left, ip_retry = (resumes \<noteq> []) \<rparr>), w)
      | Some (d, rejection) \<Rightarrow>
        (case record_event ESCALATION_INTERRUPT ''escalation_decided''
                [(''reason'', JStr (escalation_value reason)), (''decision'', JStr (decision_value d))]
                (gs_events st) w of
           (evs, w') \<Rightarrow>
             (Inr (Updated (st\<lparr>gs_phase := ESCALATION_INTERRUPT, gs_escalation_reason := Some reason,
                gs_escalation_decision := Some d, gs_rejection_note := rejection, gs_events := evs\<rparr>)), w')))"

definition final_report_node ::
    "budgets \<Rightarrow> graph_state \<Rightarrow> 'w world \<Rightarrow> (exn + graph_state) \<times> 'w world" where
  "final_report_node b st w =
     (case build_report st b None w of
        (Inl e, w1) \<Rightarrow> (Inl e, w1)
      | (Inr report, w1) \<Rightarrow>
        case (case gs_assessment st of None \<Rightarrow> Inr None
                | Some a \<Rightarrow> map_sum id Some (final_assessment_validate a)) of
          Inl e \<Rightarrow> (Inl e, w1)
        | Inr assessment \<Rightarrow>
          (let unresolved = unresolved_runbook_citations assessment (gs_runbook_passages st) in
           case (if unresolved = [] then (gs_events st, w1)
                 else record_event FINAL_REPORT ''runbook_citation_unresolved''
                        [(''count'', JInt (int (length unresolved)))] (gs_events st) w1) of
             (evs, w2) \<Rightarrow>
               (Inr (st\<lparr>gs_phase := FINAL_REPORT, gs_report := Some report, gs_events := evs\<rparr>), w2)))"

end
