(* ===== verification/GraphAsk.thy ===== *)
theory GraphAsk
  imports GraphNodes
begin

text \<open>
  Asking a stage, verified once for both nodes that do it: the contract a stage's question must
  meet is a locale, its consequences for \<open>ask_with_repair\<close> are proved inside it, and it is
  interpreted for the question of \<open>investigate\<close> and for that of \<open>final_assessment\<close>.
\<close>

definition proposal_kept :: "'w stage_counters \<Rightarrow> bool" where
  "proposal_kept s \<longleftrightarrow> (\<forall>p \<in> set_option (sc_last_proposal s). tool_proposal_validate p = Inr p)"

text \<open>What was counted between two moments of a stage: calls, repairs, invalid responses.\<close>

definition counted_by :: "int \<Rightarrow> int \<Rightarrow> int \<Rightarrow> 'w stage_counters \<Rightarrow> 'w stage_counters \<Rightarrow> bool" where
  "counted_by calls repairs invalid s s' \<longleftrightarrow>
     sc_model_calls_used s' = sc_model_calls_used s + calls
     \<and> sc_repairs_used s' = sc_repairs_used s + repairs
     \<and> sc_invalid_responses s' = sc_invalid_responses s + invalid
     \<and> (proposal_kept s \<longrightarrow> proposal_kept s')
     \<and> (events_ok (sc_events s) \<longrightarrow> events_ok (sc_events s')) \<and> world_le (sc_world s) (sc_world s')"

lemma counted_by_refl [simp]: "counted_by 0 0 0 s s"
  by (simp add: counted_by_def)

lemma counted_by_trans:
  "counted_by a b c s t \<Longrightarrow> counted_by a' b' c' t u \<Longrightarrow> counted_by (a + a') (b + b') (c + c') s u"
  unfolding counted_by_def by (auto intro: world_le_trans)

lemma counted_by_step:
  "counted_by 0 0 1 s (s\<lparr>sc_invalid_responses := sc_invalid_responses s + 1\<rparr>)"
  "counted_by 0 1 0 s (s\<lparr>sc_repairs_used := sc_repairs_used s + 1\<rparr>)"
  "counted_by 0 0 0 s (s\<lparr>sc_stop_reason := r\<rparr>)"
  "world_le (sc_world s) w \<Longrightarrow> counted_by 0 0 0 s (s\<lparr>sc_world := w\<rparr>)"
  "counted_by 1 0 0 s (record_call digest s)"
  "counted_by 0 0 0 s (record_usage u s)"
  "counted_by 0 0 0 s (s\<lparr>sc_last_proposal := None\<rparr>)"
  "tool_proposal_validate p = Inr p \<Longrightarrow> counted_by 0 0 0 s (s\<lparr>sc_last_proposal := Some p\<rparr>)"
  by (simp_all add: counted_by_def proposal_kept_def record_call_def record_usage_def)

lemma stage_event_counted: "counted_by 0 0 0 s (stage_event phase name flds s)"
  by (auto simp: counted_by_def stage_event_def proposal_kept_def split: prod.splits dest: record_event_ok)

lemma stage_event_stop [simp]: "sc_stop_reason (stage_event phase name flds s) = sc_stop_reason s"
  "sc_last_proposal (stage_event phase name flds s) = sc_last_proposal s"
  by (simp_all add: stage_event_def split: prod.splits)

locale stage_question =
  fixes b :: budgets
    and ask_once :: "string option \<Rightarrow> 'w stage_counters \<Rightarrow> (exn + ('t option \<times> string)) \<times> 'w stage_counters"
    and on_stop :: "reason_code \<Rightarrow> 'w stage_counters \<Rightarrow> 'w stage_counters"
    and on_invalid :: "string \<Rightarrow> 'w stage_counters \<Rightarrow> 'w stage_counters"
    and good :: "'t \<Rightarrow> bool"
  assumes answer_counted: "ask_once re s = (Inr x, s') \<Longrightarrow> counted_by 1 0 0 s s'"
    and crash_counted: "ask_once re s = (Inl e, s') \<Longrightarrow> counted_by 0 0 0 s s' \<or> counted_by 1 0 0 s s'"
    and answer_good: "ask_once re s = (Inr (Some v, errors), s') \<Longrightarrow> good v"
    and stop_logs: "counted_by 0 0 0 s (on_stop reason s)"
    and stop_keeps: "sc_stop_reason (on_stop reason s) = sc_stop_reason s"
    and invalid_logs: "counted_by 0 0 0 s (on_invalid errors' s)"
begin

lemma stop_counted:
  assumes "stop_with on_stop reason s = (r, s')"
  shows "r = Inr None" and "counted_by 0 0 0 s s'" and "sc_stop_reason s' = Some reason"
proof -
  from assms have r: "r = Inr None" "s' = on_stop reason (s\<lparr>sc_stop_reason := Some reason\<rparr>)"
    by (auto simp: stop_with_def)
  show "r = Inr None" by fact
  show "counted_by 0 0 0 s s'" unfolding r(2)
    using counted_by_trans [OF counted_by_step(3) stop_logs] by simp
  show "sc_stop_reason s' = Some reason" by (simp add: r(2) stop_keeps)
qed

text \<open>What a repair does from the first invalid answer on.\<close>

definition repair :: "string \<Rightarrow> 'w stage_counters \<Rightarrow> (exn + 't option) \<times> 'w stage_counters" where
  "repair errors s2 = (let
     s3 = on_invalid errors (s2\<lparr>sc_invalid_responses := sc_invalid_responses s2 + 1\<rparr>) in
     if \<not> may_repair b s3 then stop_with on_stop REPAIR_EXHAUSTED s3
     else case ask_once (Some errors) (s3\<lparr>sc_repairs_used := sc_repairs_used s3 + 1\<rparr>) of
            (Inl e, s4) \<Rightarrow> (Inl e, s4)
          | (Inr (Some parsed, _), s4) \<Rightarrow> (Inr (Some parsed), s4)
          | (Inr (None, second_errors), s4) \<Rightarrow>
              stop_with on_stop MODEL_OUTPUT_INVALID
                (on_invalid second_errors (s4\<lparr>sc_invalid_responses := sc_invalid_responses s4 + 1\<rparr>)))"

definition spent_on_repair :: "(exn + 't option) \<Rightarrow> 'w stage_counters \<Rightarrow> 'w stage_counters \<Rightarrow> bool" where
  "spent_on_repair r s s' \<longleftrightarrow> (\<exists>dc dr di. counted_by dc dr di s s' \<and> 0 \<le> di \<and> 0 \<le> dc
     \<and> (dr = 0 \<and> dc = 0 \<or> dr = 1 \<and> dc \<le> 1 \<and> sc_repairs_used s < b_repairs b)
     \<and> (\<forall>v. r = Inr (Some v) \<longrightarrow> good v \<and> dc = dr))
     \<and> (r = Inr None \<longrightarrow> sc_stop_reason s' \<noteq> None)"

lemma repair_counted:
  assumes "repair errors s = (r, s')"
  shows "spent_on_repair r s s'"
proof -
  define s3 where "s3 = on_invalid errors (s\<lparr>sc_invalid_responses := sc_invalid_responses s + 1\<rparr>)"
  have i: "counted_by 0 0 1 s s3"
    using counted_by_trans [OF counted_by_step(1) invalid_logs] by (simp add: s3_def)
  show ?thesis
  proof (cases "may_repair b s3")
    case False
    with assms have "stop_with on_stop REPAIR_EXHAUSTED s3 = (r, s')"
      by (simp add: repair_def s3_def Let_def)
    note st = stop_counted [OF this]
    from counted_by_trans [OF i st(2)] st(1,3) show ?thesis
      unfolding spent_on_repair_def by (intro conjI exI [of _ 0] exI [of _ 1]) auto
  next
    case True
    define s3' where "s3' = s3\<lparr>sc_repairs_used := sc_repairs_used s3 + 1\<rparr>"
    have i': "counted_by 0 1 1 s s3'"
      using counted_by_trans [OF i counted_by_step(2)] by (simp add: s3'_def)
    have lt: "sc_repairs_used s < b_repairs b" using True i by (simp add: may_repair_def counted_by_def)
    obtain a s4 where a: "ask_once (Some errors) s3' = (a, s4)" by force
    note unf = repair_def s3_def [symmetric] s3'_def [symmetric] Let_def True a
    show ?thesis
    proof (cases a)
      case (Inl e)
      with assms have rs: "r = Inl e" "s' = s4" by (simp_all add: unf)
      from crash_counted [OF a [unfolded Inl]] obtain dc where "counted_by dc 0 0 s3' s4" "0 \<le> dc" "dc \<le> 1"
        by fastforce
      from counted_by_trans [OF i' this(1)] this(2,3) lt rs show ?thesis
        unfolding spent_on_repair_def
        by (intro conjI exI [of _ dc] exI [of _ "1::int"]) auto
    next
      case (Inr x)
      obtain v' er where x: "x = (v', er)" by force
      have ask: "counted_by 1 1 1 s s4"
        using counted_by_trans [OF i' answer_counted [OF a [unfolded Inr]]] by simp
      show ?thesis
      proof (cases v')
        case (Some v'')
        with assms Inr x have rs: "r = Inr (Some v'')" "s' = s4" by (simp_all add: unf)
        moreover have "good v''" using answer_good a Inr x Some by blast
        ultimately show ?thesis using ask lt unfolding spent_on_repair_def
          by (intro conjI exI [of _ "1::int"]) auto
      next
        case None
        define s5 where "s5 = on_invalid er (s4\<lparr>sc_invalid_responses := sc_invalid_responses s4 + 1\<rparr>)"
        have i2: "counted_by 0 0 1 s4 s5"
          using counted_by_trans [OF counted_by_step(1) invalid_logs] by (simp add: s5_def)
        from assms Inr x None have "stop_with on_stop MODEL_OUTPUT_INVALID s5 = (r, s')"
          by (simp add: unf s5_def)
        note st = stop_counted [OF this]
        have "counted_by 1 1 2 s s'" using counted_by_trans [OF counted_by_trans [OF ask i2] st(2)] by simp
        with st lt show ?thesis unfolding spent_on_repair_def
          by (intro conjI exI [of _ "1::int"] exI [of _ "2::int"]) auto
      qed
    qed
  qed
qed

text \<open>
  The whole stage: at most one call outside the repair budget, and that only when the budget
  has one left; at most one repair, and that only when the repair budget has one left.
\<close>

definition stage_spent :: "(exn + 't option) \<Rightarrow> 'w stage_counters \<Rightarrow> 'w stage_counters \<Rightarrow> bool" where
  "stage_spent r s s' \<longleftrightarrow> (\<exists>dc dr di. counted_by dc dr di s s' \<and> 0 \<le> di \<and> 0 \<le> dr \<and> dr \<le> 1
     \<and> (dr = 1 \<longrightarrow> sc_repairs_used s < b_repairs b) \<and> dr \<le> dc \<and> dc \<le> dr + 1
     \<and> (0 < dc \<longrightarrow> 0 < model_calls_left (sc_model_calls_used s) (sc_repairs_used s) b)
     \<and> (\<forall>v. r = Inr (Some v) \<longrightarrow> good v \<and> dc = dr + 1))
     \<and> (r = Inr None \<longrightarrow> sc_stop_reason s' \<noteq> None)"

lemma stage_spentI:
  assumes "counted_by dc dr di s s'" "0 \<le> di" "0 \<le> dr" "dr \<le> 1" "dr = 1 \<Longrightarrow> sc_repairs_used s < b_repairs b"
    "dr \<le> dc" "dc \<le> dr + 1" "0 < model_calls_left (sc_model_calls_used s) (sc_repairs_used s) b"
    "\<And>v. r = Inr (Some v) \<Longrightarrow> good v \<and> dc = dr + 1" "r = Inr None \<Longrightarrow> sc_stop_reason s' \<noteq> None"
  shows "stage_spent r s s'"
  using assms unfolding stage_spent_def by blast

lemma ask_with_repair_spent:
  assumes "ask_with_repair b started ask_once on_stop on_invalid s = (r, s')"
  shows "stage_spent r s s'"
proof -
  obtain ex w1 where ex: "expired started b (sc_world s) = (ex, w1)" by force
  define s1 where "s1 = s\<lparr>sc_world := w1\<rparr>"
  have "world_le (sc_world s) w1" using ex by (auto simp: expired_def read_clock_def world_le_def)
  then have c1: "counted_by 0 0 0 s s1" by (simp add: s1_def counted_by_step)
  have same: "sc_model_calls_used s1 = sc_model_calls_used s" "sc_repairs_used s1 = sc_repairs_used s"
    by (simp_all add: s1_def)
  note unf = ask_with_repair_def ex s1_def [symmetric] Let_def
  show ?thesis
  proof (cases "ex \<or> model_calls_left (sc_model_calls_used s) (sc_repairs_used s) b \<le> 0")
    case True
    with assms obtain reason where "stop_with on_stop reason s1 = (r, s')"
      by (auto simp: unf same split: if_splits)
    note st = stop_counted [OF this]
    from counted_by_trans [OF c1 st(2)] st(1,3) show ?thesis
      unfolding stage_spent_def by (intro conjI exI [of _ "0::int"]) auto
  next
    case False
    then have left: "0 < model_calls_left (sc_model_calls_used s) (sc_repairs_used s) b" by auto
    obtain a s2 where a: "ask_once None s1 = (a, s2)" by force
    show ?thesis
    proof (cases a)
      case (Inl e)
      with assms False a have rs: "r = Inl e" "s' = s2" by (simp_all add: unf same)
      from crash_counted [OF a [unfolded Inl]] obtain dc where dc: "counted_by dc 0 0 s1 s2" "0 \<le> dc" "dc \<le> 1"
        by fastforce
      from counted_by_trans [OF c1 dc(1)] dc(2,3) left rs show ?thesis
        unfolding stage_spent_def by (intro conjI exI [of _ dc] exI [of _ "0::int"]) auto
    next
      case (Inr x)
      obtain v' er where x: "x = (v', er)" by force
      have ask: "counted_by 1 0 0 s s2"
        using counted_by_trans [OF c1 answer_counted [OF a [unfolded Inr]]] by simp
      show ?thesis
      proof (cases v')
        case (Some v'')
        with assms False a Inr x have rs: "r = Inr (Some v'')" "s' = s2" by (simp_all add: unf same)
        moreover have "good v''" using answer_good a Inr x Some by blast
        ultimately show ?thesis using ask left unfolding stage_spent_def
          by (intro conjI exI [of _ "1::int"] exI [of _ "0::int"]) auto
      next
        case None
        with assms False a Inr x have "repair er s2 = (r, s')" by (simp add: unf same repair_def)
        from repair_counted [OF this] obtain dc dr di where
          d: "counted_by dc dr di s2 s'" "0 \<le> di" "0 \<le> dc"
            "dr = 0 \<and> dc = 0 \<or> dr = 1 \<and> dc \<le> 1 \<and> sc_repairs_used s2 < b_repairs b"
            "\<forall>v. r = Inr (Some v) \<longrightarrow> good v \<and> dc = dr" "r = Inr None \<longrightarrow> sc_stop_reason s' \<noteq> None"
          by (auto simp: spent_on_repair_def)
        have "sc_repairs_used s2 = sc_repairs_used s" using ask by (simp add: counted_by_def)
        note reps = this
        show ?thesis
        proof (rule stage_spentI [OF counted_by_trans [OF ask d(1)]])
          show "0 < model_calls_left (sc_model_calls_used s) (sc_repairs_used s) b" by (rule left)
          show "\<And>v. r = Inr (Some v) \<Longrightarrow> good v \<and> 1 + dc = 0 + dr + 1" using d(5) by simp
          show "r = Inr None \<Longrightarrow> sc_stop_reason s' \<noteq> None" using d(6) by blast
        qed (use d(2-4) reps in auto)
      qed
    qed
  qed
qed

end

section \<open>The two questions\<close>

lemma parse_tool_call_valid: "parse_tool_call L call = (Some p, e) \<Longrightarrow> tool_proposal_validate p = Inr p"
  by (auto simp: parse_tool_call_def split: option.splits json.splits if_splits sum.splits
      dest: parse_rationale_valid)

lemma counted_call:
  "counted_by 1 0 0 s ((record_call digest s)\<lparr>sc_world := (sc_world (record_call digest s))\<lparr>ext := x\<rparr>\<rparr>)"
  using counted_by_trans [OF counted_by_step(5) counted_by_step(4) [OF world_le_ext]] by simp

lemma counted_answer:
  "counted_by 1 0 0 s (record_usage u
     ((record_call digest s)\<lparr>sc_world := (sc_world (record_call digest s))\<lparr>ext := x\<rparr>\<rparr>))"
  using counted_by_trans [OF counted_call counted_by_step(6)] by simp

lemma counted_stop:
  "counted_by 1 0 0 s ((record_usage u
     ((record_call digest s)\<lparr>sc_world := (sc_world (record_call digest s))\<lparr>ext := x\<rparr>\<rparr>))\<lparr>sc_last_proposal := None\<rparr>)"
  using counted_by_trans [OF counted_answer counted_by_step(7)] by simp

lemma counted_proposed:
  assumes "parse_tool_call L call = (Some p, e)"
  shows "counted_by 1 0 0 s ((record_usage u
     ((record_call digest s)\<lparr>sc_world := (sc_world (record_call digest s))\<lparr>ext := x\<rparr>\<rparr>))\<lparr>sc_last_proposal := Some p\<rparr>)"
  using counted_by_trans [OF counted_answer counted_by_step(8) [OF parse_tool_call_valid [OF assms]]] by simp

lemma propose_once_counted:
  assumes "propose_once cfg st stage store receipts re s = (r, s')"
  shows "r = Inr v \<Longrightarrow> counted_by 1 0 0 s s'"
    and "r = Inl e \<Longrightarrow> counted_by 0 0 0 s s' \<or> counted_by 1 0 0 s s'"
  using assms unfolding propose_once_def Let_def
  by (auto split: sum.splits prod.splits option.splits if_splits
      simp: counted_call counted_answer counted_stop counted_proposed)

lemma respond_once_counted:
  assumes "respond_once cfg st store receipts re s = (r, s')"
  shows "r = Inr v \<Longrightarrow> counted_by 1 0 0 s s'"
    and "r = Inl e \<Longrightarrow> counted_by 0 0 0 s s' \<or> counted_by 1 0 0 s s'"
  using assms unfolding respond_once_def Let_def
  by (auto split: sum.splits prod.splits if_splits simp: counted_call counted_answer)

lemma respond_once_valid:
  "respond_once cfg st store receipts re s = (Inr (Some v, errors), s') \<Longrightarrow> assessment_valid v"
  unfolding respond_once_def Let_def
  by (auto split: sum.splits prod.splits if_splits dest: parse_response_valid)

interpretation proposing: stage_question "g_budgets cfg" "propose_once cfg st stage store receipts"
  "log_stop INVESTIGATE" "log_invalid INVESTIGATE stage" "\<lambda>_. True"
  for cfg :: "'w graph_config" and st stage store receipts
  by unfold_locales
    (auto simp: log_stop_def log_invalid_def stage_event_counted dest: propose_once_counted)

interpretation assessing: stage_question "g_budgets cfg" "respond_once cfg st store receipts"
  "log_stop FINAL_ASSESSMENT" "log_invalid FINAL_ASSESSMENT STAGE_FINAL_ASSESSMENT"
  "\<lambda>a. assessment_valid a"
  for cfg :: "'w graph_config" and st store receipts
  by unfold_locales
    (auto simp: log_stop_def log_invalid_def stage_event_counted
      dest: respond_once_counted respond_once_valid)

end
