(* ===== verification/GraphRun.thy ===== *)
theory GraphRun
  imports GraphNodes
begin

text \<open>
  \<open>src/causalops/graph.py\<close>, third part: the routers, the compiled graph, and the entry points
  with their crash containment. The engine (LangGraph) is modelled by what it documents: it
  runs one node and then its router per superstep, commits the node's update only when both
  return, stops after \<open>recursion_limit\<close> supersteps with \<open>GraphRecursionError\<close>, and returns the
  committed state with the interrupt when a node pauses.
\<close>

section \<open>Edges\<close>

datatype graph_node =
    N_investigate | N_dispatch_tool | N_normalize_evidence | N_final_assessment
  | N_escalation_interrupt | N_final_report | N_END

definition route_after_investigate :: "graph_state \<Rightarrow> graph_node" where
  "route_after_investigate st =
     (if gs_pending_proposal st \<noteq> None then N_dispatch_tool
      else if gs_failure_reason st \<noteq> None then N_final_report
      else N_final_assessment)"

definition route_after_normalize ::
    "budgets \<Rightarrow> graph_state \<Rightarrow> 'w world \<Rightarrow> (exn + graph_node) \<times> 'w world" where
  "route_after_normalize b st w =
     (if gs_failure_reason st \<noteq> None then (Inr N_final_report, w)
      else case rebuild_receipts st of Inl e \<Rightarrow> (Inl e, w) | Inr receipts \<Rightarrow>
      case tools_left receipts b of Inl e \<Rightarrow> (Inl e, w) | Inr left \<Rightarrow>
      if 0 < left \<and> 2 \<le> model_calls_left (gs_model_calls_used st) (gs_repairs_used st) b then
        (case expired (gs_started_at st) b w of (is_expired, w') \<Rightarrow>
           (Inr (if \<not> is_expired \<and> gs_model_turn st < b_model_calls b then N_investigate
                 else N_final_assessment), w'))
      else (Inr N_final_assessment, w))"

definition route_after_final_assessment ::
    "budgets \<Rightarrow> bool \<Rightarrow> graph_state \<Rightarrow> exn + graph_node" where
  "route_after_final_assessment b suppress_escalation st =
     (if gs_failure_reason st \<noteq> None then Inr N_final_report
      else if suppress_escalation then Inr N_final_report
      else bind_r (rebuild_receipts st) (\<lambda>receipts.
        bind_r (case gs_assessment st of None \<Rightarrow> Inl ValidationError | Some a \<Rightarrow> final_assessment_validate a)
          (\<lambda>assessment. bind_r (escalation_reason_of receipts assessment b (length (gs_runbook_passages st)))
            (\<lambda>reason. Inr (if reason \<noteq> None then N_escalation_interrupt else N_final_report)))))"

definition graph_start :: "'w graph_config \<Rightarrow> graph_node" where
  "graph_start cfg = (if g_no_tool_baseline cfg then N_final_assessment else N_investigate)"

section \<open>Supersteps\<close>

datatype step_result = Committed graph_node graph_state | Paused interrupt_payload | Raised exn

text \<open>A node's update together with the edge that follows it.\<close>

definition then_to ::
    "(exn + graph_state) \<times> 'w world \<Rightarrow> (graph_state \<Rightarrow> 'w world \<Rightarrow> (exn + graph_node) \<times> 'w world) \<Rightarrow>
     step_result \<times> 'w world" where
  "then_to r route =
     (case r of (Inl e, w) \<Rightarrow> (Raised e, w)
      | (Inr st, w) \<Rightarrow> (case route st w of
            (Inl e, w') \<Rightarrow> (Raised e, w')
          | (Inr n, w') \<Rightarrow> (Committed n st, w')))"

definition superstep ::
    "'w graph_config \<Rightarrow> json list \<Rightarrow> graph_node \<Rightarrow> graph_state \<Rightarrow> 'w world \<Rightarrow> step_result \<times> 'w world" where
  "superstep cfg resumes n st w =
     (case n of
        N_investigate \<Rightarrow> then_to (investigate cfg st w) (\<lambda>st' w'. (Inr (route_after_investigate st'), w'))
      | N_dispatch_tool \<Rightarrow> then_to (dispatch_tool cfg st w) (\<lambda>_ w'. (Inr N_normalize_evidence, w'))
      | N_normalize_evidence \<Rightarrow> then_to (normalize_evidence st w) (route_after_normalize (g_budgets cfg))
      | N_final_assessment \<Rightarrow> then_to (final_assessment_node cfg st w)
          (\<lambda>st' w'. (route_after_final_assessment (g_budgets cfg) (g_suppress_escalation cfg) st', w'))
      | N_escalation_interrupt \<Rightarrow>
          (case escalation_interrupt (g_budgets cfg) resumes st w of
             (Inl e, w') \<Rightarrow> (Raised e, w')
           | (Inr (Interrupted payload), w') \<Rightarrow> (Paused payload, w')
           | (Inr (Updated st'), w') \<Rightarrow> (Committed N_final_report st', w'))
      | N_final_report \<Rightarrow> then_to (final_report_node (g_budgets cfg) st w) (\<lambda>_ w'. (Inr N_END, w'))
      | N_END \<Rightarrow> (Committed N_END st, w))"

definition GRAPH_RECURSION_LIMIT :: nat where
  "GRAPH_RECURSION_LIMIT = 25"

datatype run_end = Finished | PausedAt interrupt_payload | Failed exn

text \<open>\<open>invoke\<close>: how it ends, where, and the last committed state.\<close>

fun run_loop ::
    "'w graph_config \<Rightarrow> json list \<Rightarrow> nat \<Rightarrow> graph_node \<Rightarrow> graph_state \<Rightarrow> 'w world \<Rightarrow>
     run_end \<times> graph_node \<times> graph_state \<times> 'w world" where
  "run_loop cfg resumes limit N_END st w = (Finished, N_END, st, w)"
| "run_loop cfg resumes 0 n st w = (Failed GraphRecursionError, n, st, w)"
| "run_loop cfg resumes (Suc limit) n st w =
     (case superstep cfg resumes n st w of
        (Committed n' st', w') \<Rightarrow> run_loop cfg resumes limit n' st' w'
      | (Paused payload, w') \<Rightarrow> (PausedAt payload, n, st, w')
      | (Raised e, w') \<Rightarrow> (Failed e, n, st, w'))"

section \<open>Entry points\<close>

datatype outcome = Result investigation_result | Escalated escalated_investigation

definition escalated_of :: "string \<Rightarrow> graph_state \<Rightarrow> interrupt_payload \<Rightarrow> exn + outcome" where
  "escalated_of checkpoint_id st payload =
     bind_r (rebuild_store (gs_incident_id st) (gs_evidence st)) (\<lambda>store.
     bind_r (rebuild_receipts st) (\<lambda>receipts.
       Inr (Escalated \<lparr> esc_thread_id = gs_investigation_id st, esc_run_id = gs_run_id st,
         esc_checkpoint_id = checkpoint_id, esc_reason = ip_reason payload,
         esc_evidence = ordered store, esc_receipts = receipts,
         esc_remaining_check_count = ip_remaining_check_count payload,
         esc_proposal_fingerprint = None \<rparr>)))"

definition result_of :: "graph_state \<Rightarrow> exn + outcome" where
  "result_of st =
     bind_r (case gs_report st of None \<Rightarrow> Inl ValidationError | Some r \<Rightarrow> investigation_report_validate r)
       (\<lambda>report. bind_r (rebuild_store (gs_incident_id st) (gs_evidence st)) (\<lambda>store.
        bind_r (rebuild_receipts st) (\<lambda>receipts.
          Inr (Result \<lparr> res_report = report, res_evidence = ordered store, res_receipts = receipts \<rparr>))))"

text \<open>
  \<open>_settle_invocation\<close> on the end of an invocation: crash containment, the synced recorder (the
  second component), and the terminal-vs-paused split. \<open>checkpoint_id\<close> is the engine's.
\<close>

definition settle_invocation ::
    "string \<Rightarrow> budgets \<Rightarrow> run_end \<times> graph_node \<times> graph_state \<times> 'w world \<Rightarrow>
     (exn + outcome) \<times> run_event list \<times> 'w world" where
  "settle_invocation checkpoint_id b ended =
     (case ended of
        (Finished, n, st, w) \<Rightarrow> (result_of st, gs_events st, w)
      | (PausedAt payload, n, st, w) \<Rightarrow> (escalated_of checkpoint_id st payload, gs_events st, w)
      | (Failed e, n, st, w) \<Rightarrow>
          (case record_event FINAL_REPORT ''internal_error'' [(''error'', JStr (exn_name e))] (gs_events st) w of
             (evs, w1) \<Rightarrow>
           let st1 = st\<lparr>gs_events := evs\<rparr> in
           case build_report st1 b (Some INTERNAL_ERROR) w1 of
             (Inl e', w2) \<Rightarrow> (Inl e', [], w2)
           | (Inr report, w2) \<Rightarrow> (result_of (st1\<lparr>gs_report := Some report\<rparr>), evs, w2)))"

definition initial_state ::
    "incident_scope \<Rightarrow> evidence list \<Rightarrow> string \<Rightarrow> string \<Rightarrow> string \<Rightarrow> instant \<Rightarrow> run_event list \<Rightarrow> graph_state" where
  "initial_state scope initial_evidence model_name investigation_id run_id started_at evs =
     \<lparr> gs_investigation_id = investigation_id, gs_run_id = run_id, gs_incident_id = sc_incident_id scope,
       gs_model_name = model_name, gs_phase = CREATED, gs_model_turn = 0, gs_model_calls_used = 0,
       gs_repairs_used = 0, gs_invalid_responses = 0, gs_started_at = started_at,
       gs_context_digest = [], gs_seen_fingerprints = [], gs_receipts = [],
       gs_evidence = initial_evidence, gs_runbook_passages = [], gs_retrieval_mode = DISABLED,
       gs_events = evs, gs_pending_proposal = None, gs_assessment = None, gs_usage = None,
       gs_failure_reason = None, gs_escalation_reason = None, gs_escalation_decision = None,
       gs_rejection_note = None, gs_report = None \<rparr>"

text \<open>Everything up to \<open>invoke\<close>: the identifiers, the start time, the seed event.\<close>

definition start_investigation ::
    "'w graph_config \<Rightarrow> evidence list \<Rightarrow> string option \<Rightarrow> string \<Rightarrow> 'w world \<Rightarrow> graph_state \<times> 'w world" where
  "start_investigation cfg initial_evidence investigation_id model_name w =
     (case (case investigation_id of None \<Rightarrow> new_opaque_id w | Some i \<Rightarrow> (i, w)) of (inv_id, w1) \<Rightarrow>
      case new_opaque_id w1 of (run_id, w2) \<Rightarrow>
      case read_clock w2 of (started_at, w3) \<Rightarrow>
      case record_event CREATED ''investigation_started''
             [(''incident'', JStr (sc_incident_id (g_scope cfg))), (''run_id'', JStr run_id)] [] w3 of
        (evs, w4) \<Rightarrow> (initial_state (g_scope cfg) initial_evidence model_name inv_id run_id started_at evs, w4))"

definition run_graph_investigation ::
    "'w graph_config \<Rightarrow> evidence list \<Rightarrow> string option \<Rightarrow> string \<Rightarrow> string \<Rightarrow> 'w world \<Rightarrow>
     (exn + outcome) \<times> run_event list \<times> 'w world" where
  "run_graph_investigation cfg initial_evidence investigation_id model_name checkpoint_id w =
     (case start_investigation cfg initial_evidence investigation_id model_name w of (st, w1) \<Rightarrow>
        settle_invocation checkpoint_id (g_budgets cfg)
          (run_loop cfg [] GRAPH_RECURSION_LIMIT (graph_start cfg) st w1))"

text \<open>What the checkpointer holds of a thread.\<close>

record thread_snapshot =
  ts_values :: "graph_state option"
  ts_next :: graph_node
  ts_resumes :: "json list"
  ts_interrupts :: "interrupt_payload option"
  ts_checkpoint_id :: string

definition tool_graph :: "'w graph_config \<Rightarrow> 'w graph_config" where
  "tool_graph cfg = cfg\<lparr>g_suppress_escalation := False, g_no_tool_baseline := False\<rparr>"

definition recover_graph_investigation ::
    "'w graph_config \<Rightarrow> thread_snapshot \<Rightarrow> string \<Rightarrow> 'w world \<Rightarrow>
     (exn + outcome option) \<times> run_event list \<times> 'w world" where
  "recover_graph_investigation cfg snapshot checkpoint_id w =
     (case ts_values snapshot of
        None \<Rightarrow> (Inr None, [], w)
      | Some st \<Rightarrow>
        (case ts_interrupts snapshot of
           Some payload \<Rightarrow> (map_sum id Some (escalated_of (ts_checkpoint_id snapshot) st payload), gs_events st, w)
         | None \<Rightarrow>
           if gs_report st \<noteq> None then (map_sum id Some (result_of st), gs_events st, w)
           else (case settle_invocation checkpoint_id (g_budgets cfg)
                    (run_loop (tool_graph cfg) (ts_resumes snapshot) GRAPH_RECURSION_LIMIT
                       (ts_next snapshot) st w) of
                   (r, evs, w') \<Rightarrow> (map_sum id Some r, evs, w'))))"

definition resume_graph_investigation ::
    "'w graph_config \<Rightarrow> thread_snapshot \<Rightarrow> string \<Rightarrow> decision \<Rightarrow> string option \<Rightarrow> 'w world \<Rightarrow>
     (exn + investigation_result) \<times> run_event list \<times> 'w world" where
  "resume_graph_investigation cfg snapshot checkpoint_id d rejection w =
     (case ts_values snapshot of
        None \<Rightarrow> (Inl AssertionError, [], w)
      | Some st \<Rightarrow>
        (case settle_invocation checkpoint_id (g_budgets cfg)
                (run_loop (tool_graph cfg)
                   (ts_resumes snapshot @ [resume_value \<lparr> od_decision = d, od_rejection_note = rejection \<rparr>])
                   GRAPH_RECURSION_LIMIT (ts_next snapshot) st w) of
           (Inl e, evs, w') \<Rightarrow> (Inl e, evs, w')
         | (Inr (Escalated x), evs, w') \<Rightarrow> (Inl AssertionError, evs, w')
         | (Inr (Result r), evs, w') \<Rightarrow> (Inr r, evs, w')))"

end
