(* ===== verification/GraphInv.thy ===== *)
theory GraphInv
  imports GraphAsk GraphRun
begin

text \<open>
  The invariant of an investigation and what every node keeps of it, for every model and every
  backend. The invariant speaks of the state, of the node about to run, and of the world: the
  identifiers still to come are new and the clock does not run backwards.
\<close>

section \<open>The invariant\<close>

definition budgets_ok :: "budgets \<Rightarrow> bool" where
  "budgets_ok b \<longleftrightarrow> 0 \<le> b_repairs b \<and> 0 \<le> b_model_calls b \<and> 0 \<le> b_executed_tools b \<and> 0 \<le> b_runbook_searches b"

definition registry_ok :: "'w graph_config \<Rightarrow> bool" where
  "registry_ok cfg \<longleftrightarrow> (\<forall>t wr. g_registry cfg t = Some wr \<longrightarrow> tw_tool wr = t \<and> tw_arguments_type wr = t)"

definition spent_in :: "bool \<Rightarrow> tool_receipt list \<Rightarrow> int" where
  "spent_in rb rs = int (length (filter (spends rb) rs))"

definition receipts_ok :: "string \<Rightarrow> budgets \<Rightarrow> tool_receipt list \<Rightarrow> bool" where
  "receipts_ok incident_id b rs \<longleftrightarrow> (\<forall>r \<in> set rs. receipt_ok incident_id r) \<and> distinct (map rc_receipt_id rs)
     \<and> spent_in False rs \<le> b_executed_tools b \<and> spent_in True rs \<le> b_runbook_searches b"

definition evidence_ok :: "string \<Rightarrow> evidence list \<Rightarrow> bool" where
  "evidence_ok incident_id es \<longleftrightarrow> (\<forall>e \<in> set es. evidence_validate e = Inr e \<and> ev_incident_id e = incident_id)"

definition counters_ok :: "budgets \<Rightarrow> graph_state \<Rightarrow> bool" where
  "counters_ok b st \<longleftrightarrow> 0 \<le> gs_repairs_used st \<and> gs_repairs_used st \<le> b_repairs b
     \<and> gs_repairs_used st \<le> gs_model_calls_used st
     \<and> gs_model_calls_used st - gs_repairs_used st \<le> b_model_calls b \<and> 0 \<le> gs_invalid_responses st"

definition cited_ids :: "final_assessment \<Rightarrow> string set" where
  "cited_ids a = set (fa_supporting_evidence_ids a) \<union> set (fa_contrary_evidence_ids a)"

definition assessment_ok :: "graph_state \<Rightarrow> bool" where
  "assessment_ok st \<longleftrightarrow> (\<forall>a. gs_assessment st = Some a \<longrightarrow>
     assessment_valid a \<and> cited_ids a \<subseteq> ev_evidence_id ` set (gs_evidence st))"

definition clock_ok :: "'w world \<Rightarrow> bool" where
  "clock_ok w \<longleftrightarrow> (\<forall>i j. i \<le> j \<longrightarrow> clock_at w i \<le> clock_at w j) \<and> (\<forall>i. \<bar>clock_at w i\<bar> \<le> 2 ^ 62)"

definition world_ok :: "graph_state \<Rightarrow> 'w world \<Rightarrow> bool" where
  "world_ok st w \<longleftrightarrow> ids_fresh w (rc_receipt_id ` set (gs_receipts st)) \<and> clock_ok w
     \<and> \<bar>gs_started_at st\<bar> \<le> 2 ^ 62 \<and> (\<forall>n \<ge> clock_n w. gs_started_at st \<le> clock_at w n)"

definition state_ok :: "'w graph_config \<Rightarrow> graph_state \<Rightarrow> 'w world \<Rightarrow> bool" where
  "state_ok cfg st w \<longleftrightarrow> gs_incident_id st = sc_incident_id (g_scope cfg)
     \<and> receipts_ok (gs_incident_id st) (g_budgets cfg) (gs_receipts st)
     \<and> evidence_ok (gs_incident_id st) (gs_evidence st)
     \<and> counters_ok (g_budgets cfg) st
     \<and> (\<forall>p \<in> set_option (gs_pending_proposal st). tool_proposal_validate p = Inr p)
     \<and> assessment_ok st \<and> (\<exists>r. report_escalation st = Inr r)
     \<and> events_ok (gs_events st) \<and> world_ok st w"

section \<open>The helpers succeed\<close>

lemma rebuild_receipts_ok:
  assumes "receipts_ok (gs_incident_id st) b (gs_receipts st)"
  shows "rebuild_receipts st = Inr (gs_receipts st)"
proof -
  have "map_r tool_receipt_validate (gs_receipts st) = Inr (gs_receipts st)"
    using assms by (intro map_r_id) (simp add: receipts_ok_def receipt_ok_def)
  then show ?thesis using assms
    by (auto simp: rebuild_receipts_def list_ex_iff receipts_ok_def receipt_ok_def)
qed

lemma rebuild_store_ok:
  assumes "evidence_ok i es"
  obtains store where "rebuild_store i es = Inr store" and "store_wf store"
    and "set (dict_keys (es_records store)) = ev_evidence_id ` set es"
proof -
  have v: "map_r evidence_validate es = Inr es"
    using assms by (intro map_r_id) (simp add: evidence_ok_def)
  obtain store where s: "add_all (evidence_store_new i) es = Inr store"
    using assms add_all_ok_iff [of "evidence_store_new i" es]
    by (auto simp: evidence_ok_def evidence_store_new_def)
  show thesis
  proof (rule that [of store])
    show "rebuild_store i es = Inr store" by (simp add: rebuild_store_def v s)
    show "store_wf store" using store_wf_new s by (rule add_all_wf)
    show "set (dict_keys (es_records store)) = ev_evidence_id ` set es"
      using add_all_keys [OF s] by (simp add: evidence_store_new_def)
  qed
qed

lemma from_receipts_ok:
  "receipts_ok i b rs \<Longrightarrow> from_receipts rs n k = Inr \<lparr> lg_budget = n, lg_runbook_budget = k,
      lg_receipts = map (\<lambda>r. (rc_receipt_id r, r)) rs, lg_evidence = [] \<rparr>"
  by (simp add: from_receipts_iff receipts_ok_def)

lemma spent_from: "spent rb \<lparr> lg_budget = n, lg_runbook_budget = k,
    lg_receipts = map (\<lambda>r. (rc_receipt_id r, r)) rs, lg_evidence = e \<rparr> = spent_in rb rs"
  by (simp add: spent_def spent_in_def o_def)

lemma tools_left_ok:
  "receipts_ok i b rs \<Longrightarrow> tools_left rs b = Inr (b_executed_tools b - spent_in False rs)"
  "receipts_ok i b rs \<Longrightarrow> runbook_searches_left rs b = Inr (b_runbook_searches b - spent_in True rs)"
  by (simp_all add: tools_left_def runbook_searches_left_def from_receipts_ok slots_left_def
      runbook_slots_left_def spent_from)

lemma denied_notes_ok:
  assumes "receipts_ok i b rs"
  shows "\<exists>ns. denied_check_notes rs b' = Inr ns"
  unfolding denied_check_notes_def map_r_Inr_iff
proof
  fix r
  assume "r \<in> set (filter (\<lambda>r. rc_policy_result r = DENIED) rs)"
  with assms obtain reason where "reason \<in> denial_reasons" "rc_reason_code r = Some reason"
    by (auto simp: receipts_ok_def receipt_ok_def)
  with denial_guidance_total [of reason "rc_tool r" b'] show "\<exists>y. denied_check_note b' r = Inr y"
    by (auto simp: denied_check_note_def)
qed

lemma context_evidence_ok: "\<exists>es ms. context_evidence store (derive_context_quotas n) = Inr (es, ms)"
proof -
  obtain kept d where "context_loop (derive_context_quotas n) (ordered store) (\<lambda>_. 0) (\<lambda>_. 0) = Inr (kept, d)"
    using context_loop_spec [of "derive_context_quotas n" "\<lambda>k. if k \<in> {SYMPTOM, TOPOLOGY} then 2 else n + 1",
        OF derive_context_quotas_total] by blast
  then show ?thesis by (simp add: context_evidence_def)
qed

lemma render_ok:
  assumes "receipts_ok i b rs"
  shows "\<exists>request digest. render_stage_request L packet scope store rs b stage re ps c k run phase turn
     = Inr (request, digest)"
proof -
  obtain es ms where "context_evidence store (derive_context_quotas (b_executed_tools b)) = Inr (es, ms)"
    using context_evidence_ok by blast
  moreover obtain ns where "denied_check_notes rs b = Inr ns" using denied_notes_ok [OF assms] by blast
  ultimately show ?thesis
    using tools_left_ok [OF assms] by (simp add: render_stage_request_def Let_def)
qed

lemma escalation_reason_total:
  "receipts_ok i b rs \<Longrightarrow> \<exists>r. escalation_reason_of rs a b n = Inr r"
  by (simp add: escalation_reason_of_def tools_left_ok)

section \<open>The report\<close>

lemma repr_power: "repr (2 ^ k)"
  unfolding repr_def by (rule exI [of _ 1], rule exI [of _ "int k"]) (simp add: power_int_def)

lemma fl_bounded:
  assumes "0 \<le> x" and "x \<le> 2 ^ k" and "k < 1024"
  obtains q where "fl x = Fin q" and "0 \<le> q" and "q \<le> 2 ^ k"
proof -
  have "rnd x \<le> rnd (2 ^ k)" using assms(2) by (rule rnd_mono)
  then have le: "rnd x \<le> 2 ^ k" by (simp add: repr_power)
  have "(2::rat) ^ k < 2 ^ 1024" using assms(3) by (intro power_strict_increasing) auto
  with le have "rnd x < 2 ^ 1024" by (rule order.strict_trans1)
  with rnd_nonneg [OF assms(1)] have "\<bar>rnd x\<bar> < 2 ^ 1024" by (simp only: abs_of_nonneg)
  then have "fl x = Fin (rnd x)" by (simp only: fl_Fin_iff)
  then show thesis using rnd_nonneg [OF assms(1)] le by (rule that)
qed

lemma latency_ok:
  assumes "started \<le> finished" and "\<bar>started\<bar> \<le> 2 ^ 62" and "\<bar>finished\<bar> \<le> 2 ^ 62"
  obtains l where "latency_ms finished started = Inr l" and "0 \<le> l"
proof -
  let ?d = "of_int (finished - started) / 1000000 :: rat"
  have "finished - started \<le> 2 ^ 63" using assms(2,3) by (simp add: abs_le_iff)
  then have "(of_int (finished - started) :: rat) \<le> of_int (2 ^ 63)" by (simp only: of_int_le_iff)
  then have d63: "?d \<le> 2 ^ 63" by simp
  have d0: "0 \<le> ?d" using assms(1) by simp
  have n: "63 < (1024::nat)" "73 < (1024::nat)" by simp_all
  obtain q where q: "fl ?d = Fin q" "0 \<le> q" "q \<le> 2 ^ 63" by (rule fl_bounded [OF d0 d63 n(1)])
  have q73: "q * 1000 \<le> 2 ^ 73" using q(3) by simp
  have q0: "0 \<le> q * 1000" using q(2) by simp
  obtain m where m: "fl (q * 1000) = Fin m" "0 \<le> m" by (rule fl_bounded [OF q0 q73 n(2)])
  have "latency_ms finished started = Inr \<lfloor>m\<rfloor>"
    using q(1) m by (simp add: latency_ms_def total_seconds_def f_div_int_def)
  then show thesis using m(2) by (intro that [of "\<lfloor>m\<rfloor>"]) simp_all
qed

text \<open>What a report says, against the state it was built from.\<close>

definition report_states :: "graph_state \<Rightarrow> budgets \<Rightarrow> reason_code option \<Rightarrow> investigation_report \<Rightarrow> bool" where
  "report_states st b forced r \<longleftrightarrow>
     investigation_report_validate r = Inr r
     \<and> ir_investigation_id r = gs_investigation_id st \<and> ir_incident_id r = gs_incident_id st
     \<and> ir_assessment r = (if forced = None then gs_assessment st else None)
     \<and> ir_disposition r = fst (report_disposition (ir_assessment r))
     \<and> ir_root_cause r = snd (report_disposition (ir_assessment r))
     \<and> ir_reason_code r = report_reason (ir_assessment r) forced (gs_failure_reason st)
     \<and> ir_budgets r = b \<and> ir_model_calls_used r = gs_model_calls_used st
     \<and> ir_repairs_used r = gs_repairs_used st \<and> ir_tools_executed r = tools_executed (gs_receipts st)
     \<and> ir_invalid_responses r = gs_invalid_responses st \<and> ir_usage r = gs_usage st
     \<and> set (ir_evidence_ids r) = ev_evidence_id ` set (gs_evidence st)
     \<and> ir_receipt_ids r = map rc_receipt_id (gs_receipts st)
     \<and> ir_runbook_passage_ids r = map rp_passage_id (gs_runbook_passages st)
     \<and> report_escalation st = Inr (ir_escalation r)"

lemma not_diagnosed: "d \<noteq> M_DIAGNOSED \<longleftrightarrow> d = M_INSUFFICIENT_EVIDENCE"
  by (cases d) auto

lemma set_ordered: "set (ordered s) = set (dict_values (es_records s))"
  by (simp add: ordered_def)

lemma ordered_ids:
  "store_wf s \<Longrightarrow> ev_evidence_id ` set (ordered s) = set (dict_keys (es_records s))"
  unfolding set_ordered by (force simp: store_wf_def)

lemma build_report_ok:
  assumes ok: "state_ok cfg st w"
  obtains r w' where "build_report st b forced w = (Inr r, w')" and "report_states st b forced r"
    and "world_le w w'"
proof -
  from ok have rc: "rebuild_receipts st = Inr (gs_receipts st)"
    by (auto simp: state_ok_def intro: rebuild_receipts_ok)
  from ok obtain store where store: "rebuild_store (gs_incident_id st) (gs_evidence st) = Inr store"
    "store_wf store" "set (dict_keys (es_records store)) = ev_evidence_id ` set (gs_evidence st)"
    by (auto simp: state_ok_def elim: rebuild_store_ok)
  obtain fin w' where clk: "read_clock w = (fin, w')" by force
  have fin: "fin = clock_at w (clock_n w)" using clk by (simp add: read_clock_def)
  have "gs_started_at st \<le> fin" "\<bar>gs_started_at st\<bar> \<le> 2 ^ 62" "\<bar>fin\<bar> \<le> 2 ^ 62"
    using ok by (auto simp: state_ok_def world_ok_def clock_ok_def fin)
  then obtain l where l: "latency_ms fin (gs_started_at st) = Inr l" "0 \<le> l" by (rule latency_ok)
  obtain esc where esc: "report_escalation st = Inr esc" using ok by (auto simp: state_ok_def)
  let ?a = "if forced = None then gs_assessment st else None"
  have a: "(if forced \<noteq> None then Inr None
            else case gs_assessment st of None \<Rightarrow> Inr None
              | Some a \<Rightarrow> map_sum id Some (final_assessment_validate a)) = Inr ?a"
    using ok by (auto simp: state_ok_def assessment_ok_def split: option.splits)
  have av: "assessment_valid x" if "?a = Some x" for x
    using ok that by (auto simp: state_ok_def assessment_ok_def split: if_splits)
  let ?r = "\<lparr> ir_investigation_id = gs_investigation_id st, ir_incident_id = gs_incident_id st,
             ir_disposition = fst (report_disposition ?a), ir_root_cause = snd (report_disposition ?a),
             ir_assessment = ?a, ir_reason_code = report_reason ?a forced (gs_failure_reason st),
             ir_budgets = b, ir_versions = current_versions, ir_started_at = gs_started_at st,
             ir_finished_at = fin, ir_latency_ms = l, ir_model_calls_used = gs_model_calls_used st,
             ir_repairs_used = gs_repairs_used st, ir_tools_executed = tools_executed (gs_receipts st),
             ir_invalid_responses = gs_invalid_responses st, ir_usage = gs_usage st,
             ir_final_context_digest = gs_context_digest st,
             ir_evidence_ids = map ev_evidence_id (ordered store),
             ir_receipt_ids = map rc_receipt_id (gs_receipts st), ir_retrieval_mode = gs_retrieval_mode st,
             ir_runbook_passage_ids = map rp_passage_id (gs_runbook_passages st),
             ir_limitations = report_limitations (gs_usage st)
                (unresolved_runbook_citations ?a (gs_runbook_passages st)),
             ir_escalation = esc \<rparr>"
  have "report_counts_ok ?r"
    using ok l(2) by (auto simp: report_counts_ok_def state_ok_def counters_ok_def tools_executed_def)
  then have v: "investigation_report_validate ?r = Inr ?r"
    using av unfolding report_valid_iff
    by (cases ?a) (auto simp: report_disposition_def report_reason_def assessment_valid_iff not_diagnosed)
  show thesis
  proof (rule that [of ?r w'])
    show "build_report st b forced w = (Inr ?r, w')"
      unfolding build_report_def rc store(1) a using clk esc l(1) v by (simp add: Let_def)
    show "report_states st b forced ?r"
      using v esc store ordered_ids [OF store(2)] by (simp add: report_states_def)
    show "world_le w w'" using clk by (rule read_clock_le)
  qed
qed

section \<open>The nodes keep the invariant\<close>

text \<open>Which updates each part of the invariant does not notice.\<close>

lemma report_escalation_frame [frame_simps]:
  "report_escalation (st\<lparr>gs_phase := v_phase\<rparr>) = report_escalation st"
  "report_escalation (st\<lparr>gs_model_turn := v_model_turn\<rparr>) = report_escalation st"
  "report_escalation (st\<lparr>gs_model_calls_used := v_model_calls_used\<rparr>) = report_escalation st"
  "report_escalation (st\<lparr>gs_repairs_used := v_repairs_used\<rparr>) = report_escalation st"
  "report_escalation (st\<lparr>gs_invalid_responses := v_invalid_responses\<rparr>) = report_escalation st"
  "report_escalation (st\<lparr>gs_context_digest := v_context_digest\<rparr>) = report_escalation st"
  "report_escalation (st\<lparr>gs_seen_fingerprints := v_seen_fingerprints\<rparr>) = report_escalation st"
  "report_escalation (st\<lparr>gs_receipts := v_receipts\<rparr>) = report_escalation st"
  "report_escalation (st\<lparr>gs_evidence := v_evidence\<rparr>) = report_escalation st"
  "report_escalation (st\<lparr>gs_runbook_passages := v_runbook_passages\<rparr>) = report_escalation st"
  "report_escalation (st\<lparr>gs_retrieval_mode := v_retrieval_mode\<rparr>) = report_escalation st"
  "report_escalation (st\<lparr>gs_events := v_events\<rparr>) = report_escalation st"
  "report_escalation (st\<lparr>gs_pending_proposal := v_pending_proposal\<rparr>) = report_escalation st"
  "report_escalation (st\<lparr>gs_assessment := v_assessment\<rparr>) = report_escalation st"
  "report_escalation (st\<lparr>gs_usage := v_usage\<rparr>) = report_escalation st"
  "report_escalation (st\<lparr>gs_failure_reason := v_failure_reason\<rparr>) = report_escalation st"
  "report_escalation (st\<lparr>gs_report := v_report\<rparr>) = report_escalation st"
  by (simp_all add: report_escalation_def cong: option.case_cong)

lemma counters_ok_frame [frame_simps]:
  "counters_ok b (st\<lparr>gs_phase := v_phase\<rparr>) = counters_ok b st"
  "counters_ok b (st\<lparr>gs_model_turn := v_model_turn\<rparr>) = counters_ok b st"
  "counters_ok b (st\<lparr>gs_context_digest := v_context_digest\<rparr>) = counters_ok b st"
  "counters_ok b (st\<lparr>gs_seen_fingerprints := v_seen_fingerprints\<rparr>) = counters_ok b st"
  "counters_ok b (st\<lparr>gs_receipts := v_receipts\<rparr>) = counters_ok b st"
  "counters_ok b (st\<lparr>gs_evidence := v_evidence\<rparr>) = counters_ok b st"
  "counters_ok b (st\<lparr>gs_runbook_passages := v_runbook_passages\<rparr>) = counters_ok b st"
  "counters_ok b (st\<lparr>gs_retrieval_mode := v_retrieval_mode\<rparr>) = counters_ok b st"
  "counters_ok b (st\<lparr>gs_events := v_events\<rparr>) = counters_ok b st"
  "counters_ok b (st\<lparr>gs_pending_proposal := v_pending_proposal\<rparr>) = counters_ok b st"
  "counters_ok b (st\<lparr>gs_assessment := v_assessment\<rparr>) = counters_ok b st"
  "counters_ok b (st\<lparr>gs_usage := v_usage\<rparr>) = counters_ok b st"
  "counters_ok b (st\<lparr>gs_failure_reason := v_failure_reason\<rparr>) = counters_ok b st"
  "counters_ok b (st\<lparr>gs_report := v_report\<rparr>) = counters_ok b st"
  "counters_ok b (st\<lparr>gs_escalation_reason := x1\<rparr>) = counters_ok b st"
  "counters_ok b (st\<lparr>gs_escalation_decision := x2\<rparr>) = counters_ok b st"
  "counters_ok b (st\<lparr>gs_rejection_note := x3\<rparr>) = counters_ok b st"
  by (simp_all add: counters_ok_def)

lemma assessment_ok_frame [frame_simps]:
  "assessment_ok (st\<lparr>gs_phase := v_phase\<rparr>) = assessment_ok st"
  "assessment_ok (st\<lparr>gs_model_turn := v_model_turn\<rparr>) = assessment_ok st"
  "assessment_ok (st\<lparr>gs_model_calls_used := v_model_calls_used\<rparr>) = assessment_ok st"
  "assessment_ok (st\<lparr>gs_repairs_used := v_repairs_used\<rparr>) = assessment_ok st"
  "assessment_ok (st\<lparr>gs_invalid_responses := v_invalid_responses\<rparr>) = assessment_ok st"
  "assessment_ok (st\<lparr>gs_context_digest := v_context_digest\<rparr>) = assessment_ok st"
  "assessment_ok (st\<lparr>gs_seen_fingerprints := v_seen_fingerprints\<rparr>) = assessment_ok st"
  "assessment_ok (st\<lparr>gs_receipts := v_receipts\<rparr>) = assessment_ok st"
  "assessment_ok (st\<lparr>gs_runbook_passages := v_runbook_passages\<rparr>) = assessment_ok st"
  "assessment_ok (st\<lparr>gs_retrieval_mode := v_retrieval_mode\<rparr>) = assessment_ok st"
  "assessment_ok (st\<lparr>gs_events := v_events\<rparr>) = assessment_ok st"
  "assessment_ok (st\<lparr>gs_pending_proposal := v_pending_proposal\<rparr>) = assessment_ok st"
  "assessment_ok (st\<lparr>gs_usage := v_usage\<rparr>) = assessment_ok st"
  "assessment_ok (st\<lparr>gs_failure_reason := v_failure_reason\<rparr>) = assessment_ok st"
  "assessment_ok (st\<lparr>gs_report := v_report\<rparr>) = assessment_ok st"
  "assessment_ok (st\<lparr>gs_escalation_reason := v_escalation_reason\<rparr>) = assessment_ok st"
  "assessment_ok (st\<lparr>gs_escalation_decision := v_escalation_decision\<rparr>) = assessment_ok st"
  "assessment_ok (st\<lparr>gs_rejection_note := v_rejection_note\<rparr>) = assessment_ok st"
  by (simp_all add: assessment_ok_def)

lemma world_ok_frame [frame_simps]:
  "world_ok (st\<lparr>gs_phase := v_phase\<rparr>) w = world_ok st w"
  "world_ok (st\<lparr>gs_model_turn := v_model_turn\<rparr>) w = world_ok st w"
  "world_ok (st\<lparr>gs_model_calls_used := v_model_calls_used\<rparr>) w = world_ok st w"
  "world_ok (st\<lparr>gs_repairs_used := v_repairs_used\<rparr>) w = world_ok st w"
  "world_ok (st\<lparr>gs_invalid_responses := v_invalid_responses\<rparr>) w = world_ok st w"
  "world_ok (st\<lparr>gs_context_digest := v_context_digest\<rparr>) w = world_ok st w"
  "world_ok (st\<lparr>gs_seen_fingerprints := v_seen_fingerprints\<rparr>) w = world_ok st w"
  "world_ok (st\<lparr>gs_evidence := v_evidence\<rparr>) w = world_ok st w"
  "world_ok (st\<lparr>gs_runbook_passages := v_runbook_passages\<rparr>) w = world_ok st w"
  "world_ok (st\<lparr>gs_retrieval_mode := v_retrieval_mode\<rparr>) w = world_ok st w"
  "world_ok (st\<lparr>gs_events := v_events\<rparr>) w = world_ok st w"
  "world_ok (st\<lparr>gs_pending_proposal := v_pending_proposal\<rparr>) w = world_ok st w"
  "world_ok (st\<lparr>gs_assessment := v_assessment\<rparr>) w = world_ok st w"
  "world_ok (st\<lparr>gs_usage := v_usage\<rparr>) w = world_ok st w"
  "world_ok (st\<lparr>gs_failure_reason := v_failure_reason\<rparr>) w = world_ok st w"
  "world_ok (st\<lparr>gs_report := v_report\<rparr>) w = world_ok st w"
  "world_ok (st\<lparr>gs_escalation_reason := v_escalation_reason\<rparr>) w = world_ok st w"
  "world_ok (st\<lparr>gs_escalation_decision := v_escalation_decision\<rparr>) w = world_ok st w"
  "world_ok (st\<lparr>gs_rejection_note := v_rejection_note\<rparr>) w = world_ok st w"
  by (simp_all add: world_ok_def)

definition calls_left :: "'w graph_config \<Rightarrow> graph_state \<Rightarrow> int" where
  "calls_left cfg st = model_calls_left (gs_model_calls_used st) (gs_repairs_used st) (g_budgets cfg)"

text \<open>The fields only the escalation and the report nodes write.\<close>

definition same_ending :: "graph_state \<Rightarrow> graph_state \<Rightarrow> bool" where
  "same_ending st st' \<longleftrightarrow> gs_escalation_reason st' = gs_escalation_reason st
     \<and> gs_escalation_decision st' = gs_escalation_decision st \<and> gs_rejection_note st' = gs_rejection_note st
     \<and> gs_report st' = gs_report st \<and> gs_investigation_id st' = gs_investigation_id st
     \<and> gs_run_id st' = gs_run_id st"

lemma world_ok_le: "world_ok st w \<Longrightarrow> world_le w w' \<Longrightarrow> world_ok st w'"
  unfolding world_ok_def clock_ok_def by (auto simp: world_le_def intro: ids_fresh_le [unfolded world_le_def])

lemma state_ok_le: "state_ok cfg st w \<Longrightarrow> world_le w w' \<Longrightarrow> state_ok cfg st w'"
  by (auto simp: state_ok_def intro: world_ok_le)

definition stage_cost :: "budgets \<Rightarrow> int \<Rightarrow> int \<Rightarrow> 'w stage_counters \<Rightarrow> 'w stage_counters \<Rightarrow> bool" where
  "stage_cost b dc dr s s' \<longleftrightarrow> (\<exists>di. counted_by dc dr di s s' \<and> 0 \<le> di) \<and> 0 \<le> dr \<and> dr \<le> 1
     \<and> (dr = 1 \<longrightarrow> sc_repairs_used s < b_repairs b) \<and> dr \<le> dc \<and> dc \<le> dr + 1
     \<and> (0 < dc \<longrightarrow> 0 < model_calls_left (sc_model_calls_used s) (sc_repairs_used s) b)"

lemma stage_cost_log: "stage_cost b dc dr s s' \<Longrightarrow> counted_by 0 0 0 s' s'' \<Longrightarrow> stage_cost b dc dr s s''"
  unfolding stage_cost_def using counted_by_trans by fastforce

lemma counted_ok:
  assumes ok: "state_ok cfg st w" and le: "world_le w w1" and ev: "events_ok evs"
    and cost: "stage_cost (g_budgets cfg) dc dr (stage_counters_new st evs w1) s"
  shows "state_ok cfg (counted phase s st) (sc_world s)"
    and "calls_left cfg (counted phase s st) = calls_left cfg st - (dc - dr)"
    and "proposal_kept s"
proof -
  let ?s0 = "stage_counters_new st evs w1"
  from cost obtain di where c: "counted_by dc dr di ?s0 s" "0 \<le> di"
    and d: "0 \<le> dr" "dr \<le> 1" "dr = 1 \<longrightarrow> gs_repairs_used st < b_repairs (g_budgets cfg)" "dr \<le> dc" "dc \<le> dr + 1"
      "0 < dc \<longrightarrow> 0 < model_calls_left (gs_model_calls_used st) (gs_repairs_used st) (g_budgets cfg)"
    by (auto simp: stage_cost_def stage_counters_new_def)
  from c(1) ev have s: "sc_model_calls_used s = gs_model_calls_used st + dc"
    "sc_repairs_used s = gs_repairs_used st + dr" "sc_invalid_responses s = gs_invalid_responses st + di"
    "events_ok (sc_events s)" "world_le w1 (sc_world s)" "proposal_kept s"
    by (auto simp: counted_by_def stage_counters_new_def proposal_kept_def)
  have "world_le w (sc_world s)" using le s(5) by (rule world_le_trans)
  with ok have "world_ok st (sc_world s)" by (auto simp: state_ok_def intro: world_ok_le)
  moreover have "counters_ok (g_budgets cfg) (counted phase s st)"
    using ok d c(2) s(1-3) by (auto simp: counters_ok_def state_ok_def counted_def model_calls_left_def)
  ultimately show "state_ok cfg (counted phase s st) (sc_world s)"
    using ok s(4) by (auto simp: state_ok_def counted_def frame_simps)
  show "calls_left cfg (counted phase s st) = calls_left cfg st - (dc - dr)"
    by (simp add: calls_left_def counted_def model_calls_left_def s)
  show "proposal_kept s" by fact
qed

lemma state_ok_pending:
  assumes "state_ok cfg st w" and "\<And>p. q = Some p \<Longrightarrow> tool_proposal_validate p = Inr p"
  shows "state_ok cfg (st\<lparr>gs_model_turn := n, gs_pending_proposal := q, gs_failure_reason := f\<rparr>) w"
    and "state_ok cfg (st\<lparr>gs_pending_proposal := q, gs_failure_reason := f\<rparr>) w"
proof -
  have "\<forall>p \<in> set_option q. tool_proposal_validate p = Inr p" using assms(2) by auto
  with assms(1) show "state_ok cfg (st\<lparr>gs_model_turn := n, gs_pending_proposal := q, gs_failure_reason := f\<rparr>) w"
    and "state_ok cfg (st\<lparr>gs_pending_proposal := q, gs_failure_reason := f\<rparr>) w"
    by (auto simp: state_ok_def frame_simps)
qed

lemma state_ok_stopped:
  "state_ok cfg (counted INVESTIGATE s st) w \<Longrightarrow> state_ok cfg (stopped_state reason s st) w"
  unfolding stopped_state_def by (rule state_ok_pending(2)) simp_all

lemma same_ending_stopped:
  "same_ending st (stopped_state reason s st)" "gs_assessment (stopped_state reason s st) = gs_assessment st"
  "gs_pending_proposal (stopped_state reason s st) = None"
  by (simp_all add: same_ending_def stopped_state_def counted_def)

lemma calls_left_update [simp]:
  "calls_left cfg (st\<lparr>gs_model_turn := n\<rparr>) = calls_left cfg st"
  "calls_left cfg (st\<lparr>gs_pending_proposal := q\<rparr>) = calls_left cfg st"
  "calls_left cfg (st\<lparr>gs_failure_reason := f\<rparr>) = calls_left cfg st"
  "calls_left cfg (st\<lparr>gs_assessment := a\<rparr>) = calls_left cfg st"
  by (simp_all add: calls_left_def)

lemma proposing_cost:
  assumes "ask_with_repair (g_budgets cfg) started (propose_once cfg st stage store receipts)
     (log_stop INVESTIGATE) (log_invalid INVESTIGATE stage) s = (r, s')"
  obtains dc dr where "stage_cost (g_budgets cfg) dc dr s s'" and "r = Inr None \<longrightarrow> sc_stop_reason s' \<noteq> None"
    and "\<forall>v. r = Inr (Some v) \<longrightarrow> dc = dr + 1"
  using proposing.ask_with_repair_spent [OF assms] unfolding proposing.stage_spent_def stage_cost_def
  by blast

lemma assessing_cost:
  assumes "ask_with_repair (g_budgets cfg) started (respond_once cfg st store receipts)
     (log_stop FINAL_ASSESSMENT) (log_invalid FINAL_ASSESSMENT STAGE_FINAL_ASSESSMENT) s = (r, s')"
  obtains dc dr where "stage_cost (g_budgets cfg) dc dr s s'" and "r = Inr None \<longrightarrow> sc_stop_reason s' \<noteq> None"
    and "\<forall>v. r = Inr (Some v) \<longrightarrow> dc = dr + 1 \<and> assessment_valid v"
  using assessing.ask_with_repair_spent [OF assms] unfolding assessing.stage_spent_def stage_cost_def
  by blast

lemma investigate_ok:
  assumes ok: "state_ok cfg st w"
  obtains st' w' where "investigate cfg st w = (Inr st', w')" and "state_ok cfg st' w'"
    and "same_ending st st'" and "gs_assessment st' = gs_assessment st"
    and "gs_pending_proposal st' \<noteq> None \<longrightarrow> calls_left cfg st' = calls_left cfg st - 1 \<and> gs_failure_reason st' = None"
proof -
  define stage where "stage = (if gs_model_turn st = 0 then INITIAL_PLAN else HYPOTHESIS_UPDATE)"
  obtain evs w1 where ev: "record_event INVESTIGATE ''stage_started'' [(''stage'', JStr (stage_value stage))]
      (gs_events st) w = (evs, w1)" by force
  have evs: "events_ok evs" "world_le w w1"
    using record_event_ok [OF ev] ok by (auto simp: state_ok_def)
  from ok have rc: "rebuild_receipts st = Inr (gs_receipts st)"
    by (auto simp: state_ok_def intro: rebuild_receipts_ok)
  from ok obtain store where store: "rebuild_store (gs_incident_id st) (gs_evidence st) = Inr store"
    by (auto simp: state_ok_def elim: rebuild_store_ok)
  obtain r s where ask: "ask_with_repair (g_budgets cfg) (gs_started_at st)
      (propose_once cfg st stage store (gs_receipts st)) (log_stop INVESTIGATE) (log_invalid INVESTIGATE stage)
      (stage_counters_new st evs w1) = (r, s)" by force
  obtain dc dr where cost: "stage_cost (g_budgets cfg) dc dr (stage_counters_new st evs w1) s"
    and stop: "r = Inr None \<longrightarrow> sc_stop_reason s \<noteq> None" and good: "\<forall>v. r = Inr (Some v) \<longrightarrow> dc = dr + 1"
    by (rule proposing_cost [OF ask])
  note unf = investigate_def Let_def stage_def [symmetric] ev rc store
  note cok = counted_ok [OF ok evs(2,1)]
  have ending: "same_ending st (counted INVESTIGATE s' st)" "gs_assessment (counted INVESTIGATE s' st) = gs_assessment st"
    for s' :: "'a stage_counters" by (simp_all add: same_ending_def counted_def)
  show thesis
  proof (cases r)
    case (Inl e)
    show thesis
    proof (cases "money_refusal_reason_code e")
      case None
      define s1 where "s1 = stage_event INVESTIGATE ''internal_error'' [(''error'', JStr (exn_name e))] s"
      have c: "stage_cost (g_budgets cfg) dc dr (stage_counters_new st evs w1) s1"
        using cost stage_event_counted unfolding s1_def by (rule stage_cost_log)
      have ok1: "state_ok cfg ((counted INVESTIGATE s1 st)\<lparr>gs_pending_proposal := None,
             gs_failure_reason := Some INTERNAL_ERROR\<rparr>) (sc_world s1)"
        by (rule state_ok_pending(2) [OF cok(1) [OF c]]) simp
      show thesis
        by (rule that [of "(counted INVESTIGATE s1 st)\<lparr>gs_pending_proposal := None,
             gs_failure_reason := Some INTERNAL_ERROR\<rparr>" "sc_world s1"])
          (use ask Inl None ok1 ending [of s1] in
            \<open>simp_all add: unf s1_def [symmetric] same_ending_def\<close>)
    next
      case (Some reason)
      define s1 where "s1 = log_stop INVESTIGATE reason s"
      have c: "stage_cost (g_budgets cfg) dc dr (stage_counters_new st evs w1) s1"
        using cost stage_event_counted unfolding s1_def log_stop_def by (rule stage_cost_log)
      note ok1 = state_ok_stopped [OF cok(1) [OF c], of "Some reason"]
      show thesis
        by (rule that [of "stopped_state (Some reason) s1 st" "sc_world s1"])
          (use ask Inl Some ok1 ending [of s1] in \<open>simp_all add: unf s1_def [symmetric] same_ending_stopped\<close>)
    qed
  next
    case (Inr v)
    show thesis
    proof (cases v)
      case None
      note ok1 = state_ok_stopped [OF cok(1) [OF cost], of "sc_stop_reason s"]
      show thesis
        by (rule that [of "stopped_state (sc_stop_reason s) s st" "sc_world s"])
          (use ask Inr None ok1 ending [of s] in \<open>simp_all add: unf same_ending_stopped\<close>)
    next
      case (Some plan)
      define s1 where "s1 = stage_event INVESTIGATE ''stage_finished'' [(''proposed'', JBool (sc_last_proposal s \<noteq> None))] s"
      define s2 where "s2 = stage_event INVESTIGATE ''proposal_recorded''
          (proposal_fields (g_libs cfg) (gs_model_turn st) stage plan (sc_last_proposal s)) s1"
      have c: "stage_cost (g_budgets cfg) dc dr (stage_counters_new st evs w1) s2"
        unfolding s2_def s1_def using stage_cost_log [OF stage_cost_log [OF cost stage_event_counted] stage_event_counted] .
      have p: "tool_proposal_validate p = Inr p" if "sc_last_proposal s = Some p" for p
        using cok(3) [OF cost] that by (simp add: proposal_kept_def)
      have ok1: "state_ok cfg ((counted INVESTIGATE s2 st)\<lparr>gs_model_turn := gs_model_turn st + 1,
             gs_pending_proposal := sc_last_proposal s, gs_failure_reason := None\<rparr>) (sc_world s2)"
        by (rule state_ok_pending(1) [OF cok(1) [OF c] p])
      show thesis
        by (rule that [of "(counted INVESTIGATE s2 st)\<lparr>gs_model_turn := gs_model_turn st + 1,
             gs_pending_proposal := sc_last_proposal s, gs_failure_reason := None\<rparr>" "sc_world s2"])
          (use ask Inr Some cok(2) [OF c, of INVESTIGATE] ok1 good ending [of s2] in
            \<open>simp_all add: unf s1_def [symmetric] s2_def [symmetric] same_ending_def del: not_None_eq\<close>)
    qed
  qed
qed

end
