(* ===== verification/GraphFlow.thy ===== *)
theory GraphFlow
  imports GraphInv
begin

text \<open>
  The remaining nodes keep the invariant, and how the nodes follow each other: what holds of the
  state when a node is about to run, and how many supersteps the graph has left.
\<close>

section \<open>Dispatch\<close>

lemma receipts_ok_append:
  assumes "receipts_ok i b rs" and "receipt_ok i r" and "rc_receipt_id r \<notin> rc_receipt_id ` set rs"
    and "rc_policy_result r = ALLOWED \<Longrightarrow>
      spent_in (rc_tool r = SEARCH_RUNBOOKS) rs < (if rc_tool r = SEARCH_RUNBOOKS then b_runbook_searches b else b_executed_tools b)"
  shows "receipts_ok i b (rs @ [r])"
  using assms by (auto simp: receipts_ok_def spent_in_def spends_def split: if_splits)

text \<open>The ledger \<open>dispatch_tool\<close> rebuilds, and what a dispatch leaves of the state's receipts.\<close>

definition ledger_of :: "budgets \<Rightarrow> tool_receipt list \<Rightarrow> reservation_ledger" where
  "ledger_of b rs = \<lparr> lg_budget = b_executed_tools b, lg_runbook_budget = b_runbook_searches b,
     lg_receipts = map (\<lambda>r. (rc_receipt_id r, r)) rs, lg_evidence = [] \<rparr>"

lemma known_ids_of: "known_ids (ledger_of b rs) = rc_receipt_id ` set rs"
  by (force simp: ledger_of_def)

lemma slots_of:
  "slots_left_for (ledger_of b rs) t =
     (if t = SEARCH_RUNBOOKS then b_runbook_searches b else b_executed_tools b) - spent_in (t = SEARCH_RUNBOOKS) rs"
  by (simp add: slots_left_for_alt ledger_of_def spent_from)

lemma dispatch_of_receipts:
  assumes rs: "receipts_ok (sc_incident_id scope) b rs" and fresh: "ids_fresh w (rc_receipt_id ` set rs)"
    and run: "dispatch L (tp_tool p) (tp_tool p) back p scope seen b (ledger_of b rs) w = (res, seen', ledger', w')"
  obtains r where "ledger_receipts ledger' = rs @ [r]" and "receipts_ok (sc_incident_id scope) b (rs @ [r])"
    and "ids_fresh w' (rc_receipt_id ` set (rs @ [r]))" and "world_le w w'"
    and "\<forall>e. res = Inl e \<longrightarrow> ledger_evidence ledger' = []"
    and "\<forall>dr. res = Inr dr \<longrightarrow> dr_receipt dr = r
      \<and> (\<forall>ev. dr_evidence dr = Some ev \<longrightarrow> evidence_validate ev = Inr ev \<and> ev_incident_id ev = sc_incident_id scope)"
proof -
  have fresh': "ids_fresh w (known_ids (ledger_of b rs))" using fresh by (simp only: known_ids_of)
  obtain r where app: "appended L p scope (ledger_of b rs) r ledger'" and le: "world_le w w'"
    and al: "rc_policy_result r = ALLOWED \<longleftrightarrow> permitted L p scope seen b (ledger_of b rs)"
    and fr: "ids_fresh w' (insert (rc_receipt_id r) (known_ids (ledger_of b rs)))"
    and e: "\<forall>e. res = Inl e \<longrightarrow> lg_evidence ledger' = lg_evidence (ledger_of b rs)"
    and d: "\<forall>dr. res = Inr dr \<longrightarrow> dr_receipt dr = r \<and> rc_evidence_id r = map_option ev_evidence_id (dr_evidence dr)
           \<and> (\<forall>ev. dr_evidence dr = Some ev \<longrightarrow> minted L scope (rc_receipt_id r) w ev)"
    by (rule dispatch_appends [OF run fresh'])
  from app have r: "receipt_ok (sc_incident_id scope) r" "rc_receipt_id r \<notin> rc_receipt_id ` set rs" "rc_tool r = tp_tool p"
    unfolding appended_def known_ids_of by simp_all
  show thesis
  proof (rule that [of r])
    show "ledger_receipts ledger' = rs @ [r]"
      using app by (simp add: appended_def ledger_receipts_def ledger_of_def o_def)
    show "receipts_ok (sc_incident_id scope) b (rs @ [r])"
      using rs r(1,2) by (rule receipts_ok_append) (use al r(3) in \<open>auto simp: permitted_def slots_of split: if_splits\<close>)
    show "ids_fresh w' (rc_receipt_id ` set (rs @ [r]))" using fr unfolding known_ids_of by simp
    show "world_le w w'" by (rule le)
    show "\<forall>e. res = Inl e \<longrightarrow> ledger_evidence ledger' = []"
      using e by (simp add: ledger_evidence_def ledger_of_def)
    show "\<forall>dr. res = Inr dr \<longrightarrow> dr_receipt dr = r
      \<and> (\<forall>ev. dr_evidence dr = Some ev \<longrightarrow> evidence_validate ev = Inr ev \<and> ev_incident_id ev = sc_incident_id scope)"
      using d unfolding minted_def by blast
  qed
qed

lemma dispatch_events_ok:
  assumes "dispatch_events st p result evs w = (evs', w')" and "events_ok evs"
  shows "events_ok evs'" and "world_le w w'"
proof -
  obtain evs1 w1 where one: "record_event DISPATCH_TOOL ''check_started'' [(''tool'', JStr (tool_value (tp_tool p)))] evs w
      = (evs1, w1)" by force
  note two = record_event_ok(1) [OF one assms(2)] record_event_ok(2) [OF one]
  show "events_ok evs'" and "world_le w w'"
    using assms one two world_le_trans [OF two(2)]
    by (auto simp: dispatch_events_def Let_def split: if_splits dest: record_event_ok(1,2))
qed

text \<open>How a node establishes the invariant of the state it commits.\<close>

lemma state_ok_commit:
  assumes "state_ok cfg st w" and "world_le w w'"
    and "gs_incident_id st' = gs_incident_id st" and "gs_started_at st' = gs_started_at st"
    and "receipts_ok (gs_incident_id st) (g_budgets cfg) (gs_receipts st')"
    and "ids_fresh w' (rc_receipt_id ` set (gs_receipts st'))"
    and "evidence_ok (gs_incident_id st) (gs_evidence st')"
    and "counters_ok (g_budgets cfg) st'"
    and "\<forall>p \<in> set_option (gs_pending_proposal st'). tool_proposal_validate p = Inr p"
    and "assessment_ok st'" and "\<exists>r. report_escalation st' = Inr r" and "events_ok (gs_events st')"
  shows "state_ok cfg st' w'"
proof -
  have "world_ok st w'" using assms(1,2) by (auto simp: state_ok_def intro: world_ok_le)
  then have "world_ok st' w'" using assms(4,6) by (simp add: world_ok_def)
  then show ?thesis using assms by (simp add: state_ok_def)
qed

lemma assessment_ok_more_evidence:
  "assessment_ok st \<Longrightarrow> gs_assessment st' = gs_assessment st \<Longrightarrow> set (gs_evidence st) \<subseteq> set (gs_evidence st') \<Longrightarrow>
     assessment_ok st'"
  unfolding assessment_ok_def by (metis image_mono subset_trans)

lemma counters_ok_same:
  "counters_ok b st \<Longrightarrow> gs_repairs_used st' = gs_repairs_used st \<Longrightarrow> gs_model_calls_used st' = gs_model_calls_used st \<Longrightarrow>
     gs_invalid_responses st' = gs_invalid_responses st \<Longrightarrow> counters_ok b st'"
  by (simp add: counters_ok_def)

lemma report_escalation_same: "same_ending st st' \<Longrightarrow> report_escalation st' = report_escalation st"
  by (simp add: same_ending_def report_escalation_def cong: option.case_cong)

text \<open>What \<open>dispatch_tool\<close> writes, whether the wrapper returned or raised.\<close>

definition dispatched ::
    "tool_receipt list \<Rightarrow> evidence list \<Rightarrow> run_event list \<Rightarrow> graph_state \<Rightarrow> graph_state \<Rightarrow> bool" where
  "dispatched rs es evs st st' \<longleftrightarrow> gs_receipts st' = rs \<and> gs_evidence st' = gs_evidence st @ es \<and> gs_events st' = evs
     \<and> gs_pending_proposal st' = None \<and> gs_incident_id st' = gs_incident_id st
     \<and> gs_started_at st' = gs_started_at st \<and> gs_repairs_used st' = gs_repairs_used st
     \<and> gs_model_calls_used st' = gs_model_calls_used st \<and> gs_invalid_responses st' = gs_invalid_responses st
     \<and> gs_assessment st' = gs_assessment st \<and> same_ending st st'"

lemma dispatched_ok:
  assumes ok: "state_ok cfg st w" and d: "dispatched rs es evs st st'" and "world_le w w'"
    and "receipts_ok (gs_incident_id st) (g_budgets cfg) rs" and "ids_fresh w' (rc_receipt_id ` set rs)"
    and "evidence_ok (gs_incident_id st) es" and "events_ok evs"
  shows "state_ok cfg st' w'" and "calls_left cfg st' = calls_left cfg st"
proof -
  note ok' = ok [unfolded state_ok_def] and d' = d [unfolded dispatched_def]
  have a: "assessment_ok st'"
    by (rule assessment_ok_more_evidence [of st]) (use ok' d' in \<open>auto\<close>)
  have c: "counters_ok (g_budgets cfg) st'"
    by (rule counters_ok_same [of _ st]) (use ok' d' in \<open>auto\<close>)
  have r: "\<exists>r. report_escalation st' = Inr r"
    using ok' d' report_escalation_same [of st st'] by auto
  have e: "evidence_ok (gs_incident_id st) (gs_evidence st')"
    using ok' d' assms(6) by (auto simp: evidence_ok_def)
  show "state_ok cfg st' w'"
    by (rule state_ok_commit [OF ok assms(3) _ _ _ _ e c _ a r]) (use d' assms(4,5,7) in \<open>simp_all\<close>)
  show "calls_left cfg st' = calls_left cfg st" using d by (simp add: calls_left_def dispatched_def)
qed

lemma dispatch_tool_ok:
  assumes ok: "state_ok cfg st w" and reg: "registry_ok cfg" and p: "gs_pending_proposal st = Some p"
  obtains st' w' where "dispatch_tool cfg st w = (Inr st', w')" and "state_ok cfg st' w'"
    and "same_ending st st'" and "gs_assessment st' = gs_assessment st" and "gs_pending_proposal st' = None"
    and "calls_left cfg st' = calls_left cfg st"
proof -
  let ?b = "g_budgets cfg" and ?rs = "gs_receipts st" and ?scope = "g_scope cfg"
  let ?ledger = "ledger_of ?b ?rs" and ?seen = "set (gs_seen_fingerprints st)"
  from ok have inc: "gs_incident_id st = sc_incident_id ?scope" and rs: "receipts_ok (gs_incident_id st) ?b ?rs"
    and fresh: "ids_fresh w (rc_receipt_id ` set ?rs)" and pv: "tool_proposal_validate p = Inr p"
    using p by (auto simp: state_ok_def world_ok_def)
  have rc: "rebuild_receipts st = Inr ?rs" using rs by (rule rebuild_receipts_ok)
  have led: "from_receipts ?rs (b_executed_tools ?b) (b_runbook_searches ?b) = Inr ?ledger"
    unfolding ledger_of_def using rs by (rule from_receipts_ok)
  obtain evs w1 where ev: "record_event DISPATCH_TOOL ''proposal_received''
      [(''tool'', JStr (tool_value (tp_tool p)))] (gs_events st) w = (evs, w1)" by force
  have evs: "events_ok evs" "world_le w w1" "ids_fresh w1 (rc_receipt_id ` set ?rs)"
    using record_event_ok(1,2) [OF ev] ok fresh ids_fresh_le by (auto simp: state_ok_def)
  obtain res seen' ledger' w2 where disp: "(case g_registry cfg (tp_tool p) of None \<Rightarrow> (Inl KeyError, ?seen, ?ledger, w1)
      | Some wr \<Rightarrow> wrapper_dispatch (g_libs cfg) wr p ?scope ?seen ?b ?ledger w1) = (res, seen', ledger', w2)"
    by (metis prod_cases4)
  have "\<exists>rs'. ledger_receipts ledger' = rs' \<and> receipts_ok (sc_incident_id ?scope) ?b rs'
      \<and> ids_fresh w2 (rc_receipt_id ` set rs') \<and> world_le w1 w2
      \<and> (\<forall>e. res = Inl e \<longrightarrow> ledger_evidence ledger' = [])
      \<and> (\<forall>dr ev. res = Inr dr \<longrightarrow> dr_evidence dr = Some ev \<longrightarrow>
           evidence_validate ev = Inr ev \<and> ev_incident_id ev = sc_incident_id ?scope)"
  proof (cases "g_registry cfg (tp_tool p)")
    case None
    with disp rs evs(3) inc show ?thesis
      by (auto simp: ledger_receipts_def ledger_of_def ledger_evidence_def o_def image_image)
  next
    case (Some wr)
    with reg have wr: "tw_tool wr = tp_tool p" "tw_arguments_type wr = tp_tool p" by (auto simp: registry_ok_def)
    from disp Some have run: "dispatch (g_libs cfg) (tp_tool p) (tp_tool p) (tw_run_check wr) p ?scope ?seen ?b ?ledger w1
        = (res, seen', ledger', w2)" by (simp add: wrapper_dispatch_def wr)
    show ?thesis
      by (rule dispatch_of_receipts [OF rs [unfolded inc] evs(3) run]) (intro exI conjI; (assumption | blast))
  qed
  then obtain rs' where rs': "ledger_receipts ledger' = rs'" "receipts_ok (gs_incident_id st) ?b rs'"
    "ids_fresh w2 (rc_receipt_id ` set rs')" "world_le w1 w2"
    and inl: "\<And>e. res = Inl e \<Longrightarrow> ledger_evidence ledger' = []"
    and inr: "\<And>dr ev. res = Inr dr \<Longrightarrow> dr_evidence dr = Some ev \<Longrightarrow>
           evidence_validate ev = Inr ev \<and> ev_incident_id ev = gs_incident_id st"
    unfolding inc by blast
  have w2: "world_le w w2" using evs(2) rs'(4) by (rule world_le_trans)
  note unf = dispatch_tool_def p pv rc led ev Let_def disp rs'(1)
  show thesis
  proof (cases res)
    case (Inl e)
    obtain evs' w3 where ev': "record_event DISPATCH_TOOL ''backend_crashed'' [(''error'', JStr (exn_name e))] evs w2
        = (evs', w3)" by force
    have e3: "events_ok evs'" "world_le w2 w3" using record_event_ok(1,2) [OF ev'] evs(1) by auto
    let ?st = "st\<lparr>gs_phase := DISPATCH_TOOL, gs_receipts := rs',
                gs_seen_fingerprints := sorted_list_of_set seen', gs_pending_proposal := None,
                gs_evidence := gs_evidence st @ [],
                gs_failure_reason := Some INTERNAL_ERROR, gs_events := evs'\<rparr>"
    have d: "dispatched rs' [] evs' st ?st" by (simp add: dispatched_def same_ending_def)
    note ok' = dispatched_ok [OF ok d world_le_trans [OF w2 e3(2)] rs'(2) ids_fresh_le [OF e3(2) rs'(3)] _ e3(1)]
    show thesis
      by (rule that [of ?st w3]) (use Inl inl ev' ok' d in \<open>simp_all add: unf dispatched_def evidence_ok_def\<close>)
  next
    case (Inr dr)
    obtain evs' w3 where ev': "dispatch_events st p dr evs w2 = (evs', w3)" by force
    note e3 = dispatch_events_ok [OF ev' evs(1)]
    let ?es = "case dr_evidence dr of None \<Rightarrow> [] | Some e \<Rightarrow> [e]"
    let ?st = "st\<lparr>gs_phase := DISPATCH_TOOL, gs_receipts := rs',
                gs_seen_fingerprints := sorted_list_of_set seen', gs_pending_proposal := None,
                gs_evidence := gs_evidence st @ ?es,
                gs_runbook_passages := gs_runbook_passages st @ dr_passages dr,
                gs_retrieval_mode := (case dr_retrieval_mode dr of None \<Rightarrow> gs_retrieval_mode st | Some m \<Rightarrow> m),
                gs_events := evs'\<rparr>"
    have d: "dispatched rs' ?es evs' st ?st" by (simp add: dispatched_def same_ending_def)
    have es: "evidence_ok (gs_incident_id st) ?es"
      using inr [OF Inr] by (auto simp: evidence_ok_def split: option.splits)
    note ok' = dispatched_ok [OF ok d world_le_trans [OF w2 e3(2)] rs'(2) ids_fresh_le [OF e3(2) rs'(3)] es e3(1)]
    show thesis
      by (rule that [of ?st w3]) (use Inr ev' ok' d in \<open>simp_all add: unf dispatched_def\<close>)
  qed
qed

section \<open>Normalization and final assessment\<close>

lemma state_ok_recorded:
  assumes "state_ok cfg st w" and "record_event ph nm fs (gs_events st) w = (evs, w')"
  shows "state_ok cfg (st\<lparr>gs_phase := v, gs_events := evs\<rparr>) w'"
proof -
  have "state_ok cfg st w'" using assms(1) record_event_ok(2) [OF assms(2)] by (rule state_ok_le)
  moreover have "events_ok evs" using assms(1) record_event_ok(1) [OF assms(2)] by (simp add: state_ok_def)
  ultimately show ?thesis by (auto simp: state_ok_def frame_simps)
qed

lemma normalize_ok:
  assumes "state_ok cfg st w"
  obtains evs w' where "normalize_evidence st w = (Inr (st\<lparr>gs_phase := NORMALIZE_EVIDENCE, gs_events := evs\<rparr>), w')"
    and "state_ok cfg (st\<lparr>gs_phase := NORMALIZE_EVIDENCE, gs_events := evs\<rparr>) w'"
proof -
  obtain evs w' where ev: "record_event NORMALIZE_EVIDENCE ''evidence_normalized''
      [(''count'', JInt (int (length (gs_evidence st))))] (gs_events st) w = (evs, w')" by force
  show thesis using state_ok_recorded [OF assms ev] by (intro that) (simp_all add: normalize_evidence_def ev)
qed

text \<open>The state of a run once \<open>final_assessment\<close> is through: an assessment or a failure, not both.\<close>

definition concluded :: "graph_state \<Rightarrow> bool" where
  "concluded st \<longleftrightarrow> (gs_assessment st = None) = (gs_failure_reason st \<noteq> None)"

lemma state_ok_assessed:
  assumes "state_ok cfg st w"
    and "\<forall>x. a = Some x \<longrightarrow> assessment_valid x \<and> cited_ids x \<subseteq> ev_evidence_id ` set (gs_evidence st)"
  shows "state_ok cfg (st\<lparr>gs_assessment := a, gs_failure_reason := f\<rparr>) w"
proof -
  have "assessment_ok (st\<lparr>gs_assessment := a, gs_failure_reason := f\<rparr>)"
    using assms(2) by (auto simp: assessment_ok_def)
  with assms(1) show ?thesis by (auto simp: state_ok_def frame_simps)
qed

lemma failed_state_ok:
  assumes "state_ok cfg (counted FINAL_ASSESSMENT s st) w"
  shows "state_ok cfg (failed_state reason s st) w" and "same_ending st (failed_state reason s st)"
    and "concluded (failed_state reason s st)"
  using state_ok_assessed [OF assms, of None]
  by (simp_all add: failed_state_def same_ending_def concluded_def counted_def)

lemma final_assessment_ok:
  assumes ok: "state_ok cfg st w"
  obtains st' w' where "final_assessment_node cfg st w = (Inr st', w')" and "state_ok cfg st' w'"
    and "same_ending st st'" and "concluded st'"
proof -
  obtain evs w1 where ev: "record_event FINAL_ASSESSMENT ''stage_started''
      [(''stage'', JStr ''final_assessment'')] (gs_events st) w = (evs, w1)" by force
  have evs: "events_ok evs" "world_le w w1"
    using record_event_ok(1,2) [OF ev] ok by (auto simp: state_ok_def)
  from ok have rc: "rebuild_receipts st = Inr (gs_receipts st)"
    by (auto simp: state_ok_def intro: rebuild_receipts_ok)
  from ok obtain store where store: "rebuild_store (gs_incident_id st) (gs_evidence st) = Inr store"
    "set (dict_keys (es_records store)) = ev_evidence_id ` set (gs_evidence st)"
    by (auto simp: state_ok_def elim: rebuild_store_ok)
  obtain r s where ask: "ask_with_repair (g_budgets cfg) (gs_started_at st) (respond_once cfg st store (gs_receipts st))
      (log_stop FINAL_ASSESSMENT) (log_invalid FINAL_ASSESSMENT STAGE_FINAL_ASSESSMENT)
      (stage_counters_new st evs w1) = (r, s)" by force
  obtain dc dr where cost: "stage_cost (g_budgets cfg) dc dr (stage_counters_new st evs w1) s"
    and stop: "r = Inr None \<longrightarrow> sc_stop_reason s \<noteq> None"
    and good: "\<forall>v. r = Inr (Some v) \<longrightarrow> dc = dr + 1 \<and> assessment_valid v"
    by (rule assessing_cost [OF ask])
  note unf = final_assessment_node_def Let_def ev rc store(1) ask
  note cok = counted_ok(1) [OF ok evs(2,1), of _ _ _ FINAL_ASSESSMENT] and result = that
  have failed: thesis
    if "final_assessment_node cfg st w = (Inr (failed_state reason s1 st), sc_world s1)"
      and "counted_by 0 0 0 s s1" for reason s1
  proof -
    note o = cok [OF stage_cost_log [OF cost that(2)]]
    show thesis using that(1) failed_state_ok [OF o] by (rule result)
  qed
  show thesis
  proof (cases r)
    case (Inl e)
    show thesis
    proof (cases "money_refusal_reason_code e")
      case None
      show thesis
        by (rule failed [of INTERNAL_ERROR "stage_event FINAL_ASSESSMENT ''internal_error'' [(''error'', JStr (exn_name e))] s"])
          (use Inl None in \<open>simp_all add: unf stage_event_counted\<close>)
    next
      case (Some reason)
      show thesis
        by (rule failed [of reason "log_stop FINAL_ASSESSMENT reason s"]) (use Inl Some in \<open>simp_all add: unf log_stop_def stage_event_counted\<close>)
    qed
  next
    case (Inr v)
    show thesis
    proof (cases v)
      case None
      with stop Inr obtain reason where "sc_stop_reason s = Some reason" by auto
      then show thesis by (intro failed [of reason s]) (use Inr None in \<open>simp_all add: unf\<close>)
    next
      case (Some a)
      let ?forged = "unknown_ids store (fa_supporting_evidence_ids a @ fa_contrary_evidence_ids a)"
      show thesis
      proof (cases "?forged = []")
        case False
        show thesis
          by (rule failed [of FORGED_EVIDENCE_REFERENCE "stage_event FINAL_ASSESSMENT ''forged_citation''
            [(''cited'', JInt (int (length ?forged)))] s"])
          (use Inr Some False in \<open>simp_all add: unf stage_event_counted\<close>)
      next
        case True
        then have "cited_ids a \<subseteq> ev_evidence_id ` set (gs_evidence (counted FINAL_ASSESSMENT s st))"
          unfolding unknown_ids_empty_iff store(2) by (simp add: cited_ids_def counted_def)
        then have o: "state_ok cfg ((counted FINAL_ASSESSMENT s st)\<lparr>gs_assessment := Some a, gs_failure_reason := None\<rparr>)
            (sc_world s)" using good Inr Some by (intro state_ok_assessed cok [OF cost]) simp
        show thesis
          by (rule result [OF _ o]) (use Inr Some True in
            \<open>simp_all add: unf same_ending_def concluded_def counted_def\<close>)
      qed
    qed
  qed
qed

section \<open>Escalation and report\<close>

text \<open>Resume values whose note, once stripped, an escalation record can hold.\<close>

definition resumes_ok :: "json list \<Rightarrow> bool" where
  "resumes_ok vs \<longleftrightarrow> (\<forall>v \<in> set vs. \<forall>d n. parse_resume_decision v = Some (d, Some n) \<longrightarrow> length n \<le> 300)"

lemma parse_resume_paired:
  assumes "parse_resume_decision v = Some (d, note)"
  shows "(d = Accept \<and> note = None) \<or> (\<exists>n. d = Reject \<and> note = Some n \<and> n \<noteq> [] \<and> py_strip n = n)"
  using assms by (auto simp: parse_resume_decision_def Let_def py_strip_idem split: json.splits option.splits if_splits)

lemma resolve_resume_in: "resolve_resume vs = Some x \<Longrightarrow> \<exists>v \<in> set vs. parse_resume_decision v = Some x"
  by (induction vs) (auto split: option.splits)

lemma resolve_resume_record:
  assumes "resolve_resume vs = Some (d, note)" and "resumes_ok vs"
  shows "escalation_record_validate \<lparr> er_reason = reason, er_decision = d, er_rejection_note = note \<rparr>
     = Inr \<lparr> er_reason = reason, er_decision = d, er_rejection_note = note \<rparr>"
proof -
  obtain v where v: "v \<in> set vs" "parse_resume_decision v = Some (d, note)"
    using resolve_resume_in [OF assms(1)] by blast
  with assms(2) have "\<forall>n. note = Some n \<longrightarrow> length n \<le> 300" by (auto simp: resumes_ok_def)
  with parse_resume_paired [OF v(2)] show ?thesis by (auto simp: escalation_record_validate_def)
qed

text \<open>The escalation reason of a state, \<open>None\<close> when the run can go straight to its report.\<close>

definition escalates :: "budgets \<Rightarrow> graph_state \<Rightarrow> escalation_reason option" where
  "escalates b st = (case gs_assessment st of None \<Rightarrow> None
     | Some a \<Rightarrow> (case escalation_reason_of (gs_receipts st) a b (length (gs_runbook_passages st)) of
          Inl _ \<Rightarrow> None | Inr r \<Rightarrow> r))"

lemma escalates_eq:
  assumes "state_ok cfg st w" and "gs_assessment st = Some a"
  shows "escalation_reason_of (gs_receipts st) a (g_budgets cfg) (length (gs_runbook_passages st))
     = Inr (escalates (g_budgets cfg) st)"
proof -
  obtain r where "escalation_reason_of (gs_receipts st) a (g_budgets cfg) (length (gs_runbook_passages st)) = Inr r"
    using assms(1) escalation_reason_total unfolding state_ok_def by blast
  then show ?thesis using assms(2) by (simp add: escalates_def)
qed

lemma escalation_ok:
  assumes ok: "state_ok cfg st w" and reason: "escalates (g_budgets cfg) st = Some reason"
  shows "resolve_resume resumes = None \<Longrightarrow> \<exists>payload. escalation_interrupt (g_budgets cfg) resumes st w
           = (Inr (Interrupted payload), w) \<and> ip_reason payload = reason
           \<and> ip_remaining_check_count payload = b_executed_tools (g_budgets cfg) - spent_in False (gs_receipts st)
           \<and> set (ip_evidence_ids payload) = ev_evidence_id ` set (gs_evidence st)"
    and "resolve_resume resumes = Some (d, note) \<Longrightarrow> resumes_ok resumes \<Longrightarrow>
         \<exists>st' w'. escalation_interrupt (g_budgets cfg) resumes st w = (Inr (Updated st'), w') \<and> state_ok cfg st' w'
           \<and> gs_escalation_reason st' = Some reason \<and> gs_escalation_decision st' = Some d
           \<and> gs_rejection_note st' = note \<and> gs_assessment st' = gs_assessment st
           \<and> gs_failure_reason st' = gs_failure_reason st
           \<and> gs_investigation_id st' = gs_investigation_id st \<and> gs_run_id st' = gs_run_id st"
proof -
  obtain a where a: "gs_assessment st = Some a" using reason by (auto simp: escalates_def split: option.splits)
  have av: "final_assessment_validate a = Inr a" using ok a by (simp add: state_ok_def assessment_ok_def)
  from ok have rs: "receipts_ok (gs_incident_id st) (g_budgets cfg) (gs_receipts st)"
    unfolding state_ok_def by blast
  obtain store where store: "rebuild_store (gs_incident_id st) (gs_evidence st) = Inr store" "store_wf store"
    "set (dict_keys (es_records store)) = ev_evidence_id ` set (gs_evidence st)"
    using ok by (auto simp: state_ok_def elim: rebuild_store_ok)
  note unf = escalation_interrupt_def a av rebuild_receipts_ok [OF rs] store(1)
    escalates_eq [OF ok a, unfolded reason] tools_left_ok(1) [OF rs]
  show "\<exists>payload. escalation_interrupt (g_budgets cfg) resumes st w = (Inr (Interrupted payload), w)
      \<and> ip_reason payload = reason
      \<and> ip_remaining_check_count payload = b_executed_tools (g_budgets cfg) - spent_in False (gs_receipts st)
      \<and> set (ip_evidence_ids payload) = ev_evidence_id ` set (gs_evidence st)"
    if "resolve_resume resumes = None"
    using that ordered_ids [OF store(2)] unfolding store(3) by (simp add: unf)
  assume r: "resolve_resume resumes = Some (d, note)" and rok: "resumes_ok resumes"
  obtain evs w' where ev: "record_event ESCALATION_INTERRUPT ''escalation_decided''
      [(''reason'', JStr (escalation_value reason)), (''decision'', JStr (decision_value d))]
      (gs_events st) w = (evs, w')" by force
  let ?st = "st\<lparr>gs_phase := ESCALATION_INTERRUPT, gs_escalation_reason := Some reason,
      gs_escalation_decision := Some d, gs_rejection_note := note, gs_events := evs\<rparr>"
  have "\<exists>x. report_escalation ?st = Inr x"
    using resolve_resume_record [OF r rok, of reason] by (simp add: report_escalation_def)
  then have "state_ok cfg ?st w'"
    using state_ok_recorded [OF ok ev, of ESCALATION_INTERRUPT] by (auto simp: state_ok_def frame_simps)
  then show "\<exists>st' w'. escalation_interrupt (g_budgets cfg) resumes st w = (Inr (Updated st'), w') \<and> state_ok cfg st' w'
      \<and> gs_escalation_reason st' = Some reason \<and> gs_escalation_decision st' = Some d
      \<and> gs_rejection_note st' = note \<and> gs_assessment st' = gs_assessment st
      \<and> gs_failure_reason st' = gs_failure_reason st
      \<and> gs_investigation_id st' = gs_investigation_id st \<and> gs_run_id st' = gs_run_id st"
    using r by (intro exI [of _ ?st] exI [of _ w']) (simp add: unf ev)
qed

lemma report_states_frame [frame_simps]:
  "report_states (st\<lparr>gs_phase := p\<rparr>) b forced q = report_states st b forced q"
  "report_states (st\<lparr>gs_report := r\<rparr>) b forced q = report_states st b forced q"
  "report_states (st\<lparr>gs_events := e\<rparr>) b forced q = report_states st b forced q"
  by (simp_all add: report_states_def frame_simps)

lemma final_report_ok:
  assumes ok: "state_ok cfg st w"
  obtains st' w' r where "final_report_node (g_budgets cfg) st w = (Inr st', w')" and "state_ok cfg st' w'"
    and "gs_report st' = Some r" and "report_states st' (g_budgets cfg) None r"
    and "gs_investigation_id st' = gs_investigation_id st" and "gs_run_id st' = gs_run_id st"
    and "concluded st' = concluded st" and "report_states st (g_budgets cfg) None r"
proof -
  obtain r w1 where rep: "build_report st (g_budgets cfg) None w = (Inr r, w1)"
    "report_states st (g_budgets cfg) None r" "world_le w w1" by (rule build_report_ok [OF ok])
  have a: "(case gs_assessment st of None \<Rightarrow> Inr None | Some a \<Rightarrow> map_sum id Some (final_assessment_validate a))
      = Inr (gs_assessment st)" using ok by (auto simp: state_ok_def assessment_ok_def split: option.splits)
  let ?u = "unresolved_runbook_citations (gs_assessment st) (gs_runbook_passages st)"
  obtain evs w2 where ev: "(if ?u = [] then (gs_events st, w1)
      else record_event FINAL_REPORT ''runbook_citation_unresolved'' [(''count'', JInt (int (length ?u)))] (gs_events st) w1)
      = (evs, w2)" by force
  have o1: "state_ok cfg st w1" using ok rep(3) by (rule state_ok_le)
  have o2: "state_ok cfg (st\<lparr>gs_phase := FINAL_REPORT, gs_events := evs\<rparr>) w2"
  proof (cases "?u = []")
    case True
    with ev o1 show ?thesis by (auto simp: state_ok_def frame_simps)
  next
    case False
    with ev show ?thesis by (intro state_ok_recorded [OF o1]) simp
  qed
  let ?st = "st\<lparr>gs_phase := FINAL_REPORT, gs_report := Some r, gs_events := evs\<rparr>"
  have "state_ok cfg ?st w2" using o2 by (auto simp: state_ok_def frame_simps)
  moreover have "final_report_node (g_budgets cfg) st w = (Inr ?st, w2)"
    using ev by (simp add: final_report_node_def rep(1) a Let_def)
  ultimately show thesis using rep(2) by (intro that [of ?st w2 r]) (simp_all add: frame_simps concluded_def)
qed

section \<open>How the nodes follow each other\<close>

text \<open>What holds of the state when a node is about to run.\<close>

fun node_ok :: "'w graph_config \<Rightarrow> graph_node \<Rightarrow> graph_state \<Rightarrow> bool" where
  "node_ok cfg N_dispatch_tool st \<longleftrightarrow> gs_pending_proposal st \<noteq> None \<and> gs_assessment st = None"
| "node_ok cfg N_escalation_interrupt st \<longleftrightarrow> concluded st \<and> escalates (g_budgets cfg) st \<noteq> None
     \<and> \<not> g_suppress_escalation cfg"
| "node_ok cfg N_final_report st \<longleftrightarrow> concluded st"
| "node_ok cfg N_END st \<longleftrightarrow> concluded st \<and> (\<exists>r. gs_report st = Some r \<and> report_states st (g_budgets cfg) None r)"
| "node_ok cfg _ st \<longleftrightarrow> gs_assessment st = None"

definition flow_ok :: "'w graph_config \<Rightarrow> graph_node \<Rightarrow> graph_state \<Rightarrow> 'w world \<Rightarrow> bool" where
  "flow_ok cfg n st w \<longleftrightarrow> state_ok cfg st w \<and> node_ok cfg n st"

text \<open>
  A bound on the supersteps left. A turn of \<open>investigate\<close>, \<open>dispatch_tool\<close> and
  \<open>normalize_evidence\<close> spends one model call, and \<open>normalize_evidence\<close> returns to
  \<open>investigate\<close> only while two are left.
\<close>

definition rank_investigate :: "int \<Rightarrow> nat" where
  "rank_investigate l = 3 * nat (max 1 (l - 1)) + 3"

fun rank :: "'w graph_config \<Rightarrow> graph_node \<Rightarrow> graph_state \<Rightarrow> nat" where
  "rank cfg N_investigate st = rank_investigate (calls_left cfg st)"
| "rank cfg N_dispatch_tool st =
     (if 2 \<le> calls_left cfg st then rank_investigate (calls_left cfg st) + 2 else 5)"
| "rank cfg N_normalize_evidence st =
     (if 2 \<le> calls_left cfg st then rank_investigate (calls_left cfg st) + 1 else 4)"
| "rank cfg N_final_assessment st = 3"
| "rank cfg N_escalation_interrupt st = 2"
| "rank cfg N_final_report st = 1"
| "rank cfg N_END st = 0"

lemma rank_dispatch_less:
  assumes "l' = l - 1"
  shows "(if 2 \<le> l' then rank_investigate l' + 2 else 5) < rank_investigate l"
  using assms by (auto simp: rank_investigate_def max_def)

text \<open>One superstep of a run in order: it commits to a smaller rank, or it pauses.\<close>

definition advances :: "'w graph_config \<Rightarrow> graph_node \<Rightarrow> graph_state \<Rightarrow> graph_node \<Rightarrow> graph_state \<Rightarrow> 'w world \<Rightarrow> bool" where
  "advances cfg n st n' st' w' \<longleftrightarrow> flow_ok cfg n' st' w' \<and> rank cfg n' st' < rank cfg n st
     \<and> gs_investigation_id st' = gs_investigation_id st \<and> gs_run_id st' = gs_run_id st"

lemma step_investigate:
  assumes f: "flow_ok cfg N_investigate st w"
  shows "\<exists>n' st' w'. superstep cfg resumes N_investigate st w = (Committed n' st', w')
     \<and> advances cfg N_investigate st n' st' w'"
proof -
  obtain st' w' where st': "investigate cfg st w = (Inr st', w')" "state_ok cfg st' w'" "same_ending st st'"
    "gs_assessment st' = gs_assessment st"
    "gs_pending_proposal st' \<noteq> None \<longrightarrow> calls_left cfg st' = calls_left cfg st - 1 \<and> gs_failure_reason st' = None"
    by (rule investigate_ok [OF conjunct1 [OF f [unfolded flow_ok_def]]])
  have a: "gs_assessment st' = None" using f st'(4) by (simp add: flow_ok_def)
  let ?n = "route_after_investigate st'"
  have "node_ok cfg ?n st'" using a by (auto simp: route_after_investigate_def concluded_def)
  moreover have "rank cfg ?n st' < rank cfg N_investigate st"
    using st'(5) rank_dispatch_less [of "calls_left cfg st'" "calls_left cfg st"]
    by (auto simp: route_after_investigate_def rank_investigate_def)
  ultimately have "advances cfg N_investigate st ?n st' w'"
    using st'(2,3) by (simp add: advances_def flow_ok_def same_ending_def)
  then show ?thesis by (intro exI conjI) (simp_all add: superstep_def then_to_def st'(1))
qed

lemma step_dispatch:
  assumes f: "flow_ok cfg N_dispatch_tool st w" and reg: "registry_ok cfg"
  shows "\<exists>n' st' w'. superstep cfg resumes N_dispatch_tool st w = (Committed n' st', w')
     \<and> advances cfg N_dispatch_tool st n' st' w'"
proof -
  from f obtain p where p: "gs_pending_proposal st = Some p" by (auto simp: flow_ok_def)
  from f have ok: "state_ok cfg st w" by (simp add: flow_ok_def)
  obtain st' w' where st': "dispatch_tool cfg st w = (Inr st', w')" "state_ok cfg st' w'" "same_ending st st'"
    "gs_assessment st' = gs_assessment st" "calls_left cfg st' = calls_left cfg st"
    by (rule dispatch_tool_ok [OF ok reg p])
  have "advances cfg N_dispatch_tool st N_normalize_evidence st' w'"
    using f st' by (simp add: advances_def flow_ok_def same_ending_def)
  then show ?thesis by (intro exI conjI) (simp_all add: superstep_def then_to_def st'(1))
qed

lemma step_normalize:
  assumes f: "flow_ok cfg N_normalize_evidence st w"
  shows "\<exists>n' st' w'. superstep cfg resumes N_normalize_evidence st w = (Committed n' st', w')
     \<and> advances cfg N_normalize_evidence st n' st' w'"
proof -
  from f have ok: "state_ok cfg st w" and a: "gs_assessment st = None" by (simp_all add: flow_ok_def)
  obtain evs w1 where norm: "normalize_evidence st w = (Inr (st\<lparr>gs_phase := NORMALIZE_EVIDENCE, gs_events := evs\<rparr>), w1)"
    and ok1: "state_ok cfg (st\<lparr>gs_phase := NORMALIZE_EVIDENCE, gs_events := evs\<rparr>) w1"
    by (rule normalize_ok [OF ok])
  let ?st = "st\<lparr>gs_phase := NORMALIZE_EVIDENCE, gs_events := evs\<rparr>"
  have rs: "receipts_ok (gs_incident_id st) (g_budgets cfg) (gs_receipts st)"
    "receipts_ok (gs_incident_id ?st) (g_budgets cfg) (gs_receipts ?st)"
    using ok by (auto simp: state_ok_def)
  obtain ex w2 where ex: "expired (gs_started_at st) (g_budgets cfg) w1 = (ex, w2)" by force
  then have "world_le w1 w2" by (auto simp: expired_def split: prod.splits dest: read_clock_le)
  with ok1 have ok2: "state_ok cfg ?st w2" by (rule state_ok_le)
  have "\<exists>n' w'. route_after_normalize (g_budgets cfg) ?st w1 = (Inr n', w') \<and> state_ok cfg ?st w' \<and> node_ok cfg n' ?st
      \<and> rank cfg n' ?st < rank cfg N_normalize_evidence st"
    using ok1 ok2 ex a
    by (simp add: route_after_normalize_def rebuild_receipts_ok [OF rs(2)] tools_left_ok(1) [OF rs(1)] concluded_def
        calls_left_def rank_investigate_def)
  then show ?thesis
    by (auto simp: superstep_def then_to_def norm advances_def flow_ok_def)
qed

lemma step_final_assessment:
  assumes f: "flow_ok cfg N_final_assessment st w"
  shows "\<exists>n' st' w'. superstep cfg resumes N_final_assessment st w = (Committed n' st', w')
     \<and> advances cfg N_final_assessment st n' st' w'"
proof -
  from f have ok: "state_ok cfg st w" by (simp add: flow_ok_def)
  obtain st' w' where st': "final_assessment_node cfg st w = (Inr st', w')" "state_ok cfg st' w'" "same_ending st st'"
    "concluded st'" by (rule final_assessment_ok [OF ok])
  have rs: "rebuild_receipts st' = Inr (gs_receipts st')"
    using st'(2) unfolding state_ok_def by (intro rebuild_receipts_ok) blast
  have "\<exists>n. route_after_final_assessment (g_budgets cfg) (g_suppress_escalation cfg) st' = Inr n
     \<and> node_ok cfg n st' \<and> rank cfg n st' < 3"
  proof (cases "gs_assessment st'")
    case None
    then show ?thesis using st'(4) by (simp add: route_after_final_assessment_def concluded_def)
  next
    case (Some a)
    then have "final_assessment_validate a = Inr a" using st'(2) by (simp add: state_ok_def assessment_ok_def)
    then show ?thesis using st'(4) Some escalates_eq [OF st'(2) Some]
      by (simp add: route_after_final_assessment_def concluded_def rs)
  qed
  then show ?thesis using st' by (auto simp: superstep_def then_to_def advances_def flow_ok_def same_ending_def)
qed

lemma step_escalation:
  assumes f: "flow_ok cfg N_escalation_interrupt st w" and r: "resumes_ok resumes"
  shows "resolve_resume resumes = Some (d, note) \<Longrightarrow>
      \<exists>n' st' w'. superstep cfg resumes N_escalation_interrupt st w = (Committed n' st', w')
        \<and> advances cfg N_escalation_interrupt st n' st' w'
        \<and> gs_escalation_reason st' = escalates (g_budgets cfg) st \<and> gs_escalation_decision st' = Some d
        \<and> gs_rejection_note st' = note \<and> n' = N_final_report \<and> gs_assessment st' = gs_assessment st"
    and "resolve_resume resumes = None \<Longrightarrow>
      \<exists>payload. superstep cfg resumes N_escalation_interrupt st w = (Paused payload, w)
        \<and> escalates (g_budgets cfg) st = Some (ip_reason payload)
        \<and> ip_remaining_check_count payload = b_executed_tools (g_budgets cfg) - spent_in False (gs_receipts st)"
proof -
  from f obtain reason where ok: "state_ok cfg st w" and reason: "escalates (g_budgets cfg) st = Some reason"
    and c: "concluded st" by (auto simp: flow_ok_def)
  note esc = escalation_ok [OF ok reason, of resumes]
  show "\<exists>n' st' w'. superstep cfg resumes N_escalation_interrupt st w = (Committed n' st', w')
        \<and> advances cfg N_escalation_interrupt st n' st' w'
        \<and> gs_escalation_reason st' = escalates (g_budgets cfg) st \<and> gs_escalation_decision st' = Some d
        \<and> gs_rejection_note st' = note \<and> n' = N_final_report \<and> gs_assessment st' = gs_assessment st"
    if "resolve_resume resumes = Some (d, note)"
    using esc(2) [OF that r] reason c by (auto simp: superstep_def advances_def flow_ok_def concluded_def)
  show "\<exists>payload. superstep cfg resumes N_escalation_interrupt st w = (Paused payload, w)
        \<and> escalates (g_budgets cfg) st = Some (ip_reason payload)
        \<and> ip_remaining_check_count payload = b_executed_tools (g_budgets cfg) - spent_in False (gs_receipts st)"
    if "resolve_resume resumes = None"
    using esc(1) [OF that] reason by (auto simp: superstep_def)
qed

lemma step_final_report:
  assumes f: "flow_ok cfg N_final_report st w"
  shows "\<exists>n' st' w'. superstep cfg resumes N_final_report st w = (Committed n' st', w')
     \<and> advances cfg N_final_report st n' st' w'"
proof -
  from f have ok: "state_ok cfg st w" by (simp add: flow_ok_def)
  obtain st' w' r where "final_report_node (g_budgets cfg) st w = (Inr st', w')" "state_ok cfg st' w'"
    "gs_report st' = Some r" "report_states st' (g_budgets cfg) None r"
    "gs_investigation_id st' = gs_investigation_id st" "gs_run_id st' = gs_run_id st" "concluded st' = concluded st"
    by (rule final_report_ok [OF ok])
  then show ?thesis using f by (simp add: superstep_def then_to_def advances_def flow_ok_def)
qed

end
