(* ===== verification/GraphThms.thy ===== *)
theory GraphThms
  imports GraphFlow
begin

text \<open>
  What an investigation guarantees as a whole, for every reasoning model and every tool backend:
  it ends, with a valid report or at a pause; the report agrees with the record; the budgets
  hold; a pause resumes with the owner's decision; a crash is contained.
\<close>

section \<open>Runs\<close>

lemma superstep_ok:
  assumes "flow_ok cfg n st w" and "n \<noteq> N_END" and "registry_ok cfg" and "resumes_ok resumes"
  shows "(\<exists>n' st' w'. superstep cfg resumes n st w = (Committed n' st', w') \<and> advances cfg n st n' st' w')
    \<or> n = N_escalation_interrupt \<and> resolve_resume resumes = None"
proof (cases n)
  case N_escalation_interrupt
  show ?thesis
  proof (cases "resolve_resume resumes")
    case None
    with N_escalation_interrupt show ?thesis by simp
  next
    case (Some x)
    then obtain d nt where "resolve_resume resumes = Some (d, nt)" by (cases x) auto
    with step_escalation(1) [OF assms(1,4) [unfolded N_escalation_interrupt]] N_escalation_interrupt
    show ?thesis by blast
  qed
next
  case N_investigate
  with step_investigate assms(1) show ?thesis by simp
next
  case N_dispatch_tool
  with step_dispatch assms(1,3) show ?thesis by simp
next
  case N_normalize_evidence
  with step_normalize assms(1) show ?thesis by simp
next
  case N_final_assessment
  with step_final_assessment assms(1) show ?thesis by simp
next
  case N_final_report
  with step_final_report assms(1) show ?thesis by simp
qed (use assms(2) in simp)

lemma run_loop_Suc:
  "n \<noteq> N_END \<Longrightarrow> run_loop cfg resumes (Suc limit) n st w = (case superstep cfg resumes n st w of
        (Committed n' st', w') \<Rightarrow> run_loop cfg resumes limit n' st' w'
      | (Paused payload, w') \<Rightarrow> (PausedAt payload, n, st, w')
      | (Raised e, w') \<Rightarrow> (Failed e, n, st, w'))"
  by (cases n; hypsubst) simp_all

text \<open>How an invocation may end: at the end of the graph, or paused before the owner decided.\<close>

definition run_ends :: "'w graph_config \<Rightarrow> json list \<Rightarrow> graph_state \<Rightarrow> run_end \<times> graph_node \<times> graph_state \<times> 'w world \<Rightarrow> bool" where
  "run_ends cfg resumes st ended \<longleftrightarrow> (case ended of (how, n, st', w') \<Rightarrow>
     flow_ok cfg n st' w' \<and> gs_investigation_id st' = gs_investigation_id st \<and> gs_run_id st' = gs_run_id st
     \<and> (case how of
          Finished \<Rightarrow> n = N_END
        | PausedAt payload \<Rightarrow> n = N_escalation_interrupt \<and> resolve_resume resumes = None
            \<and> escalates (g_budgets cfg) st' = Some (ip_reason payload)
            \<and> ip_remaining_check_count payload = b_executed_tools (g_budgets cfg) - spent_in False (gs_receipts st')
        | Failed e \<Rightarrow> False))"

lemma run_ends_trans:
  "run_ends cfg resumes st' e \<Longrightarrow> advances cfg n st n' st' w' \<Longrightarrow> run_ends cfg resumes st e"
  by (auto simp: run_ends_def advances_def)

lemma run_loop_ends:
  assumes "registry_ok cfg" and "resumes_ok resumes"
  shows "flow_ok cfg n st w \<Longrightarrow> rank cfg n st \<le> limit \<Longrightarrow> run_ends cfg resumes st (run_loop cfg resumes limit n st w)"
proof (induction limit arbitrary: n st w)
  case 0
  then have "n = N_END" by (cases n) (auto simp: rank_investigate_def split: if_splits)
  then show ?case using 0 by (simp add: run_ends_def)
next
  case (Suc limit)
  show ?case
  proof (cases "n = N_END")
    case True
    then show ?thesis using Suc.prems by (simp add: run_ends_def)
  next
    case False
    note unf = run_loop_Suc [OF False]
    consider (go) n' st' w' where "superstep cfg resumes n st w = (Committed n' st', w')" "advances cfg n st n' st' w'"
      | (pause) "n = N_escalation_interrupt" "resolve_resume resumes = None"
      using superstep_ok [OF Suc.prems(1) False assms] by metis
    then show ?thesis
    proof cases
      case go
      have "run_ends cfg resumes st' (run_loop cfg resumes limit n' st' w')"
        by (rule Suc.IH) (use go(2) Suc.prems(2) in \<open>simp_all add: advances_def\<close>)
      then show ?thesis using go by (auto simp: unf intro: run_ends_trans)
    next
      case pause
      show ?thesis using step_escalation(2) [of cfg st w resumes] pause Suc.prems(1) assms(2)
        by (auto simp: unf run_ends_def)
    qed
  qed
qed

section \<open>Results\<close>

lemma add_all_values:
  "add_all s es = Inr s' \<Longrightarrow> set (dict_values (es_records s')) \<subseteq> set (dict_values (es_records s)) \<union> set es"
proof (induction es arbitrary: s)
  case (Cons e es)
  then obtain s1 where s1: "evidence_store_add s e = Inr s1" "add_all s1 es = Inr s'" by (auto simp: bind_r_Inr)
  have "set (dict_values (es_records s1)) \<subseteq> insert e (set (dict_values (es_records s)))"
    using s1(1) set_update_subset [of "ev_evidence_id e" e "es_records s"]
    by (force simp: evidence_store_add_def split: if_splits)
  with Cons.IH [OF s1(2)] show ?case by auto
qed simp

lemma rebuild_store_values:
  assumes "evidence_ok i es"
  obtains store where "rebuild_store i es = Inr store" and "set (ordered store) \<subseteq> set es"
    and "ev_evidence_id ` set (ordered store) = ev_evidence_id ` set es"
proof -
  obtain store where store: "rebuild_store i es = Inr store" "store_wf store"
    "set (dict_keys (es_records store)) = ev_evidence_id ` set es" by (rule rebuild_store_ok [OF assms])
  have "map_r evidence_validate es = Inr es" using assms by (intro map_r_id) (simp add: evidence_ok_def)
  with store(1) have "add_all (evidence_store_new i) es = Inr store" by (simp add: rebuild_store_def)
  from add_all_values [OF this] have "set (ordered store) \<subseteq> set es"
    by (simp add: set_ordered evidence_store_new_def)
  then show thesis using store(1) ordered_ids [OF store(2), unfolded store(3)] by (intro that)
qed

text \<open>What every returned result says of the run: it is the report of a state in order.\<close>

definition result_reports :: "'w graph_config \<Rightarrow> graph_state \<Rightarrow> reason_code option \<Rightarrow> investigation_result \<Rightarrow> bool" where
  "result_reports cfg st forced res \<longleftrightarrow> report_states st (g_budgets cfg) forced (res_report res)
     \<and> res_receipts res = gs_receipts st \<and> set (res_evidence res) \<subseteq> set (gs_evidence st)
     \<and> ev_evidence_id ` set (res_evidence res) = ev_evidence_id ` set (gs_evidence st)"

lemma result_of_ok:
  assumes "state_ok cfg st w" and "gs_report st = Some report" and "report_states st (g_budgets cfg) forced report"
  obtains res where "result_of st = Inr (Result res)" and "result_reports cfg st forced res" and "res_report res = report"
proof -
  obtain store where store: "rebuild_store (gs_incident_id st) (gs_evidence st) = Inr store"
    "set (ordered store) \<subseteq> set (gs_evidence st)"
    "ev_evidence_id ` set (ordered store) = ev_evidence_id ` set (gs_evidence st)"
    using assms(1) unfolding state_ok_def by (metis rebuild_store_values)
  have rs: "rebuild_receipts st = Inr (gs_receipts st)"
    using assms(1) unfolding state_ok_def by (intro rebuild_receipts_ok) blast
  have "investigation_report_validate report = Inr report" using assms(3) by (simp add: report_states_def)
  then show thesis using assms(2,3) store rs
    by (intro that [of "\<lparr> res_report = report, res_evidence = ordered store, res_receipts = gs_receipts st \<rparr>"])
      (simp_all add: result_of_def result_reports_def)
qed

lemma escalated_of_ok:
  assumes "state_ok cfg st w"
  obtains esc where "escalated_of cp st payload = Inr (Escalated esc)" and "esc_reason esc = ip_reason payload"
    and "esc_thread_id esc = gs_investigation_id st" and "esc_run_id esc = gs_run_id st"
    and "esc_receipts esc = gs_receipts st" and "esc_checkpoint_id esc = cp"
    and "esc_remaining_check_count esc = ip_remaining_check_count payload"
    and "set (esc_evidence esc) \<subseteq> set (gs_evidence st)"
    and "ev_evidence_id ` set (esc_evidence esc) = ev_evidence_id ` set (gs_evidence st)"
proof -
  obtain store where store: "rebuild_store (gs_incident_id st) (gs_evidence st) = Inr store"
    "set (ordered store) \<subseteq> set (gs_evidence st)"
    "ev_evidence_id ` set (ordered store) = ev_evidence_id ` set (gs_evidence st)"
    using assms unfolding state_ok_def by (metis rebuild_store_values)
  have rs: "rebuild_receipts st = Inr (gs_receipts st)"
    using assms unfolding state_ok_def by (intro rebuild_receipts_ok) blast
  show thesis using store rs by (intro that) (auto simp: escalated_of_def)
qed

text \<open>Containment: whatever raised, the last committed state in order becomes a failed-safe report.\<close>

lemma contained_ok:
  assumes ok: "state_ok cfg st w"
  obtains res evs w' where "settle_invocation cp (g_budgets cfg) (Failed e, n, st, w) = (Inr (Result res), evs, w')"
    and "result_reports cfg st (Some INTERNAL_ERROR) res" and "prefix (gs_events st) evs" and "events_ok evs"
proof -
  obtain evs w1 where ev: "record_event FINAL_REPORT ''internal_error'' [(''error'', JStr (exn_name e))] (gs_events st) w
      = (evs, w1)" by force
  note rec = record_event_ok [OF ev]
  have ok1: "state_ok cfg (st\<lparr>gs_events := evs\<rparr>) w1"
    using state_ok_recorded [OF ok ev, of "gs_phase st"] by simp
  obtain r w2 where rep: "build_report (st\<lparr>gs_events := evs\<rparr>) (g_budgets cfg) (Some INTERNAL_ERROR) w1 = (Inr r, w2)"
    "report_states (st\<lparr>gs_events := evs\<rparr>) (g_budgets cfg) (Some INTERNAL_ERROR) r" "world_le w1 w2"
    by (rule build_report_ok [OF ok1])
  let ?st = "st\<lparr>gs_events := evs, gs_report := Some r\<rparr>"
  have ok2: "state_ok cfg ?st w2"
    using state_ok_le [OF ok1 rep(3)] by (auto simp: state_ok_def frame_simps)
  obtain res where res: "result_of ?st = Inr (Result res)" "result_reports cfg ?st (Some INTERNAL_ERROR) res"
    by (rule result_of_ok [OF ok2, of r "Some INTERNAL_ERROR"]) (use rep(2) in \<open>simp_all add: frame_simps\<close>)
  have "result_reports cfg st (Some INTERNAL_ERROR) res"
    using res(2) by (simp add: result_reports_def frame_simps)
  moreover have "settle_invocation cp (g_budgets cfg) (Failed e, n, st, w) = (Inr (Result res), evs, w2)"
    by (simp add: settle_invocation_def ev Let_def rep(1) res(1))
  ultimately show thesis using rec ok by (intro that) (auto simp: state_ok_def)
qed

section \<open>Starting\<close>

text \<open>
  What a run needs to start in order: budgets that are not negative and small enough for the
  recursion limit, a registry that files every wrapper under its own tool, initial evidence of
  this incident, identifiers that do not repeat, and a clock that does not run backwards.
\<close>

definition start_ok :: "'w graph_config \<Rightarrow> evidence list \<Rightarrow> 'w world \<Rightarrow> bool" where
  "start_ok cfg es w \<longleftrightarrow> budgets_ok (g_budgets cfg) \<and> b_model_calls (g_budgets cfg) \<le> 8 \<and> registry_ok cfg
     \<and> evidence_ok (sc_incident_id (g_scope cfg)) es \<and> ids_fresh w {} \<and> clock_ok w"

lemma start_flow_ok:
  assumes ok: "start_ok cfg es w" and st: "start_investigation cfg es iid name w = (st, w')"
  shows "flow_ok cfg (graph_start cfg) st w'" and "rank cfg (graph_start cfg) st \<le> GRAPH_RECURSION_LIMIT"
proof -
  obtain i w1 where w1: "(case iid of None \<Rightarrow> new_opaque_id w | Some i \<Rightarrow> (i, w)) = (i, w1)" by force
  obtain run w2 where w2: "new_opaque_id w1 = (run, w2)" by force
  obtain now w3 where w3: "read_clock w2 = (now, w3)" by force
  obtain evs w4 where w4: "record_event CREATED ''investigation_started''
      [(''incident'', JStr (sc_incident_id (g_scope cfg))), (''run_id'', JStr run)] [] w3 = (evs, w4)" by force
  have s: "st = initial_state (g_scope cfg) es name i run now evs" "w' = w4"
    using st by (simp_all add: start_investigation_def w1 w2 w3 w4)
  have "world_le w w1" using w1 by (auto split: option.splits dest: new_opaque_id_le)
  then have le3: "world_le w w3"
    using new_opaque_id_le [OF w2] read_clock_le [OF w3] by (metis world_le_trans)
  then have le4: "world_le w w4" using record_event_ok(2) [OF w4] by (rule world_le_trans)
  have now: "now = clock_at w (clock_n w2)" "clock_n w4 = Suc (clock_n w2)" "clock_at w4 = clock_at w"
    using w3 le3 le4 record_event_ok(5) [OF w4] by (auto simp: read_clock_def world_le_def)
  have "world_ok st w4"
    using ok le4 now ids_fresh_le [OF le4] unfolding world_ok_def start_ok_def clock_ok_def s
    by (auto simp: initial_state_def)
  moreover have "events_ok evs" using record_event_ok(1) [OF w4] by simp
  ultimately have "state_ok cfg st w4"
    using ok by (auto simp: state_ok_def start_ok_def budgets_ok_def s initial_state_def receipts_ok_def
        spent_in_def counters_ok_def assessment_ok_def report_escalation_def)
  then show "flow_ok cfg (graph_start cfg) st w'" by (simp add: flow_ok_def graph_start_def s initial_state_def)
  show "rank cfg (graph_start cfg) st \<le> GRAPH_RECURSION_LIMIT"
    using ok by (auto simp: graph_start_def start_ok_def GRAPH_RECURSION_LIMIT_def rank_investigate_def calls_left_def
        model_calls_left_def s initial_state_def max_def)
qed

lemma empty_resumes [simp]: "resumes_ok []" by (simp add: resumes_ok_def)

text \<open>How an investigation that starts in order ends: with a result or at a pause.\<close>

lemma investigation_outcome:
  assumes ok: "start_ok cfg es w"
  obtains (result) res st w' where
      "run_graph_investigation cfg es iid name cp w = (Inr (Result res), gs_events st, w')"
      "state_ok cfg st w'" "result_reports cfg st None res" "concluded st"
    | (paused) esc st w' where
      "run_graph_investigation cfg es iid name cp w = (Inr (Escalated esc), gs_events st, w')"
      "flow_ok cfg N_escalation_interrupt st w'" "escalates (g_budgets cfg) st = Some (esc_reason esc)"
      "esc_receipts esc = gs_receipts st" "esc_checkpoint_id esc = cp" "esc_thread_id esc = gs_investigation_id st"
      "esc_remaining_check_count esc = b_executed_tools (g_budgets cfg) - spent_in False (gs_receipts st)"
      "ev_evidence_id ` set (esc_evidence esc) = ev_evidence_id ` set (gs_evidence st)"
proof -
  obtain st0 w0 where st0: "start_investigation cfg es iid name w = (st0, w0)" by force
  obtain how n st' w' where loop: "run_loop cfg [] GRAPH_RECURSION_LIMIT (graph_start cfg) st0 w0 = (how, n, st', w')"
    by (metis prod_cases4)
  have run: "run_graph_investigation cfg es iid name cp w = settle_invocation cp (g_budgets cfg) (how, n, st', w')"
    by (simp add: run_graph_investigation_def st0 loop)
  have reg: "registry_ok cfg" using ok by (simp add: start_ok_def)
  have ends: "run_ends cfg [] st0 (how, n, st', w')"
    using run_loop_ends [OF reg empty_resumes start_flow_ok [OF ok st0]] by (simp add: loop)
  show thesis
  proof (cases how)
    case Finished
    with ends obtain report where f: "state_ok cfg st' w'" "concluded st'" "gs_report st' = Some report"
      "report_states st' (g_budgets cfg) None report" by (auto simp: run_ends_def flow_ok_def)
    obtain res where "result_of st' = Inr (Result res)" "result_reports cfg st' None res"
      by (rule result_of_ok [OF f(1,3,4)])
    then show thesis using f Finished by (intro result [of res st' w']) (simp_all add: run settle_invocation_def)
  next
    case (PausedAt payload)
    with ends have f: "flow_ok cfg N_escalation_interrupt st' w'" "escalates (g_budgets cfg) st' = Some (ip_reason payload)"
      "ip_remaining_check_count payload = b_executed_tools (g_budgets cfg) - spent_in False (gs_receipts st')"
      by (auto simp: run_ends_def)
    then have "state_ok cfg st' w'" by (simp add: flow_ok_def)
    then obtain esc where "escalated_of cp st' payload = Inr (Escalated esc)" "esc_reason esc = ip_reason payload"
      "esc_thread_id esc = gs_investigation_id st'" "esc_receipts esc = gs_receipts st'" "esc_checkpoint_id esc = cp"
      "esc_remaining_check_count esc = ip_remaining_check_count payload"
      "ev_evidence_id ` set (esc_evidence esc) = ev_evidence_id ` set (gs_evidence st')" by (rule escalated_of_ok)
    then show thesis using f PausedAt by (intro paused [of esc st' w']) (simp_all add: run settle_invocation_def)
  next
    case (Failed e)
    with ends show thesis by (simp add: run_ends_def)
  qed
qed

lemma tools_executed_le: "tools_executed rs \<le> spent_in False rs + spent_in True rs"
  by (induction rs) (auto simp: tools_executed_def spent_in_def spends_def)

section \<open>Every checkpoint\<close>

text \<open>A superstep the engine commits: node, state and world before and after.\<close>

inductive graph_step ::
    "'w graph_config \<Rightarrow> json list \<Rightarrow> graph_node \<times> graph_state \<times> 'w world \<Rightarrow> graph_node \<times> graph_state \<times> 'w world \<Rightarrow> bool"
  for cfg resumes where
  commit: "n \<noteq> N_END \<Longrightarrow> superstep cfg resumes n st w = (Committed n' st', w') \<Longrightarrow>
     graph_step cfg resumes (n, st, w) (n', st', w')"

inductive_cases graph_stepE: "graph_step cfg resumes (n, st, w) (n', st', w')"

definition checkpoint_ok :: "'w graph_config \<Rightarrow> json list \<Rightarrow> graph_node \<times> graph_state \<times> 'w world \<Rightarrow> bool" where
  "checkpoint_ok cfg resumes c \<longleftrightarrow> registry_ok cfg \<and> resumes_ok resumes \<and> (case c of (n, st, w) \<Rightarrow> flow_ok cfg n st w)"

lemma committed_advances:
  assumes "flow_ok cfg n st w" and "n \<noteq> N_END" and "registry_ok cfg" and "resumes_ok resumes"
    and "superstep cfg resumes n st w = (Committed n' st', w')"
  shows "advances cfg n st n' st' w'"
proof -
  have "\<not> (n = N_escalation_interrupt \<and> resolve_resume resumes = None)"
  proof
    assume n: "n = N_escalation_interrupt \<and> resolve_resume resumes = None"
    then show False using step_escalation(2) [of cfg st w resumes] assms(1,4,5) by auto
  qed
  with superstep_ok [OF assms(1-4)] assms(5) show ?thesis by auto
qed

interpretation checkpoints: invariant_system "graph_step cfg resumes" "checkpoint_ok cfg resumes"
  for cfg :: "'w graph_config" and resumes
proof
  fix s t
  assume "graph_step cfg resumes s t" and "checkpoint_ok cfg resumes s"
  then show "checkpoint_ok cfg resumes t"
    by (cases rule: graph_step.cases) (auto simp: checkpoint_ok_def advances_def dest!: committed_advances)
qed

text \<open>Every superstep uses up at least one of the supersteps still needed.\<close>

lemma rank_after:
  assumes "((graph_step cfg resumes) ^^ k) (n, st, w) (n', st', w')" and "checkpoint_ok cfg resumes (n, st, w)"
  shows "k + rank cfg n' st' \<le> rank cfg n st \<and> checkpoint_ok cfg resumes (n', st', w')"
  using assms(1)
proof (induction k arbitrary: n' st' w')
  case (Suc k)
  then obtain n1 st1 w1 where s: "((graph_step cfg resumes) ^^ k) (n, st, w) (n1, st1, w1)"
    "graph_step cfg resumes (n1, st1, w1) (n', st', w')" by auto
  then have c: "k + rank cfg n1 st1 \<le> rank cfg n st" "checkpoint_ok cfg resumes (n1, st1, w1)" using Suc.IH by blast+
  moreover have "rank cfg n' st' < rank cfg n1 st1" using s(2) c(2)
    by (auto simp: checkpoint_ok_def advances_def elim!: graph_stepE dest!: committed_advances)
  moreover have "checkpoint_ok cfg resumes (n', st', w')" using s(2) c(2) by (rule checkpoints.inv_step)
  ultimately show ?case by simp
qed (use assms(2) in simp)

section \<open>Decisions\<close>

lemma owner_decision_eta [simp]:
  "\<lparr> od_decision = od_decision d, od_rejection_note = od_rejection_note d \<rparr> = (d :: owner_decision)"
  by simp

lemma resolve_resume_snoc: "resolve_resume vs = None \<Longrightarrow> resolve_resume (vs @ [v]) = parse_resume_decision v"
  by (induction vs) (auto split: option.splits)

lemma unresolved_ok: "resolve_resume vs = None \<Longrightarrow> resumes_ok vs"
  by (induction vs) (auto simp: resumes_ok_def split: option.splits)

text \<open>The resume value of a decision the boundary accepted is what the node reads back.\<close>

lemma resume_value_parses:
  assumes "owner_decision_new d nt = Inr od"
  shows "parse_resume_decision (resume_value od) = Some (d, normalize_note nt)" and "od_decision od = d"
    and "od_rejection_note od = normalize_note nt" and "\<forall>n. normalize_note nt = Some n \<longrightarrow> length n \<le> 300"
proof -
  from assms have od: "od = \<lparr> od_decision = d, od_rejection_note = normalize_note nt \<rparr>"
    and l: "\<forall>n. normalize_note nt = Some n \<longrightarrow> length n \<le> 300"
    and p: "d = Reject \<longleftrightarrow> normalize_note nt \<noteq> None"
    by (cases d; auto simp: owner_decision_new_def Let_def split: if_splits)+
  show "parse_resume_decision (resume_value od) = Some (d, normalize_note nt)"
  proof (cases d)
    case Accept
    with p show ?thesis by (simp add: od resume_value_def parse_resume_decision_def note_json_def)
  next
    case Reject
    with p obtain n where n: "normalize_note nt = Some n" by auto
    from normalize_note_Some [OF this] n Reject show ?thesis
      by (simp add: od resume_value_def parse_resume_decision_def note_json_def)
  qed
  show "od_decision od = d" "od_rejection_note od = normalize_note nt" by (simp_all add: od)
  show "\<forall>n. normalize_note nt = Some n \<longrightarrow> length n \<le> 300" by (rule l)
qed

lemma decided_resumes_ok:
  assumes "resolve_resume vs = None" and "owner_decision_new d nt = Inr od"
  shows "resolve_resume (vs @ [resume_value od]) = Some (d, normalize_note nt)" and "resumes_ok (vs @ [resume_value od])"
proof -
  show "resolve_resume (vs @ [resume_value od]) = Some (d, normalize_note nt)"
    using resolve_resume_snoc [OF assms(1)] resume_value_parses(1) [OF assms(2)] by simp
  show "resumes_ok (vs @ [resume_value od])"
    using unresolved_ok [OF assms(1)] resume_value_parses(1,4) [OF assms(2)] by (auto simp: resumes_ok_def)
qed

text \<open>A paused run with a decision goes through its report to the end.\<close>

lemma decided_run:
  assumes f: "flow_ok cfg N_escalation_interrupt st w" and r: "resolve_resume resumes = Some (d, nt)" "resumes_ok resumes"
  obtains st' w' report reason where
    "run_loop cfg resumes GRAPH_RECURSION_LIMIT N_escalation_interrupt st w = (Finished, N_END, st', w')"
    and "state_ok cfg st' w'" and "gs_report st' = Some report" and "report_states st' (g_budgets cfg) None report"
    and "escalates (g_budgets cfg) st = Some reason"
    and "ir_escalation report = Some \<lparr> er_reason = reason, er_decision = d, er_rejection_note = nt \<rparr>"
    and "ir_assessment report = gs_assessment st"
proof -
  obtain reason where reason: "escalates (g_budgets cfg) st = Some reason" using f by (auto simp: flow_ok_def)
  obtain st1 w1 where s1: "superstep cfg resumes N_escalation_interrupt st w = (Committed N_final_report st1, w1)"
    "advances cfg N_escalation_interrupt st N_final_report st1 w1"
    "gs_escalation_reason st1 = Some reason" "gs_escalation_decision st1 = Some d" "gs_rejection_note st1 = nt"
    "gs_assessment st1 = gs_assessment st"
    using step_escalation(1) [OF f r(2,1)] reason by auto
  have ok1: "state_ok cfg st1 w1" using s1(2) by (simp add: advances_def flow_ok_def)
  obtain st2 w2 report where s2: "final_report_node (g_budgets cfg) st1 w1 = (Inr st2, w2)" "state_ok cfg st2 w2"
    "gs_report st2 = Some report" "report_states st2 (g_budgets cfg) None report"
    "report_states st1 (g_budgets cfg) None report"
    by (rule final_report_ok [OF ok1])
  have "run_loop cfg resumes GRAPH_RECURSION_LIMIT N_escalation_interrupt st w = (Finished, N_END, st2, w2)"
    using s2(1) by (simp add: GRAPH_RECURSION_LIMIT_def eval_nat_numeral run_loop_Suc s1(1))
      (simp add: superstep_def then_to_def)
  moreover have "ir_escalation report = Some \<lparr> er_reason = reason, er_decision = d, er_rejection_note = nt \<rparr>"
    using s2(5) resolve_resume_record [OF r, of reason] s1(3-5) by (simp add: report_states_def report_escalation_def)
  moreover have "ir_assessment report = gs_assessment st" using s2(5) s1(6) by (simp add: report_states_def)
  ultimately show thesis using s2(2-4) reason by (intro that)
qed

section \<open>Where a report cannot be built\<close>

lemma build_report_bad_escalation:
  assumes ok: "state_ok cfg st0 w0" and esc: "report_escalation st = Inl e"
    and same: "gs_receipts st = gs_receipts st0" "gs_evidence st = gs_evidence st0" "gs_incident_id st = gs_incident_id st0"
      "gs_assessment st = gs_assessment st0"
  shows "fst (build_report st b forced w) = Inl e"
proof -
  from ok have "rebuild_receipts st0 = Inr (gs_receipts st0)" unfolding state_ok_def by (intro rebuild_receipts_ok) blast
  then have rs: "rebuild_receipts st = Inr (gs_receipts st)" using same by (simp add: rebuild_receipts_def)
  obtain store where store: "rebuild_store (gs_incident_id st) (gs_evidence st) = Inr store"
    using ok same unfolding state_ok_def by (metis rebuild_store_ok)
  have a: "(if forced \<noteq> None then Inr None
            else case gs_assessment st of None \<Rightarrow> Inr None | Some a \<Rightarrow> map_sum id Some (final_assessment_validate a))
     = Inr (if forced = None then gs_assessment st else None)"
    using ok same(4) by (auto simp: state_ok_def assessment_ok_def split: option.splits)
  show ?thesis unfolding build_report_def rs store a by (simp add: read_clock_def Let_def esc)
qed

lemma fl_negative:
  assumes "1 \<le> x" and "x \<le> 2 ^ k" and "k < 1024"
  obtains q where "fl (- x) = Fin (- q)" and "1 \<le> q" and "q \<le> 2 ^ k"
proof -
  have "0 \<le> x" using assms(1) by simp
  then obtain q where q: "fl x = Fin q" "q \<le> 2 ^ k" by (rule fl_bounded [OF _ assms(2,3)])
  from q(1) have rnd: "rnd x = q" "\<bar>q\<bar> < 2 ^ 1024" unfolding fl_Fin_iff by blast+
  have "rnd 1 \<le> rnd x" using assms(1) by (rule rnd_mono)
  moreover have "rnd 1 = 1" using repr_power [of 0] by simp
  ultimately have "1 \<le> q" by (simp add: rnd(1))
  moreover have "fl (- x) = Fin (- q)" using rnd by (simp only: fl_Fin_iff rnd_minus abs_minus_cancel)
  ultimately show thesis using q(2) by (intro that)
qed

lemma latency_negative:
  assumes "finished \<le> started - 1000000" and "\<bar>started\<bar> \<le> 2 ^ 62" and "\<bar>finished\<bar> \<le> 2 ^ 62"
  obtains l where "latency_ms finished started = Inr l" and "l < 0"
proof -
  let ?d = "of_int (started - finished) / 1000000 :: rat"
  have "started - finished \<le> 2 ^ 63" using assms(2,3) by (simp add: abs_le_iff)
  then have "(of_int (started - finished) :: rat) \<le> of_int (2 ^ 63)" by (simp only: of_int_le_iff)
  then have d63: "?d \<le> 2 ^ 63" by simp
  have "(of_int 1000000 :: rat) \<le> of_int (started - finished)" using assms(1) by (simp only: of_int_le_iff)
  then have d1: "1 \<le> ?d" by simp
  have n: "63 < (1024::nat)" "73 < (1024::nat)" by simp_all
  obtain q where q: "fl (- ?d) = Fin (- q)" "1 \<le> q" "q \<le> 2 ^ 63" by (rule fl_negative [OF d1 d63 n(1)])
  have q73: "q * 1000 \<le> 2 ^ 73" "1 \<le> q * 1000" using q(2,3) by simp_all
  obtain m where m: "fl (- (q * 1000)) = Fin (- m)" "1 \<le> m" by (rule fl_negative [OF q73(2,1) n(2)])
  have "f_div_int (finished - started) 1000000 = fl (- ?d)" by (simp add: f_div_int_def minus_divide_left)
  then have "latency_ms finished started = Inr \<lceil>- m\<rceil>"
    using q(1) m by (simp add: latency_ms_def total_seconds_def)
  moreover have "\<lceil>- m\<rceil> < 0" using m(2) by (simp add: ceiling_minus)
  ultimately show thesis by (rule that)
qed

lemma build_report_clock_back:
  assumes ok: "state_ok cfg st w0" and late: "clock_at w (clock_n w) \<le> gs_started_at st - 1000000"
    and bound: "\<bar>clock_at w (clock_n w)\<bar> \<le> 2 ^ 62"
  shows "fst (build_report (st\<lparr>gs_events := e\<rparr>) b forced w) = Inl ValidationError"
proof -
  from ok have "rebuild_receipts st = Inr (gs_receipts st)" unfolding state_ok_def by (intro rebuild_receipts_ok) blast
  then have rs: "rebuild_receipts (st\<lparr>gs_events := e\<rparr>) = Inr (gs_receipts st)" by (simp add: rebuild_receipts_def)
  obtain store where store: "rebuild_store (gs_incident_id st) (gs_evidence st) = Inr store"
    using ok unfolding state_ok_def by (metis rebuild_store_ok)
  have a: "(case gs_assessment st of None \<Rightarrow> Inr None | Some a \<Rightarrow> map_sum id Some (final_assessment_validate a))
     = Inr (gs_assessment st)"
    using ok by (auto simp: state_ok_def assessment_ok_def split: option.splits)
  obtain esc where esc: "report_escalation st = Inr esc" using ok by (auto simp: state_ok_def)
  have "\<bar>gs_started_at st\<bar> \<le> 2 ^ 62" using ok by (simp add: state_ok_def world_ok_def)
  then obtain l where l: "latency_ms (clock_at w (clock_n w)) (gs_started_at st) = Inr l" "l < 0"
    using latency_negative [OF late _ bound] by blast
  show ?thesis unfolding build_report_def rs
    using l store a by (simp add: read_clock_def Let_def esc frame_simps investigation_report_validate_def report_counts_ok_def)
qed

lemma build_report_le: "world_le w (snd (build_report st b forced w))"
  using read_clock_le [of w] by (auto simp: build_report_def Let_def split: sum.splits prod.splits)

lemma escalation_decides:
  assumes ok: "state_ok cfg st w" and reason: "escalates (g_budgets cfg) st = Some reason"
    and d: "resolve_resume resumes = Some (d, nt)"
  shows "\<exists>st' w'. escalation_interrupt (g_budgets cfg) resumes st w = (Inr (Updated st'), w')
     \<and> gs_escalation_reason st' = Some reason \<and> gs_escalation_decision st' = Some d \<and> gs_rejection_note st' = nt
     \<and> gs_receipts st' = gs_receipts st \<and> gs_evidence st' = gs_evidence st \<and> gs_incident_id st' = gs_incident_id st
     \<and> gs_assessment st' = gs_assessment st"
proof -
  obtain a where a: "gs_assessment st = Some a" using reason by (auto simp: escalates_def split: option.splits)
  have av: "final_assessment_validate a = Inr a" using ok a by (simp add: state_ok_def assessment_ok_def)
  from ok have rs: "receipts_ok (gs_incident_id st) (g_budgets cfg) (gs_receipts st)"
    unfolding state_ok_def by blast
  obtain store where store: "rebuild_store (gs_incident_id st) (gs_evidence st) = Inr store"
    using ok unfolding state_ok_def by (metis rebuild_store_ok)
  show ?thesis
    by (cases "record_event ESCALATION_INTERRUPT ''escalation_decided''
      [(''reason'', JStr (escalation_value reason)), (''decision'', JStr (decision_value d))] (gs_events st) w")
      (simp add: escalation_interrupt_def a av rebuild_receipts_ok [OF rs] store
        escalates_eq [OF ok a, unfolded reason] tools_left_ok(1) [OF rs] d)
qed

lemma settled_ends:
  assumes "run_ends cfg resumes st (how, n, st', w')"
  shows "\<exists>out. settle_invocation cp b (how, n, st', w') = (Inr out, gs_events st', w')"
proof (cases how)
  case Finished
  with assms obtain report where f: "state_ok cfg st' w'" "gs_report st' = Some report"
    "report_states st' (g_budgets cfg) None report" by (auto simp: run_ends_def flow_ok_def)
  obtain res where "result_of st' = Inr (Result res)" by (rule result_of_ok [OF f])
  then show ?thesis by (simp add: Finished settle_invocation_def)
next
  case (PausedAt payload)
  with assms have "state_ok cfg st' w'" by (auto simp: run_ends_def flow_ok_def)
  then obtain esc where "escalated_of cp st' payload = Inr (Escalated esc)" by (rule escalated_of_ok)
  then show ?thesis by (simp add: PausedAt settle_invocation_def)
qed (use assms in \<open>simp add: run_ends_def\<close>)

end
