(* ===== verification/GraphSample.thy ===== *)
theory GraphSample
  imports GraphThms
begin

text \<open>Concrete configurations and runs at which the properties of whole investigations are applied.\<close>

section \<open>A sample run\<close>

definition sample_model :: "unit tool_calling_model" where
  "sample_model = \<lparr>
     propose = (\<lambda>_ x. (Inr \<lparr> pt_parsed = Some \<lparr> sp_hypotheses = [], sp_proposal = None, sp_stop_reason = Some ''enough'' \<rparr>,
        pt_errors = [], pt_tool_call = [], pt_usage = None \<rparr>, x)),
     respond = (\<lambda>_ x. (Inr \<lparr> resp_content = [], resp_usage = None, resp_errors = [] \<rparr>, x)) \<rparr>"

definition sample_config :: "unit graph_config" where
  "sample_config = \<lparr> g_libs = sample_libs, g_scope = sample_scope,
     g_packet = \<lparr> pk_incident_id = ''inc-1'', pk_window_start = 0, pk_window_end = 1000, pk_endpoint = ''/checkout'',
       pk_symptom = ELEVATED_ERRORS, pk_services = [''gateway'', ''checkout''], pk_alerted_at = 0,
       pk_alert_source_version = ''1'', pk_symptom_evidence_id = ''s'', pk_topology_evidence_id = ''t'' \<rparr>,
     g_budgets = DEFAULT_BUDGETS, g_model = sample_model,
     g_registry = dispatch_registry sample_backend sample_backend sample_backend sample_backend sample_backend,
     g_suppress_escalation = False, g_no_tool_baseline = False \<rparr>"

definition still_world :: "unit world" where
  "still_world = sample_world\<lparr>clock_at := (\<lambda>_. 0)\<rparr>"

text \<open>An unattended run without tools whose model diagnoses from the one record it is given.\<close>

definition sample_evidence :: evidence where
  "sample_evidence = \<lparr> ev_evidence_id = ''e-1'', ev_incident_id = ''inc-1'', ev_kind = SYMPTOM, ev_source = ''alert'',
     ev_observed_at = 0, ev_summary = ''errors rose'', ev_payload = [], ev_receipt_id = None, ev_content_hash = ''h'' \<rparr>"

definition sample_diagnosis :: final_assessment where
  "sample_diagnosis = \<lparr> fa_disposition = M_DIAGNOSED, fa_root_cause = CONFIG_CHANGE,
     fa_supporting_evidence_ids = [''e-1''], fa_contrary_evidence_ids = [], fa_runbook_citations = [],
     fa_uncertainty = ''low'', fa_next_step = ''revert'' \<rparr>"

definition baseline_config :: "unit graph_config" where
  "baseline_config = sample_config\<lparr>g_libs := sample_libs\<lparr>assessment_fields := (\<lambda>_. Inr sample_diagnosis)\<rparr>,
     g_suppress_escalation := True, g_no_tool_baseline := True\<rparr>"

lemma still_world_ok: "ids_fresh still_world {}" "clock_ok still_world"
  using sample_ids_fresh by (simp_all add: still_world_def ids_fresh_def clock_ok_def)

lemma sample_registry_ok: "registry_ok sample_config" "registry_ok baseline_config"
  by (auto simp: registry_ok_def sample_config_def baseline_config_def dispatch_registry_def make_wrapper_def split: if_splits)

lemma sample_start_ok:
  "start_ok sample_config [] still_world" "start_ok baseline_config [sample_evidence] still_world"
  using still_world_ok sample_registry_ok
  by (simp_all add: start_ok_def sample_config_def baseline_config_def budgets_ok_def DEFAULT_BUDGETS_def evidence_ok_def
      sample_evidence_def evidence_validate_def sample_scope_def)

lemma sample_answer:
  assumes "receipts_ok i (g_budgets baseline_config) rs"
  shows "\<exists>s'. respond_once baseline_config st store rs None s = (Inr (Some sample_diagnosis, []), s')"
proof -
  let ?c = baseline_config
  obtain request digest where "render_stage_request (g_libs ?c) (g_packet ?c) (g_scope ?c) store rs (g_budgets ?c)
      STAGE_FINAL_ASSESSMENT None (gs_runbook_passages st) (sc_model_calls_used s) (sc_repairs_used s)
      (gs_run_id st) FINAL_ASSESSMENT (gs_model_turn st) = Inr (request, digest)"
    using render_ok [OF assms] by blast
  moreover have "parse_response (g_libs ?c) [] = (Some sample_diagnosis, [])"
    by (simp add: parse_response_def baseline_config_def sample_libs_def sample_diagnosis_def final_assessment_validate_def)
  ultimately show ?thesis
    by (simp add: respond_once_def Let_def baseline_config_def sample_config_def sample_model_def)
qed


lemma ask_answered:
  assumes "expired started b (sc_world s) = (False, w1)" and "0 < model_calls_left (sc_model_calls_used s) (sc_repairs_used s) b"
    and "ask None (s\<lparr>sc_world := w1\<rparr>) = (Inr (Some v, e), s2)"
  shows "ask_with_repair b started ask on_stop on_invalid s = (Inr (Some v), s2)"
  using assms by (simp add: ask_with_repair_def)

lemma sample_not_expired:
  "clock_at w = (\<lambda>_. 0) \<Longrightarrow> expired 0 DEFAULT_BUDGETS w = (False, snd (read_clock w))"
  by (simp add: expired_def read_clock_def total_seconds_def f_div_int_def DEFAULT_BUDGETS_def fl_def)

lemma sample_assessed:
  assumes ok: "state_ok baseline_config st w" and st: "gs_started_at st = 0" "gs_model_calls_used st = 0" "gs_repairs_used st = 0"
    "ev_evidence_id ` set (gs_evidence st) = {''e-1''}" and clk: "clock_at w = (\<lambda>_. 0)"
  shows "\<exists>st' w'. final_assessment_node baseline_config st w = (Inr st', w') \<and> gs_assessment st' = Some sample_diagnosis
     \<and> gs_failure_reason st' = None"
proof -
  let ?b = "g_budgets baseline_config"
  have b: "?b = DEFAULT_BUDGETS" by (simp add: baseline_config_def sample_config_def)
  obtain evs w1 where ev: "record_event FINAL_ASSESSMENT ''stage_started'' [(''stage'', JStr ''final_assessment'')] (gs_events st) w
      = (evs, w1)" by force
  from ok have rs: "receipts_ok (gs_incident_id st) ?b (gs_receipts st)" unfolding state_ok_def by blast
  obtain store where store: "rebuild_store (gs_incident_id st) (gs_evidence st) = Inr store"
    "set (dict_keys (es_records store)) = {''e-1''}"
    using ok st(4) unfolding state_ok_def by (metis rebuild_store_ok)
  have "clock_at w1 = (\<lambda>_. 0)" using record_event_ok(2) [OF ev] clk by (simp add: world_le_def)
  then have x: "expired (gs_started_at st) ?b (sc_world (stage_counters_new st evs w1)) = (False, snd (read_clock w1))"
    by (simp add: st b sample_not_expired stage_counters_new_def)
  obtain s' where s': "respond_once baseline_config st store (gs_receipts st) None
      ((stage_counters_new st evs w1)\<lparr>sc_world := snd (read_clock w1)\<rparr>) = (Inr (Some sample_diagnosis, []), s')"
    using sample_answer [OF rs] by blast
  have l: "0 < model_calls_left (sc_model_calls_used (stage_counters_new st evs w1))
      (sc_repairs_used (stage_counters_new st evs w1)) ?b"
    by (simp add: model_calls_left_def stage_counters_new_def st b DEFAULT_BUDGETS_def)
  have "unknown_ids store (fa_supporting_evidence_ids sample_diagnosis @ fa_contrary_evidence_ids sample_diagnosis) = []"
    unfolding unknown_ids_empty_iff store(2) by (simp add: sample_diagnosis_def)
  with ask_answered [where ask = "respond_once baseline_config st store (gs_receipts st)", OF x l s'] show ?thesis
    by (simp add: final_assessment_node_def ev rebuild_receipts_ok [OF rs] store(1) Let_def)
qed

lemma baseline_run:
  obtains res evs w' where "run_graph_investigation baseline_config [sample_evidence] (Some ''i'') ''m'' ''cp'' still_world
      = (Inr (Result res), evs, w')" and "ir_assessment (res_report res) = Some sample_diagnosis"
    and "\<exists>st w st' w'. start_investigation baseline_config [sample_evidence] (Some ''i'') ''m'' still_world = (st, w)
      \<and> ((graph_step baseline_config []) ^^ 2) (graph_start baseline_config, st, w) (N_END, st', w')
      \<and> gs_assessment st' = Some sample_diagnosis"
proof -
  let ?c = baseline_config
  obtain st w where st: "start_investigation ?c [sample_evidence] (Some ''i'') ''m'' still_world = (st, w)" by force
  have c: "graph_start ?c = N_final_assessment" "g_suppress_escalation ?c" by (simp_all add: graph_start_def baseline_config_def)
  have ok: "state_ok ?c st w" using start_flow_ok(1) [OF sample_start_ok(2) st] by (simp add: flow_ok_def)
  have "gs_started_at st = 0" "gs_model_calls_used st = 0" "gs_repairs_used st = 0" "gs_evidence st = [sample_evidence]"
    "clock_at w = (\<lambda>_. 0)"
    using st by (auto simp: start_investigation_def new_opaque_id_def read_clock_def record_event_def read_event_clock_def
        still_world_def initial_state_def)
  with ok obtain st1 w1 where node: "final_assessment_node ?c st w = (Inr st1, w1)" "gs_assessment st1 = Some sample_diagnosis"
    "gs_failure_reason st1 = None" using sample_assessed [of st w] by (auto simp: sample_evidence_def)
  obtain st1' w1' where "final_assessment_node ?c st w = (Inr st1', w1')" "state_ok ?c st1' w1'"
    by (rule final_assessment_ok [OF ok])
  with node(1) have ok1: "state_ok ?c st1 w1" by simp
  obtain st2 w2 r where rep: "final_report_node (g_budgets ?c) st1 w1 = (Inr st2, w2)" "state_ok ?c st2 w2"
    "gs_report st2 = Some r" "report_states st2 (g_budgets ?c) None r" "report_states st1 (g_budgets ?c) None r"
    by (rule final_report_ok [OF ok1])
  obtain res where res: "result_of st2 = Inr (Result res)" "res_report res = r"
    by (rule result_of_ok [OF rep(2-4)])
  have steps: "superstep ?c [] N_final_assessment st w = (Committed N_final_report st1, w1)"
    "superstep ?c [] N_final_report st1 w1 = (Committed N_END st2, w2)"
    using node c(2) by (simp_all add: superstep_def then_to_def rep(1) route_after_final_assessment_def)
  then have "run_loop ?c [] GRAPH_RECURSION_LIMIT N_final_assessment st w = (Finished, N_END, st2, w2)"
    by (simp add: GRAPH_RECURSION_LIMIT_def eval_nat_numeral run_loop_Suc)
  then have "run_graph_investigation ?c [sample_evidence] (Some ''i'') ''m'' ''cp'' still_world
      = (Inr (Result res), gs_events st2, w2)"
    by (simp add: run_graph_investigation_def st c(1) settle_invocation_def res(1))
  moreover have "ir_assessment r = Some sample_diagnosis" using rep(5) node(2) by (simp add: report_states_def)
  moreover have "graph_step ?c [] (N_final_assessment, st, w) (N_final_report, st1, w1)"
    "graph_step ?c [] (N_final_report, st1, w1) (N_END, st2, w2)"
    using steps by (auto intro!: graph_step.intros)
  then have "((graph_step ?c []) ^^ 2) (graph_start ?c, st, w) (N_END, st2, w2)"
    by (auto simp: c(1) eval_nat_numeral)
  moreover have "gs_assessment st2 = Some sample_diagnosis" using rep(4) calculation(2) by (simp add: report_states_def)
  ultimately show thesis unfolding res(2) [symmetric] using st by (intro that) blast+
qed

text \<open>A run paused because the evidence was insufficient while checks were left.\<close>

definition paused_state :: graph_state where
  "paused_state = (initial_state sample_scope [] ''m'' ''i'' ''r'' 0 [])\<lparr>gs_assessment := Some sample_assessment\<rparr>"

definition paused_snapshot :: thread_snapshot where
  "paused_snapshot = \<lparr> ts_values = Some paused_state, ts_next = N_escalation_interrupt, ts_resumes = [],
     ts_interrupts = None, ts_checkpoint_id = ''cp'' \<rparr>"

lemma paused_escalates: "escalates DEFAULT_BUDGETS paused_state = Some INSUFFICIENT_EVIDENCE_WITH_CHECK_REMAINING"
  by (simp add: escalates_def paused_state_def initial_state_def escalation_reason_of_def sample_assessment_def tools_left_def
      from_receipts_def ledger_new_def slots_left_def spent_def DEFAULT_BUDGETS_def)

lemma paused_flow_ok: "flow_ok (tool_graph sample_config) N_escalation_interrupt paused_state still_world"
proof -
  have "state_ok (tool_graph sample_config) paused_state still_world"
    using still_world_ok
    by (simp add: state_ok_def paused_state_def initial_state_def tool_graph_def sample_config_def receipts_ok_def
        spent_in_def DEFAULT_BUDGETS_def evidence_ok_def counters_ok_def assessment_ok_def cited_ids_def
        sample_assessment_def final_assessment_validate_def report_escalation_def world_ok_def clock_ok_def still_world_def)
  then show ?thesis using paused_escalates
    by (simp add: flow_ok_def concluded_def tool_graph_def sample_config_def paused_state_def initial_state_def)
qed

end
