(* ===== verification/GraphProps.thy ===== *)
theory GraphProps
  imports GraphSample
begin

text \<open>
  The properties of whole investigations: of \<open>run_graph_investigation\<close>, \<open>recover_graph_investigation\<close>
  and \<open>resume_graph_investigation\<close>, for every reasoning model and every tool backend.
\<close>

section \<open>Properties of a whole investigation\<close>

text \<open>
  C1: an investigation that starts in order always comes to an end within the recursion limit,
  whatever the reasoning model and the tool backends answer and whichever of their calls raise:
  it returns a result with a report its own validators accept, or, unless escalation is
  suppressed, it pauses for the owner. No exception leaves it.
\<close>

theorem every_investigation_ends:
  assumes "start_ok cfg es w"
  shows "\<exists>out evs w'. run_graph_investigation cfg es iid name cp w = (Inr out, evs, w') \<and> events_ok evs
     \<and> (case out of
          Result res \<Rightarrow> investigation_report_validate (res_report res) = Inr (res_report res)
        | Escalated esc \<Rightarrow> \<not> g_suppress_escalation cfg)"
  by (rule investigation_outcome [OF assms, of iid name cp])
    (auto simp: result_reports_def report_states_def flow_ok_def state_ok_def)

theorem every_investigation_ends_witness:
  "\<exists>out evs w'. run_graph_investigation sample_config [] None ''replay'' ''cp'' still_world = (Inr out, evs, w') \<and> events_ok evs"
  using every_investigation_ends [OF sample_start_ok(1), of None "''replay''" "''cp''"] by auto

text \<open>
  C2: no forged citation reaches a report. Every evidence id that the assessment of a returned
  report cites, for or against, is the id of an evidence record returned with it and is listed
  in the report; and a diagnosis cites at least one.
\<close>

theorem reported_citations_are_genuine:
  assumes "start_ok cfg es w"
    and "run_graph_investigation cfg es iid name cp w = (Inr (Result res), evs, w')"
    and "ir_assessment (res_report res) = Some a"
  shows "cited_ids a \<subseteq> ev_evidence_id ` set (res_evidence res) \<and> cited_ids a \<subseteq> set (ir_evidence_ids (res_report res))
     \<and> (ir_disposition (res_report res) = DIAGNOSED \<longrightarrow> cited_ids a \<noteq> {})"
proof (rule investigation_outcome [OF assms(1), of iid name cp])
  fix res' st w1
  assume "run_graph_investigation cfg es iid name cp w = (Inr (Result res'), gs_events st, w1)"
    and ok: "state_ok cfg st w1" and rep: "result_reports cfg st None res'" and "concluded st"
  with assms(2) have res: "res' = res" by simp
  from rep assms(3) have a: "gs_assessment st = Some a" by (auto simp: res result_reports_def report_states_def)
  with ok have "assessment_valid a" "cited_ids a \<subseteq> ev_evidence_id ` set (gs_evidence st)"
    by (auto simp: state_ok_def assessment_ok_def)
  then show ?thesis using rep assms(3)
    by (auto simp: res result_reports_def report_states_def report_disposition_def assessment_valid_iff cited_ids_def
        split: if_splits)
qed (use assms(2) in simp)

theorem reported_citations_are_genuine_witness:
  "\<exists>res evs w'. run_graph_investigation baseline_config [sample_evidence] (Some ''i'') ''m'' ''cp'' still_world
      = (Inr (Result res), evs, w') \<and> ''e-1'' \<in> ev_evidence_id ` set (res_evidence res)"
proof (rule baseline_run)
  fix res evs w'
  assume run: "run_graph_investigation baseline_config [sample_evidence] (Some ''i'') ''m'' ''cp'' still_world
      = (Inr (Result res), evs, w')" and a: "ir_assessment (res_report res) = Some sample_diagnosis"
  have "''e-1'' \<in> cited_ids sample_diagnosis" by (simp add: cited_ids_def sample_diagnosis_def)
  with run reported_citations_are_genuine [OF sample_start_ok(2) run a] show ?thesis by blast
qed

text \<open>
  C3: the budgets hold in every report. A repair is paid from its own pool: the model calls
  that are no repairs stay within the model call budget, the repairs within theirs, and so all
  model calls within the two budgets added together, which the run may reach (the model call
  budget alone does not bound them). The checks allowed (completed or not) stay within the pool
  of their tool, and the report's count of executed checks within both pools together.
\<close>

theorem budgets_hold_in_every_report:
  assumes "start_ok cfg es w"
    and "run_graph_investigation cfg es iid name cp w = (Inr (Result res), evs, w')"
  shows "ir_model_calls_used (res_report res) - ir_repairs_used (res_report res) \<le> b_model_calls (g_budgets cfg)
     \<and> 0 \<le> ir_repairs_used (res_report res) \<and> ir_repairs_used (res_report res) \<le> b_repairs (g_budgets cfg)
     \<and> ir_model_calls_used (res_report res) \<le> b_model_calls (g_budgets cfg) + b_repairs (g_budgets cfg)
     \<and> spent_in False (res_receipts res) \<le> b_executed_tools (g_budgets cfg)
     \<and> spent_in True (res_receipts res) \<le> b_runbook_searches (g_budgets cfg)
     \<and> ir_tools_executed (res_report res) \<le> b_executed_tools (g_budgets cfg) + b_runbook_searches (g_budgets cfg)"
proof (rule investigation_outcome [OF assms(1), of iid name cp])
  fix res' st w1
  assume "run_graph_investigation cfg es iid name cp w = (Inr (Result res'), gs_events st, w1)"
    and ok: "state_ok cfg st w1" and rep: "result_reports cfg st None res'" and "concluded st"
  with assms(2) have res: "res' = res" by simp
  have "counters_ok (g_budgets cfg) st" "receipts_ok (gs_incident_id st) (g_budgets cfg) (gs_receipts st)"
    using ok unfolding state_ok_def by blast+
  moreover have "tools_executed (gs_receipts st) \<le> spent_in False (gs_receipts st) + spent_in True (gs_receipts st)"
    by (rule tools_executed_le)
  ultimately show ?thesis using rep
    by (simp add: res result_reports_def report_states_def counters_ok_def receipts_ok_def)
qed (use assms(2) in simp)

theorem budgets_hold_in_every_report_witness:
  "\<exists>res evs w'. run_graph_investigation baseline_config [sample_evidence] (Some ''i'') ''m'' ''cp'' still_world
      = (Inr (Result res), evs, w') \<and> ir_model_calls_used (res_report res) - ir_repairs_used (res_report res) \<le> 4
     \<and> ir_model_calls_used (res_report res) \<le> 6"
proof (rule baseline_run)
  fix res evs w'
  assume run: "run_graph_investigation baseline_config [sample_evidence] (Some ''i'') ''m'' ''cp'' still_world
      = (Inr (Result res), evs, w')"
  have "b_model_calls (g_budgets baseline_config) = 4" "b_repairs (g_budgets baseline_config) = 2"
    by (simp_all add: baseline_config_def sample_config_def DEFAULT_BUDGETS_def)
  with run budgets_hold_in_every_report [OF sample_start_ok(2) run] show ?thesis by auto
qed

text \<open>
  C4: a result is about its own incident and agrees with its record: every evidence record and
  every receipt returned belongs to the incident, receipt ids are distinct and are the ones the
  report lists, the report is failed-safe exactly when it has no assessment and then names a
  reason, and the events are numbered from one without gaps.
\<close>

theorem result_agrees_with_record:
  assumes "start_ok cfg es w"
    and "run_graph_investigation cfg es iid name cp w = (Inr (Result res), evs, w')"
  shows "ir_incident_id (res_report res) = sc_incident_id (g_scope cfg)
     \<and> (\<forall>e \<in> set (res_evidence res). ev_incident_id e = sc_incident_id (g_scope cfg))
     \<and> (\<forall>r \<in> set (res_receipts res). receipt_ok (sc_incident_id (g_scope cfg)) r)
     \<and> distinct (ir_receipt_ids (res_report res))
     \<and> ir_receipt_ids (res_report res) = map rc_receipt_id (res_receipts res)
     \<and> set (ir_evidence_ids (res_report res)) = ev_evidence_id ` set (res_evidence res)
     \<and> (ir_disposition (res_report res) = FAILED_SAFE \<longleftrightarrow> ir_assessment (res_report res) = None)
     \<and> (ir_disposition (res_report res) = FAILED_SAFE \<longleftrightarrow> ir_reason_code (res_report res) \<noteq> None)
     \<and> events_ok evs"
proof (rule investigation_outcome [OF assms(1), of iid name cp])
  fix res' st w1
  assume run: "run_graph_investigation cfg es iid name cp w = (Inr (Result res'), gs_events st, w1)"
    and ok: "state_ok cfg st w1" and rep: "result_reports cfg st None res'" and "concluded st"
  with assms(2) have res: "res' = res" "evs = gs_events st" by simp_all
  from ok have s: "gs_incident_id st = sc_incident_id (g_scope cfg)" "events_ok (gs_events st)"
    "evidence_ok (gs_incident_id st) (gs_evidence st)" "receipts_ok (gs_incident_id st) (g_budgets cfg) (gs_receipts st)"
    unfolding state_ok_def by blast+
  from rep have r: "res_receipts res = gs_receipts st" "set (res_evidence res) \<subseteq> set (gs_evidence st)"
    "ev_evidence_id ` set (res_evidence res) = ev_evidence_id ` set (gs_evidence st)"
    "report_states st (g_budgets cfg) None (res_report res)" by (simp_all add: res result_reports_def)
  have "ir_disposition (res_report res) = FAILED_SAFE \<longleftrightarrow> ir_assessment (res_report res) = None"
    "ir_disposition (res_report res) = FAILED_SAFE \<longleftrightarrow> ir_reason_code (res_report res) \<noteq> None"
    using r(4) by (auto simp: report_states_def report_disposition_def report_reason_def split: option.splits)
  then show ?thesis using s r by (auto simp: res(2) evidence_ok_def receipts_ok_def report_states_def)
qed (use assms(2) in simp)

theorem result_agrees_with_record_witness:
  "\<exists>res evs w'. run_graph_investigation baseline_config [sample_evidence] (Some ''i'') ''m'' ''cp'' still_world
      = (Inr (Result res), evs, w') \<and> ir_incident_id (res_report res) = ''inc-1'' \<and> events_ok evs"
proof (rule baseline_run)
  fix res evs w'
  assume run: "run_graph_investigation baseline_config [sample_evidence] (Some ''i'') ''m'' ''cp'' still_world
      = (Inr (Result res), evs, w')"
  have "sc_incident_id (g_scope baseline_config) = ''inc-1''"
    by (simp add: baseline_config_def sample_config_def sample_scope_def)
  with run result_agrees_with_record [OF sample_start_ok(2) run] show ?thesis by auto
qed

text \<open>
  C5: every checkpoint of an investigation that started in order keeps the promises of its
  report: the model calls that are no repairs, the repairs and both check pools are within
  budget, every citation of a stored assessment names stored evidence, and all evidence is this
  incident's. And the recursion limit is never what ends a run: a checkpoint that is reached after
  k supersteps has k at most the limit, and below the limit unless it is the end of the graph.
\<close>

theorem every_checkpoint_in_order:
  assumes "start_ok cfg es w" and "start_investigation cfg es iid name w = (st0, w0)"
    and "((graph_step cfg []) ^^ k) (graph_start cfg, st0, w0) (n, st, w')"
  shows "gs_model_calls_used st - gs_repairs_used st \<le> b_model_calls (g_budgets cfg)
     \<and> 0 \<le> gs_repairs_used st \<and> gs_repairs_used st \<le> b_repairs (g_budgets cfg)
     \<and> spent_in False (gs_receipts st) \<le> b_executed_tools (g_budgets cfg)
     \<and> spent_in True (gs_receipts st) \<le> b_runbook_searches (g_budgets cfg)
     \<and> (\<forall>a. gs_assessment st = Some a \<longrightarrow> cited_ids a \<subseteq> ev_evidence_id ` set (gs_evidence st))
     \<and> (\<forall>e \<in> set (gs_evidence st). ev_incident_id e = sc_incident_id (g_scope cfg))
     \<and> k \<le> GRAPH_RECURSION_LIMIT \<and> (n \<noteq> N_END \<longrightarrow> k < GRAPH_RECURSION_LIMIT)"
proof -
  have reg: "registry_ok cfg" using assms(1) by (simp add: start_ok_def)
  have c0: "checkpoint_ok cfg [] (graph_start cfg, st0, w0)"
    using start_flow_ok(1) [OF assms(1,2)] reg by (simp add: checkpoint_ok_def)
  have c: "k + rank cfg n st \<le> rank cfg (graph_start cfg) st0" "checkpoint_ok cfg [] (n, st, w')"
    using rank_after [OF assms(3) c0] by blast+
  have "k + rank cfg n st \<le> GRAPH_RECURSION_LIMIT" using c(1) start_flow_ok(2) [OF assms(1,2)] by simp
  moreover have "0 < rank cfg n st" if "n \<noteq> N_END" using that by (cases n) (auto simp: rank_investigate_def)
  ultimately have "k \<le> GRAPH_RECURSION_LIMIT" "n \<noteq> N_END \<longrightarrow> k < GRAPH_RECURSION_LIMIT" by fastforce+
  moreover have ok: "state_ok cfg st w'" using c(2) by (simp add: checkpoint_ok_def flow_ok_def)
  then have "counters_ok (g_budgets cfg) st" by (simp add: state_ok_def)
  then have "gs_model_calls_used st - gs_repairs_used st \<le> b_model_calls (g_budgets cfg)" "0 \<le> gs_repairs_used st"
    "gs_repairs_used st \<le> b_repairs (g_budgets cfg)" by (simp_all add: counters_ok_def)
  ultimately show ?thesis using ok
    unfolding state_ok_def receipts_ok_def assessment_ok_def evidence_ok_def by metis
qed

theorem every_checkpoint_in_order_witness:
  "\<exists>st w st' w'. start_investigation baseline_config [sample_evidence] (Some ''i'') ''m'' still_world = (st, w)
     \<and> ((graph_step baseline_config []) ^^ 2) (graph_start baseline_config, st, w) (N_END, st', w')
     \<and> gs_assessment st' = Some sample_diagnosis \<and> ''e-1'' \<in> ev_evidence_id ` set (gs_evidence st')
     \<and> gs_model_calls_used st' - gs_repairs_used st' \<le> 4"
proof (rule baseline_run)
  assume "\<exists>st w st' w'. start_investigation baseline_config [sample_evidence] (Some ''i'') ''m'' still_world = (st, w)
      \<and> ((graph_step baseline_config []) ^^ 2) (graph_start baseline_config, st, w) (N_END, st', w')
      \<and> gs_assessment st' = Some sample_diagnosis"
  then obtain st w st' w' where run: "start_investigation baseline_config [sample_evidence] (Some ''i'') ''m'' still_world = (st, w)"
    "((graph_step baseline_config []) ^^ 2) (graph_start baseline_config, st, w) (N_END, st', w')"
    and a: "gs_assessment st' = Some sample_diagnosis" by blast
  have "b_model_calls (g_budgets baseline_config) = 4"
    by (simp add: baseline_config_def sample_config_def DEFAULT_BUDGETS_def)
  moreover have "''e-1'' \<in> cited_ids sample_diagnosis" by (simp add: cited_ids_def sample_diagnosis_def)
  moreover note every_checkpoint_in_order [OF sample_start_ok(2) run]
  ultimately have "''e-1'' \<in> ev_evidence_id ` set (gs_evidence st')" "gs_model_calls_used st' - gs_repairs_used st' \<le> 4"
    using a by auto
  with run a show ?thesis by blast
qed

text \<open>
  C6: a run paused in order is settled by a decision the owner boundary accepts, however many
  invalid resume values came before it: resuming returns a result whose report records exactly
  that decision, its reason and its normalised note, and leaves the assessment as it was.
\<close>

theorem owner_decision_settles_paused_run:
  assumes "flow_ok (tool_graph cfg) N_escalation_interrupt st w"
    and "ts_values snapshot = Some st" and "ts_next snapshot = N_escalation_interrupt"
    and "resolve_resume (ts_resumes snapshot) = None"
    and "owner_decision_new d nt = Inr od"
  shows "\<exists>res evs w' reason.
     resume_graph_investigation cfg snapshot cp (od_decision od) (od_rejection_note od) w = (Inr res, evs, w')
     \<and> escalates (g_budgets cfg) st = Some reason
     \<and> ir_escalation (res_report res) = Some \<lparr> er_reason = reason, er_decision = d, er_rejection_note = normalize_note nt \<rparr>
     \<and> ir_assessment (res_report res) = gs_assessment st
     \<and> investigation_report_validate (res_report res) = Inr (res_report res)"
proof -
  let ?c = "tool_graph cfg" and ?vs = "ts_resumes snapshot @ [resume_value od]"
  have b: "g_budgets ?c = g_budgets cfg" by (simp add: tool_graph_def)
  obtain st' w' report reason where run:
    "run_loop ?c ?vs GRAPH_RECURSION_LIMIT N_escalation_interrupt st w = (Finished, N_END, st', w')"
    "state_ok ?c st' w'" "gs_report st' = Some report" "report_states st' (g_budgets ?c) None report"
    "escalates (g_budgets ?c) st = Some reason"
    "ir_escalation report = Some \<lparr> er_reason = reason, er_decision = d, er_rejection_note = normalize_note nt \<rparr>"
    "ir_assessment report = gs_assessment st"
    by (rule decided_run [OF assms(1) decided_resumes_ok [OF assms(4,5)]])
  obtain res where res: "result_of st' = Inr (Result res)" "res_report res = report"
    by (rule result_of_ok [OF run(2-4)])
  have "resume_graph_investigation cfg snapshot cp (od_decision od) (od_rejection_note od) w = (Inr res, gs_events st', w')"
    by (simp add: resume_graph_investigation_def assms(2,3) run(1) settle_invocation_def res(1))
  then show ?thesis using run(4-7) res(2) unfolding b by (auto simp: report_states_def)
qed

theorem owner_decision_settles_paused_run_witness:
  "\<exists>res evs w'. resume_graph_investigation sample_config paused_snapshot ''cp'' Reject (Some ''wrong service'') still_world
       = (Inr res, evs, w')
     \<and> ir_escalation (res_report res) = Some \<lparr> er_reason = INSUFFICIENT_EVIDENCE_WITH_CHECK_REMAINING,
         er_decision = Reject, er_rejection_note = Some ''wrong service'' \<rparr>"
proof -
  have od: "owner_decision_new Reject (Some '' wrong service'')
      = Inr \<lparr> od_decision = Reject, od_rejection_note = Some ''wrong service'' \<rparr>"
    by (simp add: owner_decision_new_def normalize_note_def py_strip_def is_space_def Let_def)
  have n: "normalize_note (Some '' wrong service'') = Some ''wrong service''"
    by (simp add: normalize_note_def py_strip_def is_space_def)
  have b: "g_budgets sample_config = DEFAULT_BUDGETS" by (simp add: sample_config_def)
  show ?thesis
    using owner_decision_settles_paused_run [OF paused_flow_ok, of paused_snapshot, OF _ _ _ od, of "''cp''"]
    by (auto simp: paused_snapshot_def n b paused_escalates)
qed

text \<open>
  A resume value the node cannot read does not wedge the thread. The invocation pauses
  again without touching the state or the world, so that the caller sees an assertion instead
  of a result, and a valid decision given after it still settles the run.
\<close>

theorem invalid_resume_leaves_thread_resumable:
  assumes "flow_ok (tool_graph cfg) N_escalation_interrupt st w"
    and "ts_values snapshot = Some st" and "ts_next snapshot = N_escalation_interrupt"
    and "resolve_resume (ts_resumes snapshot) = None"
    and "parse_resume_decision (resume_value bad) = None" and "owner_decision_new d nt = Inr od"
  shows "resume_graph_investigation cfg snapshot cp (od_decision bad) (od_rejection_note bad) w
      = (Inl AssertionError, gs_events st, w)
     \<and> (\<exists>res evs w'. resume_graph_investigation cfg (snapshot\<lparr>ts_resumes := ts_resumes snapshot @ [resume_value bad]\<rparr>) cp
           (od_decision od) (od_rejection_note od) w = (Inr res, evs, w'))"
proof -
  let ?c = "tool_graph cfg" and ?vs = "ts_resumes snapshot @ [resume_value bad]"
  have none: "resolve_resume ?vs = None" using resolve_resume_snoc [OF assms(4)] assms(5) by simp
  obtain payload where p: "superstep ?c ?vs N_escalation_interrupt st w = (Paused payload, w)"
    using step_escalation(2) [OF assms(1) unresolved_ok [OF none] none] by blast
  have "state_ok ?c st w" using assms(1) by (simp add: flow_ok_def)
  then obtain esc where "escalated_of cp st payload = Inr (Escalated esc)" by (rule escalated_of_ok)
  then have one: "resume_graph_investigation cfg snapshot cp (od_decision bad) (od_rejection_note bad) w
      = (Inl AssertionError, gs_events st, w)"
    by (simp add: resume_graph_investigation_def assms(2,3) settle_invocation_def GRAPH_RECURSION_LIMIT_def
        eval_nat_numeral run_loop_Suc p)
  obtain st' w' report reason where run:
    "run_loop ?c (?vs @ [resume_value od]) GRAPH_RECURSION_LIMIT N_escalation_interrupt st w = (Finished, N_END, st', w')"
    "state_ok ?c st' w'" "gs_report st' = Some report" "report_states st' (g_budgets ?c) None report"
    by (rule decided_run [OF assms(1) decided_resumes_ok [OF none assms(6)]])
  obtain res where "result_of st' = Inr (Result res)" by (rule result_of_ok [OF run(2-4)])
  then have "resume_graph_investigation cfg (snapshot\<lparr>ts_resumes := ?vs\<rparr>) cp (od_decision od) (od_rejection_note od) w
      = (Inr res, gs_events st', w')"
    using run(1) by (simp add: resume_graph_investigation_def assms(2,3) settle_invocation_def)
  with one show ?thesis by blast
qed

theorem invalid_resume_leaves_thread_resumable_witness:
  "\<exists>res evs w'. resume_graph_investigation sample_config paused_snapshot ''cp'' Accept (Some ''fine'') still_world
       = (Inl AssertionError, [], still_world)
     \<and> resume_graph_investigation sample_config (paused_snapshot\<lparr>ts_resumes :=
           [resume_value \<lparr> od_decision = Accept, od_rejection_note = Some ''fine'' \<rparr>]\<rparr>) ''cp'' Accept None still_world
       = (Inr res, evs, w')"
proof -
  have od: "owner_decision_new Accept None = Inr \<lparr> od_decision = Accept, od_rejection_note = None \<rparr>"
    by (simp add: owner_decision_new_def normalize_note_def Let_def)
  have bad: "parse_resume_decision (resume_value \<lparr> od_decision = Accept, od_rejection_note = Some ''fine'' \<rparr>) = None"
    by (simp add: parse_resume_decision_def resume_value_def note_json_def)
  have e: "gs_events paused_state = []" by (simp add: paused_state_def initial_state_def)
  show ?thesis
    using invalid_resume_leaves_thread_resumable [OF paused_flow_ok, of paused_snapshot, OF _ _ _ bad od, of "''cp''"]
    by (auto simp: paused_snapshot_def e)
qed

text \<open>
  C7: a crash is contained. Whatever exception ends an invocation, at whatever node, the last
  committed state in order becomes a result: a failed-safe report with reason
  \<open>INTERNAL_ERROR\<close>, with all receipts and evidence of that state and one more event.
\<close>

theorem crash_becomes_failed_safe_report:
  assumes "state_ok cfg st w"
  shows "\<exists>res evs w'. settle_invocation cp (g_budgets cfg) (Failed e, n, st, w) = (Inr (Result res), evs, w')
     \<and> ir_disposition (res_report res) = FAILED_SAFE \<and> ir_reason_code (res_report res) = Some INTERNAL_ERROR
     \<and> ir_assessment (res_report res) = None \<and> res_receipts res = gs_receipts st
     \<and> ev_evidence_id ` set (res_evidence res) = ev_evidence_id ` set (gs_evidence st)
     \<and> prefix (gs_events st) evs \<and> events_ok evs"
  by (rule contained_ok [OF assms, of cp e n])
    (simp add: result_reports_def report_states_def report_disposition_def report_reason_def)

theorem crash_becomes_failed_safe_report_witness:
  "\<exists>res evs w'. settle_invocation ''cp'' DEFAULT_BUDGETS (Failed GraphRecursionError, N_investigate, paused_state, still_world)
      = (Inr (Result res), evs, w') \<and> ir_disposition (res_report res) = FAILED_SAFE"
proof -
  have "state_ok (tool_graph sample_config) paused_state still_world" using paused_flow_ok by (simp add: flow_ok_def)
  moreover have "g_budgets (tool_graph sample_config) = DEFAULT_BUDGETS" by (simp add: tool_graph_def sample_config_def)
  ultimately show ?thesis
    using crash_becomes_failed_safe_report [of "tool_graph sample_config" paused_state still_world "''cp''" GraphRecursionError
        N_investigate] by auto
qed

text \<open>
  C8: recovery completes what a lost process left. From any checkpoint in order, with the
  supersteps it still needs within the limit, recovering a thread returns an outcome: the
  pending pause, the stored report, or what running on from the checkpoint gives.
\<close>

theorem recovery_completes_the_run:
  assumes "flow_ok (tool_graph cfg) (ts_next snapshot) st w" and "registry_ok cfg" and "resumes_ok (ts_resumes snapshot)"
    and "rank (tool_graph cfg) (ts_next snapshot) st \<le> GRAPH_RECURSION_LIMIT"
    and "ts_values snapshot = Some st" and "gs_report st \<noteq> None \<longrightarrow> ts_next snapshot = N_END"
  shows "\<exists>out evs w'. recover_graph_investigation cfg snapshot cp w = (Inr (Some out), evs, w')"
proof -
  let ?c = "tool_graph cfg"
  have b: "g_budgets ?c = g_budgets cfg" and reg: "registry_ok ?c"
    using assms(2) by (simp_all add: tool_graph_def registry_ok_def)
  have ok: "state_ok ?c st w" using assms(1) by (simp add: flow_ok_def)
  consider (pause) payload where "ts_interrupts snapshot = Some payload"
    | (stored) "ts_interrupts snapshot = None" "gs_report st \<noteq> None"
    | (go) "ts_interrupts snapshot = None" "gs_report st = None" by (cases "ts_interrupts snapshot") auto
  then show ?thesis
  proof cases
    case pause
    obtain esc where "escalated_of (ts_checkpoint_id snapshot) st payload = Inr (Escalated esc)"
      by (rule escalated_of_ok [OF ok])
    with pause assms(5) show ?thesis by (simp add: recover_graph_investigation_def)
  next
    case stored
    with assms(1,6) obtain r where r: "gs_report st = Some r" "report_states st (g_budgets ?c) None r"
      by (auto simp: flow_ok_def)
    obtain res where "result_of st = Inr (Result res)" by (rule result_of_ok [OF ok r])
    with stored assms(5) show ?thesis by (simp add: recover_graph_investigation_def)
  next
    case go
    obtain how n st' w' where loop: "run_loop ?c (ts_resumes snapshot) GRAPH_RECURSION_LIMIT (ts_next snapshot) st w
        = (how, n, st', w')" by (metis prod_cases4)
    have ends: "run_ends ?c (ts_resumes snapshot) st (how, n, st', w')"
      using run_loop_ends [OF reg assms(3,1,4)] by (simp add: loop)
    have "\<exists>out. settle_invocation cp (g_budgets cfg) (how, n, st', w') = (Inr out, gs_events st', w')"
      using settled_ends [OF ends, of cp "g_budgets cfg"] by blast
    with go assms(5) loop show ?thesis by (auto simp: recover_graph_investigation_def)
  qed
qed

theorem recovery_completes_the_run_witness:
  "\<exists>out evs w'. recover_graph_investigation sample_config paused_snapshot ''cp'' still_world = (Inr (Some out), evs, w')"
proof -
  have "gs_report paused_state = None" by (simp add: paused_state_def initial_state_def)
  then show ?thesis
    by (intro recovery_completes_the_run [OF _ sample_registry_ok(1), of _ paused_state])
      (simp_all add: paused_snapshot_def paused_flow_ok GRAPH_RECURSION_LIMIT_def)
qed

text \<open>
  C27: a resume value may carry a rejection note longer than an escalation record can hold. The
  escalation is then committed, and the report cannot be built, neither by its node nor by the
  crash containment: the invocation raises although every other part of the state is in order.
\<close>

theorem overlong_rejection_note_loses_report:
  assumes "flow_ok cfg N_escalation_interrupt st w"
    and "resolve_resume resumes = Some (d, Some nt)" and "300 < length nt"
  shows "fst (settle_invocation cp (g_budgets cfg)
     (run_loop cfg resumes GRAPH_RECURSION_LIMIT N_escalation_interrupt st w)) = Inl ValidationError"
proof -
  from assms(1) obtain reason where ok: "state_ok cfg st w" and reason: "escalates (g_budgets cfg) st = Some reason"
    by (auto simp: flow_ok_def)
  obtain st' w' where esc: "escalation_interrupt (g_budgets cfg) resumes st w = (Inr (Updated st'), w')"
    and s: "gs_escalation_reason st' = Some reason" "gs_escalation_decision st' = Some d" "gs_rejection_note st' = Some nt"
      "gs_receipts st' = gs_receipts st" "gs_evidence st' = gs_evidence st" "gs_incident_id st' = gs_incident_id st"
      "gs_assessment st' = gs_assessment st"
    using escalation_decides [OF ok reason assms(2)] by blast
  have bad: "report_escalation (st'\<lparr>gs_events := e\<rparr>) = Inl ValidationError" for e
    using assms(3) by (simp add: report_escalation_def s escalation_record_validate_def)
  have rep: "fst (build_report (st'\<lparr>gs_events := e\<rparr>) b forced w1) = Inl ValidationError" for e b forced and w1 :: "'a world"
    by (rule build_report_bad_escalation [OF ok bad]) (simp_all add: s)
  obtain w2 where one: "build_report st' (g_budgets cfg) None w' = (Inl ValidationError, w2)"
    using rep [of "gs_events st'" "g_budgets cfg" None w'] by (cases "build_report st' (g_budgets cfg) None w'") simp
  have loop: "run_loop cfg resumes GRAPH_RECURSION_LIMIT N_escalation_interrupt st w
      = (Failed ValidationError, N_final_report, st', w2)"
    by (simp add: GRAPH_RECURSION_LIMIT_def eval_nat_numeral run_loop_Suc)
      (simp add: superstep_def esc then_to_def final_report_node_def one)
  obtain evs w3 where ev: "record_event FINAL_REPORT ''internal_error'' [(''error'', JStr (exn_name ValidationError))]
      (gs_events st') w2 = (evs, w3)" by force
  show ?thesis using rep [of evs "g_budgets cfg" "Some INTERNAL_ERROR" w3]
    by (cases "build_report (st'\<lparr>gs_events := evs\<rparr>) (g_budgets cfg) (Some INTERNAL_ERROR) w3")
      (use ev in \<open>simp add: loop settle_invocation_def Let_def\<close>)
qed

theorem overlong_rejection_note_loses_report_witness:
  "fst (settle_invocation ''cp'' DEFAULT_BUDGETS (run_loop (tool_graph sample_config)
      [JObj [(''decision'', JStr ''reject''), (''rejection_note'', JStr (replicate 301 CHR ''x''))]]
      GRAPH_RECURSION_LIMIT N_escalation_interrupt paused_state still_world)) = Inl ValidationError"
proof -
  have "py_strip (replicate 301 CHR ''x'') = replicate 301 CHR ''x''"
    by (simp add: py_strip_def is_space_def eval_nat_numeral)
  then have r: "resolve_resume [JObj [(''decision'', JStr ''reject''), (''rejection_note'', JStr (replicate 301 CHR ''x''))]]
      = Some (Reject, Some (replicate 301 CHR ''x''))" by (simp add: parse_resume_decision_def)
  have "g_budgets (tool_graph sample_config) = DEFAULT_BUDGETS" by (simp add: tool_graph_def sample_config_def)
  then show ?thesis using overlong_rejection_note_loses_report [OF paused_flow_ok r, of "''cp''"] by simp
qed

text \<open>
  The report's latency is a difference of two readings of the wall clock. When the clock has
  been set back behind the start of the run by a second or more, no report can be built: the
  report node raises and so does the crash containment.
\<close>

theorem clock_set_back_loses_report:
  assumes "state_ok cfg st w0" and "\<forall>n \<ge> clock_n w. clock_at w n \<le> gs_started_at st - 1000000 \<and> \<bar>clock_at w n\<bar> \<le> 2 ^ 62"
  shows "fst (settle_invocation cp (g_budgets cfg) (run_loop cfg resumes (Suc limit) N_final_report st w)) = Inl ValidationError"
proof -
  have rep: "fst (build_report (st\<lparr>gs_events := e\<rparr>) b forced w1) = Inl ValidationError"
    if "world_le w w1" for e b forced and w1 :: "'a world"
    by (rule build_report_clock_back [OF assms(1)]) (use assms(2) that in \<open>auto simp: world_le_def\<close>)
  obtain w2 where one: "build_report st (g_budgets cfg) None w = (Inl ValidationError, w2)"
    using rep [OF world_le_refl, of "gs_events st" "g_budgets cfg" None]
    by (cases "build_report st (g_budgets cfg) None w") simp
  have le2: "world_le w w2" using build_report_le [of w st "g_budgets cfg" None] by (simp add: one)
  have loop: "run_loop cfg resumes (Suc limit) N_final_report st w = (Failed ValidationError, N_final_report, st, w2)"
    by (simp add: run_loop_Suc superstep_def then_to_def final_report_node_def one)
  obtain evs w3 where ev: "record_event FINAL_REPORT ''internal_error'' [(''error'', JStr (exn_name ValidationError))]
      (gs_events st) w2 = (evs, w3)" by force
  have "world_le w w3" using le2 record_event_ok(2) [OF ev] by (rule world_le_trans)
  from rep [OF this, of evs "g_budgets cfg" "Some INTERNAL_ERROR"] show ?thesis
    unfolding loop by (cases "build_report (st\<lparr>gs_events := evs\<rparr>) (g_budgets cfg) (Some INTERNAL_ERROR) w3")
      (use ev in \<open>simp add: settle_invocation_def Let_def\<close>)
qed

theorem clock_set_back_loses_report_witness:
  "fst (settle_invocation ''cp'' DEFAULT_BUDGETS (run_loop (tool_graph sample_config) [] (Suc 0) N_final_report
      paused_state (still_world\<lparr>clock_at := (\<lambda>_. - 2000000)\<rparr>))) = Inl ValidationError"
proof -
  have ok: "state_ok (tool_graph sample_config) paused_state still_world" using paused_flow_ok by (simp add: flow_ok_def)
  have "gs_started_at paused_state = 0" by (simp add: paused_state_def initial_state_def)
  moreover have "g_budgets (tool_graph sample_config) = DEFAULT_BUDGETS" by (simp add: tool_graph_def sample_config_def)
  ultimately show ?thesis
    using clock_set_back_loses_report [OF ok, of "still_world\<lparr>clock_at := (\<lambda>_. - 2000000)\<rparr>" "''cp''" "[]" 0] by simp
qed

text \<open>
  One stage of investigation asks its model at most twice, the second time as a repair that
  the repair budget pays for; it does not ask at all when no model call is left; and when it
  comes back without an answer it has recorded why.
\<close>

theorem one_stage_asks_at_most_twice:
  assumes "ask_with_repair (g_budgets cfg) started (propose_once cfg st stage store receipts)
     (log_stop INVESTIGATE) (log_invalid INVESTIGATE stage) s = (r, s')"
    and "sc_repairs_used s \<le> b_repairs (g_budgets cfg)"
  shows "sc_model_calls_used s' \<le> sc_model_calls_used s + 2
     \<and> sc_repairs_used s \<le> sc_repairs_used s' \<and> sc_repairs_used s' \<le> b_repairs (g_budgets cfg)
     \<and> sc_model_calls_used s' - sc_repairs_used s' \<le> sc_model_calls_used s - sc_repairs_used s + 1
     \<and> (model_calls_left (sc_model_calls_used s) (sc_repairs_used s) (g_budgets cfg) \<le> 0 \<longrightarrow>
          sc_model_calls_used s' = sc_model_calls_used s)
     \<and> (r = Inr None \<longrightarrow> sc_stop_reason s' \<noteq> None)"
proof -
  obtain dc dr where c: "stage_cost (g_budgets cfg) dc dr s s'" "r = Inr None \<longrightarrow> sc_stop_reason s' \<noteq> None"
    by (rule proposing_cost [OF assms(1)])
  then obtain di where "counted_by dc dr di s s'" by (auto simp: stage_cost_def)
  then have "sc_model_calls_used s' = sc_model_calls_used s + dc" "sc_repairs_used s' = sc_repairs_used s + dr"
    by (simp_all add: counted_by_def)
  then show ?thesis using c assms(2) by (auto simp: stage_cost_def)
qed

theorem one_stage_asks_at_most_twice_witness:
  "\<exists>r s'. ask_with_repair (g_budgets sample_config) 0
       (propose_once sample_config paused_state INITIAL_PLAN (evidence_store_new ''inc-1'') [])
       (log_stop INVESTIGATE) (log_invalid INVESTIGATE INITIAL_PLAN) (stage_counters_new paused_state [] still_world) = (r, s')
     \<and> sc_model_calls_used s' \<le> 2"
proof -
  obtain r s' where ask: "ask_with_repair (g_budgets sample_config) 0
       (propose_once sample_config paused_state INITIAL_PLAN (evidence_store_new ''inc-1'') [])
       (log_stop INVESTIGATE) (log_invalid INVESTIGATE INITIAL_PLAN) (stage_counters_new paused_state [] still_world) = (r, s')"
    by force
  have z: "sc_model_calls_used (stage_counters_new paused_state [] still_world) = 0"
    "sc_repairs_used (stage_counters_new paused_state [] still_world) = 0"
    by (simp_all add: stage_counters_new_def paused_state_def initial_state_def)
  have "sc_repairs_used (stage_counters_new paused_state [] still_world) \<le> b_repairs (g_budgets sample_config)"
    by (simp add: z sample_config_def DEFAULT_BUDGETS_def)
  from ask one_stage_asks_at_most_twice [OF ask this] show ?thesis by (auto simp: z)
qed

end
