(* ===== verification/BoundaryProps.thy ===== *)
theory BoundaryProps
  imports Samples ToolCalls
begin

text \<open>
  The properties of the investigation's boundaries: the policy decision, the evidence
  store and its context quotas, and the native tool call encoding.
\<close>

section \<open>Policy\<close>

text \<open>
  C25: policy allows a proposal exactly when its pool has a slot, its fingerprint is new and its
  arguments lie inside the incident and the budgets; it denies with one of its seven reasons
  otherwise; and the decision passes its own validator.
\<close>

theorem policy_decides_by_scope:
  "(pd_result (authorize L p scope seen b n) = ALLOWED \<longleftrightarrow>
      0 < n \<and> fingerprint L (tp_arguments p) \<notin> seen \<and> in_scope scope b (tp_arguments p))
   \<and> (pd_result (authorize L p scope seen b n) = DENIED \<longleftrightarrow>
      (\<exists>r. r \<in> denial_reasons \<and> pd_reason_code (authorize L p scope seen b n) = Some r))
   \<and> policy_decision_validate (authorize L p scope seen b n) = Inr (authorize L p scope seen b n)"
proof -
  let ?d = "authorize L p scope seen b n"
  have "pd_result ?d = DENIED \<Longrightarrow> \<exists>r. r \<in> denial_reasons \<and> pd_reason_code ?d = Some r"
    by (metis authorize_denied_reason)
  moreover have "pd_reason_code ?d \<noteq> None \<Longrightarrow> pd_result ?d = DENIED"
    using authorize_reason_iff [of L p scope seen b n] by (cases "pd_result ?d") auto
  ultimately have "pd_result ?d = DENIED \<longleftrightarrow> (\<exists>r. r \<in> denial_reasons \<and> pd_reason_code ?d = Some r)" by auto
  moreover have "policy_decision_validate ?d = Inr ?d"
    using authorize_reason_iff [of L p scope seen b n] by (cases "pd_result ?d") (auto simp: policy_decision_validate_def)
  ultimately show ?thesis using authorize_allowed_iff by blast
qed

section \<open>The evidence store\<close>

lemma add_all_records:
  assumes "add_all s es = Inr t" and "distinct (map ev_evidence_id es)"
    and "set (map ev_evidence_id es) \<inter> set (dict_keys (es_records s)) = {}"
  shows "es_records t = es_records s @ map (\<lambda>e. (ev_evidence_id e, e)) es"
  using assms
proof (induction es arbitrary: s)
  case (Cons e es)
  then obtain s1 where s1: "evidence_store_add s e = Inr s1" "add_all s1 es = Inr t" by (auto simp: bind_r_Inr)
  from s1(1) Cons.prems(3) have r: "es_records s1 = es_records s @ [(ev_evidence_id e, e)]"
    by (auto simp: evidence_store_add_def update_fresh split: if_splits)
  have "es_records t = es_records s1 @ map (\<lambda>e. (ev_evidence_id e, e)) es"
    by (rule Cons.IH [OF s1(2)]) (use Cons.prems(2,3) r in auto)
  then show ?case by (simp add: r)
qed simp

text \<open>
  The order of a store's evidence is canonical: filling a store with the same records in
  any order gives the same sequence, sorted by time, kind and id, so that a rebuilt store renders
  the same context.
\<close>

theorem evidence_order_is_canonical:
  assumes "add_all (evidence_store_new i) es = Inr s" and "add_all (evidence_store_new i) es' = Inr t"
    and "mset es = mset es'" and "distinct (map ev_evidence_id es)"
  shows "ordered s = ordered t \<and> mset (ordered s) = mset es
     \<and> sorted (map (\<lambda>e. (ev_observed_at e, ev_kind e, ev_evidence_id e)) (ordered s))"
proof -
  have "mset (map ev_evidence_id es) = mset (map ev_evidence_id es')" using assms(3) by simp
  then have d: "distinct (map ev_evidence_id es')" using assms(4) by (metis mset_eq_imp_distinct_iff)
  have e: "es_records (evidence_store_new i) = []" by (simp add: evidence_store_new_def)
  have r: "es_records s = map (\<lambda>e. (ev_evidence_id e, e)) es" "es_records t = map (\<lambda>e. (ev_evidence_id e, e)) es'"
    using add_all_records [OF assms(1,4)] add_all_records [OF assms(2) d] by (simp_all add: e)
  have "store_wf s" using store_wf_new assms(1) by (rule add_all_wf)
  moreover have "mset (dict_values (es_records s)) = mset (dict_values (es_records t))"
    using assms(3) by (simp add: r o_def)
  ultimately have "ordered s = ordered t" by (intro ordered_perm)
  moreover have "mset (ordered s) = mset es" "sorted (map (\<lambda>e. (ev_observed_at e, ev_kind e, ev_evidence_id e)) (ordered s))"
    by (simp_all add: ordered_def r o_def)
  ultimately show ?thesis by blast
qed

definition sample_symptom :: "string \<Rightarrow> instant \<Rightarrow> evidence" where
  "sample_symptom eid t = \<lparr> ev_evidence_id = eid, ev_incident_id = ''inc-1'', ev_kind = SYMPTOM, ev_source = ''alert'',
     ev_observed_at = t, ev_summary = ''errors rose'', ev_payload = [], ev_receipt_id = None, ev_content_hash = ''h'' \<rparr>"

theorem evidence_order_is_canonical_witness:
  "\<exists>s t. add_all (evidence_store_new ''inc-1'') [sample_symptom ''b'' 2, sample_symptom ''a'' 1] = Inr s
     \<and> add_all (evidence_store_new ''inc-1'') [sample_symptom ''a'' 1, sample_symptom ''b'' 2] = Inr t
     \<and> ordered s = ordered t"
proof -
  let ?es = "[sample_symptom ''b'' 2, sample_symptom ''a'' 1]" and ?fs = "[sample_symptom ''a'' 1, sample_symptom ''b'' 2]"
  have "\<exists>s. add_all (evidence_store_new ''inc-1'') es = Inr s" if "set es = {sample_symptom ''a'' 1, sample_symptom ''b'' 2}" for es
    using that add_all_ok_iff [of "evidence_store_new ''inc-1''" es] by (simp add: evidence_store_new_def sample_symptom_def)
  from this [of ?es] this [of ?fs] obtain s t where
    st: "add_all (evidence_store_new ''inc-1'') ?es = Inr s" "add_all (evidence_store_new ''inc-1'') ?fs = Inr t"
    by (auto simp del: add_all.simps)
  have "distinct (map ev_evidence_id ?es)" by (simp add: sample_symptom_def)
  from evidence_order_is_canonical [OF st _ this] st show ?thesis by auto
qed

text \<open>
  The model context never fails on quotas and is fair to every kind: of each kind it holds
  exactly the first records in order, up to two for symptoms and topology and up to one more
  than the check budget for the others, and marks how many of each kind were left out.
\<close>

theorem context_holds_first_records_of_each_kind:
  "\<exists>kept markers. context_evidence store (derive_context_quotas n) = Inr (kept, markers)
     \<and> subseq kept (ordered store)
     \<and> (\<forall>k. filter (\<lambda>e. ev_kind e = k) kept
          = take (nat (if k \<in> {SYMPTOM, TOPOLOGY} then 2 else n + 1)) (filter (\<lambda>e. ev_kind e = k) (ordered store)))
     \<and> markers = truncation_markers (\<lambda>k. length (filter (\<lambda>e. ev_kind e = k) (ordered store))
          - length (filter (\<lambda>e. ev_kind e = k) kept))"
proof -
  let ?q = "\<lambda>k. if k \<in> {SYMPTOM, TOPOLOGY} then 2 else n + 1"
  obtain kept d where l: "context_loop (derive_context_quotas n) (ordered store) (\<lambda>_. 0) (\<lambda>_. 0) = Inr (kept, d)"
    "subseq kept (ordered store)"
    "\<forall>k. filter (\<lambda>e. ev_kind e = k) kept = take (nat (?q k - int 0)) (filter (\<lambda>e. ev_kind e = k) (ordered store))"
    "\<forall>k. d k = 0 + (length (filter (\<lambda>e. ev_kind e = k) (ordered store)) - length (filter (\<lambda>e. ev_kind e = k) kept))"
    using context_loop_spec [of "derive_context_quotas n" ?q, OF derive_context_quotas_total] by blast
  from l(4) have "d = (\<lambda>k. length (filter (\<lambda>e. ev_kind e = k) (ordered store)) - length (filter (\<lambda>e. ev_kind e = k) kept))"
    by (intro ext) simp
  then show ?thesis using l(1-3) by (simp add: context_evidence_def)
qed

section \<open>Native tool calls\<close>

text \<open>
  C26: encoding a valid proposal as a native tool call and parsing the call gives the proposal
  back, provided that pydantic's dump of the arguments validates back to them.
\<close>

theorem tool_call_round_trip:
  assumes "dump_roundtrips L (tp_arguments p)" and "tool_proposal_validate p = Inr p"
  shows "parse_tool_call L (to_tool_call L p call_id) = (Some p, [])"
  using assms by (rule to_tool_call_parses)

theorem tool_call_round_trip_witness:
  "parse_tool_call sample_libs (to_tool_call sample_libs sample_changes ''c'') = (Some sample_changes, [])"
  by (rule tool_call_round_trip)
    (simp_all add: dump_roundtrips_def sample_changes_def sample_libs_def sibling_keys_def sample_parse_def opt_int_def
      tool_proposal_validate_def)

end
