(* ===== verification/GraphOutside.thy ===== *)
theory GraphOutside
  imports GraphRun
begin

text \<open>
  What a run does to the world outside it. Every component of the graph reaches the outside only
  through the two operations of the model and the backends behind the registry, so any reflexive
  and transitive relation those keep holds between the outside before and after a whole run.
\<close>

section \<open>Operations that leave the outside alone\<close>

lemma ext_clock [simp]: "ext (snd (read_clock w)) = ext w"
  by (simp add: read_clock_def)

lemma ext_expired: "expired started b w = (x, w') \<Longrightarrow> ext w' = ext w"
  by (auto simp: expired_def read_clock_def)

lemma ext_id: "new_opaque_id w = (i, w') \<Longrightarrow> ext w' = ext w"
  by (auto simp: new_opaque_id_def)

lemma ext_stage_event [simp]: "ext (sc_world (stage_event phase name flds s)) = ext (sc_world s)"
  by (auto simp: stage_event_def split: prod.splits dest: record_event_ok(3))

lemma ext_logs [simp]: "ext (sc_world (log_invalid phase stage e s)) = ext (sc_world s)"
  "ext (sc_world (log_stop phase reason s)) = ext (sc_world s)"
  by (simp_all add: log_invalid_def log_stop_def)

lemma ext_record [simp]: "sc_world (record_call d s) = sc_world s" "sc_world (record_usage u s) = sc_world s"
  "sc_world (stage_counters_new st evs w) = w"
  by (simp_all add: record_call_def record_usage_def stage_counters_new_def)

lemma ext_build_report: "build_report st b forced w = (r, w') \<Longrightarrow> ext w' = ext w"
  by (auto simp: build_report_def Let_def read_clock_def split: sum.splits prod.splits if_splits)

lemma ext_denied: "denied_receipt p scope mark reason msg w = (r, w') \<Longrightarrow> ext w' = ext w"
  by (auto simp: denied_receipt_def read_clock_def new_opaque_id_def split: prod.splits)

lemma ext_reserve: "reserve ledger i tool mark tm arguments w = (r, ledger', w') \<Longrightarrow> ext w' = ext w"
  by (auto simp: reserve_def new_opaque_id_def Let_def split: if_splits)

lemma ext_dispatch_events: "dispatch_events st p result evs w = (evs', w') \<Longrightarrow> ext w' = ext w"
  by (auto simp: dispatch_events_def Let_def split: if_splits prod.splits dest!: record_event_ok(3))

lemma ext_quiet_nodes:
  "normalize_evidence st w = (r, w') \<Longrightarrow> ext w' = ext w"
  "escalation_interrupt b resumes st w = (r', w') \<Longrightarrow> ext w' = ext w"
  "final_report_node b st w = (r, w') \<Longrightarrow> ext w' = ext w"
  "route_after_normalize b st w = (n, w') \<Longrightarrow> ext w' = ext w"
proof -
  show "normalize_evidence st w = (r, w') \<Longrightarrow> ext w' = ext w"
    by (auto simp: normalize_evidence_def split: prod.splits dest: record_event_ok(3))
  show "escalation_interrupt b resumes st w = (r', w') \<Longrightarrow> ext w' = ext w"
    unfolding escalation_interrupt_def
    by (auto split: sum.splits option.splits prod.splits dest: record_event_ok(3))
  show "final_report_node b st w = (r, w') \<Longrightarrow> ext w' = ext w"
    unfolding final_report_node_def Let_def
    by (auto split: sum.splits prod.splits if_splits dest!: ext_build_report record_event_ok(3))
  show "route_after_normalize b st w = (n, w') \<Longrightarrow> ext w' = ext w"
    unfolding route_after_normalize_def
    by (auto split: sum.splits prod.splits if_splits dest: ext_expired)
qed

section \<open>The interface to the outside\<close>

locale outside =
  fixes cfg :: "'w graph_config" and R :: "'w \<Rightarrow> 'w \<Rightarrow> bool"
  assumes R_refl: "R x x" and R_trans: "R x y \<Longrightarrow> R y z \<Longrightarrow> R x z"
    and R_propose: "propose (g_model cfg) request x = (r, y) \<Longrightarrow> R x y"
    and R_respond: "respond (g_model cfg) request x = (r', y) \<Longrightarrow> R x y"
    and R_check: "g_registry cfg tool = Some wr \<Longrightarrow> tw_run_check wr args scope x = (r'', y) \<Longrightarrow> R x y"
begin

lemma dispatch_outside:
  assumes "g_registry cfg tool = Some wr" and "wrapper_dispatch L wr p scope seen b ledger w = (res, seen', ledger', w')"
  shows "R (ext w) (ext w')"
proof -
  have "R (ext w) y" if "tw_run_check wr args scope (ext w) = (r, y)" for args scope r y
    using R_check [OF assms(1) that] .
  with assms(2) R_refl show ?thesis
    unfolding wrapper_dispatch_def dispatch_def Let_def
    by (auto split: if_splits prod.splits sum.splits option.splits simp: read_clock_def
        dest!: ext_denied ext_reserve settle_check_frame(2))
qed

lemma propose_once_outside:
  assumes "propose_once cfg st stage store receipts re s = (r, s')"
  shows "R (ext (sc_world s)) (ext (sc_world s'))"
  using assms R_refl R_propose unfolding propose_once_def Let_def
  by (auto split: sum.splits prod.splits option.splits if_splits)

lemma respond_once_outside:
  assumes "respond_once cfg st store receipts re s = (r, s')"
  shows "R (ext (sc_world s)) (ext (sc_world s'))"
  using assms R_refl R_respond unfolding respond_once_def Let_def
  by (auto split: sum.splits prod.splits if_splits)

text \<open>Asking, with the repair: every counter state along the way is related to the first.\<close>

lemma ask_outside:
  assumes ask: "\<And>re s r s'. ask_once re s = (r, s') \<Longrightarrow> R (ext (sc_world s)) (ext (sc_world s'))"
    and logs: "\<And>x s. ext (sc_world (on_stop x s)) = ext (sc_world s)"
      "\<And>e s. ext (sc_world (on_invalid e s)) = ext (sc_world s)"
    and run: "ask_with_repair b started ask_once on_stop on_invalid s = (r, s')"
  shows "R (ext (sc_world s)) (ext (sc_world s'))"
proof -
  obtain x w1 where ex: "expired started b (sc_world s) = (x, w1)" by force
  have w1: "ext w1 = ext (sc_world s)" by (rule ext_expired [OF ex])
  show ?thesis
    using run R_refl unfolding ask_with_repair_def ex Let_def stop_with_def
    by (auto simp: logs w1 split: if_splits sum.splits prod.splits option.splits dest!: ask
        intro: R_trans)
qed

lemma proposing_outside:
  "ask_with_repair b started (propose_once cfg st stage store receipts) (log_stop phase) (log_invalid phase stage') s
     = (r, s') \<Longrightarrow> R (ext (sc_world s)) (ext (sc_world s'))"
  by (rule ask_outside [where ask_once = "propose_once cfg st stage store receipts"])
    (auto intro: propose_once_outside)

lemma assessing_outside:
  "ask_with_repair b started (respond_once cfg st store receipts) (log_stop phase) (log_invalid phase stage') s
     = (r, s') \<Longrightarrow> R (ext (sc_world s)) (ext (sc_world s'))"
  by (rule ask_outside [where ask_once = "respond_once cfg st store receipts"])
    (auto intro: respond_once_outside)

section \<open>Nodes\<close>

lemma investigate_outside:
  assumes "investigate cfg st w = (r, w')"
  shows "R (ext w) (ext w')"
  using assms R_refl unfolding investigate_def Let_def
  by (auto split: if_splits sum.splits prod.splits option.splits
      dest!: record_event_ok(3) proposing_outside)

lemma final_assessment_outside:
  assumes "final_assessment_node cfg st w = (r, w')"
  shows "R (ext w) (ext w')"
  using assms R_refl unfolding final_assessment_node_def Let_def
  by (auto split: if_splits sum.splits prod.splits option.splits
      dest!: record_event_ok(3) assessing_outside)

lemma dispatch_tool_outside:
  assumes "dispatch_tool cfg st w = (r, w')"
  shows "R (ext w) (ext w')"
  using assms R_refl unfolding dispatch_tool_def Let_def
  by (auto split: sum.splits prod.splits option.splits
      dest!: record_event_ok(3) dispatch_outside ext_dispatch_events)

lemma superstep_outside:
  assumes "superstep cfg resumes n st w = (r, w')"
  shows "R (ext w) (ext w')"
  using assms R_refl unfolding superstep_def then_to_def
  by (auto split: graph_node.splits sum.splits prod.splits node_outcome.splits
      dest!: ext_quiet_nodes dest: investigate_outside dispatch_tool_outside final_assessment_outside)

lemma run_loop_outside:
  "run_loop cfg resumes limit n st w = (e, n', st', w') \<Longrightarrow> R (ext w) (ext w')"
proof (induction limit arbitrary: n st w)
  case 0
  then show ?case by (cases n) (auto intro: R_refl)
next
  case (Suc limit)
  show ?case
  proof (cases "n = N_END")
    case True
    with Suc.prems show ?thesis by (auto intro: R_refl)
  next
    case False
    obtain r w1 where step: "superstep cfg resumes n st w = (r, w1)" by force
    have "R (ext w) (ext w1)" using step by (rule superstep_outside)
    moreover have "w' = w1 \<or> (\<exists>m st1. run_loop cfg resumes limit m st1 w1 = (e, n', st', w'))"
      using Suc.prems False step by (cases n; cases r) auto
    ultimately show ?thesis using Suc.IH R_trans by blast
  qed
qed

lemma settle_invocation_outside:
  assumes "settle_invocation checkpoint_id b (run_loop cfg resumes limit n st w) = (r, evs, w')"
  shows "R (ext w) (ext w')"
proof -
  obtain e n' st' w1 where run: "run_loop cfg resumes limit n st w = (e, n', st', w1)" by (metis prod_cases4)
  have "ext w' = ext w1" using assms unfolding run settle_invocation_def Let_def
    by (auto split: run_end.splits sum.splits prod.splits dest!: record_event_ok(3) ext_build_report)
  with run_loop_outside [OF run] show ?thesis by simp
qed

lemma start_outside: "start_investigation cfg es i m w = (st, w') \<Longrightarrow> ext w' = ext w"
  by (auto simp: start_investigation_def read_clock_def new_opaque_id_def split: prod.splits option.splits
      dest!: record_event_ok(3))

lemma investigation_outside:
  "run_graph_investigation cfg es i m checkpoint_id w = (r, evs, w') \<Longrightarrow> R (ext w) (ext w')"
  by (auto simp: run_graph_investigation_def split: prod.splits dest!: settle_invocation_outside start_outside)

end

text \<open>A resumed and a recovered run use the graph that escalates; its outside is the same.\<close>

lemma outside_tool_graph: "outside cfg R \<Longrightarrow> outside (tool_graph cfg) R"
  unfolding outside_def by (simp add: tool_graph_def)

lemma resume_outside:
  assumes "outside cfg R" and "resume_graph_investigation cfg snapshot checkpoint_id d rejection w = (r, evs, w')"
  shows "R (ext w) (ext w')"
  using assms(2) outside.settle_invocation_outside [OF outside_tool_graph [OF assms(1)]]
    outside.R_refl [OF assms(1)] unfolding resume_graph_investigation_def
  by (fastforce split: option.splits prod.splits sum.splits outcome.splits)

lemma recover_outside:
  assumes "outside cfg R" and "recover_graph_investigation cfg snapshot checkpoint_id w = (r, evs, w')"
  shows "R (ext w) (ext w')"
  using assms(2) outside.settle_invocation_outside [OF outside_tool_graph [OF assms(1)]]
    outside.R_refl [OF assms(1)] unfolding recover_graph_investigation_def
  by (fastforce split: option.splits prod.splits if_splits)

end
