(* ===== verification/LiveModel.thy ===== *)
theory LiveModel
  imports GraphState CostLedger
begin

text \<open>
  \<open>src/causalops/live_model.py\<close>: the live Claude adapter. Its tool definitions, the one gated
  path every request takes (credential, input cap, reservation, provider, settlement), and the
  decoding of the provider's answer into the two shapes the graph asks for. The adapter's state
  is the cost ledger, the readings of its clock, the provider behind the client, and the
  requests handed to the provider so far.
\<close>

section \<open>Choosing the model\<close>

text \<open>\<open>_LIVE_MODEL_PRICING\<close> and \<open>_PRICING_BY_MODEL_NAME\<close>.\<close>

definition LIVE_MODEL_PRICING :: "pricing_snapshot pydict" where
  "LIVE_MODEL_PRICING = [(''sonnet'', CLAUDE_SONNET_5_PRICING), (''haiku'', CLAUDE_HAIKU_4_5_PRICING),
     (''opus'', CLAUDE_OPUS_5_PRICING)]"

definition PRICING_BY_MODEL_NAME :: "pricing_snapshot pydict" where
  "PRICING_BY_MODEL_NAME = map (\<lambda>p. (ps_model_name p, p)) (dict_values LIVE_MODEL_PRICING)"

abbreviation UnknownLiveModel :: exn where
  "UnknownLiveModel \<equiv> OtherError ''UnknownLiveModel''"

definition pricing_for_model_name :: "string \<Rightarrow> exn + pricing_snapshot" where
  "pricing_for_model_name model_name =
     (case dict_get PRICING_BY_MODEL_NAME model_name of Some p \<Rightarrow> Inr p | None \<Rightarrow> Inl UnknownLiveModel)"

text \<open>\<open>str.lower\<close> on ASCII letters, the only ones the keys hold.\<close>

definition py_lower :: "string \<Rightarrow> string" where
  "py_lower s = map (\<lambda>c. let n = of_char c :: nat in if 65 \<le> n \<and> n \<le> 90 then char_of (n + 32) else c) s"

definition LIVE_MODEL_VARIABLE :: string where
  "LIVE_MODEL_VARIABLE = ''CAUSALOPS_LIVE_MODEL''"

definition resolve_live_model_pricing :: "string pydict \<Rightarrow> exn + pricing_snapshot" where
  "resolve_live_model_pricing environment =
     (let raw = py_lower (py_strip (case dict_get environment LIVE_MODEL_VARIABLE of
            None \<Rightarrow> [] | Some v \<Rightarrow> v)) in
      if raw = [] then Inr CLAUDE_SONNET_5_PRICING
      else case dict_get LIVE_MODEL_PRICING raw of Some p \<Rightarrow> Inr p | None \<Rightarrow> Inl UnknownLiveModel)"

section \<open>Tool definitions\<close>

text \<open>
  What pydantic provides: the JSON schema of each class the definitions are derived from, the
  parsers of the two tool-input records and of a stage plan (an error summary, or the value
  with its fields of the right types), and the summaries of their validation errors.
\<close>

record live_libs =
  ll_libs :: libs
  arguments_schema :: "tool_name \<Rightarrow> json pydict"
  hypotheses_record_schema :: "json pydict"
  stop_record_schema :: "json pydict"
  final_assessment_model_schema :: "json pydict"
  hypotheses_fields :: "json \<Rightarrow> string + hypothesis list"
  hypotheses_errors :: "hypothesis list \<Rightarrow> string"
  stop_fields :: "json pydict \<Rightarrow> string + hypothesis list \<times> string"
  stop_errors :: "hypothesis list \<times> string \<Rightarrow> string"
  plan_fields :: "json pydict \<Rightarrow> string + stage_plan"
  plan_errors :: "stage_plan \<Rightarrow> string"

definition RECORD_STOP_TOOL_NAME :: string where
  "RECORD_STOP_TOOL_NAME = ''record_stop''"

definition RECORD_FINAL_ASSESSMENT_TOOL_NAME :: string where
  "RECORD_FINAL_ASSESSMENT_TOOL_NAME = ''record_final_assessment''"

definition DOMAIN_TOOL_SPECS :: "(tool_name \<times> string) list" where
  "DOMAIN_TOOL_SPECS =
    [(QUERY_METRIC, ''Query one Prometheus metric template for one service over a time window.''),
     (QUERY_LOGS, ''Query recent application logs for one service, filtered to one category.''),
     (LIST_RECENT_CHANGES, ''List recent deploys/config changes for one service over a time window.''),
     (GET_TOPOLOGY, ''Get the incident's service dependency topology.''),
     (SEARCH_RUNBOOKS, ''Search the offline runbook corpus for guidance on one closed topic.'')]"

definition RATIONALE_PROPERTIES :: "json pydict" where
  "RATIONALE_PROPERTIES =
    [(''evidence_gap'', JObj [(''type'', JStr ''string''), (''maxLength'', JInt 300),
        (''description'', JStr (''What this check is meant to settle -- the open question, in ''
            @ ''300 characters or fewer.''))]),
     (''expected_observation'', JObj [(''type'', JStr ''string''), (''maxLength'', JInt 300),
        (''description'', JStr (''What a result confirming your leading hypothesis would show, ''
            @ ''in 300 characters or fewer.''))])]"

text \<open>
  The parts of a schema that are read as objects or arrays are objects and arrays; anything
  else there would raise. \<open>schema.get(key, {})\<close> and \<open>schema.get(key, [])\<close> default to empty.
\<close>

definition dict_pop :: "string \<Rightarrow> 'v pydict \<Rightarrow> 'v pydict" where
  "dict_pop k d = filter (\<lambda>kv. fst kv \<noteq> k) d"

definition dict_update :: "'v pydict \<Rightarrow> 'v pydict \<Rightarrow> 'v pydict" where
  "dict_update d e = foldl (\<lambda>d kv. dict_set (fst kv) (snd kv) d) d e"

definition obj_of :: "json option \<Rightarrow> exn + json pydict" where
  "obj_of j = (case j of None \<Rightarrow> Inr [] | Some (JObj d) \<Rightarrow> Inr d | Some _ \<Rightarrow> Inl TypeError)"

definition list_of :: "json option \<Rightarrow> exn + json list" where
  "list_of j = (case j of None \<Rightarrow> Inr [] | Some (JList xs) \<Rightarrow> Inr xs | Some _ \<Rightarrow> Inl TypeError)"

definition item :: "json pydict \<Rightarrow> string \<Rightarrow> exn + json" where
  "item d k = (case dict_get d k of None \<Rightarrow> Inl KeyError | Some v \<Rightarrow> Inr v)"

definition strip_definition :: "string list \<Rightarrow> string \<times> json \<Rightarrow> exn + string \<times> json" where
  "strip_definition keep_defs nd = (case nd of (name, defn) \<Rightarrow>
     bind_r (obj_of (Some defn)) (\<lambda>d.
       Inr (name, JObj (if name \<in> set keep_defs then d else dict_pop ''description'' d))))"

text \<open>\<open>if defs:\<close> leaves an absent or empty \<open>$defs\<close> alone.\<close>

definition strip_maintainer_prose :: "string list \<Rightarrow> json pydict \<Rightarrow> exn + json pydict" where
  "strip_maintainer_prose keep_defs schema0 =
     (let schema = dict_pop ''description'' schema0 in
      bind_r (obj_of (dict_get schema ''$defs'')) (\<lambda>defs.
        if defs = [] then Inr schema
        else bind_r (map_r (strip_definition keep_defs) defs) (\<lambda>stripped_defs.
          Inr (dict_set ''$defs'' (JObj stripped_defs) schema))))"

definition append_missing :: "json list \<Rightarrow> string \<Rightarrow> json list" where
  "append_missing required name = (if JStr name \<in> set required then required else required @ [JStr name])"

definition domain_tool_definition :: "live_libs \<Rightarrow> tool_name \<times> string \<Rightarrow> exn + json" where
  "domain_tool_definition LL spec = (case spec of (tool, description) \<Rightarrow>
     bind_r (strip_maintainer_prose [] (arguments_schema LL tool)) (\<lambda>schema.
     bind_r (obj_of (dict_get schema ''properties'')) (\<lambda>properties0.
     bind_r (item properties0 ''tool'') (\<lambda>_.
     bind_r (item (hypotheses_record_schema LL) ''properties'') (\<lambda>hp.
     bind_r (obj_of (Some hp)) (\<lambda>hprops.
     bind_r (item hprops ''hypotheses'') (\<lambda>hypotheses.
     let properties = dict_update (dict_set ''hypotheses'' hypotheses (dict_pop ''tool'' properties0))
           RATIONALE_PROPERTIES;
         schema1 = dict_set ''properties'' (JObj properties) schema in
     bind_r (obj_of (dict_get schema1 ''$defs'')) (\<lambda>own_defs.
     bind_r (obj_of (dict_get (hypotheses_record_schema LL) ''$defs'')) (\<lambda>hyp_defs.
     let schema2 = dict_set ''$defs'' (JObj (dict_update own_defs hyp_defs)) schema1 in
     bind_r (list_of (dict_get schema2 ''required'')) (\<lambda>required.
     let required1 = foldl append_missing (remove1 (JStr ''tool'') required)
           (''hypotheses'' # dict_keys RATIONALE_PROPERTIES) in
     Inr (JObj [(''name'', JStr (tool_value tool)), (''description'', JStr description),
       (''input_schema'', JObj (dict_set ''required'' (JList required1) schema2))])))))))))))"

definition domain_tool_definitions :: "live_libs \<Rightarrow> exn + json list" where
  "domain_tool_definitions LL = map_r (domain_tool_definition LL) DOMAIN_TOOL_SPECS"

definition stop_tool_definition :: "live_libs \<Rightarrow> exn + json" where
  "stop_tool_definition LL =
     bind_r (strip_maintainer_prose [''Hypothesis''] (stop_record_schema LL)) (\<lambda>schema.
       Inr (JObj [(''name'', JStr RECORD_STOP_TOOL_NAME),
         (''description'', JStr (''Use this instead of a check tool when no safe check would help. ''
            @ ''Record 2-3 ranked hypotheses and a non-empty stop reason. ''
            @ ''Call exactly one tool total on each turn.'')),
         (''input_schema'', JObj schema)]))"

definition final_assessment_schema :: "live_libs \<Rightarrow> exn + json pydict" where
  "final_assessment_schema LL =
     bind_r (strip_maintainer_prose [] (final_assessment_model_schema LL)) (\<lambda>schema.
     bind_r (obj_of (dict_get schema ''properties'')) (\<lambda>properties.
     let schema1 = dict_set ''properties'' (JObj (dict_pop ''schema_version'' properties)) schema in
     bind_r (list_of (dict_get schema1 ''required'')) (\<lambda>required.
       Inr (dict_set ''required'' (JList (filter (\<lambda>n. n \<noteq> JStr ''schema_version'') required)) schema1))))"

definition final_assessment_tool_definition :: "live_libs \<Rightarrow> exn + json" where
  "final_assessment_tool_definition LL =
     bind_r (final_assessment_schema LL) (\<lambda>schema.
       Inr (JObj [(''name'', JStr RECORD_FINAL_ASSESSMENT_TOOL_NAME),
         (''description'', JStr (''Call this once to record your final diagnosis or abstention. ''
            @ ''A DIAGNOSED assessment needs a root_cause other than ''
            @ ''UNDETERMINED and at least one supporting_evidence_ids entry; ''
            @ ''an abstention (INSUFFICIENT_EVIDENCE) needs root_cause ''
            @ ''UNDETERMINED.'')),
         (''input_schema'', JObj schema)]))"

text \<open>The tools of a proposal turn: \<open>[_stop_tool_definition(), *_domain_tool_definitions()]\<close>.\<close>

definition proposal_tools :: "live_libs \<Rightarrow> exn + json list" where
  "proposal_tools LL = bind_r (stop_tool_definition LL) (\<lambda>stop.
     bind_r (domain_tool_definitions LL) (\<lambda>tools. Inr (stop # tools)))"

section \<open>The provider's answers\<close>

text \<open>
  \<open>AIMessage\<close>, as far as the adapter reads it: the content is a text or a list of blocks, the
  tool calls the client could and could not parse, and the usage, if the provider reported any.
\<close>

record provider_call =
  pc_name :: string
  pc_args :: "json pydict"
  pc_id :: "string option"

record invalid_call =
  ic_name :: "string option"
  ic_error :: "string option"

record ai_message =
  am_content :: json
  am_tool_calls :: "provider_call list"
  am_invalid_tool_calls :: "invalid_call list"
  am_usage_metadata :: "model_usage option"

text \<open>\<open>value or default\<close>: an absent or empty text gives the default.\<close>

definition or_default :: "string option \<Rightarrow> string \<Rightarrow> string" where
  "or_default v d = (case v of Some (c # cs) \<Rightarrow> c # cs | _ \<Rightarrow> d)"

definition to_native_tool_call :: "provider_call \<Rightarrow> native_tool_call" where
  "to_native_tool_call call = \<lparr> tc_name = pc_name call, tc_args = pc_args call,
     tc_id = or_default (pc_id call) ''missing-call-id'' \<rparr>"

text \<open>
  \<open>block.get("type") not in {...}\<close>: looking an unhashable value (a list or a dict) up in a set
  raises \<open>TypeError\<close>. \<open>any\<close> stops at the first block that is visible.
\<close>

definition allowed_block_types :: "json list" where
  "allowed_block_types = [JStr ''tool_use'', JStr ''thinking'', JStr ''redacted_thinking'']"

fun block_visible :: "json \<Rightarrow> exn + bool" where
  "block_visible (JObj d) = (case dict_get d ''type'' of
       None \<Rightarrow> Inr True
     | Some (JList _) \<Rightarrow> Inl TypeError
     | Some (JObj _) \<Rightarrow> Inl TypeError
     | Some t \<Rightarrow> Inr (t \<notin> set allowed_block_types))"
| "block_visible _ = Inr True"

fun any_visible :: "json list \<Rightarrow> exn + bool" where
  "any_visible [] = Inr False"
| "any_visible (b # bs) = bind_r (block_visible b) (\<lambda>v. if v then Inr True else any_visible bs)"

definition has_visible_content :: "json \<Rightarrow> exn + bool" where
  "has_visible_content content =
     (if content = JStr [] \<or> content = JList [] then Inr False
      else case content of JList blocks \<Rightarrow> any_visible blocks | _ \<Rightarrow> Inr True)"

definition malformed_reasons :: "invalid_call list \<Rightarrow> string" where
  "malformed_reasons calls = ''malformed tool call(s): '' @ py_join ''; ''
     (map (\<lambda>c. or_default (ic_name c) ''<unnamed>'' @ '': '' @ or_default (ic_error c) ''unparseable'') calls)"

section \<open>Sending\<close>

text \<open>
  What the adapter is built with. The client takes the system text, the human text and the
  bound tools, and answers or raises; its state is of arbitrary type.
\<close>

record 'p live_claude_model =
  lm_libs :: live_libs
  lm_ceiling_usd :: pyfloat
  lm_pricing :: pricing_snapshot
  lm_credential_present :: bool
  lm_client :: "string \<Rightarrow> string \<Rightarrow> json list \<Rightarrow> 'p \<Rightarrow> (exn + ai_message) \<times> 'p"

text \<open>
  The world of the adapter. \<open>lw_faults n\<close> says where SQLite raises in the \<open>n\<close>-th ledger
  operation; \<open>lw_sent\<close> is the history of the calls of \<open>invoke\<close>, by request key, newest last.
\<close>

record 'p live_world =
  lw_table :: cost_table
  lw_faults :: "nat \<Rightarrow> db_faults"
  lw_ops :: nat
  lw_clock_at :: "nat \<Rightarrow> instant"
  lw_clock_n :: nat
  lw_provider :: 'p
  lw_sent :: "request_key list"

definition live_clock :: "'p live_world \<Rightarrow> instant \<times> 'p live_world" where
  "live_clock w = (lw_clock_at w (lw_clock_n w), w\<lparr>lw_clock_n := Suc (lw_clock_n w)\<rparr>)"

text \<open>One ledger operation on the adapter's connection.\<close>

definition ledger_op :: "(db_faults \<Rightarrow> cost_table \<Rightarrow> 'r \<times> cost_table) \<Rightarrow> 'p live_world \<Rightarrow> 'r \<times> 'p live_world" where
  "ledger_op f w = (case f (lw_faults w (lw_ops w)) (lw_table w) of (r, t) \<Rightarrow>
     (r, w\<lparr>lw_table := t, lw_ops := Suc (lw_ops w)\<rparr>))"

definition request_key :: "model_request \<Rightarrow> request_key" where
  "request_key request = (mr_run_id request, mr_graph_phase request, mr_model_turn request,
     mr_context_digest request)"

definition invoke :: "'p live_claude_model \<Rightarrow> model_request \<Rightarrow> string \<Rightarrow> json list \<Rightarrow> 'p live_world \<Rightarrow>
    (exn + ai_message) \<times> 'p live_world" where
  "invoke m request content tools w =
     (case lm_client m (mr_system_text request) content tools (lw_provider w) of (r, p) \<Rightarrow>
        (r, w\<lparr>lw_provider := p, lw_sent := lw_sent w @ [request_key request]\<rparr>))"

abbreviation MissingCredential :: exn where
  "MissingCredential \<equiv> OtherError ''MissingCredential''"

abbreviation MissingProviderUsage :: exn where
  "MissingProviderUsage \<equiv> OtherError ''MissingProviderUsage''"

text \<open>The human message; an empty \<open>repair_errors\<close> is falsy and adds nothing.\<close>

definition human_content :: "model_request \<Rightarrow> string" where
  "human_content request = (case mr_repair_errors request of
       Some (c # cs) \<Rightarrow> mr_context_text request @ newline @ newline @ ''## Correction needed'' @ newline @ c # cs
     | _ \<Rightarrow> mr_context_text request)"

definition prose_tokens :: "model_request \<Rightarrow> int" where
  "prose_tokens request = estimate_input_tokens (mr_system_text request @ human_content request)"

definition tool_tokens :: "live_libs \<Rightarrow> json list \<Rightarrow> int" where
  "tool_tokens LL tools =
     estimate_input_tokens (json_dumps (float_repr (ll_libs LL)) '', '' '': '' (JList tools))"

definition request_reservation :: "'p live_claude_model \<Rightarrow> model_request \<Rightarrow> json list \<Rightarrow> pyfloat" where
  "request_reservation m request tools =
     reservation_usd (lm_pricing m) (prose_tokens request + tool_tokens (lm_libs m) tools) MAX_OUTPUT_TOKENS"

text \<open>The end of \<open>_send\<close>: the usage the provider reported is settled.\<close>

definition settle_message :: "'p live_claude_model \<Rightarrow> model_request \<Rightarrow> ai_message \<Rightarrow> 'p live_world \<Rightarrow>
    (exn + ai_message) \<times> 'p live_world" where
  "settle_message m request message w =
     (case am_usage_metadata message of
        None \<Rightarrow> (Inl MissingProviderUsage, w)
      | Some usage \<Rightarrow>
        (case live_clock w of (settled_at, w1) \<Rightarrow>
         case ledger_op (\<lambda>flt t. settle_reservation flt t (request_key request)
                (actual_cost_usd (lm_pricing m) (input_tokens usage) (output_tokens usage))
                (input_tokens usage) (output_tokens usage) settled_at) w1 of
           (Inl e, w2) \<Rightarrow> (Inl e, w2)
         | (Inr _, w2) \<Rightarrow> (Inr message, w2)))"

definition send :: "'p live_claude_model \<Rightarrow> model_request \<Rightarrow> json list \<Rightarrow> 'p live_world \<Rightarrow>
    (exn + ai_message) \<times> 'p live_world" where
  "send m request tools w =
     (if \<not> lm_credential_present m then (Inl MissingCredential, w)
      else if MAX_INPUT_TOKENS < prose_tokens request then (Inl InputTooLarge, w)
      else case live_clock w of (requested_at, w1) \<Rightarrow>
      case ledger_op (\<lambda>flt t. record_reservation_before_request flt t (request_key request)
             (request_reservation m request tools) requested_at (lm_ceiling_usd m)) w1 of
        (Inl e, w2) \<Rightarrow> (Inl e, w2)
      | (Inr (reservation, is_new), w2) \<Rightarrow>
        if \<not> is_new then (Inl AmbiguousReservationNotResent, w2)
        else case invoke m request (human_content request) tools w2 of
          (Inl e, w3) \<Rightarrow> (Inl e, w3)
        | (Inr message, w3) \<Rightarrow> settle_message m request message w3)"

text \<open>\<open>_usage\<close> asserts that the settled message has usage.\<close>

definition message_usage :: "ai_message \<Rightarrow> exn + model_usage" where
  "message_usage message = (case am_usage_metadata message of
     None \<Rightarrow> Inl AssertionError | Some u \<Rightarrow> Inr u)"

section \<open>Tool-input records\<close>

text \<open>The constraints the classes declare, checked on fields of the right types.\<close>

definition hypothesis_valid :: "hypothesis \<Rightarrow> bool" where
  "hypothesis_valid h \<longleftrightarrow> 1 \<le> h_rank h \<and> length (h_missing_evidence h) \<le> 300"

definition hypotheses_valid :: "hypothesis list \<Rightarrow> bool" where
  "hypotheses_valid hs \<longleftrightarrow> 2 \<le> length hs \<and> length hs \<le> 3 \<and> list_all hypothesis_valid hs"

definition hypotheses_record :: "live_libs \<Rightarrow> json \<Rightarrow> string + hypothesis list" where
  "hypotheses_record LL v = bind_r (hypotheses_fields LL v) (\<lambda>hs.
     if hypotheses_valid hs then Inr hs else Inl (hypotheses_errors LL hs))"

definition stop_record :: "live_libs \<Rightarrow> json pydict \<Rightarrow> string + hypothesis list \<times> string" where
  "stop_record LL args = bind_r (stop_fields LL args) (\<lambda>(hs, reason).
     if hypotheses_valid hs \<and> 1 \<le> length reason \<and> length reason \<le> 600
     then Inr (hs, reason) else Inl (stop_errors LL (hs, reason)))"

section \<open>Decoding an answer\<close>

text \<open>\<open>parse_response\<close> for \<open>InitialPlan\<close> and \<open>HypothesisUpdate\<close>.\<close>

definition parse_plan :: "live_libs \<Rightarrow> json pydict \<Rightarrow> stage_plan option \<times> string" where
  "parse_plan LL content = (case plan_fields LL content of
       Inl errors \<Rightarrow> (None, errors)
     | Inr plan \<Rightarrow> (case stage_plan_validate plan of
           Inl _ \<Rightarrow> (None, plan_errors LL plan)
         | Inr plan' \<Rightarrow> (Some plan', [])))"

definition proposal_dump :: "libs \<Rightarrow> tool_proposal \<Rightarrow> json" where
  "proposal_dump L p = JObj [(''arguments'', JObj (args_model_dump L (tp_arguments p))),
     (''evidence_gap'', JStr (tp_evidence_gap p)),
     (''expected_observation'', JStr (tp_expected_observation p))]"

definition plan_payload :: "libs \<Rightarrow> hypothesis list \<Rightarrow> tool_proposal option \<Rightarrow> string option \<Rightarrow> json pydict" where
  "plan_payload L hypotheses proposal stop_reason =
     [(''hypotheses'', JList (map (hypothesis_model_dump L) hypotheses)),
      (''proposal'', case proposal of None \<Rightarrow> JNull | Some p \<Rightarrow> proposal_dump L p),
      (''stop_reason'', case stop_reason of None \<Rightarrow> JNull | Some r \<Rightarrow> JStr r)]"

definition finish_plan :: "live_libs \<Rightarrow> hypothesis list \<Rightarrow> tool_proposal option \<Rightarrow> string option \<Rightarrow>
    stage_plan option \<times> string" where
  "finish_plan LL hypotheses proposal stop_reason =
     parse_plan LL (plan_payload (ll_libs LL) hypotheses proposal stop_reason)"

definition refused_turn :: "model_usage \<Rightarrow> string \<Rightarrow> native_tool_call proposed_turn" where
  "refused_turn usage errors = \<lparr> pt_parsed = None, pt_errors = errors, pt_tool_call = [], pt_usage = Some usage \<rparr>"

definition refused_response :: "model_usage \<Rightarrow> string \<Rightarrow> model_response" where
  "refused_response usage errors = \<lparr> resp_content = [], resp_usage = Some usage, resp_errors = errors \<rparr>"

definition wrong_call_count :: "nat \<Rightarrow> string" where
  "wrong_call_count n = ''the model called '' @ show_nat n @ '' tools in one turn; exactly one is required''"

abbreviation visible_text_error :: string where
  "visible_text_error \<equiv> ''tool-call response must not include visible text''"

text \<open>The body of \<open>propose\<close> once exactly one tool call is known to exist.\<close>

definition decode_proposal_call :: "live_libs \<Rightarrow> model_usage \<Rightarrow> provider_call \<Rightarrow> native_tool_call proposed_turn" where
  "decode_proposal_call LL usage call =
     (if pc_name call = RECORD_STOP_TOOL_NAME then
        (case stop_record LL (pc_args call) of
           Inl errors \<Rightarrow> refused_turn usage errors
         | Inr (hypotheses, reason) \<Rightarrow>
             (case finish_plan LL hypotheses None (Some reason) of (parsed, errors) \<Rightarrow>
                \<lparr> pt_parsed = parsed, pt_errors = errors, pt_tool_call = [], pt_usage = Some usage \<rparr>))
      else if tool_of_value (pc_name call) = None then
        refused_turn usage (''unknown proposal tool '' @ py_repr (pc_name call))
      else let native_call = to_native_tool_call call in
        (case parse_tool_call (ll_libs LL) native_call of
           (None, reason) \<Rightarrow> refused_turn usage reason
         | (Some proposal, _) \<Rightarrow>
             (case hypotheses_record LL (case dict_get (pc_args call) ''hypotheses'' of
                  None \<Rightarrow> JNull | Some v \<Rightarrow> v) of
                Inl errors \<Rightarrow> refused_turn usage errors
              | Inr hypotheses \<Rightarrow>
                  (case finish_plan LL hypotheses (Some proposal) None of (parsed, errors) \<Rightarrow>
                     \<lparr> pt_parsed = parsed, pt_errors = errors, pt_tool_call = [native_call],
                       pt_usage = Some usage \<rparr>))))"

definition decode_proposal :: "live_libs \<Rightarrow> ai_message \<Rightarrow> exn + native_tool_call proposed_turn" where
  "decode_proposal LL message =
     bind_r (message_usage message) (\<lambda>usage.
     bind_r (has_visible_content (am_content message)) (\<lambda>visible.
       Inr (if visible then refused_turn usage visible_text_error
            else if am_invalid_tool_calls message \<noteq> []
              then refused_turn usage (malformed_reasons (am_invalid_tool_calls message))
            else case am_tool_calls message of
              [call] \<Rightarrow> decode_proposal_call LL usage call
            | calls \<Rightarrow> refused_turn usage (wrong_call_count (length calls)))))"

definition decode_assessment_call :: "model_usage \<Rightarrow> provider_call \<Rightarrow> model_response" where
  "decode_assessment_call usage call =
     (if pc_name call \<noteq> RECORD_FINAL_ASSESSMENT_TOOL_NAME then
        refused_response usage (''expected '' @ RECORD_FINAL_ASSESSMENT_TOOL_NAME @ '', got '' @ pc_name call)
      else if ''schema_version'' \<in> set (dict_keys (pc_args call)) then
        refused_response usage ''schema_version is set by the application; do not send it''
      else \<lparr> resp_content = dict_set ''schema_version'' (JStr SCHEMA_VERSION) (pc_args call),
             resp_usage = Some usage, resp_errors = [] \<rparr>)"

definition decode_assessment :: "ai_message \<Rightarrow> exn + model_response" where
  "decode_assessment message =
     bind_r (message_usage message) (\<lambda>usage.
     bind_r (has_visible_content (am_content message)) (\<lambda>visible.
       Inr (if visible then refused_response usage visible_text_error
            else if am_invalid_tool_calls message \<noteq> []
              then refused_response usage (malformed_reasons (am_invalid_tool_calls message))
            else case am_tool_calls message of
              [call] \<Rightarrow> decode_assessment_call usage call
            | calls \<Rightarrow> refused_response usage (wrong_call_count (length calls)))))"

section \<open>The two operations the graph calls\<close>

text \<open>The tools are built, the request is sent, the answer is decoded; any of the three may raise.\<close>

definition live_turn :: "(exn + json list) \<Rightarrow> (ai_message \<Rightarrow> exn + 'r) \<Rightarrow> 'p live_claude_model \<Rightarrow> model_request \<Rightarrow>
    'p live_world \<Rightarrow> (exn + 'r) \<times> 'p live_world" where
  "live_turn built decode m request w = (case built of
       Inl e \<Rightarrow> (Inl e, w)
     | Inr tools \<Rightarrow> (case send m request tools w of
           (Inl e, w') \<Rightarrow> (Inl e, w')
         | (Inr message, w') \<Rightarrow> (decode message, w')))"

definition live_respond :: "'p live_claude_model \<Rightarrow> model_request \<Rightarrow> 'p live_world \<Rightarrow>
    (exn + model_response) \<times> 'p live_world" where
  "live_respond m request w =
     live_turn (bind_r (final_assessment_tool_definition (lm_libs m)) (\<lambda>d. Inr [d])) decode_assessment m request w"

definition live_propose :: "'p live_claude_model \<Rightarrow> model_request \<Rightarrow> 'p live_world \<Rightarrow>
    (exn + native_tool_call proposed_turn) \<times> 'p live_world" where
  "live_propose m request w =
     live_turn (proposal_tools (lm_libs m)) (decode_proposal (lm_libs m)) m request w"

text \<open>The adapter as the model the graph is configured with.\<close>

definition live_claude :: "'p live_claude_model \<Rightarrow> 'p live_world tool_calling_model" where
  "live_claude m = \<lparr> propose = live_propose m, respond = live_respond m \<rparr>"

section \<open>Bounds on a reservation\<close>

definition maximum_possible_reservation_usd :: "live_libs \<Rightarrow> pricing_snapshot \<Rightarrow> exn + pyfloat" where
  "maximum_possible_reservation_usd LL pricing =
     bind_r (proposal_tools LL) (\<lambda>tools.
       Inr (reservation_usd pricing (MAX_INPUT_TOKENS + tool_tokens LL tools) MAX_OUTPUT_TOKENS))"

text \<open>
  The probe behind \<open>minimum_possible_reservation_usd\<close>: a transport that never leaves the
  process, and the smallest real final-assessment request.
\<close>

definition probe_transport :: "string \<Rightarrow> string \<Rightarrow> json list \<Rightarrow> unit \<Rightarrow> (exn + ai_message) \<times> unit" where
  "probe_transport system_text content tools p =
     (Inr \<lparr> am_content = JStr [], am_tool_calls = [], am_invalid_tool_calls = [],
            am_usage_metadata = Some \<lparr> input_tokens = 0, output_tokens = 0 \<rparr> \<rparr>, p)"

definition MINIMUM_RESERVATION_PROBE_RUN_ID :: string where
  "MINIMUM_RESERVATION_PROBE_RUN_ID = ''minimum-reservation-probe''"

text \<open>1 January 2026, midnight UTC, in microseconds; the window is one minute.\<close>

definition probe_scope :: incident_scope where
  "probe_scope = \<lparr> sc_incident_id = MINIMUM_RESERVATION_PROBE_RUN_ID, sc_environment = ''local-lab'',
     sc_services = [''service''], sc_started_at = 1767225600000000, sc_ended_at = 1767225660000000,
     sc_endpoint = ''/'' \<rparr>"

definition probe_packet :: initial_alert_packet where
  "probe_packet = \<lparr> pk_incident_id = sc_incident_id probe_scope,
     pk_window_start = sc_started_at probe_scope, pk_window_end = sc_ended_at probe_scope,
     pk_endpoint = sc_endpoint probe_scope, pk_symptom = ELEVATED_LATENCY,
     pk_services = sc_services probe_scope, pk_alerted_at = sc_started_at probe_scope,
     pk_alert_source_version = ''probe'', pk_symptom_evidence_id = ''probe-symptom'',
     pk_topology_evidence_id = ''probe-topology'' \<rparr>"

definition build_minimum_final_assessment_request :: "libs \<Rightarrow> model_request" where
  "build_minimum_final_assessment_request L =
     (let budgets = DEFAULT_BUDGETS; model_calls_used = 1;
          context_text = render_context probe_packet probe_scope [] []
            (b_model_calls budgets - model_calls_used) (b_executed_tools budgets) [] []
            (b_runbook_searches budgets)
            @ newline @ newline @ ''## Task'' @ newline @ STAGE_INSTRUCTIONS STAGE_FINAL_ASSESSMENT
      in \<lparr> mr_stage = STAGE_FINAL_ASSESSMENT, mr_system_text = SYSTEM_TEXT,
           mr_context_text = context_text, mr_repair_errors = None,
           mr_run_id = MINIMUM_RESERVATION_PROBE_RUN_ID, mr_graph_phase = ''FINAL_ASSESSMENT'',
           mr_model_turn = model_calls_used,
           mr_context_digest = digest_text L (SYSTEM_TEXT @ context_text) \<rparr>)"

definition probe_model :: "live_libs \<Rightarrow> pricing_snapshot \<Rightarrow> unit live_claude_model" where
  "probe_model LL pricing = \<lparr> lm_libs = LL, lm_ceiling_usd = Fin 1000000, lm_pricing = pricing,
     lm_credential_present = True, lm_client = probe_transport \<rparr>"

text \<open>The in-memory database starts empty; the final \<open>SELECT\<close> is the row of the probe's own run.\<close>

definition minimum_possible_reservation_usd ::
    "live_libs \<Rightarrow> (nat \<Rightarrow> db_faults) \<Rightarrow> (nat \<Rightarrow> instant) \<Rightarrow> pricing_snapshot \<Rightarrow> exn + pyfloat" where
  "minimum_possible_reservation_usd LL faults clock pricing =
     (let request = build_minimum_final_assessment_request (ll_libs LL) in
      case live_respond (probe_model LL pricing) request
          \<lparr> lw_table = [], lw_faults = faults, lw_ops = 0, lw_clock_at = clock, lw_clock_n = 0,
            lw_provider = (), lw_sent = [] \<rparr> of
        (Inl e, _) \<Rightarrow> Inl e
      | (Inr _, w) \<Rightarrow> (case find (\<lambda>r. cl_run_id r = mr_run_id request) (lw_table w) of
            None \<Rightarrow> Inl AssertionError
          | Some row \<Rightarrow> Inr (cl_reserved_usd row)))"

end
