(* ===== verification/LiveProps.thy ===== *)
theory LiveProps
  imports LiveModel
begin

text \<open>
  The money path of the live adapter. A send is analysed once (\<open>send_cases\<close>): it is refused with
  nothing sent, or the provider was called under a new reservation that is settled or left in
  place. From it: no request is sent twice, every request sent is on the ledger, and the spend
  stays below the ceiling for a provider that keeps to the token bounds it was given.
\<close>

section \<open>Cost arithmetic\<close>

lemma wf_float_inf [simp]: "wf_float PosInf" "wf_float NegInf" "wf_float NaN"
  by (simp_all add: wf_float_def)

lemma wf_f_mul: "wf_float (f_mul_fin v q)"
  by (cases v) auto

lemma wf_f_add: "wf_float a \<Longrightarrow> wf_float b \<Longrightarrow> wf_float (f_add a b)"
  by (cases a; cases b) auto

lemma wf_costs [simp]: "wf_float (reservation_usd ps i n)" "wf_float (actual_cost_usd ps i n)"
  by (simp_all add: reservation_usd_def actual_cost_usd_def token_cost_def wf_f_mul wf_f_add)

text \<open>\<open>PricingSnapshot\<close> declares both rates \<open>gt=0\<close>.\<close>

definition pricing_ok :: "pricing_snapshot \<Rightarrow> bool" where
  "pricing_ok ps \<longleftrightarrow> 0 < ps_input_usd_per_million_tokens ps \<and> 0 < ps_output_usd_per_million_tokens ps"

text \<open>A bill within the two token bounds is at most the reservation for those bounds.\<close>

lemma reservation_covers_bill:
  assumes "pricing_ok ps" "0 \<le> i" "i \<le> i'" "0 \<le> n" "n \<le> n'"
  shows "f_le (actual_cost_usd ps i n) (reservation_usd ps i' n')"
  unfolding actual_cost_usd_def reservation_usd_def
  using assms by (intro f_add_mono token_cost_nonneg token_cost_mono) (auto simp: pricing_ok_def)

lemma reservation_mono:
  assumes "pricing_ok ps" "0 \<le> i" "i \<le> i'" "0 \<le> n"
  shows "f_le (reservation_usd ps i n) (reservation_usd ps i' n)"
  using reservation_covers_bill [OF assms order_refl] by (simp add: actual_cost_usd_def reservation_usd_def)

lemma f_le_not_lt: "f_le a b \<Longrightarrow> \<not> f_lt b a"
  by (cases a; cases b) (auto simp: f_le_def)

lemma estimate_nonneg [simp]: "0 \<le> estimate_input_tokens s"
  by (simp add: estimate_input_tokens_def)

section \<open>The interface to the ledger\<close>

text \<open>
  What the adapter needs of a ledger to send each request at most once: a key reported as new was
  not known before and is known afterwards, and no operation forgets a key.
\<close>

locale request_ledger =
  fixes ok :: "'t \<Rightarrow> bool" and known :: "'t \<Rightarrow> 'k set"
    and reserve :: "'a \<Rightarrow> 't \<Rightarrow> 'k \<Rightarrow> (exn + 'r \<times> bool) \<times> 't" and amount :: "'a \<Rightarrow> bool"
    and settle :: "'b \<Rightarrow> 't \<Rightarrow> 'k \<Rightarrow> (exn + 'r) \<times> 't" and bill :: "'b \<Rightarrow> bool"
  assumes reserve_ok: "ok t \<Longrightarrow> amount a \<Longrightarrow> reserve a t k = (res, t') \<Longrightarrow> ok t'"
    and reserve_known: "ok t \<Longrightarrow> amount a \<Longrightarrow> reserve a t k = (res, t') \<Longrightarrow> known t \<subseteq> known t'"
    and reserve_new: "ok t \<Longrightarrow> amount a \<Longrightarrow> reserve a t k = (Inr (row, True), t') \<Longrightarrow>
      k \<notin> known t \<and> k \<in> known t'"
    and settle_ok: "ok t \<Longrightarrow> bill b \<Longrightarrow> settle b t k = (res', t') \<Longrightarrow> ok t'"
    and settle_known: "ok t \<Longrightarrow> bill b \<Longrightarrow> settle b t k = (res', t') \<Longrightarrow> known t \<subseteq> known t'"
begin

definition accounted :: "'k list \<Rightarrow> 't \<Rightarrow> bool" where
  "accounted sent t \<longleftrightarrow> ok t \<and> distinct sent \<and> set sent \<subseteq> known t"

lemma accounted_reserve:
  "accounted sent t \<Longrightarrow> amount a \<Longrightarrow> reserve a t k = (res, t') \<Longrightarrow> accounted sent t'"
  unfolding accounted_def by (meson reserve_ok reserve_known subset_trans)

lemma accounted_settle:
  "accounted sent t \<Longrightarrow> bill b \<Longrightarrow> settle b t k = (res, t') \<Longrightarrow> accounted sent t'"
  unfolding accounted_def by (meson settle_ok settle_known subset_trans)

lemma accounted_send:
  assumes "accounted sent t" and "amount a" and "reserve a t k = (Inr (row, True), t')"
  shows "accounted (sent @ [k]) t'"
  using accounted_reserve [OF assms] reserve_new [OF _ assms(2,3)] assms(1) by (auto simp: accounted_def)

end

lemma keys_update: "row_key ` set (update_reserved key (settle_row a i n tm) t) = row_key ` set t"
  using map_key_update [of "settle_row a i n tm" key t] by (metis list.set_map settle_row_simps(1))

lemma reservation_keeps:
  assumes "table_ok t" "wf_float r" "record_reservation_before_request flt t key r tm ceil = (res, t')"
  shows "table_ok t' \<and> row_key ` set t \<subseteq> row_key ` set t'
    \<and> (\<forall>row. res = Inr (row, True) \<longrightarrow> key \<notin> row_key ` set t \<and> key \<in> row_key ` set t')"
  using assms
proof (cases rule: reservation_outcome)
  case unchanged
  with assms(1) show ?thesis by blast
next
  case inserted
  then show ?thesis by auto
qed

lemma settlement_keeps:
  assumes "table_ok t" "wf_float a" "settle_reservation flt t key a i n tm = (res, t')"
  shows "table_ok t' \<and> row_key ` set t' = row_key ` set t"
  using assms
proof (cases rule: settlement_outcome)
  case unchanged
  with assms(1) show ?thesis by blast
next
  case settled
  then show ?thesis by (simp add: keys_update)
qed

interpretation cost: request_ledger table_ok "\<lambda>t. row_key ` set t"
    "\<lambda>(flt, r, tm, ceil) t k. record_reservation_before_request flt t k r tm ceil"
    "\<lambda>(flt, r, tm, ceil). wf_float r"
    "\<lambda>(flt, a, i, n, tm) t k. settle_reservation flt t k a i n tm"
    "\<lambda>(flt, a, i, n, tm). wf_float a"
proof (unfold_locales, goal_cases)
  case (1 t a k res t')
  obtain flt r tm ceil where "a = (flt, r, tm, ceil)" by (rule prod_cases4)
  with 1 reservation_keeps [of t r flt k tm ceil _ t'] show ?case by fastforce
next
  case (2 t a k res t')
  obtain flt r tm ceil where "a = (flt, r, tm, ceil)" by (rule prod_cases4)
  with 2 reservation_keeps [of t r flt k tm ceil _ t'] show ?case by fastforce
next
  case (3 t a k row t')
  obtain flt r tm ceil where "a = (flt, r, tm, ceil)" by (rule prod_cases4)
  with 3 reservation_keeps [of t r flt k tm ceil _ t'] show ?case by fastforce
next
  case (4 t a k res t')
  obtain flt c i n tm where "a = (flt, c, i, n, tm)" by (rule prod_cases5)
  with 4 settlement_keeps [of t c flt k i n tm _ t'] show ?case by fastforce
next
  case (5 t a k res t')
  obtain flt c i n tm where "a = (flt, c, i, n, tm)" by (rule prod_cases5)
  with 5 settlement_keeps [of t c flt k i n tm _ t'] show ?case by fastforce
qed

section \<open>What a send does\<close>

text \<open>What happens once the provider was called, by what it answered.\<close>

definition after_call :: "'p live_claude_model \<Rightarrow> model_request \<Rightarrow> cost_table \<Rightarrow> (exn + ai_message) \<Rightarrow>
    (exn + ai_message) \<Rightarrow> cost_table \<Rightarrow> bool" where
  "after_call m request t answer r t' \<longleftrightarrow> (case answer of
       Inl e \<Rightarrow> r = Inl e \<and> t' = t
     | Inr message \<Rightarrow> (case am_usage_metadata message of
         None \<Rightarrow> r = Inl MissingProviderUsage \<and> t' = t
       | Some u \<Rightarrow> (\<exists>flt tm sres.
           settle_reservation flt t (request_key request)
             (actual_cost_usd (lm_pricing m) (input_tokens u) (output_tokens u))
             (input_tokens u) (output_tokens u) tm = (sres, t')
           \<and> r = map_sum id (\<lambda>_. message) sres)))"

lemma settle_message_after_call:
  assumes "settle_message m request message w = (r, w')"
  shows "after_call m request (lw_table w) (Inr message) r (lw_table w')
    \<and> lw_sent w' = lw_sent w \<and> lw_provider w' = lw_provider w"
proof (cases "am_usage_metadata message")
  case None
  with assms show ?thesis by (auto simp: settle_message_def after_call_def)
next
  case (Some u)
  obtain sres t where run: "settle_reservation (lw_faults w (lw_ops w)) (lw_table w) (request_key request)
      (actual_cost_usd (lm_pricing m) (input_tokens u) (output_tokens u))
      (input_tokens u) (output_tokens u) (lw_clock_at w (lw_clock_n w)) = (sres, t)" by (meson surj_pair)
  have "r = map_sum id (\<lambda>_. message) sres \<and> lw_table w' = t \<and> lw_sent w' = lw_sent w
      \<and> lw_provider w' = lw_provider w"
    using assms run by (cases sres) (auto simp: settle_message_def Some live_clock_def ledger_op_def)
  with run show ?thesis by (auto simp: after_call_def Some)
qed

lemma send_cases:
  assumes "send m request tools w = (r, w')"
  obtains (refused) e where "lw_table w' = lw_table w" "lw_sent w' = lw_sent w"
      "lw_provider w' = lw_provider w" "r = Inl e"
  | (unreserved) flt tm res e where
      "record_reservation_before_request flt (lw_table w) (request_key request)
         (request_reservation m request tools) tm (lm_ceiling_usd m) = (res, lw_table w')"
      "\<forall>row. res \<noteq> Inr (row, True)" "prose_tokens request \<le> MAX_INPUT_TOKENS"
      "lw_sent w' = lw_sent w" "lw_provider w' = lw_provider w" "r = Inl e"
  | (sent) flt tm row t answer where
      "record_reservation_before_request flt (lw_table w) (request_key request)
         (request_reservation m request tools) tm (lm_ceiling_usd m) = (Inr (row, True), t)"
      "prose_tokens request \<le> MAX_INPUT_TOKENS"
      "lm_client m (mr_system_text request) (human_content request) tools (lw_provider w)
         = (answer, lw_provider w')"
      "lw_sent w' = lw_sent w @ [request_key request]"
      "after_call m request t answer r (lw_table w')"
proof (cases "lm_credential_present m \<and> prose_tokens request \<le> MAX_INPUT_TOKENS")
  case False
  with assms show thesis by (auto simp: send_def split: if_splits intro: refused)
next
  case True
  define tm where "tm = lw_clock_at w (lw_clock_n w)"
  define flt where "flt = lw_faults w (lw_ops w)"
  define w1 where "w1 = w\<lparr>lw_clock_n := Suc (lw_clock_n w)\<rparr>"
  obtain res t where run: "record_reservation_before_request flt (lw_table w) (request_key request)
      (request_reservation m request tools) tm (lm_ceiling_usd m) = (res, t)" by (meson surj_pair)
  define w2 where "w2 = w1\<lparr>lw_table := t, lw_ops := Suc (lw_ops w)\<rparr>"
  have w2: "lw_table w2 = t" "lw_sent w2 = lw_sent w" "lw_provider w2 = lw_provider w"
    by (simp_all add: w2_def w1_def)
  have eq: "send m request tools w = (case res of
        Inl e \<Rightarrow> (Inl e, w2)
      | Inr (reservation, is_new) \<Rightarrow>
        if \<not> is_new then (Inl AmbiguousReservationNotResent, w2)
        else case invoke m request (human_content request) tools w2 of
          (Inl e, w3) \<Rightarrow> (Inl e, w3)
        | (Inr message, w3) \<Rightarrow> settle_message m request message w3)"
  proof -
    have clock: "live_clock w = (tm, w1)" by (simp add: live_clock_def tm_def w1_def)
    have op: "ledger_op (\<lambda>flt t. record_reservation_before_request flt t (request_key request)
        (request_reservation m request tools) tm (lm_ceiling_usd m)) w1 = (res, w2)"
      using run by (simp add: ledger_op_def w1_def w2_def flt_def)
    show ?thesis using True by (simp add: send_def clock op split: sum.splits)
  qed
  show thesis
  proof (cases "\<exists>row. res = Inr (row, True)")
    case False
    then obtain e where "w' = w2" "r = Inl e"
      using assms unfolding eq by (auto split: sum.splits if_splits prod.splits)
    with True False run w2 show thesis by (intro unreserved [of flt tm res e]) auto
  next
    case new: True
    then obtain row where row: "res = Inr (row, True)" by blast
    obtain answer p where client: "lm_client m (mr_system_text request) (human_content request) tools
        (lw_provider w) = (answer, p)" by (meson surj_pair)
    define w3 where "w3 = w2\<lparr>lw_provider := p, lw_sent := lw_sent w @ [request_key request]\<rparr>"
    have w3: "lw_table w3 = t" "lw_sent w3 = lw_sent w @ [request_key request]" "lw_provider w3 = p"
      by (simp_all add: w3_def w2)
    have inv: "invoke m request (human_content request) tools w2 = (answer, w3)"
      by (simp add: invoke_def w2 client w3_def)
    from assms have out: "(case answer of Inl e \<Rightarrow> (Inl e, w3) | Inr message \<Rightarrow> settle_message m request message w3)
        = (r, w')" by (simp add: eq row inv split: sum.splits)
    have "lw_sent w' = lw_sent w3 \<and> lw_provider w' = lw_provider w3
        \<and> after_call m request t answer r (lw_table w')"
    proof (cases answer)
      case (Inl e)
      with out w3 show ?thesis by (auto simp: after_call_def)
    next
      case (Inr message)
      with out settle_message_after_call [of m request message w3 r w'] w3 show ?thesis by simp
    qed
    with True client run row w3 show thesis by (intro sent) auto
  qed
qed

text \<open>The ledger after the provider was called is the reserved one, settled or not.\<close>

lemma after_call_ledger:
  assumes "after_call m request t answer r t'"
  obtains "t' = t" | flt a i n tm sres where "wf_float a"
    "settle_reservation flt t (request_key request) a i n tm = (sres, t')"
  using assms by (force simp: after_call_def split: sum.splits option.splits)

lemma send_accounted:
  assumes acc: "cost.accounted (lw_sent w) (lw_table w)" and run: "send m request tools w = (r, w')"
  shows "cost.accounted (lw_sent w') (lw_table w')"
  using run
proof (cases rule: send_cases)
  case refused
  with acc show ?thesis by simp
next
  case (unreserved flt tm res e)
  with cost.accounted_reserve [OF acc, of "(flt, request_reservation m request tools, tm, lm_ceiling_usd m)"]
  show ?thesis by (simp add: request_reservation_def)
next
  case (sent flt tm row t answer)
  with cost.accounted_send [OF acc, of "(flt, request_reservation m request tools, tm, lm_ceiling_usd m)"]
  have t: "cost.accounted (lw_sent w') t" by (simp add: request_reservation_def)
  from sent(5) show ?thesis
  proof (cases rule: after_call_ledger)
    case (2 flt a i n tm sres)
    with cost.accounted_settle [OF t, of "(flt, a, i, n, tm)"] show ?thesis by simp
  qed (use t in simp)
qed

section \<open>Histories of the adapter\<close>

text \<open>
  One step of a history: any adapter sends any request (over any faults, clock and provider), or
  another process works on the same ledger. The provider's state is free between steps.
\<close>

inductive live_step :: "'p live_world \<Rightarrow> 'p live_world \<Rightarrow> bool" where
  step_send: "send m request tools w = (r, w') \<Longrightarrow> live_step w w'"
| step_other_reserve:
    "record_reservation_before_request flt (lw_table w) key amt tm ceil = (res, t) \<Longrightarrow> wf_float amt \<Longrightarrow>
     live_step w (w\<lparr>lw_table := t\<rparr>)"
| step_other_settle:
    "settle_reservation flt (lw_table w) key amt i n tm = (res', t) \<Longrightarrow> wf_float amt \<Longrightarrow>
     live_step w (w\<lparr>lw_table := t\<rparr>)"
| step_environment: "live_step w (w\<lparr>lw_provider := p, lw_faults := flts, lw_clock_at := clock\<rparr>)"

interpretation sends: invariant_system live_step "\<lambda>w. cost.accounted (lw_sent w) (lw_table w)"
proof
  fix w w' :: "'a live_world"
  assume "live_step w w'" and acc: "cost.accounted (lw_sent w) (lw_table w)"
  then show "cost.accounted (lw_sent w') (lw_table w')"
  proof (cases rule: live_step.cases)
    case step_send
    with acc show ?thesis by (rule send_accounted)
  next
    case (step_other_reserve flt key amt tm ceil res t)
    with cost.accounted_reserve [OF acc, of "(flt, amt, tm, ceil)"] show ?thesis by simp
  next
    case (step_other_settle flt key amt i n tm res t)
    with cost.accounted_settle [OF acc, of "(flt, amt, i, n, tm)"] show ?thesis by simp
  qed (use acc in simp)
qed

lemma turn_steps: "live_turn built decode m request w = (r, w') \<Longrightarrow> live_step\<^sup>*\<^sup>* w w'"
  by (auto simp: live_turn_def split: sum.splits prod.splits intro: step_send)

section \<open>Spend under a well-behaved provider\<close>

text \<open>
  What the reservation relies on: a token of the request is at least one character of the text
  and of the tool definitions sent, and \<open>max_tokens\<close> bounds the tokens of the answer.
\<close>

definition bills_within_bounds :: "'p live_claude_model \<Rightarrow> bool" where
  "bills_within_bounds m \<longleftrightarrow> (\<forall>system_text content tools p message p' u.
     lm_client m system_text content tools p = (Inr message, p') \<longrightarrow> am_usage_metadata message = Some u \<longrightarrow>
     input_tokens u \<le> estimate_input_tokens (system_text @ content) + tool_tokens (lm_libs m) tools
     \<and> output_tokens u \<le> MAX_OUTPUT_TOKENS)"

lemma reserved_amount:
  assumes "table_ok t" and "record_reservation_before_request flt t key r tm ceil = (Inr (row, True), t')"
    and "wf_float r" and "row' \<in> set t'" and "row_key row' = key"
  shows "cl_reserved_usd row' = r"
  using assms(1,3,2)
proof (cases rule: reservation_outcome)
  case inserted
  with assms(4,5) have "row' = reserved_row key r tm" by (auto simp: image_iff)
  then show ?thesis by simp
qed blast

lemma bill_within_reservation:
  assumes "bills_within_bounds m" and "pricing_ok (lm_pricing m)"
    and "lm_client m (mr_system_text request) (human_content request) tools p = (Inr message, p')"
    and "am_usage_metadata message = Some u" and "0 \<le> input_tokens u" and "0 \<le> output_tokens u"
  shows "\<not> f_lt (request_reservation m request tools)
      (actual_cost_usd (lm_pricing m) (input_tokens u) (output_tokens u))"
proof -
  from assms(1,3,4) have "input_tokens u \<le> prose_tokens request + tool_tokens (lm_libs m) tools"
    "output_tokens u \<le> MAX_OUTPUT_TOKENS" unfolding bills_within_bounds_def prose_tokens_def by blast+
  then show ?thesis unfolding request_reservation_def
    using assms by (intro f_le_not_lt reservation_covers_bill) auto
qed

lemma after_call_cost_step:
  assumes ok: "table_ok t" and call: "after_call m request t answer r t'"
    and bound: "\<And>message u. answer = Inr message \<Longrightarrow> am_usage_metadata message = Some u \<Longrightarrow>
      0 \<le> input_tokens u \<Longrightarrow> 0 \<le> output_tokens u \<Longrightarrow>
      \<forall>row \<in> set t. row_key row = request_key request \<longrightarrow>
        \<not> f_lt (cl_reserved_usd row) (actual_cost_usd (lm_pricing m) (input_tokens u) (output_tokens u))"
  shows "(cost_step ceil)\<^sup>*\<^sup>* t t'"
proof (cases "\<exists>message u. answer = Inr message \<and> am_usage_metadata message = Some u")
  case False
  with call show ?thesis by (auto simp: after_call_def split: sum.splits option.splits)
next
  case True
  then obtain message u where a: "answer = Inr message" "am_usage_metadata message = Some u" by blast
  let ?c = "actual_cost_usd (lm_pricing m) (input_tokens u) (output_tokens u)"
  from call a obtain flt tm sres where run: "settle_reservation flt t (request_key request) ?c
      (input_tokens u) (output_tokens u) tm = (sres, t')" by (auto simp: after_call_def)
  show ?thesis
  proof (cases "0 \<le> input_tokens u \<and> 0 \<le> output_tokens u")
    case True
    with run bound [OF a] have "cost_step ceil t t'" by (intro step_settle_cost) auto
    then show ?thesis by blast
  next
    case False
    with run have "t' = t" by (auto simp: settlement_eq split: if_splits)
    then show ?thesis by simp
  qed
qed

lemma send_cost_steps:
  assumes m: "bills_within_bounds m" "pricing_ok (lm_pricing m)" and ok: "table_ok (lw_table w)"
    and run: "send m request tools w = (r, w')"
  shows "(cost_step (lm_ceiling_usd m))\<^sup>*\<^sup>* (lw_table w) (lw_table w')"
  using run
proof (cases rule: send_cases)
  case refused
  then show ?thesis by simp
next
  case unreserved
  then have "cost_step (lm_ceiling_usd m) (lw_table w) (lw_table w')"
    by (intro step_reserve_cost) (auto simp: request_reservation_def)
  then show ?thesis by blast
next
  case (sent flt tm row t answer)
  have wf: "wf_float (request_reservation m request tools)" by (simp add: request_reservation_def)
  from sent(1) wf have "cost_step (lm_ceiling_usd m) (lw_table w) t" by (rule step_reserve_cost)
  moreover have "(cost_step (lm_ceiling_usd m))\<^sup>*\<^sup>* t (lw_table w')"
    using reservation_keeps [OF ok wf sent(1)] sent(3,5)
    by (intro after_call_cost_step)
      (auto simp: reserved_amount [OF ok sent(1) wf] dest: bill_within_reservation [OF m])
  ultimately show ?thesis by (rule converse_rtranclp_into_rtranclp)
qed

section \<open>Turns of one adapter\<close>

inductive adapter_turn :: "'p live_claude_model \<Rightarrow> 'p live_world \<Rightarrow> 'p live_world \<Rightarrow> bool" for m where
  turn_propose: "live_propose m request w = (r, w') \<Longrightarrow> adapter_turn m w w'"
| turn_respond: "live_respond m request w = (r', w') \<Longrightarrow> adapter_turn m w w'"

lemma turn_send:
  assumes "live_turn built decode m request w = (r, w')"
  obtains "w' = w" | tools r1 where "built = Inr tools" "send m request tools w = (r1, w')"
  using assms by (auto simp: live_turn_def split: sum.splits prod.splits)

lemma adapter_turn_send:
  assumes "adapter_turn m w w'"
  obtains "w' = w" | request tools r where "send m request tools w = (r, w')"
  using assms by cases (auto simp: live_propose_def live_respond_def elim!: turn_send)

lemma turn_below:
  assumes m: "bills_within_bounds m" "pricing_ok (lm_pricing m)" "lm_ceiling_usd m = Fin c"
    and run: "adapter_turn m w w'" and below: "below c (lw_table w)"
  shows "below c (lw_table w')"
  using run
proof (cases rule: adapter_turn_send)
  case (2 request tools r)
  with m below have "(cost_step (Fin c))\<^sup>*\<^sup>* (lw_table w) (lw_table w')"
    by (metis send_cost_steps below_def)
  then show ?thesis using below by (rule gate.inv_reachable)
qed (use below in simp)

section \<open>The largest reservation\<close>

lemma new_reservation_row:
  assumes "table_ok t" "wf_float r" "record_reservation_before_request flt t key r tm ceil = (res, t')"
    and "row \<in> set t'" "row_key row \<notin> row_key ` set t"
  shows "cl_reserved_usd row = r"
  using assms(1-3)
proof (cases rule: reservation_outcome)
  case unchanged
  with assms(4,5) show ?thesis by blast
next
  case inserted
  with assms(4,5) have "row = reserved_row key r tm" by auto
  then show ?thesis by simp
qed

lemma after_call_row:
  assumes "table_ok t" "after_call m request t answer r t'" "row' \<in> set t'"
  shows "\<exists>row \<in> set t. row_key row = row_key row' \<and> cl_reserved_usd row = cl_reserved_usd row'"
  using assms(2)
proof (cases rule: after_call_ledger)
  case (2 flt a i n tm sres)
  from assms(1) 2(1,2) show ?thesis
  proof (cases rule: settlement_outcome)
    case settled
    with assms(3) show ?thesis by (auto simp: update_reserved_def split: if_splits)
  qed (use assms(3) in auto)
qed (use assms(3) in auto)

lemma new_row_reserved:
  assumes ok: "table_ok (lw_table w)" and run: "send m request tools w = (r, w')"
    and row: "row \<in> set (lw_table w')" "row_key row \<notin> row_key ` set (lw_table w)"
  shows "cl_reserved_usd row = request_reservation m request tools \<and> prose_tokens request \<le> MAX_INPUT_TOKENS"
proof -
  have wf: "wf_float (request_reservation m request tools)" by (simp add: request_reservation_def)
  from run show ?thesis
  proof (cases rule: send_cases)
    case refused
    with row show ?thesis by auto
  next
    case unreserved
    with new_reservation_row [OF ok wf] row show ?thesis by blast
  next
    case (sent flt tm row1 t answer)
    from reservation_keeps [OF ok wf sent(1)] after_call_row [OF _ sent(5) row(1)]
    obtain row' where "row' \<in> set t" "row_key row' = row_key row" "cl_reserved_usd row' = cl_reserved_usd row"
      by blast
    with new_reservation_row [OF ok wf sent(1)] row(2) sent(2) show ?thesis by metis
  qed
qed

section \<open>Decoding\<close>

text \<open>What a call carries: hypotheses with a check or with a reason to stop, if it is well formed.\<close>

definition plan_parts :: "live_libs \<Rightarrow> provider_call \<Rightarrow> (hypothesis list \<times> tool_proposal option \<times> string option) option" where
  "plan_parts LL call =
     (if pc_name call = RECORD_STOP_TOOL_NAME then
        (case stop_record LL (pc_args call) of Inl _ \<Rightarrow> None | Inr (hs, reason) \<Rightarrow> Some (hs, None, Some reason))
      else case parse_tool_call (ll_libs LL) (to_native_tool_call call) of
        (None, _) \<Rightarrow> None
      | (Some p, _) \<Rightarrow> (case hypotheses_record LL (case dict_get (pc_args call) ''hypotheses'' of
             None \<Rightarrow> JNull | Some v \<Rightarrow> v) of Inl _ \<Rightarrow> None | Inr hs \<Rightarrow> Some (hs, Some p, None)))"

text \<open>What the adapter relies on of pydantic: a dumped plan validates to the plan it was built from.\<close>

definition plan_roundtrips :: "live_libs \<Rightarrow> hypothesis list \<times> tool_proposal option \<times> string option \<Rightarrow> bool" where
  "plan_roundtrips LL parts = (case parts of (hs, proposal, stop_reason) \<Rightarrow>
     plan_fields LL (plan_payload (ll_libs LL) hs proposal stop_reason) =
       Inr \<lparr> sp_hypotheses = hs, sp_proposal = proposal, sp_stop_reason = stop_reason \<rparr>)"

abbreviation plan_of :: "hypothesis list \<times> tool_proposal option \<times> string option \<Rightarrow> stage_plan" where
  "plan_of parts \<equiv> \<lparr> sp_hypotheses = fst parts, sp_proposal = fst (snd parts), sp_stop_reason = snd (snd parts) \<rparr>"

lemma hypotheses_record_valid: "hypotheses_record LL v = Inr hs \<Longrightarrow> hypotheses_valid hs"
  by (auto simp: hypotheses_record_def bind_r_Inr split: if_splits)

lemma stop_record_valid:
  "stop_record LL args = Inr (hs, reason) \<Longrightarrow> hypotheses_valid hs \<and> reason \<noteq> [] \<and> length reason \<le> 600"
  by (auto simp: stop_record_def bind_r_Inr split: if_splits)

lemma parse_unknown: "tool_of_value (pc_name call) = None \<Longrightarrow>
    \<exists>e. parse_tool_call L (to_native_tool_call call) = (None, e)"
  by (simp add: parse_tool_call_def to_native_tool_call_def)

lemma decode_call_none:
  "plan_parts LL call = None \<Longrightarrow> \<exists>e. decode_proposal_call LL usage call = refused_turn usage e"
  unfolding plan_parts_def decode_proposal_call_def
  by (auto simp: Let_def split: if_splits sum.splits prod.splits option.splits)

text \<open>The two ways to have parts, as facts about the call.\<close>

lemma plan_parts_cases:
  assumes "plan_parts LL call = Some (hs, p, r)"
  obtains (stop) reason where "pc_name call = RECORD_STOP_TOOL_NAME"
      "stop_record LL (pc_args call) = Inr (hs, reason)" "p = None" "r = Some reason"
  | (check) p' e t where "pc_name call \<noteq> RECORD_STOP_TOOL_NAME" "tool_of_value (pc_name call) = Some t"
      "parse_tool_call (ll_libs LL) (to_native_tool_call call) = (Some p', e)"
      "hypotheses_record LL (case dict_get (pc_args call) ''hypotheses'' of None \<Rightarrow> JNull | Some v \<Rightarrow> v) = Inr hs"
      "p = Some p'" "r = None"
proof (cases "pc_name call = RECORD_STOP_TOOL_NAME")
  case True
  with assms show thesis by (auto simp: plan_parts_def split: sum.splits intro: stop)
next
  case False
  with assms parse_unknown [of call "ll_libs LL"] show thesis
    by (cases "tool_of_value (pc_name call)")
      (auto simp: plan_parts_def split: sum.splits prod.splits option.splits intro: check)
qed

text \<open>Well-formed parts satisfy the plan's own validator: two or three hypotheses, a check or a reason.\<close>

lemma plan_parts_valid:
  assumes "plan_parts LL call = Some (hs, p, r)"
  shows "stage_plan_validate (plan_of (hs, p, r)) = Inr (plan_of (hs, p, r))"
  using assms
proof (cases rule: plan_parts_cases)
  case stop
  from stop_record_valid [OF stop(2)] stop show ?thesis
    by (simp add: stage_plan_validate_def hypotheses_valid_def)
next
  case check
  from hypotheses_record_valid [OF check(4)] check show ?thesis
    by (simp add: stage_plan_validate_def hypotheses_valid_def)
qed

lemma finish_parts:
  assumes "plan_parts LL call = Some (hs, p, r)" and "plan_roundtrips LL (hs, p, r)"
  shows "finish_plan LL hs p r = (Some (plan_of (hs, p, r)), [])"
  using plan_parts_valid [OF assms(1)] assms(2)
  by (simp add: finish_plan_def parse_plan_def plan_roundtrips_def)

lemma decode_call_some:
  assumes "plan_parts LL call = Some (hs, p, r)" and "plan_roundtrips LL (hs, p, r)"
  shows "decode_proposal_call LL usage call =
    \<lparr> pt_parsed = Some (plan_of (hs, p, r)), pt_errors = [],
      pt_tool_call = (if p = None then [] else [to_native_tool_call call]), pt_usage = Some usage \<rparr>"
  using assms(1)
proof (cases rule: plan_parts_cases)
  case stop
  with finish_parts [OF assms] show ?thesis by (simp add: decode_proposal_call_def)
next
  case check
  with finish_parts [OF assms] show ?thesis by (simp add: decode_proposal_call_def)
qed

section \<open>Sample adapter\<close>

definition sample_hypotheses :: "hypothesis list" where
  "sample_hypotheses = map (\<lambda>n. \<lparr> h_root_cause = UNDETERMINED, h_rank = n, h_supporting_evidence_ids = [],
     h_contrary_evidence_ids = [], h_missing_evidence = ''logs'' \<rparr>) [1, 2]"

definition sample_topology :: tool_proposal where
  "sample_topology = \<lparr> tp_arguments = GetTopologyArguments \<lparr> gt_incident_id = ''inc-1'' \<rparr>,
     tp_evidence_gap = ''who calls whom'', tp_expected_observation = ''a graph'' \<rparr>"

definition sample_base_libs :: live_libs where
  "sample_base_libs = \<lparr> ll_libs = sample_libs,
     arguments_schema = (\<lambda>_. [(''properties'', JObj [(''tool'', JNull)])]),
     hypotheses_record_schema = [(''properties'', JObj [(''hypotheses'', JNull)])],
     stop_record_schema = [], final_assessment_model_schema = [],
     hypotheses_fields = (\<lambda>_. Inr sample_hypotheses), hypotheses_errors = (\<lambda>_. ''invalid''),
     stop_fields = (\<lambda>_. Inr (sample_hypotheses, ''enough'')), stop_errors = (\<lambda>_. ''invalid''),
     plan_fields = (\<lambda>_. Inr \<lparr> sp_hypotheses = sample_hypotheses, sp_proposal = Some sample_topology,
        sp_stop_reason = None \<rparr>), plan_errors = (\<lambda>_. ''invalid'') \<rparr>"

text \<open>The stop schema embeds the final-assessment tool, which makes it the larger of the two.\<close>

definition sample_final_tool :: json where
  "sample_final_tool = (case final_assessment_tool_definition sample_base_libs of Inr d \<Rightarrow> d | Inl _ \<Rightarrow> JNull)"

definition sample_live_libs :: live_libs where
  "sample_live_libs = sample_base_libs\<lparr>stop_record_schema := [(''title'', sample_final_tool)]\<rparr>"

definition sample_call :: provider_call where
  "sample_call = \<lparr> pc_name = ''get_topology'', pc_args = [(''incident_id'', JStr ''inc-1''),
     (''hypotheses'', JList []), (''evidence_gap'', JStr ''who calls whom''),
     (''expected_observation'', JStr ''a graph'')], pc_id = Some ''call-1'' \<rparr>"

definition sample_message :: ai_message where
  "sample_message = \<lparr> am_content = JList [JObj [(''type'', JStr ''tool_use'')]], am_tool_calls = [sample_call],
     am_invalid_tool_calls = [], am_usage_metadata = Some \<lparr> input_tokens = 0, output_tokens = 20 \<rparr> \<rparr>"

definition sample_adapter :: "unit live_claude_model" where
  "sample_adapter = \<lparr> lm_libs = sample_live_libs, lm_ceiling_usd = Fin 5, lm_pricing = CLAUDE_SONNET_5_PRICING,
     lm_credential_present = True, lm_client = (\<lambda>_ _ _ p. (Inr sample_message, p)) \<rparr>"

definition sample_request :: model_request where
  "sample_request = \<lparr> mr_stage = INITIAL_PLAN, mr_system_text = ''sys'', mr_context_text = ''ctx'',
     mr_repair_errors = None, mr_run_id = ''run-1'', mr_graph_phase = ''INVESTIGATE'', mr_model_turn = 0,
     mr_context_digest = ''digest'' \<rparr>"

definition sample_live_world :: "unit live_world" where
  "sample_live_world = \<lparr> lw_table = [], lw_faults = (\<lambda>_. no_faults), lw_ops = 0, lw_clock_at = int,
     lw_clock_n = 0, lw_provider = (), lw_sent = [] \<rparr>"

lemma sample_adapter_ok: "bills_within_bounds sample_adapter" "pricing_ok (lm_pricing sample_adapter)"
  "lm_ceiling_usd sample_adapter = Fin 5"
  by (auto simp: bills_within_bounds_def sample_adapter_def sample_message_def pricing_ok_def
      CLAUDE_SONNET_5_PRICING_def tool_tokens_def MAX_OUTPUT_TOKENS_def)

lemma sample_live_world_simps [simp]: "lw_table sample_live_world = []" "lw_sent sample_live_world = []"
  by (simp_all add: sample_live_world_def)

abbreviation sample_turn :: "(exn + native_tool_call proposed_turn) \<times> unit live_world" where
  "sample_turn \<equiv> live_propose sample_adapter sample_request sample_live_world"

lemma sample_turn_step: "adapter_turn sample_adapter sample_live_world (snd sample_turn)"
  by (rule turn_propose [of _ _ _ "fst sample_turn"]) simp

section \<open>Properties\<close>

text \<open>
  Over any history of sends by any adapters, of ledger operations by other processes, and of
  changes of the provider, the clock and the faults, no request key is handed to the provider
  twice, and every key handed to it has a row in the cost ledger.
\<close>

theorem each_request_sent_at_most_once:
  assumes "live_step\<^sup>*\<^sup>* w w'" and "lw_sent w = []" and "table_ok (lw_table w)"
  shows "distinct (lw_sent w') \<and> set (lw_sent w') \<subseteq> row_key ` set (lw_table w')"
proof -
  have "cost.accounted (lw_sent w) (lw_table w)" using assms(2,3) by (simp add: cost.accounted_def)
  with sends.inv_reachable [OF assms(1)] show ?thesis by (simp add: cost.accounted_def)
qed

theorem each_request_sent_at_most_once_witness:
  "distinct (lw_sent (snd (send sample_adapter sample_request [] sample_live_world)))
   \<and> set (lw_sent (snd (send sample_adapter sample_request [] sample_live_world)))
      \<subseteq> row_key ` set (lw_table (snd (send sample_adapter sample_request [] sample_live_world)))"
proof (rule each_request_sent_at_most_once)
  show "live_step\<^sup>*\<^sup>* sample_live_world (snd (send sample_adapter sample_request [] sample_live_world))"
    by (rule r_into_rtranclp, rule step_send [of sample_adapter sample_request "[]" _
          "fst (send sample_adapter sample_request [] sample_live_world)"]) simp
qed (simp_all add: table_ok_Nil)

text \<open>
  No turn reserves more than \<open>maximum_possible_reservation_usd\<close>: every row a turn adds to the
  ledger, settled or not, has a reserved amount of at most that bound. A final-assessment turn
  binds a smaller tool payload than a proposal turn, the ordering the code relies on.
\<close>

theorem maximum_reservation_bounds_every_turn:
  assumes "adapter_turn m w w'" and "table_ok (lw_table w)" and "pricing_ok (lm_pricing m)"
    and most: "maximum_possible_reservation_usd (lm_libs m) (lm_pricing m) = Inr most"
    and fits: "\<forall>d tools. final_assessment_tool_definition (lm_libs m) = Inr d \<longrightarrow>
      proposal_tools (lm_libs m) = Inr tools \<longrightarrow> tool_tokens (lm_libs m) [d] \<le> tool_tokens (lm_libs m) tools"
  shows "\<forall>row \<in> set (lw_table w'). row_key row \<notin> row_key ` set (lw_table w) \<longrightarrow>
    f_le (cl_reserved_usd row) most"
proof -
  from most obtain tools where tools: "proposal_tools (lm_libs m) = Inr tools"
    "most = reservation_usd (lm_pricing m) (MAX_INPUT_TOKENS + tool_tokens (lm_libs m) tools) MAX_OUTPUT_TOKENS"
    by (auto simp: maximum_possible_reservation_usd_def bind_r_Inr)
  have "w' = w \<or> (\<exists>request ts r. send m request ts w = (r, w')
      \<and> tool_tokens (lm_libs m) ts \<le> tool_tokens (lm_libs m) tools)"
    using assms(1) fits tools(1)
    by cases (fastforce simp: live_propose_def live_respond_def bind_r_Inr elim!: turn_send)+
  then show ?thesis
  proof (elim disjE exE conjE)
    fix request ts r
    assume run: "send m request ts w = (r, w')" and le: "tool_tokens (lm_libs m) ts \<le> tool_tokens (lm_libs m) tools"
    have "f_le (request_reservation m request ts) most" if "prose_tokens request \<le> MAX_INPUT_TOKENS"
      unfolding request_reservation_def tools(2)
      using that le assms(3) by (intro reservation_mono) (auto simp: prose_tokens_def tool_tokens_def MAX_OUTPUT_TOKENS_def)
    with new_row_reserved [OF assms(2) run] show ?thesis by metis
  qed auto
qed

lemma length_py_join_ge: "x \<in> set xs \<Longrightarrow> length x \<le> length (py_join sep xs)"
  by (induction sep xs rule: py_join.induct) auto

lemma length_dumps_list: "x \<in> set xs \<Longrightarrow> length (json_dumps fr i k x) + 2 \<le> length (json_dumps fr i k (JList xs))"
  using length_py_join_ge [of "json_dumps fr i k x" "map (json_dumps fr i k) xs" i] by simp

lemma length_dumps_obj:
  "(n, x) \<in> set kvs \<Longrightarrow> length (json_dumps fr i k x) + 2 \<le> length (json_dumps fr i k (JObj kvs))"
  using length_py_join_ge [of "json_string n @ k @ json_dumps fr i k x"
      "map (\<lambda>kv. json_string (fst kv) @ k @ json_dumps fr i k (snd kv)) kvs" i] by force

lemma tokens_length: "estimate_input_tokens s = int (length s)"
  by (simp add: estimate_input_tokens_def)

lemma sample_tools:
  "final_assessment_tool_definition sample_live_libs = Inr sample_final_tool"
  "\<exists>tools. proposal_tools sample_live_libs = Inr tools
     \<and> tool_tokens sample_live_libs [sample_final_tool] \<le> tool_tokens sample_live_libs tools"
proof -
  show "final_assessment_tool_definition sample_live_libs = Inr sample_final_tool"
    by (simp add: sample_final_tool_def sample_live_libs_def sample_base_libs_def
        final_assessment_tool_definition_def final_assessment_schema_def strip_maintainer_prose_def
        dict_pop_def obj_of_def list_of_def Let_def)
  have "\<exists>ds. domain_tool_definitions sample_live_libs = Inr ds"
    by (simp add: domain_tool_definitions_def DOMAIN_TOOL_SPECS_def domain_tool_definition_def
        sample_live_libs_def sample_base_libs_def strip_maintainer_prose_def dict_pop_def obj_of_def
        list_of_def item_def Let_def)
  then obtain ds where ds: "domain_tool_definitions sample_live_libs = Inr ds" ..
  let ?schema = "JObj [(''title'', sample_final_tool)]"
  obtain description where stop: "stop_tool_definition sample_live_libs =
      Inr (JObj [(''name'', JStr RECORD_STOP_TOOL_NAME), (''description'', description), (''input_schema'', ?schema)])"
    by (simp add: stop_tool_definition_def strip_maintainer_prose_def sample_live_libs_def dict_pop_def
        obj_of_def Let_def)
  let ?stop = "JObj [(''name'', JStr RECORD_STOP_TOOL_NAME), (''description'', description), (''input_schema'', ?schema)]"
  let ?d = "json_dumps (float_repr (ll_libs sample_live_libs)) '', '' '': ''"
  have "length (?d (JList [sample_final_tool])) = length (?d sample_final_tool) + 2" by simp
  also have "\<dots> \<le> length (?d ?schema)" by (rule length_dumps_obj) simp
  also have "\<dots> \<le> length (?d ?stop)"
    using length_dumps_obj [of "''input_schema''" ?schema] by (meson add_leE in_set_conv_decomp list.set_intros)
  also have "\<dots> \<le> length (?d (JList (?stop # ds)))"
    using length_dumps_list [of ?stop "?stop # ds"] by (meson add_leE list.set_intros(1))
  finally show "\<exists>tools. proposal_tools sample_live_libs = Inr tools
     \<and> tool_tokens sample_live_libs [sample_final_tool] \<le> tool_tokens sample_live_libs tools"
    unfolding proposal_tools_def stop ds tool_tokens_def tokens_length by auto
qed

theorem maximum_reservation_bounds_every_turn_witness:
  "\<exists>most. maximum_possible_reservation_usd sample_live_libs CLAUDE_SONNET_5_PRICING = Inr most
     \<and> (\<forall>row \<in> set (lw_table (snd sample_turn)). f_le (cl_reserved_usd row) most)"
proof -
  from sample_tools obtain d tools where dt: "final_assessment_tool_definition sample_live_libs = Inr d"
    "proposal_tools sample_live_libs = Inr tools"
    "tool_tokens sample_live_libs [d] \<le> tool_tokens sample_live_libs tools" by blast
  have L: "lm_libs sample_adapter = sample_live_libs" "lm_pricing sample_adapter = CLAUDE_SONNET_5_PRICING"
    by (simp_all add: sample_adapter_def)
  from dt(2) obtain most where most: "maximum_possible_reservation_usd sample_live_libs CLAUDE_SONNET_5_PRICING = Inr most"
    by (simp add: maximum_possible_reservation_usd_def)
  have "\<forall>row \<in> set (lw_table (snd sample_turn)). row_key row \<notin> row_key ` set (lw_table sample_live_world) \<longrightarrow>
      f_le (cl_reserved_usd row) most"
    using dt most by (intro maximum_reservation_bounds_every_turn [OF sample_turn_step _ sample_adapter_ok(2)])
      (simp_all add: L table_ok_Nil)
  with most show ?thesis by simp
qed

lemma refused_turn_simps [simp]: "pt_parsed (refused_turn u e) = None" "pt_tool_call (refused_turn u e) = []"
  by (simp_all add: refused_turn_def)

lemma decode_call_parsed:
  assumes "\<forall>parts. plan_parts LL call = Some parts \<longrightarrow> plan_roundtrips LL parts"
  shows "pt_parsed (decode_proposal_call LL u call) = Some plan \<longleftrightarrow>
      plan_parts LL call = Some (sp_hypotheses plan, sp_proposal plan, sp_stop_reason plan)"
    and "pt_parsed (decode_proposal_call LL u call) = Some plan \<Longrightarrow>
      pt_tool_call (decode_proposal_call LL u call) =
        (if sp_proposal plan = None then [] else [to_native_tool_call call])"
proof -
  have "plan_parts LL call = Some (sp_hypotheses plan, sp_proposal plan, sp_stop_reason plan)
      \<and> pt_tool_call (decode_proposal_call LL u call) =
        (if sp_proposal plan = None then [] else [to_native_tool_call call])"
    if "pt_parsed (decode_proposal_call LL u call) = Some plan"
  proof (cases "plan_parts LL call")
    case None
    with that decode_call_none [OF None, of u] show ?thesis by auto
  next
    case (Some parts)
    obtain hs p r where parts: "parts = (hs, p, r)" by (rule prod_cases3)
    with decode_call_some [of LL call hs p r u] Some assms that show ?thesis by auto
  qed
  moreover have "pt_parsed (decode_proposal_call LL u call) = Some plan"
    if "plan_parts LL call = Some (sp_hypotheses plan, sp_proposal plan, sp_stop_reason plan)"
    using decode_call_some [OF that, of u] assms that by simp
  ultimately show "pt_parsed (decode_proposal_call LL u call) = Some plan \<longleftrightarrow>
      plan_parts LL call = Some (sp_hypotheses plan, sp_proposal plan, sp_stop_reason plan)"
    and "pt_parsed (decode_proposal_call LL u call) = Some plan \<Longrightarrow>
      pt_tool_call (decode_proposal_call LL u call) =
        (if sp_proposal plan = None then [] else [to_native_tool_call call])" by blast+
qed

text \<open>
  C28: a proposal turn yields a plan exactly when the answer shows no visible content and no
  malformed call, holds exactly one call, and that call carries valid hypotheses with either a
  valid check or a valid reason to stop. The plan is what the call carries, and the tool call
  handed to the graph, which decodes it again, is that very call.
\<close>

theorem live_plan_is_the_single_call:
  assumes "decode_proposal LL message = Inr answer"
    and "\<forall>call \<in> set (am_tool_calls message). \<forall>parts. plan_parts LL call = Some parts \<longrightarrow> plan_roundtrips LL parts"
  shows "(pt_parsed answer = Some plan \<longleftrightarrow>
       has_visible_content (am_content message) = Inr False \<and> am_invalid_tool_calls message = []
       \<and> (\<exists>call. am_tool_calls message = [call]
            \<and> plan_parts LL call = Some (sp_hypotheses plan, sp_proposal plan, sp_stop_reason plan)))
     \<and> (pt_parsed answer = Some plan \<longrightarrow> pt_tool_call answer =
       (if sp_proposal plan = None then [] else map to_native_tool_call (am_tool_calls message)))"
proof -
  from assms(1) obtain u v where u: "message_usage message = Inr u"
    and v: "has_visible_content (am_content message) = Inr v"
    by (auto simp: decode_proposal_def bind_r_Inr)
  show ?thesis
  proof (cases "\<not> v \<and> am_invalid_tool_calls message = [] \<and> (\<exists>call. am_tool_calls message = [call])")
    case False
    then have "pt_parsed answer = None" using assms(1)
      by (auto simp: decode_proposal_def u v split: list.splits)
    with False v show ?thesis by auto
  next
    case True
    then obtain call where call: "am_tool_calls message = [call]" by blast
    with True assms(1) have a: "answer = decode_proposal_call LL u call" by (simp add: decode_proposal_def u v)
    have "\<forall>parts. plan_parts LL call = Some parts \<longrightarrow> plan_roundtrips LL parts" using assms(2) call by simp
    note d = decode_call_parsed [OF this, of u plan]
    show ?thesis using True v call d(2) unfolding a d(1) by simp
  qed
qed

theorem live_plan_is_the_single_call_witness:
  "pt_parsed (decode_proposal_call sample_live_libs \<lparr> input_tokens = 0, output_tokens = 20 \<rparr> sample_call)
     = Some (plan_of (sample_hypotheses, Some sample_topology, None))"
proof -
  have parts: "plan_parts sample_live_libs sample_call = Some (sample_hypotheses, Some sample_topology, None)"
    by code_simp
  have round: "\<forall>call \<in> set (am_tool_calls sample_message). \<forall>parts.
      plan_parts sample_live_libs call = Some parts \<longrightarrow> plan_roundtrips sample_live_libs parts"
    using parts by (simp add: sample_message_def plan_roundtrips_def sample_live_libs_def sample_base_libs_def)
  have visible: "has_visible_content (am_content sample_message) = Inr False" by code_simp
  then have "decode_proposal sample_live_libs sample_message =
      Inr (decode_proposal_call sample_live_libs \<lparr> input_tokens = 0, output_tokens = 20 \<rparr> sample_call)"
    by (simp add: decode_proposal_def sample_message_def message_usage_def)
  from live_plan_is_the_single_call [OF this round] visible parts show ?thesis
    by (simp add: sample_message_def)
qed

text \<open>
  A final-assessment turn hands the graph a candidate exactly when the answer shows no
  visible content, no malformed call, and one call of the assessment tool that does not set the
  schema version itself. The candidate is the call's arguments with the application's own
  schema version; every refusal hands over nothing but a non-empty account of why.
\<close>

theorem live_assessment_is_the_single_call:
  assumes "decode_assessment message = Inr answer"
  shows "if has_visible_content (am_content message) = Inr False \<and> am_invalid_tool_calls message = []
       \<and> (\<exists>args i. am_tool_calls message = [\<lparr> pc_name = RECORD_FINAL_ASSESSMENT_TOOL_NAME, pc_args = args, pc_id = i \<rparr>]
            \<and> ''schema_version'' \<notin> set (dict_keys args))
     then resp_errors answer = []
       \<and> resp_content answer = concat (map pc_args (am_tool_calls message)) @ [(''schema_version'', JStr SCHEMA_VERSION)]
     else resp_errors answer \<noteq> [] \<and> resp_content answer = []"
proof -
  from assms obtain u v where u: "message_usage message = Inr u"
    and v: "has_visible_content (am_content message) = Inr v"
    by (auto simp: decode_assessment_def bind_r_Inr)
  have fresh: "dict_set k x d = d @ [(k, x)]" if "k \<notin> set (dict_keys d)" for k x and d :: "json pydict"
    using that by (rule update_fresh)
  show ?thesis
  proof (cases "\<not> v \<and> am_invalid_tool_calls message = [] \<and> (\<exists>call. am_tool_calls message = [call])")
    case False
    then have "\<exists>e. e \<noteq> [] \<and> answer = refused_response u e" using assms
      by (auto simp: decode_assessment_def u v malformed_reasons_def wrong_call_count_def split: list.splits)
    with False v show ?thesis by (auto simp: refused_response_def)
  next
    case True
    then obtain call where call: "am_tool_calls message = [call]" by blast
    with True assms have "answer = decode_assessment_call u call" by (simp add: decode_assessment_def u v)
    with True v call show ?thesis
      by (cases call) (auto simp: decode_assessment_call_def refused_response_def fresh)
  qed
qed

definition sample_final_message :: ai_message where
  "sample_final_message = sample_message\<lparr>am_tool_calls := [\<lparr> pc_name = RECORD_FINAL_ASSESSMENT_TOOL_NAME,
     pc_args = [(''next_step'', JStr ''wait'')], pc_id = None \<rparr>]\<rparr>"

theorem live_assessment_is_the_single_call_witness:
  "\<exists>answer. decode_assessment sample_final_message = Inr answer \<and> resp_errors answer = []
     \<and> resp_content answer = [(''next_step'', JStr ''wait''), (''schema_version'', JStr SCHEMA_VERSION)]"
proof -
  have visible: "has_visible_content (am_content sample_final_message) = Inr False" by code_simp
  then obtain answer where answer: "decode_assessment sample_final_message = Inr answer"
    by (simp add: decode_assessment_def sample_final_message_def sample_message_def message_usage_def)
  from live_assessment_is_the_single_call [OF answer] visible answer show ?thesis
    by (simp add: sample_final_message_def sample_message_def)
qed

end
