(* ===== verification/LiveRun.thy ===== *)
theory LiveRun
  imports GraphOutside LiveProps
begin

text \<open>
  The whole program on its money path: the investigation graph configured with the live adapter
  and with backends that see only the lab. Runs, resumed runs and recovered runs, in any number
  and order, act on the ledger through the adapter's turns alone.
\<close>

section \<open>Configuration\<close>

text \<open>
  A backend works on the lab behind the adapter's provider state and never on the ledger; the
  registry is the one \<open>dispatch_registry\<close> builds.
\<close>

definition lab_check :: "'p backend \<Rightarrow> 'p live_world backend" where
  "lab_check run_check args scope x =
     (case run_check args scope (lw_provider x) of (r, p) \<Rightarrow> (r, x\<lparr>lw_provider := p\<rparr>))"

definition live_config :: "'p live_world graph_config \<Rightarrow> 'p live_claude_model \<Rightarrow> (tool_name \<Rightarrow> 'p backend) \<Rightarrow>
    'p live_world graph_config" where
  "live_config cfg m lab = cfg\<lparr>g_model := live_claude m,
     g_registry := dispatch_registry (lab_check (lab QUERY_METRIC)) (lab_check (lab QUERY_LOGS))
       (lab_check (lab LIST_RECENT_CHANGES)) (lab_check (lab GET_TOPOLOGY)) (lab_check (lab SEARCH_RUNBOOKS))\<rparr>"

section \<open>What a run does outside\<close>

inductive outside_step :: "'p live_claude_model \<Rightarrow> 'p live_world \<Rightarrow> 'p live_world \<Rightarrow> bool" for m where
  outside_turn: "adapter_turn m x y \<Longrightarrow> outside_step m x y"
| outside_lab: "outside_step m x (x\<lparr>lw_provider := p\<rparr>)"

lemma lab_check_step: "lab_check f args scope x = (r, y) \<Longrightarrow> outside_step m x y"
  by (auto simp: lab_check_def split: prod.splits intro: outside_lab)

lemma registry_checks:
  assumes "dispatch_registry b1 b2 b3 b4 b5 tool = Some wr"
  shows "tw_run_check wr \<in> {b1, b2, b3, b4, b5}"
  using assms by (auto simp: dispatch_registry_def make_wrapper_def split: if_splits)

interpretation live_run: outside "live_config cfg m lab" "(outside_step m)\<^sup>*\<^sup>*"
proof
  fix request x r y
  assume "propose (g_model (live_config cfg m lab)) request x = (r, y)"
  then show "(outside_step m)\<^sup>*\<^sup>* x y"
    by (auto simp: live_config_def live_claude_def intro!: r_into_rtranclp outside_turn turn_propose)
next
  fix request x r y
  assume "respond (g_model (live_config cfg m lab)) request x = (r, y)"
  then show "(outside_step m)\<^sup>*\<^sup>* x y"
    by (auto simp: live_config_def live_claude_def intro!: r_into_rtranclp outside_turn turn_respond)
next
  fix tool wr args scope x r y
  assume "g_registry (live_config cfg m lab) tool = Some wr" "tw_run_check wr args scope x = (r, y)"
  then have "outside_step m x y"
    using registry_checks by (fastforce simp: live_config_def intro: lab_check_step)
  then show "(outside_step m)\<^sup>*\<^sup>* x y" by blast
qed auto

lemma outside_step_history: "outside_step m x y \<Longrightarrow> live_step\<^sup>*\<^sup>* x y"
proof (induction rule: outside_step.induct)
  case (outside_turn x y)
  then show ?case by (cases rule: adapter_turn_send) (auto intro: step_send)
next
  case (outside_lab x p)
  have "live_step x (x\<lparr>lw_provider := p, lw_faults := lw_faults x, lw_clock_at := lw_clock_at x\<rparr>)"
    by (rule step_environment)
  then show ?case by auto
qed

lemma outside_history: "(outside_step m)\<^sup>*\<^sup>* x y \<Longrightarrow> live_step\<^sup>*\<^sup>* x y"
  by (induction rule: rtranclp_induct) (auto dest: outside_step_history)

lemma outside_below:
  assumes "bills_within_bounds m" "pricing_ok (lm_pricing m)" "lm_ceiling_usd m = Fin c"
    and "(outside_step m)\<^sup>*\<^sup>* x y" and "below c (lw_table x)"
  shows "below c (lw_table y)"
  using assms(4,5)
  by (induction rule: rtranclp_induct) (auto elim!: outside_step.cases dest: turn_below [OF assms(1-3)])

section \<open>Entry points\<close>

text \<open>
  One use of the program: a new investigation, an investigation resumed with the owner's decision,
  or one recovered after a crash. Snapshots are free: a recovered run may repeat any of its turns.
\<close>

inductive live_entry :: "'p live_world graph_config \<Rightarrow> 'p live_claude_model \<Rightarrow> (tool_name \<Rightarrow> 'p backend) \<Rightarrow>
    'p live_world world \<Rightarrow> 'p live_world world \<Rightarrow> bool" for cfg m lab where
  entry_run: "run_graph_investigation (live_config cfg m lab) es i nm cp w = (r, evs, w') \<Longrightarrow>
     live_entry cfg m lab w w'"
| entry_resume: "resume_graph_investigation (live_config cfg m lab) snap cp d rejection w = (r', evs, w') \<Longrightarrow>
     live_entry cfg m lab w w'"
| entry_recover: "recover_graph_investigation (live_config cfg m lab) snap cp w = (r'', evs, w') \<Longrightarrow>
     live_entry cfg m lab w w'"

lemma entry_outside: "live_entry cfg m lab w w' \<Longrightarrow> (outside_step m)\<^sup>*\<^sup>* (ext w) (ext w')"
  by (induction rule: live_entry.induct)
    (auto dest: live_run.investigation_outside resume_outside [OF live_run.outside_axioms]
      recover_outside [OF live_run.outside_axioms])

lemma entries_outside: "(live_entry cfg m lab)\<^sup>*\<^sup>* w w' \<Longrightarrow> (outside_step m)\<^sup>*\<^sup>* (ext w) (ext w')"
  by (induction rule: rtranclp_induct) (auto dest: entry_outside intro: rtranclp_trans)

section \<open>Property\<close>

definition sample_live_config :: "unit live_world graph_config" where
  "sample_live_config = \<lparr> g_libs = sample_libs, g_scope = sample_scope, g_packet = probe_packet,
     g_budgets = DEFAULT_BUDGETS, g_model = live_claude sample_adapter, g_registry = (\<lambda>_. None),
     g_suppress_escalation = False, g_no_tool_baseline = False \<rparr>"

definition sample_lab :: "tool_name \<Rightarrow> unit backend" where
  "sample_lab tool args scope p = (Inl ValueError, p)"

definition sample_outer_world :: "unit live_world world" where
  "sample_outer_world = \<lparr> clock_at = int, clock_n = 0, event_clock_at = int, event_clock_n = 0,
     id_at = (\<lambda>n. replicate (Suc n) CHR ''i''), id_n = 0, ext = sample_live_world \<rparr>"

text \<open>
  C12: across any number of investigations, resumed investigations and recovered ones over the live
  adapter, whatever the SQLite faults, the backends' answers and the turns a recovery repeats, no
  model request is sent twice, every request sent is on the ledger, and the spend the
  application accounts for stays at or below the ceiling for a provider that bills within the
  bounds it was given.
\<close>

theorem live_investigations_send_once_within_ceiling:
  assumes "(live_entry cfg m lab)\<^sup>*\<^sup>* w w'" and "lw_table (ext w) = []" and "lw_sent (ext w) = []"
    and "bills_within_bounds m" and "pricing_ok (lm_pricing m)"
    and "lm_ceiling_usd m = Fin c" and "ceiling_ok c"
  shows "distinct (lw_sent (ext w')) \<and> set (lw_sent (ext w')) \<subseteq> row_key ` set (lw_table (ext w'))
    \<and> (\<exists>total. application_wide_spend_usd (\<lambda>_. False) (lw_table (ext w')) = Inr total \<and> f_le total (Fin c))"
proof -
  have steps: "(outside_step m)\<^sup>*\<^sup>* (ext w) (ext w')" using assms(1) by (rule entries_outside)
  have "cost.accounted (lw_sent (ext w)) (lw_table (ext w))"
    by (simp add: assms(2,3) cost.accounted_def table_ok_Nil)
  with sends.inv_reachable [OF outside_history [OF steps]]
  have acc: "cost.accounted (lw_sent (ext w')) (lw_table (ext w'))" .
  have "below c (lw_table (ext w))" using below_empty assms(2,7) by simp
  with outside_below [OF assms(4-6) steps] have "below c (lw_table (ext w'))" .
  with acc show ?thesis
    by (auto simp: cost.accounted_def below_def application_wide_spend_usd_def total_of_ok)
qed

theorem live_investigations_send_once_within_ceiling_witness:
  "\<exists>w'. live_entry sample_live_config sample_adapter sample_lab sample_outer_world w'
     \<and> distinct (lw_sent (ext w')) \<and> set (lw_sent (ext w')) \<subseteq> row_key ` set (lw_table (ext w'))
     \<and> (\<exists>total. application_wide_spend_usd (\<lambda>_. False) (lw_table (ext w')) = Inr total \<and> f_le total (Fin 5))"
proof -
  obtain r evs w' where "run_graph_investigation (live_config sample_live_config sample_adapter sample_lab)
      [] None ''m'' ''cp'' sample_outer_world = (r, evs, w')" by (rule prod_cases3)
  then have entry: "live_entry sample_live_config sample_adapter sample_lab sample_outer_world w'" by (rule entry_run)
  have steps: "(live_entry sample_live_config sample_adapter sample_lab)\<^sup>*\<^sup>* sample_outer_world w'"
    using entry by blast
  have start: "lw_table (ext sample_outer_world) = []" "lw_sent (ext sample_outer_world) = []"
    by (simp_all add: sample_outer_world_def)
  from live_investigations_send_once_within_ceiling [OF steps start sample_adapter_ok sample_amounts(3)] entry
  show ?thesis by blast
qed

end
