(* ===== verification/ControlPlane.thy ===== *)
theory ControlPlane
  imports Approvals
begin

text \<open>
  \<open>SqliteReplayControlPlane\<close> of \<open>src/causalops/api_runtime.py\<close>, with the types it shares with
  \<open>api.py\<close>: the hosted job queue. Its four tables and the owner-decision ledger (a second
  database) are the lists of one record, in insertion order. Every method takes the clock
  readings and the fresh identifiers it draws as arguments and returns its result, or the
  exception it raises, with the tables as they are committed.
\<close>

section \<open>Types\<close>

datatype scenario_family =
    CONFIGURATION_CHANGE | DOWNSTREAM_TIMEOUT_RETRY_AMPLIFICATION | RESOURCE_POOL_SATURATION
  | AMBIGUOUS_TELEMETRY

datatype replay_seed = DEVELOPMENT

datatype investigation_status = QUEUED | RUNNING | PAUSED_APPROVAL | COMPLETED | ST_FAILED_SAFE

datatype delivery_status = PENDING | SENDING | SENT

record replay_job =
  rj_id :: string
  rj_owner :: string
  rj_status :: investigation_status
  rj_scenario_family :: scenario_family
  rj_seed :: replay_seed
  rj_checkpoint_id :: "string option"
  rj_incident_id :: "string option"
  rj_report_artifact :: "string option"
  rj_report_content :: "string option"
  rj_report_sha256 :: "string option"
  rj_attempt_count :: int
  rj_available_at :: pyfloat
  rj_failure_reason :: "string option"
  rj_claim_token :: "string option"
  rj_claim_expires_at :: "pyfloat option"
  rj_idempotency_key :: "string option"

text \<open>The \<open>fields\<close> column holds the JSON text of an object; the model keeps the object.\<close>

record replay_event =
  rv_job_id :: string
  rv_ordinal :: int
  rv_name :: string
  rv_fields :: "json pydict"

record replay_decision =
  rd_job_id :: string
  rd_checkpoint_id :: string
  rd_decision :: decision
  rd_rejection_note :: "string option"

record report_delivery =
  dl_job_id :: string
  dl_destination_email :: string
  dl_status :: delivery_status
  dl_claim_token :: "string option"
  dl_claim_expires_at :: "pyfloat option"
  dl_attempt_count :: int
  dl_available_at :: pyfloat
  dl_failure_reason :: "string option"

record control_plane =
  cp_jobs :: "replay_job list"
  cp_events :: "replay_event list"
  cp_decisions :: "replay_decision list"
  cp_deliveries :: "report_delivery list"
  cp_ledger :: "decision_row list"

record cp_config =
  cc_claim_lease_seconds :: pyfloat
  cc_retry_base_seconds :: rat
  cc_max_replay_attempts :: int
  cc_max_delivery_attempts :: int

record investigation_view =
  iv_investigation_id :: string
  iv_status :: investigation_status

record worker_claim =
  wc_investigation_id :: string
  wc_owner_email :: string
  wc_scenario_family :: scenario_family
  wc_seed :: replay_seed
  wc_checkpoint_id :: "string option"
  wc_incident_id :: "string option"
  wc_owner_decision :: "owner_decision option"
  wc_claim_token :: string

record delivery_claim =
  dv_investigation_id :: string
  dv_status :: investigation_status
  dv_report_artifact :: string
  dv_report_content :: string
  dv_report_sha256 :: string
  dv_destination_email :: string
  dv_delivery_id :: string
  dv_claim_token :: string

abbreviation ControlPlaneNotFoundError :: exn where
  "ControlPlaneNotFoundError \<equiv> OtherError ''ControlPlaneNotFoundError''"

abbreviation ControlPlaneConflictError :: exn where
  "ControlPlaneConflictError \<equiv> OtherError ''ControlPlaneConflictError''"

abbreviation ControlPlaneIntegrityError :: exn where
  "ControlPlaneIntegrityError \<equiv> OtherError ''ControlPlaneIntegrityError''"

abbreviation sqlite_integrity_error :: exn where
  "sqlite_integrity_error \<equiv> OtherError ''IntegrityError''"

section \<open>Transactions and shared helpers\<close>

text \<open>
  \<open>_connection()\<close>: commit on return, roll back on an exception or when the process dies before
  the commit (\<open>dies\<close>). The decision ledger is another database and keeps its own commits.
\<close>

definition transaction :: "bool \<Rightarrow> (control_plane \<Rightarrow> (exn + 'r) \<times> control_plane) \<Rightarrow> control_plane \<Rightarrow>
    (exn + 'r) \<times> control_plane" where
  "transaction dies body s = (case body s of
       (Inl e, s') \<Rightarrow> (Inl e, s\<lparr>cp_ledger := cp_ledger s'\<rparr>)
     | (Inr r, s') \<Rightarrow> if dies then (Inl (OtherError ''OperationalError''), s\<lparr>cp_ledger := cp_ledger s'\<rparr>)
                     else (Inr r, s'))"

definition find_job :: "string \<Rightarrow> control_plane \<Rightarrow> replay_job option" where
  "find_job i s = find (\<lambda>j. rj_id j = i) (cp_jobs s)"

definition update_job :: "string \<Rightarrow> (replay_job \<Rightarrow> replay_job) \<Rightarrow> control_plane \<Rightarrow> control_plane" where
  "update_job i f s = s\<lparr>cp_jobs := map (\<lambda>j. if rj_id j = i then f j else j) (cp_jobs s)\<rparr>"

definition update_delivery :: "string \<Rightarrow> (report_delivery \<Rightarrow> report_delivery) \<Rightarrow> control_plane \<Rightarrow> control_plane" where
  "update_delivery i f s = s\<lparr>cp_deliveries := map (\<lambda>d. if dl_job_id d = i then f d else d) (cp_deliveries s)\<rparr>"

text \<open>\<open>COALESCE(MAX(ordinal) + 1, 0)\<close> over the events of the job.\<close>

definition next_ordinal :: "string \<Rightarrow> replay_event list \<Rightarrow> int" where
  "next_ordinal i evs = fold (\<lambda>e n. if rv_job_id e = i then max n (rv_ordinal e + 1) else n) evs 0"

definition event :: "string \<Rightarrow> string \<Rightarrow> json pydict \<Rightarrow> control_plane \<Rightarrow> control_plane" where
  "event i name flds s = s\<lparr>cp_events := cp_events s @ [\<lparr> rv_job_id = i,
     rv_ordinal = next_ordinal i (cp_events s), rv_name = name, rv_fields = sort_key fst flds \<rparr>]\<rparr>"

definition view :: "replay_job \<Rightarrow> investigation_view" where
  "view j = \<lparr> iv_investigation_id = rj_id j,
     iv_status = (if rj_failure_reason j \<noteq> None then ST_FAILED_SAFE else rj_status j) \<rparr>"

definition owned :: "string \<Rightarrow> string \<Rightarrow> control_plane \<Rightarrow> exn + replay_job" where
  "owned owner_email i s = (case find (\<lambda>j. rj_id j = i \<and> rj_owner j = owner_email) (cp_jobs s) of
     None \<Rightarrow> Inl ControlPlaneNotFoundError | Some j \<Rightarrow> Inr j)"

text \<open>\<open>min(base * 2 ** (attempt - 1), 3600.0)\<close>; the product is one float multiplication.\<close>

definition retry_delay :: "cp_config \<Rightarrow> int \<Rightarrow> pyfloat" where
  "retry_delay cfg attempt = (let d = fl (cc_retry_base_seconds cfg * 2 ^ nat (attempt - 1)) in
     if f_lt (Fin 3600) d then Fin 3600 else d)"

text \<open>The guard of the worker's methods: running, under this token, and not yet expired.\<close>

definition claim_current :: "string \<Rightarrow> pyfloat \<Rightarrow> replay_job \<Rightarrow> bool" where
  "claim_current token now j \<longleftrightarrow> rj_status j = RUNNING \<and> rj_claim_token j = Some token
     \<and> (case rj_claim_expires_at j of None \<Rightarrow> False | Some e \<Rightarrow> \<not> f_le e now)"

definition delivery_current :: "string \<Rightarrow> pyfloat \<Rightarrow> report_delivery \<Rightarrow> bool" where
  "delivery_current token now d \<longleftrightarrow> dl_status d = SENDING \<and> dl_claim_token d = Some token
     \<and> (case dl_claim_expires_at d of None \<Rightarrow> False | Some e \<Rightarrow> f_lt now e)"

section \<open>The decision ledger\<close>

text \<open>\<open>down\<close>: the ledger cannot be opened or read. An error of the ledger becomes an integrity error.\<close>

definition ledger_decision :: "bool \<Rightarrow> string \<Rightarrow> control_plane \<Rightarrow> exn + decision_row option" where
  "ledger_decision down i s = (case read_decision_for_thread down (cp_ledger s) i of
     Inl _ \<Rightarrow> Inl ControlPlaneIntegrityError | Inr r \<Rightarrow> Inr r)"

definition ensure_ledger_decision :: "bool \<Rightarrow> string \<Rightarrow> string \<Rightarrow> owner_decision \<Rightarrow> instant \<Rightarrow> control_plane \<Rightarrow>
    (exn + unit) \<times> control_plane" where
  "ensure_ledger_decision down i checkpoint_id d decided_at s =
     (case ledger_decision down i s of
        Inl e \<Rightarrow> (Inl e, s)
      | Inr (Some existing) \<Rightarrow>
          (if dc_checkpoint_id existing \<noteq> checkpoint_id then Inl ControlPlaneIntegrityError
           else if \<not> matches existing d then Inl ControlPlaneConflictError
           else Inr (), s)
      | Inr None \<Rightarrow>
          (case record_decision_before_resume down (cp_ledger s) i checkpoint_id d decided_at of
             (Inr _, rows) \<Rightarrow> (Inr (), s\<lparr>cp_ledger := rows\<rparr>)
           | (Inl _, rows) \<Rightarrow>
             (case read_decision_for_thread down rows i of
                Inl _ \<Rightarrow> (Inl ControlPlaneIntegrityError, s)
              | Inr r \<Rightarrow>
                (if \<exists>e \<in> set_option r. dc_checkpoint_id e = checkpoint_id \<and> matches e d then Inr ()
                 else Inl ControlPlaneConflictError, s))))"

definition decision_from_row :: "replay_decision \<Rightarrow> exn + owner_decision" where
  "decision_from_row r = (case owner_decision_new (rd_decision r) (rd_rejection_note r) of
     Inl _ \<Rightarrow> Inl ControlPlaneIntegrityError | Inr d \<Rightarrow> Inr d)"

definition find_decision :: "string \<Rightarrow> control_plane \<Rightarrow> replay_decision option" where
  "find_decision i s = find (\<lambda>r. rd_job_id r = i) (cp_decisions s)"

definition mirror_decision :: "string \<Rightarrow> string \<Rightarrow> owner_decision \<Rightarrow> control_plane \<Rightarrow> control_plane" where
  "mirror_decision i checkpoint_id d s = s\<lparr>cp_decisions := cp_decisions s @
     [\<lparr> rd_job_id = i, rd_checkpoint_id = checkpoint_id, rd_decision = od_decision d,
        rd_rejection_note = od_rejection_note d \<rparr>]\<rparr>"

text \<open>Queueing a decided job, with its event.\<close>

definition queue_decided :: "string \<Rightarrow> string \<Rightarrow> owner_decision \<Rightarrow> control_plane \<Rightarrow> control_plane" where
  "queue_decided i checkpoint_id d s = event i ''owner_decision_recorded''
     [(''checkpoint_id'', JStr checkpoint_id), (''decision'', JStr (decision_value (od_decision d)))]
     (update_job i (\<lambda>j. j\<lparr>rj_status := QUEUED\<rparr>) s)"

text \<open>One paused row of \<open>_reconcile_durable_decisions\<close>; an empty checkpoint id is refused.\<close>

definition reconcile_row :: "bool \<Rightarrow> replay_job \<Rightarrow> control_plane \<Rightarrow> exn + control_plane" where
  "reconcile_row down row s =
     (case rj_checkpoint_id row of
        None \<Rightarrow> Inl ControlPlaneIntegrityError
      | Some checkpoint_id \<Rightarrow>
        if checkpoint_id = [] then Inl ControlPlaneIntegrityError
        else bind_r (ledger_decision down (rj_id row) s) (\<lambda>l. case l of
          None \<Rightarrow> Inr s
        | Some ledger_row \<Rightarrow>
          if dc_checkpoint_id ledger_row \<noteq> checkpoint_id then Inl ControlPlaneIntegrityError
          else bind_r (owner_decision_new (dc_decision ledger_row) (dc_rejection_note ledger_row)) (\<lambda>d.
            case find_decision (rj_id row) s of
              None \<Rightarrow> Inr (queue_decided (rj_id row) checkpoint_id d (mirror_decision (rj_id row) checkpoint_id d s))
            | Some mirrored \<Rightarrow>
              if rd_checkpoint_id mirrored \<noteq> checkpoint_id then Inl ControlPlaneIntegrityError
              else bind_r (decision_from_row mirrored) (\<lambda>md.
                if md \<noteq> d then Inl ControlPlaneIntegrityError
                else Inr (queue_decided (rj_id row) checkpoint_id d s)))))"

fun reconcile_rows :: "bool \<Rightarrow> replay_job list \<Rightarrow> control_plane \<Rightarrow> exn + control_plane" where
  "reconcile_rows down [] s = Inr s"
| "reconcile_rows down (row # rows) s = bind_r (reconcile_row down row s) (reconcile_rows down rows)"

definition reconcile_durable_decisions :: "bool \<Rightarrow> control_plane \<Rightarrow> exn + control_plane" where
  "reconcile_durable_decisions down s =
     reconcile_rows down (filter (\<lambda>j. rj_status j = PAUSED_APPROVAL) (cp_jobs s)) s"

section \<open>Expired leases\<close>

definition lease_expired :: "pyfloat \<Rightarrow> pyfloat option \<Rightarrow> bool" where
  "lease_expired now e = (case e of None \<Rightarrow> False | Some t \<Rightarrow> f_le t now)"

text \<open>A job that goes back to the queue, and one that reached its last attempt.\<close>

definition requeued :: "int \<Rightarrow> pyfloat \<Rightarrow> replay_job \<Rightarrow> replay_job" where
  "requeued attempt retry_at j = j\<lparr>rj_status := QUEUED, rj_claim_token := None,
     rj_claim_expires_at := None, rj_attempt_count := attempt, rj_available_at := retry_at\<rparr>"

definition given_up :: "int \<Rightarrow> string \<Rightarrow> replay_job \<Rightarrow> replay_job" where
  "given_up attempt reason j = j\<lparr>rj_status := QUEUED, rj_claim_token := None,
     rj_claim_expires_at := None, rj_attempt_count := attempt, rj_failure_reason := Some reason\<rparr>"

definition reclaim_row :: "cp_config \<Rightarrow> pyfloat \<Rightarrow> replay_job \<Rightarrow> control_plane \<Rightarrow> control_plane" where
  "reclaim_row cfg now row s = (let attempt = rj_attempt_count row + 1 in
     if cc_max_replay_attempts cfg \<le> attempt then
       event (rj_id row) ''investigation_failed'' [(''attempt_count'', JInt attempt)]
         (update_job (rj_id row) (given_up attempt ''retry_limit:lease_expired'') s)
     else let retry_at = f_add now (retry_delay cfg attempt) in
       event (rj_id row) ''investigation_lease_expired''
         [(''attempt_count'', JInt attempt), (''retry_at'', JFloat retry_at)]
         (update_job (rj_id row) (requeued attempt retry_at) s))"

definition reclaim_expired_investigations :: "cp_config \<Rightarrow> pyfloat \<Rightarrow> control_plane \<Rightarrow> control_plane" where
  "reclaim_expired_investigations cfg now s =
     fold (reclaim_row cfg now)
       (filter (\<lambda>j. rj_status j = RUNNING \<and> lease_expired now (rj_claim_expires_at j)) (cp_jobs s)) s"

definition delivery_requeued :: "int \<Rightarrow> pyfloat \<Rightarrow> report_delivery \<Rightarrow> report_delivery" where
  "delivery_requeued attempt retry_at d = d\<lparr>dl_status := PENDING, dl_claim_token := None,
     dl_claim_expires_at := None, dl_attempt_count := attempt, dl_available_at := retry_at\<rparr>"

definition delivery_given_up :: "int \<Rightarrow> string \<Rightarrow> report_delivery \<Rightarrow> report_delivery" where
  "delivery_given_up attempt reason d = d\<lparr>dl_status := PENDING, dl_claim_token := None,
     dl_claim_expires_at := None, dl_attempt_count := attempt, dl_failure_reason := Some reason\<rparr>"

definition reclaim_delivery_row :: "cp_config \<Rightarrow> pyfloat \<Rightarrow> report_delivery \<Rightarrow> control_plane \<Rightarrow> control_plane" where
  "reclaim_delivery_row cfg now row s = (let attempt = dl_attempt_count row + 1 in
     if cc_max_delivery_attempts cfg \<le> attempt then
       event (dl_job_id row) ''report_delivery_failed'' [(''attempt_count'', JInt attempt)]
         (update_delivery (dl_job_id row) (delivery_given_up attempt ''retry_limit:lease_expired'') s)
     else let retry_at = f_add now (retry_delay cfg attempt) in
       event (dl_job_id row) ''report_delivery_lease_expired''
         [(''attempt_count'', JInt attempt), (''retry_at'', JFloat retry_at)]
         (update_delivery (dl_job_id row) (delivery_requeued attempt retry_at) s))"

definition reclaim_expired_deliveries :: "cp_config \<Rightarrow> pyfloat \<Rightarrow> control_plane \<Rightarrow> control_plane" where
  "reclaim_expired_deliveries cfg now s =
     fold (reclaim_delivery_row cfg now)
       (filter (\<lambda>d. dl_status d = SENDING \<and> lease_expired now (dl_claim_expires_at d)) (cp_deliveries s)) s"

section \<open>The owner's operations\<close>

text \<open>
  \<open>create\<close> opens its transaction with the insert, after the look-up. Of two concurrent creates under
  one key the later one fails on the unique index: it raises and changes nothing, which is the
  outcome of \<open>dies\<close>.
\<close>

definition create_job :: "bool \<Rightarrow> string \<Rightarrow> scenario_family \<Rightarrow> string \<Rightarrow> string \<Rightarrow> control_plane \<Rightarrow>
    (exn + investigation_view) \<times> control_plane" where
  "create_job dies owner_email family idempotency_key new_id = transaction dies (\<lambda>s.
     case find (\<lambda>j. rj_owner j = owner_email \<and> rj_idempotency_key j = Some idempotency_key) (cp_jobs s) of
       Some existing \<Rightarrow> (Inr (view existing), s)
     | None \<Rightarrow>
       if find_job new_id s \<noteq> None then (Inl sqlite_integrity_error, s)
       else (Inr \<lparr> iv_investigation_id = new_id, iv_status = QUEUED \<rparr>,
         event new_id ''investigation_queued'' [(''replay_only'', JBool True)]
           (s\<lparr>cp_jobs := cp_jobs s @ [\<lparr> rj_id = new_id, rj_owner = owner_email, rj_status = QUEUED,
              rj_scenario_family = family, rj_seed = DEVELOPMENT, rj_checkpoint_id = None,
              rj_incident_id = None, rj_report_artifact = None, rj_report_content = None,
              rj_report_sha256 = None, rj_attempt_count = 0, rj_available_at = Fin 0,
              rj_failure_reason = None, rj_claim_token = None, rj_claim_expires_at = None,
              rj_idempotency_key = Some idempotency_key \<rparr>]\<rparr>)))"

definition job_status :: "string \<Rightarrow> string \<Rightarrow> control_plane \<Rightarrow> exn + investigation_view" where
  "job_status owner_email i s = bind_r (owned owner_email i s) (\<lambda>j. Inr (view j))"

definition job_events :: "string \<Rightarrow> string \<Rightarrow> control_plane \<Rightarrow> exn + replay_event list" where
  "job_events owner_email i s = bind_r (owned owner_email i s) (\<lambda>_.
     Inr (sort_key rv_ordinal (filter (\<lambda>e. rv_job_id e = i) (cp_events s))))"

definition decide_body :: "bool \<Rightarrow> string \<Rightarrow> string \<Rightarrow> owner_decision \<Rightarrow> instant \<Rightarrow> control_plane \<Rightarrow>
    (exn + investigation_view) \<times> control_plane" where
  "decide_body down owner_email i d decided_at s =
     (case owned owner_email i s of Inl e \<Rightarrow> (Inl e, s) | Inr job \<Rightarrow>
      case find_decision i s of
        Some prior \<Rightarrow>
          (case decision_from_row prior of Inl e \<Rightarrow> (Inl e, s) | Inr mirrored \<Rightarrow>
           case rj_checkpoint_id job of None \<Rightarrow> (Inl ControlPlaneIntegrityError, s) | Some checkpoint_id \<Rightarrow>
           if checkpoint_id = [] then (Inl ControlPlaneIntegrityError, s)
           else if rd_checkpoint_id prior \<noteq> checkpoint_id then (Inl ControlPlaneIntegrityError, s)
           else if mirrored \<noteq> d then (Inl ControlPlaneConflictError, s)
           else (case ensure_ledger_decision down i checkpoint_id mirrored decided_at s of
                   (Inl e, s') \<Rightarrow> (Inl e, s')
                 | (Inr _, s') \<Rightarrow> (Inr (view job), s')))
      | None \<Rightarrow>
          if rj_status job \<noteq> PAUSED_APPROVAL then (Inl ControlPlaneConflictError, s)
          else (case rj_checkpoint_id job of None \<Rightarrow> (Inl ControlPlaneIntegrityError, s) | Some checkpoint_id \<Rightarrow>
            if checkpoint_id = [] then (Inl ControlPlaneIntegrityError, s)
            else (case ensure_ledger_decision down i checkpoint_id d decided_at s of
                    (Inl e, s') \<Rightarrow> (Inl e, s')
                  | (Inr _, s') \<Rightarrow> (Inr \<lparr> iv_investigation_id = i, iv_status = QUEUED \<rparr>,
                      queue_decided i checkpoint_id d (mirror_decision i checkpoint_id d s')))))"

definition decide :: "bool \<Rightarrow> bool \<Rightarrow> string \<Rightarrow> string \<Rightarrow> owner_decision \<Rightarrow> instant \<Rightarrow> control_plane \<Rightarrow>
    (exn + investigation_view) \<times> control_plane" where
  "decide dies down owner_email i d decided_at = transaction dies (decide_body down owner_email i d decided_at)"

text \<open>A POSIX \<open>Path\<close>: how many leading slashes its root has, and its parts without empty ones and dots.\<close>

fun split_slash :: "string \<Rightarrow> string \<Rightarrow> string list" where
  "split_slash acc [] = [rev acc]"
| "split_slash acc (c # cs) = (if c = CHR ''/'' then rev acc # split_slash [] cs else split_slash (c # acc) cs)"

definition posix_path :: "string \<Rightarrow> nat \<times> string list" where
  "posix_path p = (let n = length (takeWhile (\<lambda>c. c = CHR ''/'') p) in
     (if n = 0 then 0 else if n = 2 then 2 else 1,
      filter (\<lambda>q. q \<noteq> [] \<and> q \<noteq> ''.'') (split_slash [] p)))"

definition validate_report_reference :: "string \<Rightarrow> string \<Rightarrow> exn + unit" where
  "validate_report_reference i report_artifact =
     (let (root, parts) = posix_path report_artifact; (iroot, iparts) = posix_path i in
      if (root, parts) \<noteq> (iroot, iparts @ [''report.md'']) then Inl ValueError
      else if root \<noteq> 0 \<or> ''..'' \<in> set parts then Inl ValueError
      else Inr ())"

definition job_report :: "libs \<Rightarrow> string \<Rightarrow> string \<Rightarrow> control_plane \<Rightarrow> exn + string" where
  "job_report L owner_email i s = bind_r (owned owner_email i s) (\<lambda>job.
     if rj_status job \<noteq> COMPLETED then Inl ControlPlaneConflictError
     else case rj_report_artifact job of
       None \<Rightarrow> Inl ControlPlaneIntegrityError
     | Some artifact \<Rightarrow>
       if artifact = [] then Inl ControlPlaneIntegrityError
       else (case (rj_report_content job, rj_report_sha256 job) of
         (Some content, Some digest) \<Rightarrow>
           (case validate_report_reference i artifact of
              Inl _ \<Rightarrow> Inl ControlPlaneIntegrityError
            | Inr _ \<Rightarrow> if sha256_hex L content \<noteq> digest then Inl ControlPlaneIntegrityError else Inr content)
       | _ \<Rightarrow> Inl ControlPlaneIntegrityError))"

section \<open>The worker's operations\<close>

text \<open>\<open>ORDER BY incident_id IS NULL, available_at, rowid\<close>: the first of the smallest rows.\<close>

definition job_before :: "replay_job \<Rightarrow> replay_job \<Rightarrow> bool" where
  "job_before a b \<longleftrightarrow> (rj_incident_id a \<noteq> None \<and> rj_incident_id b = None)
     \<or> ((rj_incident_id a = None) = (rj_incident_id b = None) \<and> f_lt (rj_available_at a) (rj_available_at b))"

fun first_row :: "('a \<Rightarrow> 'a \<Rightarrow> bool) \<Rightarrow> 'a list \<Rightarrow> 'a option" where
  "first_row before [] = None"
| "first_row before (r # rs) = (case first_row before rs of
     None \<Rightarrow> Some r | Some b \<Rightarrow> if before b r then Some b else Some r)"

definition claimed :: "string \<Rightarrow> pyfloat \<Rightarrow> replay_job \<Rightarrow> replay_job" where
  "claimed token expires_at j = j\<lparr>rj_status := RUNNING, rj_claim_token := Some token,
     rj_claim_expires_at := Some expires_at\<rparr>"

definition claim_of :: "replay_job \<Rightarrow> owner_decision option \<Rightarrow> string \<Rightarrow> worker_claim" where
  "claim_of row d token = \<lparr> wc_investigation_id = rj_id row, wc_owner_email = rj_owner row,
     wc_scenario_family = rj_scenario_family row, wc_seed = rj_seed row,
     wc_checkpoint_id = rj_checkpoint_id row, wc_incident_id = rj_incident_id row,
     wc_owner_decision = d, wc_claim_token = token \<rparr>"

text \<open>The end of \<open>claim_next\<close>: the row is claimed and its decision, if any, is handed over.\<close>

definition claim_row :: "cp_config \<Rightarrow> bool \<Rightarrow> pyfloat \<Rightarrow> string \<Rightarrow> instant \<Rightarrow> replay_job \<Rightarrow> control_plane \<Rightarrow>
    (exn + worker_claim option) \<times> control_plane" where
  "claim_row cfg down now token decided_at row s =
     (let i = rj_id row;
          s1 = event i ''investigation_started'' []
            (update_job i (claimed token (f_add now (cc_claim_lease_seconds cfg))) s)
      in case find_decision i s1 of
           None \<Rightarrow> (Inr (Some (claim_of row None token)), s1)
         | Some decision_row \<Rightarrow>
           (case decision_from_row decision_row of Inl e \<Rightarrow> (Inl e, s1) | Inr d \<Rightarrow>
            case rj_checkpoint_id row of None \<Rightarrow> (Inl ControlPlaneIntegrityError, s1) | Some checkpoint_id \<Rightarrow>
            if checkpoint_id = [] then (Inl ControlPlaneIntegrityError, s1)
            else if rd_checkpoint_id decision_row \<noteq> checkpoint_id then (Inl ControlPlaneIntegrityError, s1)
            else (case ensure_ledger_decision down i checkpoint_id d decided_at s1 of
                    (Inl e, s2) \<Rightarrow> (Inl e, s2)
                  | (Inr _, s2) \<Rightarrow> (Inr (Some (claim_of row (Some d) token)), s2))))"

definition claim_next_body :: "cp_config \<Rightarrow> bool \<Rightarrow> pyfloat \<Rightarrow> string \<Rightarrow> instant \<Rightarrow> control_plane \<Rightarrow>
    (exn + worker_claim option) \<times> control_plane" where
  "claim_next_body cfg down now token decided_at s0 =
     (case reconcile_durable_decisions down (reclaim_expired_investigations cfg now s0) of
        Inl e \<Rightarrow> (Inl e, s0)
      | Inr s \<Rightarrow>
        if list_ex (\<lambda>j. rj_status j = RUNNING) (cp_jobs s) then (Inr None, s)
        else if list_ex (\<lambda>j. rj_status j = QUEUED \<and> rj_failure_reason j = None
                 \<and> rj_incident_id j \<noteq> None \<and> f_lt now (rj_available_at j)) (cp_jobs s) then (Inr None, s)
        else case first_row job_before (filter (\<lambda>j. rj_status j = QUEUED \<and> rj_failure_reason j = None
                 \<and> f_le (rj_available_at j) now) (cp_jobs s)) of
          None \<Rightarrow> (Inr None, s)
        | Some row \<Rightarrow> claim_row cfg down now token decided_at row s)"

definition claim_next :: "cp_config \<Rightarrow> bool \<Rightarrow> bool \<Rightarrow> pyfloat \<Rightarrow> string \<Rightarrow> instant \<Rightarrow> control_plane \<Rightarrow>
    (exn + worker_claim option) \<times> control_plane" where
  "claim_next cfg dies down now token decided_at = transaction dies (claim_next_body cfg down now token decided_at)"

definition renew_running :: "cp_config \<Rightarrow> bool \<Rightarrow> string \<Rightarrow> string \<Rightarrow> pyfloat \<Rightarrow> control_plane \<Rightarrow>
    (exn + unit) \<times> control_plane" where
  "renew_running cfg dies i token now = transaction dies (\<lambda>s.
     if list_ex (\<lambda>j. rj_id j = i \<and> claim_current token now j) (cp_jobs s)
     then (Inr (), update_job i (\<lambda>j. j\<lparr>rj_claim_expires_at := Some (f_add now (cc_claim_lease_seconds cfg))\<rparr>) s)
     else (Inl ControlPlaneConflictError, s))"

text \<open>\<open>str.isalnum\<close> on ASCII.\<close>

definition isalnum :: "string \<Rightarrow> bool" where
  "isalnum s \<longleftrightarrow> s \<noteq> [] \<and> list_all (\<lambda>c. let n = of_char c :: nat in
     (48 \<le> n \<and> n \<le> 57) \<or> (65 \<le> n \<and> n \<le> 90) \<or> (97 \<le> n \<and> n \<le> 122)) s"

definition reserve_incident :: "bool \<Rightarrow> string \<Rightarrow> string \<Rightarrow> pyfloat \<Rightarrow> control_plane \<Rightarrow>
    (exn + string) \<times> control_plane" where
  "reserve_incident dies i token now = transaction dies (\<lambda>s.
     case find_job i s of None \<Rightarrow> (Inl ControlPlaneNotFoundError, s) | Some row \<Rightarrow>
     if \<not> claim_current token now row then (Inl ControlPlaneConflictError, s)
     else (case rj_incident_id row of
         None \<Rightarrow> let incident_id = ''scenario'' @ i in
           (Inr incident_id, event i ''scenario_reserved'' [(''incident_id'', JStr incident_id)]
              (update_job i (\<lambda>j. j\<lparr>rj_incident_id := Some incident_id\<rparr>) s))
       | Some stored \<Rightarrow> if isalnum stored then (Inr stored, s) else (Inl ControlPlaneIntegrityError, s)))"

definition scenario_status :: "string \<Rightarrow> control_plane \<Rightarrow> investigation_status option" where
  "scenario_status incident_id s = map_option (iv_status \<circ> view)
     (find (\<lambda>j. rj_incident_id j = Some incident_id) (cp_jobs s))"

definition incident_id_for :: "string \<Rightarrow> control_plane \<Rightarrow> exn + string option" where
  "incident_id_for i s = (case find_job i s of None \<Rightarrow> Inl ControlPlaneNotFoundError | Some row \<Rightarrow>
     case rj_incident_id row of None \<Rightarrow> Inr None
     | Some incident_id \<Rightarrow> if isalnum incident_id then Inr (Some incident_id) else Inl ControlPlaneIntegrityError)"

definition mark_paused :: "bool \<Rightarrow> string \<Rightarrow> string \<Rightarrow> string \<Rightarrow> pyfloat \<Rightarrow> control_plane \<Rightarrow>
    (exn + unit) \<times> control_plane" where
  "mark_paused dies i checkpoint_id token now s =
     (if py_strip checkpoint_id = [] then (Inl ValueError, s)
      else transaction dies (\<lambda>s.
        case find_job i s of None \<Rightarrow> (Inl ControlPlaneNotFoundError, s) | Some row \<Rightarrow>
        if \<not> claim_current token now row then (Inl ControlPlaneConflictError, s)
        else (Inr (), event i ''owner_decision_requested'' [(''checkpoint_id'', JStr checkpoint_id)]
          (update_job i (\<lambda>j. j\<lparr>rj_status := PAUSED_APPROVAL, rj_checkpoint_id := Some checkpoint_id,
             rj_claim_token := None, rj_claim_expires_at := None\<rparr>) s))) s)"

definition requeue_running :: "bool \<Rightarrow> string \<Rightarrow> string \<Rightarrow> control_plane \<Rightarrow> (exn + unit) \<times> control_plane" where
  "requeue_running dies i token = transaction dies (\<lambda>s.
     if list_ex (\<lambda>j. rj_id j = i \<and> rj_status j = RUNNING \<and> rj_claim_token j = Some token) (cp_jobs s)
     then (Inr (), event i ''investigation_requeued'' []
       (update_job i (\<lambda>j. j\<lparr>rj_status := QUEUED, rj_claim_token := None, rj_claim_expires_at := None\<rparr>) s))
     else (Inl ControlPlaneConflictError, s))"

text \<open>\<open>error_name\<close> is \<open>type(error).__name__\<close>.\<close>

definition retry_running :: "cp_config \<Rightarrow> bool \<Rightarrow> string \<Rightarrow> string \<Rightarrow> string \<Rightarrow> pyfloat \<Rightarrow> control_plane \<Rightarrow>
    (exn + bool) \<times> control_plane" where
  "retry_running cfg dies i token error_name now = transaction dies (\<lambda>s.
     case find_job i s of None \<Rightarrow> (Inl ControlPlaneNotFoundError, s) | Some row \<Rightarrow>
     if rj_status row \<noteq> RUNNING \<or> rj_claim_token row \<noteq> Some token then (Inl ControlPlaneConflictError, s)
     else let attempt = rj_attempt_count row + 1 in
       if cc_max_replay_attempts cfg \<le> attempt then
         (Inr False, event i ''investigation_failed'' [(''attempt_count'', JInt attempt)]
            (update_job i (given_up attempt (''retry_limit:'' @ error_name)) s))
       else let retry_at = f_add now (retry_delay cfg attempt) in
         (Inr True, event i ''investigation_retry_scheduled''
            [(''attempt_count'', JInt attempt), (''retry_at'', JFloat retry_at)]
            (update_job i (requeued attempt retry_at) s)))"

text \<open>\<open>snapshot\<close> reads the write-once report artifact; it may raise.\<close>

definition finalize :: "libs \<Rightarrow> (string \<Rightarrow> string \<Rightarrow> exn + string) \<Rightarrow> bool \<Rightarrow> string \<Rightarrow> string \<Rightarrow> string \<Rightarrow> pyfloat \<Rightarrow>
    control_plane \<Rightarrow> (exn + unit) \<times> control_plane" where
  "finalize L snapshot dies i report_artifact token now s =
     (if py_strip report_artifact = [] then (Inl ValueError, s)
      else transaction dies (\<lambda>s.
        case find_job i s of None \<Rightarrow> (Inl ControlPlaneNotFoundError, s) | Some row \<Rightarrow>
        if rj_status row = COMPLETED then (Inl ControlPlaneConflictError, s)
        else if \<not> claim_current token now row then (Inl ControlPlaneConflictError, s)
        else (case bind_r (validate_report_reference i report_artifact) (\<lambda>_. snapshot i report_artifact) of
          Inl e \<Rightarrow> (Inl e, s)
        | Inr content \<Rightarrow>
          if list_ex (\<lambda>d. dl_job_id d = i) (cp_deliveries s) then (Inl sqlite_integrity_error, s)
          else (Inr (), event i ''report_finalized'' []
            ((update_job i (\<lambda>j. j\<lparr>rj_status := COMPLETED, rj_report_artifact := Some report_artifact,
                rj_report_content := Some content, rj_report_sha256 := Some (sha256_hex L content),
                rj_claim_token := None, rj_claim_expires_at := None\<rparr>) s)
             \<lparr>cp_deliveries := cp_deliveries s @ [\<lparr> dl_job_id = i, dl_destination_email = rj_owner row,
                dl_status = PENDING, dl_claim_token = None, dl_claim_expires_at = None,
                dl_attempt_count = 0, dl_available_at = Fin 0, dl_failure_reason = None \<rparr>]\<rparr>)))) s)"

section \<open>Delivery\<close>

text \<open>\<open>ORDER BY d.available_at, j.rowid\<close> over the join, in the order of the jobs.\<close>

definition pending_deliveries :: "pyfloat \<Rightarrow> control_plane \<Rightarrow> (replay_job \<times> report_delivery) list" where
  "pending_deliveries now s = concat (map (\<lambda>j. map (Pair j) (filter (\<lambda>d. dl_job_id d = rj_id j
     \<and> dl_status d = PENDING \<and> dl_failure_reason d = None \<and> f_le (dl_available_at d) now) (cp_deliveries s)))
     (cp_jobs s))"

definition claim_delivery :: "cp_config \<Rightarrow> bool \<Rightarrow> pyfloat \<Rightarrow> string \<Rightarrow> control_plane \<Rightarrow>
    (exn + delivery_claim option) \<times> control_plane" where
  "claim_delivery cfg dies now token = transaction dies (\<lambda>s0.
     let s = reclaim_expired_deliveries cfg now s0 in
     case first_row (\<lambda>a b. f_lt (dl_available_at (snd a)) (dl_available_at (snd b))) (pending_deliveries now s) of
       None \<Rightarrow> (Inr None, s)
     | Some (j, d) \<Rightarrow>
       let s1 = update_delivery (rj_id j) (\<lambda>d. d\<lparr>dl_status := SENDING, dl_claim_token := Some token,
             dl_claim_expires_at := Some (f_add now (cc_claim_lease_seconds cfg))\<rparr>) s in
       (case (rj_report_artifact j, rj_report_content j, rj_report_sha256 j) of
          (Some artifact, Some content, Some digest) \<Rightarrow>
            (Inr (Some \<lparr> dv_investigation_id = rj_id j, dv_status = rj_status j,
               dv_report_artifact = artifact, dv_report_content = content, dv_report_sha256 = digest,
               dv_destination_email = dl_destination_email d, dv_delivery_id = rj_id j,
               dv_claim_token = token \<rparr>), s1)
        | _ \<Rightarrow> (Inl ValidationError, s1)))"

definition mark_delivered :: "bool \<Rightarrow> string \<Rightarrow> string \<Rightarrow> pyfloat \<Rightarrow> control_plane \<Rightarrow> (exn + unit) \<times> control_plane" where
  "mark_delivered dies i token now = transaction dies (\<lambda>s.
     if list_ex (\<lambda>d. dl_job_id d = i \<and> delivery_current token now d) (cp_deliveries s)
     then (Inr (), event i ''report_delivered'' []
       (update_delivery i (\<lambda>d. d\<lparr>dl_status := SENT, dl_claim_token := None, dl_claim_expires_at := None\<rparr>) s))
     else (Inl ControlPlaneConflictError, s))"

definition renew_delivery :: "cp_config \<Rightarrow> bool \<Rightarrow> string \<Rightarrow> string \<Rightarrow> pyfloat \<Rightarrow> control_plane \<Rightarrow>
    (exn + unit) \<times> control_plane" where
  "renew_delivery cfg dies i token now = transaction dies (\<lambda>s.
     if list_ex (\<lambda>d. dl_job_id d = i \<and> delivery_current token now d) (cp_deliveries s)
     then (Inr (), update_delivery i
       (\<lambda>d. d\<lparr>dl_claim_expires_at := Some (f_add now (cc_claim_lease_seconds cfg))\<rparr>) s)
     else (Inl ControlPlaneConflictError, s))"

definition release_delivery :: "bool \<Rightarrow> string \<Rightarrow> string \<Rightarrow> control_plane \<Rightarrow> (exn + unit) \<times> control_plane" where
  "release_delivery dies i token = transaction dies (\<lambda>s.
     if list_ex (\<lambda>d. dl_job_id d = i \<and> dl_status d = SENDING \<and> dl_claim_token d = Some token) (cp_deliveries s)
     then (Inr (), event i ''report_delivery_requeued'' []
       (update_delivery i (\<lambda>d. d\<lparr>dl_status := PENDING, dl_claim_token := None, dl_claim_expires_at := None\<rparr>) s))
     else (Inl ControlPlaneConflictError, s))"

definition retry_delivery :: "cp_config \<Rightarrow> bool \<Rightarrow> string \<Rightarrow> string \<Rightarrow> string \<Rightarrow> pyfloat \<Rightarrow> control_plane \<Rightarrow>
    (exn + bool) \<times> control_plane" where
  "retry_delivery cfg dies i token error_name now = transaction dies (\<lambda>s.
     case find (\<lambda>d. dl_job_id d = i) (cp_deliveries s) of None \<Rightarrow> (Inl ControlPlaneNotFoundError, s) | Some row \<Rightarrow>
     if dl_status row \<noteq> SENDING \<or> dl_claim_token row \<noteq> Some token then (Inl ControlPlaneConflictError, s)
     else let attempt = dl_attempt_count row + 1 in
       if cc_max_delivery_attempts cfg \<le> attempt then
         (Inr False, event i ''report_delivery_failed'' [(''attempt_count'', JInt attempt)]
            (update_delivery i (delivery_given_up attempt (''retry_limit:'' @ error_name)) s))
       else let retry_at = f_add now (retry_delay cfg attempt) in
         (Inr True, event i ''report_delivery_retry_scheduled''
            [(''attempt_count'', JInt attempt), (''retry_at'', JFloat retry_at)]
            (update_delivery i (delivery_requeued attempt retry_at) s)))"

end
