(* ===== verification/ControlSpec.thy ===== *)
theory ControlSpec
  imports ControlPlane
begin

text \<open>
  What the job queue promises, without leases, tokens, attempts or clocks: an abstract machine
  over the phase of each job and of each delivery, and the abstraction function from the tables.
\<close>

section \<open>The abstract machine\<close>

datatype phase = Waiting | Working | Asking | Finished "string option" | Abandoned

datatype outgoing = Due | In_flight | Delivered | Undeliverable

record queue_spec =
  qs_jobs :: "string \<rightharpoonup> phase"
  qs_outbox :: "string \<rightharpoonup> outgoing"

text \<open>How the phase of one job may change, other than by finishing.\<close>

definition job_edge :: "phase \<Rightarrow> phase \<Rightarrow> bool" where
  "job_edge p q \<longleftrightarrow> (p, q) \<in> {(Waiting, Working), (Working, Waiting), (Working, Asking),
     (Working, Abandoned), (Asking, Waiting)}"

definition outbox_edge :: "outgoing \<Rightarrow> outgoing \<Rightarrow> bool" where
  "outbox_edge p q \<longleftrightarrow> (p, q) \<in> {(Due, In_flight), (In_flight, Due), (In_flight, Delivered),
     (In_flight, Undeliverable)}"

inductive spec_step :: "queue_spec \<Rightarrow> queue_spec \<Rightarrow> bool" where
  submit: "qs_jobs q i = None \<Longrightarrow> spec_step q (q\<lparr>qs_jobs := (qs_jobs q)(i \<mapsto> Waiting)\<rparr>)"
| change: "qs_jobs q i = Some p \<Longrightarrow> job_edge p p' \<Longrightarrow> (p' = Working \<Longrightarrow> Some Working \<notin> range (qs_jobs q)) \<Longrightarrow>
    spec_step q (q\<lparr>qs_jobs := (qs_jobs q)(i \<mapsto> p')\<rparr>)"
| finish: "qs_jobs q i = Some Working \<Longrightarrow> qs_outbox q i = None \<Longrightarrow>
    spec_step q (q\<lparr>qs_jobs := (qs_jobs q)(i \<mapsto> Finished report), qs_outbox := (qs_outbox q)(i \<mapsto> Due)\<rparr>)"
| send: "qs_outbox q i = Some p \<Longrightarrow> outbox_edge p p' \<Longrightarrow>
    spec_step q (q\<lparr>qs_outbox := (qs_outbox q)(i \<mapsto> p')\<rparr>)"

text \<open>What holds of the abstract machine: its final phases stay, and one job works at a time.\<close>

definition lone_worker :: "queue_spec \<Rightarrow> bool" where
  "lone_worker q \<longleftrightarrow> (\<forall>i k. qs_jobs q i = Some Working \<longrightarrow> qs_jobs q k = Some Working \<longrightarrow> i = k)"

lemma spec_step_lone_worker: "spec_step q q' \<Longrightarrow> lone_worker q \<Longrightarrow> lone_worker q'"
proof (induction rule: spec_step.induct)
  case (change q i p p')
  show ?case
  proof (cases "p' = Working")
    case True
    with change(3) have "qs_jobs q k \<noteq> Some Working" for k by (metis rangeI)
    then show ?thesis by (auto simp: lone_worker_def)
  qed (use change(4) in \<open>auto simp: lone_worker_def\<close>)
qed (auto simp: lone_worker_def)

interpretation lifecycle: invariant_system spec_step lone_worker
  by unfold_locales (rule spec_step_lone_worker)

lemma spec_steps_final:
  assumes "spec_step\<^sup>*\<^sup>* q q'"
  shows "qs_jobs q i = Some (Finished report) \<longrightarrow> qs_jobs q' i = Some (Finished report)"
    and "qs_jobs q i = Some Abandoned \<longrightarrow> qs_jobs q' i = Some Abandoned"
    and "qs_outbox q i = Some Delivered \<longrightarrow> qs_outbox q' i = Some Delivered"
    and "qs_outbox q i = Some Undeliverable \<longrightarrow> qs_outbox q' i = Some Undeliverable"
  using assms
  by (induction rule: rtranclp_induct; auto elim!: spec_step.cases simp: job_edge_def outbox_edge_def)+

section \<open>The abstraction function\<close>

definition phase_of :: "replay_job \<Rightarrow> phase" where
  "phase_of j = (if rj_failure_reason j \<noteq> None then Abandoned else case rj_status j of
     QUEUED \<Rightarrow> Waiting | RUNNING \<Rightarrow> Working | PAUSED_APPROVAL \<Rightarrow> Asking
   | COMPLETED \<Rightarrow> Finished (rj_report_content j) | ST_FAILED_SAFE \<Rightarrow> Abandoned)"

definition outgoing_of :: "report_delivery \<Rightarrow> outgoing" where
  "outgoing_of d = (if dl_failure_reason d \<noteq> None then Undeliverable else case dl_status d of
     PENDING \<Rightarrow> Due | SENDING \<Rightarrow> In_flight | SENT \<Rightarrow> Delivered)"

definition queue_of :: "control_plane \<Rightarrow> queue_spec" where
  "queue_of s = \<lparr> qs_jobs = map_of (map (\<lambda>j. (rj_id j, phase_of j)) (cp_jobs s)),
     qs_outbox = map_of (map (\<lambda>d. (dl_job_id d, outgoing_of d)) (cp_deliveries s)) \<rparr>"

lemma map_of_map_update:
  assumes "distinct (map key xs)" "x \<in> set xs" "key x = i" "key (f x) = i"
  shows "map_of (map (\<lambda>x. (key x, val x)) (map (\<lambda>x. if key x = i then f x else x) xs)) =
    (map_of (map (\<lambda>x. (key x, val x)) xs))(i \<mapsto> val (f x))"
  using assms
proof (induction xs)
  case (Cons y ys)
  show ?case
  proof (cases "key y = i")
    case True
    with Cons.prems have y: "y = x" by (auto simp: image_iff)
    have "map (\<lambda>x. if key x = i then f x else x) ys = ys"
      using Cons.prems True by (intro map_idI) (auto simp: image_iff)
    with y Cons.prems show ?thesis by (auto simp: fun_eq_iff)
  next
    case False
    with Cons have "map_of (map (\<lambda>x. (key x, val x)) (map (\<lambda>x. if key x = i then f x else x) ys)) =
        (map_of (map (\<lambda>x. (key x, val x)) ys))(i \<mapsto> val (f x))" by auto
    with False show ?thesis by (auto simp: fun_upd_twist)
  qed
qed simp

lemma map_of_key: "distinct (map key xs) \<Longrightarrow> x \<in> set xs \<Longrightarrow> map_of (map (\<lambda>x. (key x, val x)) xs) (key x) = Some (val x)"
  by (rule map_of_is_SomeI) (auto simp: comp_def)

lemma map_of_keyD: "map_of (map (\<lambda>x. (key x, val x)) xs) i = Some v \<Longrightarrow> \<exists>x \<in> set xs. key x = i \<and> val x = v"
  by (auto dest!: map_of_SomeD)

lemma map_of_new_key: "i \<notin> key ` set xs \<Longrightarrow> map_of (map (\<lambda>x. (key x, val x)) xs) i = None"
  by (auto simp: map_of_eq_None_iff)

lemma map_of_snoc: "key x \<notin> key ` set xs \<Longrightarrow> map_of (map (\<lambda>x. (key x, val x)) (xs @ [x])) =
    (map_of (map (\<lambda>x. (key x, val x)) xs))(key x \<mapsto> val x)"
  by (auto simp: fun_eq_iff map_add_def map_of_new_key split: option.splits dest!: map_of_SomeD)

end
