(* ===== verification/ControlInv.thy ===== *)
theory ControlInv
  imports ControlSpec
begin

text \<open>
  The invariant of the job queue and its preservation by every method of the control plane,
  together with the order its states move in: identities stay, finished and abandoned jobs stay
  as they are, decisions are only ever added.
\<close>

section \<open>The invariant\<close>

definition report_stored :: "libs \<Rightarrow> replay_job \<Rightarrow> bool" where
  "report_stored L j \<longleftrightarrow> (\<exists>artifact content. rj_report_artifact j = Some artifact
     \<and> py_strip artifact \<noteq> [] \<and> validate_report_reference (rj_id j) artifact = Inr ()
     \<and> rj_report_content j = Some content \<and> rj_report_sha256 j = Some (sha256_hex L content))"

definition job_ok :: "libs \<Rightarrow> cp_config \<Rightarrow> replay_job \<Rightarrow> bool" where
  "job_ok L cfg j \<longleftrightarrow> rj_status j \<noteq> ST_FAILED_SAFE
     \<and> (rj_status j = RUNNING \<longleftrightarrow> rj_claim_token j \<noteq> None)
     \<and> (rj_claim_token j = None \<longleftrightarrow> rj_claim_expires_at j = None)
     \<and> (\<forall>c \<in> set_option (rj_checkpoint_id j). c \<noteq> [])
     \<and> (rj_status j = PAUSED_APPROVAL \<longrightarrow> rj_checkpoint_id j \<noteq> None)
     \<and> (rj_status j = COMPLETED \<longrightarrow> report_stored L j)
     \<and> (rj_failure_reason j \<noteq> None \<longrightarrow> rj_status j = QUEUED)
     \<and> 0 \<le> rj_attempt_count j
     \<and> (if rj_failure_reason j = None then rj_attempt_count j < cc_max_replay_attempts cfg
        else rj_attempt_count j = cc_max_replay_attempts cfg)"

definition delivery_ok :: "cp_config \<Rightarrow> replay_job list \<Rightarrow> report_delivery \<Rightarrow> bool" where
  "delivery_ok cfg jobs d \<longleftrightarrow>
     (\<exists>j \<in> set jobs. rj_id j = dl_job_id d \<and> rj_status j = COMPLETED \<and> rj_owner j = dl_destination_email d)
     \<and> (dl_status d = SENDING \<longleftrightarrow> dl_claim_token d \<noteq> None)
     \<and> (dl_claim_token d = None \<longleftrightarrow> dl_claim_expires_at d = None)
     \<and> (dl_failure_reason d \<noteq> None \<longrightarrow> dl_status d = PENDING)
     \<and> 0 \<le> dl_attempt_count d
     \<and> (if dl_failure_reason d = None then dl_attempt_count d < cc_max_delivery_attempts cfg
        else dl_attempt_count d = cc_max_delivery_attempts cfg)"

definition ordinals_ok :: "replay_event list \<Rightarrow> bool" where
  "ordinals_ok evs \<longleftrightarrow> (\<forall>i. map rv_ordinal (filter (\<lambda>e. rv_job_id e = i) evs)
     = map int [0..<length (filter (\<lambda>e. rv_job_id e = i) evs)])"

text \<open>
  The mirrored decisions against the ledger: one per job and one per thread, each ledger row a
  decision the boundary accepts, and no mirrored decision without its ledger row.
\<close>

definition agrees :: "replay_decision \<Rightarrow> decision_row \<Rightarrow> bool" where
  "agrees m r \<longleftrightarrow> dc_thread_id r = rd_job_id m \<and> dc_checkpoint_id r = rd_checkpoint_id m
     \<and> dc_decision r = rd_decision m \<and> dc_rejection_note r = rd_rejection_note m"

definition valid_decision :: "owner_decision \<Rightarrow> bool" where
  "valid_decision d \<longleftrightarrow> owner_decision_new (od_decision d) (od_rejection_note d) = Inr d"

definition row_decision :: "decision_row \<Rightarrow> owner_decision" where
  "row_decision r = \<lparr> od_decision = dc_decision r, od_rejection_note = dc_rejection_note r \<rparr>"

definition decisions_ok :: "replay_decision list \<Rightarrow> decision_row list \<Rightarrow> bool" where
  "decisions_ok ms rows \<longleftrightarrow> distinct (map rd_job_id ms) \<and> distinct (map dc_thread_id rows)
     \<and> (\<forall>r \<in> set rows. valid_decision (row_decision r))
     \<and> (\<forall>m \<in> set ms. \<exists>r \<in> set rows. agrees m r)"

text \<open>The lab has one mutable scenario: no two jobs run at once.\<close>

definition one_running :: "replay_job list \<Rightarrow> bool" where
  "one_running jobs \<longleftrightarrow> (\<forall>j \<in> set jobs. \<forall>k \<in> set jobs.
     rj_status j = RUNNING \<and> rj_status k = RUNNING \<longrightarrow> rj_id j = rj_id k)"

definition cp_ok :: "libs \<Rightarrow> cp_config \<Rightarrow> control_plane \<Rightarrow> bool" where
  "cp_ok L cfg s \<longleftrightarrow> distinct (map rj_id (cp_jobs s))
     \<and> (\<forall>j \<in> set (cp_jobs s). job_ok L cfg j)
     \<and> one_running (cp_jobs s)
     \<and> distinct (map dl_job_id (cp_deliveries s))
     \<and> (\<forall>d \<in> set (cp_deliveries s). delivery_ok cfg (cp_jobs s) d)
     \<and> (\<forall>j \<in> set (cp_jobs s). rj_status j = COMPLETED \<longrightarrow> rj_id j \<in> dl_job_id ` set (cp_deliveries s))
     \<and> decisions_ok (cp_decisions s) (cp_ledger s)
     \<and> ordinals_ok (cp_events s)
     \<and> 0 < cc_max_replay_attempts cfg \<and> 0 < cc_max_delivery_attempts cfg"

section \<open>The order of states\<close>

definition job_le :: "replay_job \<Rightarrow> replay_job \<Rightarrow> bool" where
  "job_le j j' \<longleftrightarrow> rj_id j' = rj_id j \<and> rj_owner j' = rj_owner j
     \<and> rj_scenario_family j' = rj_scenario_family j \<and> rj_seed j' = rj_seed j
     \<and> rj_idempotency_key j' = rj_idempotency_key j
     \<and> (rj_status j = COMPLETED \<or> rj_failure_reason j \<noteq> None \<longrightarrow> j' = j)
     \<and> rj_attempt_count j \<le> rj_attempt_count j'
     \<and> (rj_incident_id j \<noteq> None \<longrightarrow> rj_incident_id j' = rj_incident_id j)"

definition delivery_le :: "report_delivery \<Rightarrow> report_delivery \<Rightarrow> bool" where
  "delivery_le d d' \<longleftrightarrow> dl_job_id d' = dl_job_id d \<and> dl_destination_email d' = dl_destination_email d
     \<and> (dl_status d = SENT \<or> dl_failure_reason d \<noteq> None \<longrightarrow> d' = d)
     \<and> dl_attempt_count d \<le> dl_attempt_count d'"

text \<open>A list whose elements only moved up, possibly with more behind them.\<close>

definition grows :: "('a \<Rightarrow> 'a \<Rightarrow> bool) \<Rightarrow> 'a list \<Rightarrow> 'a list \<Rightarrow> bool" where
  "grows le xs ys \<longleftrightarrow> (\<exists>zs rest. ys = zs @ rest \<and> list_all2 le xs zs)"

definition cp_le :: "control_plane \<Rightarrow> control_plane \<Rightarrow> bool" where
  "cp_le s s' \<longleftrightarrow> grows job_le (cp_jobs s) (cp_jobs s')
     \<and> grows delivery_le (cp_deliveries s) (cp_deliveries s')
     \<and> prefix (cp_events s) (cp_events s') \<and> prefix (cp_decisions s) (cp_decisions s')
     \<and> prefix (cp_ledger s) (cp_ledger s')"

lemma growsI: "list_all2 le xs zs \<Longrightarrow> grows le xs (zs @ rest)"
  by (auto simp: grows_def)

lemma grows_same: "list_all2 le xs zs \<Longrightarrow> grows le xs zs"
  using growsI [of le xs zs "[]"] by simp

lemma grows_refl: "(\<And>x. le x x) \<Longrightarrow> grows le xs xs"
  by (simp add: grows_same list.rel_refl)

lemma grows_snoc: "(\<And>x. le x x) \<Longrightarrow> grows le xs (xs @ ys)"
  by (simp add: growsI list.rel_refl)

lemma grows_trans:
  assumes "\<And>x y z. le x y \<Longrightarrow> le y z \<Longrightarrow> le x z" "grows le xs ys" "grows le ys zs"
  shows "grows le xs zs"
proof -
  from assms(2) obtain as r where ys: "ys = as @ r" "list_all2 le xs as" by (auto simp: grows_def)
  from assms(3) ys obtain bs cs r' where zs: "zs = (bs @ cs) @ r'" "list_all2 le as bs"
    by (auto simp: grows_def list_all2_append1)
  have "list_all2 le xs bs" using assms(1) ys(2) zs(2) by (rule list_all2_trans)
  then have "grows le xs (bs @ (cs @ r'))" by (rule growsI)
  with zs show ?thesis by simp
qed

lemma grows_member: "grows le xs ys \<Longrightarrow> x \<in> set xs \<Longrightarrow> \<exists>y \<in> set ys. le x y"
  unfolding grows_def by (metis UnCI in_set_conv_nth list_all2_conv_all_nth set_append)

lemma job_le_refl [simp]: "job_le j j"
  by (simp add: job_le_def)

lemma job_le_trans: "job_le a b \<Longrightarrow> job_le b c \<Longrightarrow> job_le a c"
  unfolding job_le_def by force

lemma delivery_le_refl [simp]: "delivery_le d d"
  by (simp add: delivery_le_def)

lemma delivery_le_trans: "delivery_le a b \<Longrightarrow> delivery_le b c \<Longrightarrow> delivery_le a c"
  unfolding delivery_le_def by force

lemma cp_le_refl [simp]: "cp_le s s"
  by (simp add: cp_le_def grows_refl)

lemma cp_le_trans: "cp_le a b \<Longrightarrow> cp_le b c \<Longrightarrow> cp_le a c"
  unfolding cp_le_def by (meson grows_trans job_le_trans delivery_le_trans prefix_order.trans)

section \<open>Steps of the methods\<close>

text \<open>
  What each piece of a transaction does: the invariant holds again, the state moved up, and the
  abstract machine can follow.
\<close>

definition moves :: "libs \<Rightarrow> cp_config \<Rightarrow> control_plane \<Rightarrow> control_plane \<Rightarrow> bool" where
  "moves L cfg s s' \<longleftrightarrow> (cp_ok L cfg s \<longrightarrow>
     cp_ok L cfg s' \<and> cp_le s s' \<and> spec_step\<^sup>*\<^sup>* (queue_of s) (queue_of s'))"

lemma moves_refl [simp]: "moves L cfg s s"
  by (simp add: moves_def)

lemma moves_trans: "moves L cfg a b \<Longrightarrow> moves L cfg b c \<Longrightarrow> moves L cfg a c"
  by (auto simp: moves_def intro: cp_le_trans rtranclp_trans)

text \<open>Tables the abstraction does not read.\<close>

lemma queue_of_cong: "cp_jobs s = cp_jobs s' \<Longrightarrow> cp_deliveries s = cp_deliveries s' \<Longrightarrow> queue_of s = queue_of s'"
  by (simp add: queue_of_def)

lemma next_ordinal_eq:
  assumes "ordinals_ok evs"
  shows "next_ordinal i evs = int (length (filter (\<lambda>e. rv_job_id e = i) evs))"
proof -
  have max: "fold (\<lambda>e n. max n (rv_ordinal e + 1)) es 0 = int (length es)"
    if "map rv_ordinal es = map int [0..<length es]" for es
    using that by (induction es rule: rev_induct) auto
  have filter: "fold (\<lambda>e n. if rv_job_id e = i then max n (rv_ordinal e + 1) else n) es n0 =
      fold (\<lambda>e n. max n (rv_ordinal e + 1)) (filter (\<lambda>e. rv_job_id e = i) es) n0" for es n0
    by (induction es arbitrary: n0) auto
  show ?thesis
    using assms max [of "filter (\<lambda>e. rv_job_id e = i) evs"] by (simp add: next_ordinal_def filter ordinals_ok_def)
qed

lemma event_simps [simp]: "cp_jobs (event i name flds s) = cp_jobs s"
  "cp_deliveries (event i name flds s) = cp_deliveries s" "cp_decisions (event i name flds s) = cp_decisions s"
  "cp_ledger (event i name flds s) = cp_ledger s"
  by (simp_all add: event_def)

lemma event_moves [simp]: "moves L cfg s (event i name flds s)"
proof -
  have "ordinals_ok (cp_events (event i name flds s))" if "ordinals_ok (cp_events s)"
    using that next_ordinal_eq [OF that] by (auto simp: ordinals_ok_def event_def)
  then have "cp_ok L cfg (event i name flds s)" if "cp_ok L cfg s"
    using that unfolding cp_ok_def event_simps by blast
  moreover have "cp_le s (event i name flds s)"
    unfolding cp_le_def event_simps by (simp add: grows_refl event_def)
  moreover have "queue_of (event i name flds s) = queue_of s" by (rule queue_of_cong) simp_all
  ultimately show ?thesis by (simp add: moves_def)
qed

lemma update_job_simps [simp]: "cp_deliveries (update_job i f s) = cp_deliveries s"
  "cp_events (update_job i f s) = cp_events s" "cp_decisions (update_job i f s) = cp_decisions s"
  "cp_ledger (update_job i f s) = cp_ledger s"
  by (simp_all add: update_job_def)

lemma update_job_jobs: "cp_jobs (update_job i f s) = map (\<lambda>j. if rj_id j = i then f j else j) (cp_jobs s)"
  by (simp add: update_job_def)

lemma in_update_job: "x \<in> set (cp_jobs (update_job i f s)) \<longleftrightarrow>
    (\<exists>y \<in> set (cp_jobs s). x = (if rj_id y = i then f y else y))"
  unfolding update_job_jobs set_map image_iff ..

lemma same_id: "distinct (map rj_id js) \<Longrightarrow> j \<in> set js \<Longrightarrow> k \<in> set js \<Longrightarrow> rj_id j = rj_id k \<Longrightarrow> j = k"
  by (auto simp: distinct_map inj_on_def)

lemma update_job_moves:
  assumes j: "j \<in> set (cp_jobs s)" "rj_id j = i"
    and ok: "job_ok L cfg j \<Longrightarrow> job_ok L cfg (f j)" and le: "job_ok L cfg j \<Longrightarrow> job_le j (f j)"
    and open_jobs: "rj_status j \<noteq> COMPLETED" "rj_status (f j) \<noteq> COMPLETED"
    and run: "rj_status (f j) = RUNNING \<Longrightarrow> rj_status j = RUNNING \<or> (\<forall>k \<in> set (cp_jobs s). rj_status k \<noteq> RUNNING)"
    and edge: "job_ok L cfg j \<Longrightarrow> phase_of (f j) = phase_of j \<or> job_edge (phase_of j) (phase_of (f j))"
  shows "moves L cfg s (update_job i f s)"
  unfolding moves_def
proof (intro impI conjI)
  assume inv: "cp_ok L cfg s"
  let ?s = "update_job i f s"
  let ?g = "\<lambda>y. if rj_id y = i then f y else y"
  have dist: "distinct (map rj_id (cp_jobs s))" using inv by (simp add: cp_ok_def)
  have jok: "job_ok L cfg j" using inv j by (simp add: cp_ok_def)
  have only: "y = j" if "y \<in> set (cp_jobs s)" "rj_id y = i" for y using same_id [OF dist that(1) j(1)] that j by simp
  have id: "rj_id (f j) = i" using le [OF jok] j by (simp add: job_le_def)
  have le': "job_le y (?g y)" if "y \<in> set (cp_jobs s)" for y using that only le [OF jok] by auto
  show "cp_le s ?s"
    using le' by (auto simp: cp_le_def update_job_def grows_refl list_all2_map2 list_all2_same intro!: grows_same)
  have ids: "map rj_id (cp_jobs ?s) = map rj_id (cp_jobs s)"
    using only id by (auto simp: update_job_def)
  have comp: "k \<in> set (cp_jobs ?s) \<and> rj_status k = COMPLETED \<longleftrightarrow> k \<in> set (cp_jobs s) \<and> rj_status k = COMPLETED" for k
  proof (intro iffI; elim conjE)
    assume k: "k \<in> set (cp_jobs ?s)" "rj_status k = COMPLETED"
    then obtain y where y: "y \<in> set (cp_jobs s)" "k = ?g y" unfolding in_update_job by blast
    with k(2) only [OF y(1)] open_jobs have "rj_id y \<noteq> i" by auto
    with y k(2) show "k \<in> set (cp_jobs s) \<and> rj_status k = COMPLETED" by simp
  next
    assume k: "k \<in> set (cp_jobs s)" "rj_status k = COMPLETED"
    with only [OF k(1)] open_jobs have "k = ?g k" by auto
    with k show "k \<in> set (cp_jobs ?s) \<and> rj_status k = COMPLETED" unfolding in_update_job by blast
  qed
  have jobs: "job_ok L cfg k" if "k \<in> set (cp_jobs ?s)" for k
    using that inv only ok jok unfolding in_update_job by (auto simp: cp_ok_def)
  have one: "rj_id x = rj_id y" if "x \<in> set (cp_jobs ?s)" "y \<in> set (cp_jobs ?s)" "rj_status x = RUNNING" "rj_status y = RUNNING" for x y
  proof -
    have old: "rj_id v = rj_id w" if "v \<in> set (cp_jobs s)" "w \<in> set (cp_jobs s)" "rj_status v = RUNNING" "rj_status w = RUNNING" for v w
      using inv that unfolding cp_ok_def one_running_def by blast
    from that obtain v w where v: "v \<in> set (cp_jobs s)" "x = ?g v" and w: "w \<in> set (cp_jobs s)" "y = ?g w"
      unfolding in_update_job by blast
    have src: "rj_id (?g z) = rj_id z \<and> (rj_status z = RUNNING \<or> z = j \<and> (\<forall>k \<in> set (cp_jobs s). rj_status k \<noteq> RUNNING))"
      if "z \<in> set (cp_jobs s)" "rj_status (?g z) = RUNNING" for z
      using that only [of z] run id j(2) by (cases "rj_id z = i") auto
    show ?thesis
      using src [OF v(1)] src [OF w(1)] old [OF v(1) w(1)] v w that(3,4) by auto
  qed
  have del: "delivery_ok cfg (cp_jobs ?s) d" if "d \<in> set (cp_deliveries s)" for d
    using inv that comp unfolding cp_ok_def delivery_ok_def by blast
  have full: "rj_id k \<in> dl_job_id ` set (cp_deliveries s)" if "k \<in> set (cp_jobs ?s)" "rj_status k = COMPLETED" for k
    using inv comp that unfolding cp_ok_def by blast
  show "cp_ok L cfg ?s"
    using inv jobs del full one unfolding cp_ok_def ids update_job_simps one_running_def by blast
  have at_i: "qs_jobs (queue_of s) i = Some (phase_of j)"
    using map_of_key [OF dist j(1), of phase_of] j(2) by (simp add: queue_of_def)
  have abs: "queue_of ?s = (queue_of s)\<lparr>qs_jobs := (qs_jobs (queue_of s))(i \<mapsto> phase_of (f j))\<rparr>"
    using map_of_map_update [where f = f and val = phase_of, OF dist j id] by (simp add: queue_of_def update_job_jobs)
  show "spec_step\<^sup>*\<^sup>* (queue_of s) (queue_of ?s)"
  proof (cases "phase_of (f j) = phase_of j")
    case True
    then have "queue_of ?s = queue_of s" using abs at_i by (simp add: fun_upd_idem)
    then show ?thesis by simp
  next
    case False
    then have e: "job_edge (phase_of j) (phase_of (f j))" using edge [OF jok] by blast
    have "Some Working \<notin> range (qs_jobs (queue_of s))" if w: "phase_of (f j) = Working"
    proof -
      have "rj_status (f j) = RUNNING" "rj_status j \<noteq> RUNNING"
        using w e jok by (auto simp: phase_of_def job_edge_def job_ok_def split: if_splits investigation_status.splits)
      with run have "\<forall>k \<in> set (cp_jobs s). phase_of k \<noteq> Working"
        by (auto simp: phase_of_def split: investigation_status.splits)
      then show ?thesis by (auto simp: queue_of_def dest!: sym [of "Some Working"] map_of_keyD)
    qed
    with at_i e show ?thesis unfolding abs by (blast intro: spec_step.change)
  qed
qed

lemma update_delivery_deliveries: "cp_deliveries (update_delivery i f s) =
    map (\<lambda>d. if dl_job_id d = i then f d else d) (cp_deliveries s)"
  by (simp add: update_delivery_def)

lemma in_update_delivery: "x \<in> set (cp_deliveries (update_delivery i f s)) \<longleftrightarrow>
    (\<exists>y \<in> set (cp_deliveries s). x = (if dl_job_id y = i then f y else y))"
  unfolding update_delivery_deliveries set_map image_iff ..

lemma update_delivery_simps [simp]: "cp_jobs (update_delivery i f s) = cp_jobs s"
  "cp_events (update_delivery i f s) = cp_events s" "cp_decisions (update_delivery i f s) = cp_decisions s"
  "cp_ledger (update_delivery i f s) = cp_ledger s"
  by (simp_all add: update_delivery_def)

lemma same_delivery:
  "distinct (map dl_job_id ds) \<Longrightarrow> d \<in> set ds \<Longrightarrow> e \<in> set ds \<Longrightarrow> dl_job_id d = dl_job_id e \<Longrightarrow> d = e"
  by (auto simp: distinct_map inj_on_def)

lemma update_delivery_moves:
  assumes d: "d \<in> set (cp_deliveries s)" "dl_job_id d = i"
    and ok: "delivery_ok cfg (cp_jobs s) d \<Longrightarrow> delivery_ok cfg (cp_jobs s) (f d) \<and> delivery_le d (f d)"
    and edge: "delivery_ok cfg (cp_jobs s) d \<Longrightarrow>
      outgoing_of (f d) = outgoing_of d \<or> outbox_edge (outgoing_of d) (outgoing_of (f d))"
  shows "moves L cfg s (update_delivery i f s)"
  unfolding moves_def
proof (intro impI conjI)
  assume inv: "cp_ok L cfg s"
  let ?s = "update_delivery i f s"
  have dist: "distinct (map dl_job_id (cp_deliveries s))" using inv by (simp add: cp_ok_def)
  have dok: "delivery_ok cfg (cp_jobs s) d" using inv d by (simp add: cp_ok_def)
  have only: "y = d" if "y \<in> set (cp_deliveries s)" "dl_job_id y = i" for y
    using same_delivery [OF dist that(1) d(1)] that d by simp
  have le': "delivery_le y (if dl_job_id y = i then f y else y)" if "y \<in> set (cp_deliveries s)" for y
    using that only ok [OF dok] by auto
  have ids: "map dl_job_id (cp_deliveries ?s) = map dl_job_id (cp_deliveries s)"
    using le' by (simp add: update_delivery_deliveries delivery_le_def)
  then have ids': "dl_job_id ` set (cp_deliveries ?s) = dl_job_id ` set (cp_deliveries s)"
    by (simp flip: set_map)
  have del: "delivery_ok cfg (cp_jobs s) e" if "e \<in> set (cp_deliveries ?s)" for e
  proof -
    from that obtain y where y: "y \<in> set (cp_deliveries s)" "e = (if dl_job_id y = i then f y else y)"
      unfolding in_update_delivery by blast
    have "delivery_ok cfg (cp_jobs s) y" using inv y(1) by (simp add: cp_ok_def)
    moreover have "delivery_ok cfg (cp_jobs s) (f y)" if "dl_job_id y = i"
      unfolding only [OF y(1) that] using ok [OF dok] by blast
    ultimately show ?thesis using y(2) by simp
  qed
  show "cp_le s ?s"
    using le' by (auto simp: cp_le_def update_delivery_def grows_refl list_all2_map2 list_all2_same intro!: grows_same)
  show "cp_ok L cfg ?s"
    using inv del unfolding cp_ok_def ids ids' update_delivery_simps by blast
  have at_i: "qs_outbox (queue_of s) i = Some (outgoing_of d)"
    using map_of_key [OF dist d(1), of outgoing_of] d(2) by (simp add: queue_of_def)
  have abs: "queue_of ?s = (queue_of s)\<lparr>qs_outbox := (qs_outbox (queue_of s))(i \<mapsto> outgoing_of (f d))\<rparr>"
    using map_of_map_update [where f = f and val = outgoing_of, OF dist d] ok [OF dok] d(2)
    by (simp add: queue_of_def update_delivery_deliveries delivery_le_def)
  show "spec_step\<^sup>*\<^sup>* (queue_of s) (queue_of ?s)"
  proof (cases "outgoing_of (f d) = outgoing_of d")
    case True
    then have "queue_of ?s = queue_of s" using abs at_i by (simp add: fun_upd_idem)
    then show ?thesis by simp
  next
    case False
    with edge [OF dok] at_i show ?thesis unfolding abs by (blast intro: spec_step.send)
  qed
qed

section \<open>Transactions and decisions\<close>

lemma decisions_ok_prefix: "decisions_ok ms' rows \<Longrightarrow> prefix ms ms' \<Longrightarrow> decisions_ok ms rows"
  by (auto simp: decisions_ok_def prefix_def)

lemma set_ledger_moves:
  assumes "prefix (cp_ledger s) rows" "cp_ok L cfg s \<Longrightarrow> decisions_ok (cp_decisions s) rows"
  shows "moves L cfg s (s\<lparr>cp_ledger := rows\<rparr>)"
  using assms queue_of_cong [of "s\<lparr>cp_ledger := rows\<rparr>" s] unfolding moves_def cp_ok_def cp_le_def control_plane.simps
  by (simp add: grows_refl)

text \<open>A rollback keeps only what the ledger committed on its own.\<close>

lemma transaction_moves:
  assumes "moves L cfg s (snd (body s))"
  shows "moves L cfg s (snd (transaction dies body s))"
proof -
  let ?s = "snd (body s)"
  have "moves L cfg s (s\<lparr>cp_ledger := cp_ledger ?s\<rparr>)" if inv: "cp_ok L cfg s"
  proof (rule set_ledger_moves)
    have up: "cp_ok L cfg ?s" "cp_le s ?s" using assms inv by (simp_all add: moves_def)
    then show "prefix (cp_ledger s) (cp_ledger ?s)" by (simp add: cp_le_def)
    show "decisions_ok (cp_decisions s) (cp_ledger ?s)"
      using up by (auto simp: cp_ok_def cp_le_def intro: decisions_ok_prefix)
  qed
  then have "moves L cfg s (s\<lparr>cp_ledger := cp_ledger ?s\<rparr>)" by (auto simp: moves_def)
  with assms show ?thesis by (auto simp: transaction_def split: prod.splits sum.splits)
qed

lemma newest_in: "newest rows = Some r \<Longrightarrow> r \<in> set rows"
proof -
  have "fold (\<lambda>r best. case best of None \<Rightarrow> Some r
      | Some b \<Rightarrow> if dc_decided_at b < dc_decided_at r then Some r else Some b) rows best = Some r
     \<Longrightarrow> best = Some r \<or> r \<in> set rows" for best
  proof (induction rows arbitrary: best)
    case (Cons a rows)
    from Cons.IH Cons.prems show ?case by (cases best) (auto split: if_splits)
  qed simp
  then show "newest rows = Some r \<Longrightarrow> r \<in> set rows" by (auto simp: newest_def)
qed

lemma newest_None: "newest rows = None \<longleftrightarrow> rows = []"
proof -
  have "fold (\<lambda>r best. case best of None \<Rightarrow> Some r
      | Some b \<Rightarrow> if dc_decided_at b < dc_decided_at r then Some r else Some b) rs (Some b) \<noteq> None" for rs b
    by (induction rs arbitrary: b) auto
  then show ?thesis by (cases rows) (auto simp: newest_def)
qed

text \<open>With one row per thread the newest row is the row.\<close>

lemma read_decision_None:
  "read_decision_for_thread down rows i = Inr None \<Longrightarrow> i \<notin> dc_thread_id ` set rows"
  by (auto simp: read_decision_for_thread_def newest_None filter_empty_conv split: if_splits option.splits sum.splits)

lemma read_decision_Some:
  "read_decision_for_thread down rows i = Inr (Some r) \<Longrightarrow> r \<in> set rows \<and> dc_thread_id r = i"
  by (auto simp: read_decision_for_thread_def decision_row_validate_def split: if_splits option.splits sum.splits
      dest!: newest_in)

lemma normalize_note_idem: "normalize_note (normalize_note n) = normalize_note n"
proof (cases "normalize_note n")
  case None
  then show ?thesis by (simp add: normalize_note_def [of None])
next
  case (Some t)
  with normalize_note_Some [of n] show ?thesis by (simp add: normalize_note_def [of "Some t"])
qed

lemma owner_decision_new_valid: "owner_decision_new d n = Inr od \<Longrightarrow> valid_decision od"
  by (auto simp: valid_decision_def owner_decision_new_iff normalize_note_idem)

lemma decision_from_row_valid: "decision_from_row r = Inr d \<Longrightarrow> valid_decision d"
  by (auto simp: decision_from_row_def owner_decision_new_valid split: sum.splits)

lemma valid_row: "valid_decision (row_decision r) \<Longrightarrow> owner_decision_new (dc_decision r) (dc_rejection_note r) = Inr d
    \<Longrightarrow> d = row_decision r"
  by (auto simp: valid_decision_def row_decision_def)

text \<open>After the ledger accepted a decision it holds the row that says so.\<close>

lemma ensure_ledger_cases:
  assumes "ensure_ledger_decision down i c d t s = (res, s')"
  shows "(s' = s \<or> i \<notin> dc_thread_id ` set (cp_ledger s)
      \<and> s' = s\<lparr>cp_ledger := cp_ledger s @ [\<lparr> dc_thread_id = i, dc_checkpoint_id = c, dc_decision = od_decision d,
              dc_rejection_note = od_rejection_note d, dc_decided_at = t \<rparr>]\<rparr>)
    \<and> (res = Inr () \<longrightarrow> (\<exists>r \<in> set (cp_ledger s'). dc_thread_id r = i \<and> dc_checkpoint_id r = c \<and> row_decision r = d))"
proof -
  have m: "matches r d \<longleftrightarrow> row_decision r = d" for r
    by (cases d) (auto simp: matches_def row_decision_def)
  consider (bad) e where "read_decision_for_thread down (cp_ledger s) i = Inl e"
    | (none) "read_decision_for_thread down (cp_ledger s) i = Inr None"
    | (some) r where "read_decision_for_thread down (cp_ledger s) i = Inr (Some r)"
    by (metis not_None_eq sumE)
  then show ?thesis
  proof cases
    case bad
    with assms show ?thesis by (auto simp: ensure_ledger_decision_def ledger_decision_def)
  next
    case none
    then have fresh: "i \<notin> dc_thread_id ` set (cp_ledger s)" by (rule read_decision_None)
    moreover have "\<not> down" using none by (auto simp: read_decision_for_thread_def)
    ultimately have "record_decision_before_resume down (cp_ledger s) i c d t = (Inr (), cp_ledger s @
        [\<lparr> dc_thread_id = i, dc_checkpoint_id = c, dc_decision = od_decision d,
           dc_rejection_note = od_rejection_note d, dc_decided_at = t \<rparr>])"
      by (auto simp: record_decision_before_resume_def)
    with assms none fresh show ?thesis
      by (auto simp: ensure_ledger_decision_def ledger_decision_def row_decision_def)
  next
    case some
    with assms read_decision_Some [OF some] m show ?thesis
      by (auto simp: ensure_ledger_decision_def ledger_decision_def split: if_splits)
  qed
qed

lemma ensure_ledger_moves:
  assumes d: "valid_decision d" and run: "ensure_ledger_decision down i c d t s = (res, s')"
  shows "moves L cfg s s'"
  using ensure_ledger_cases [OF run]
proof (elim conjE disjE)
  assume s': "s' = s\<lparr>cp_ledger := cp_ledger s @ [\<lparr> dc_thread_id = i, dc_checkpoint_id = c,
      dc_decision = od_decision d, dc_rejection_note = od_rejection_note d, dc_decided_at = t \<rparr>]\<rparr>"
    and fresh: "i \<notin> dc_thread_id ` set (cp_ledger s)"
  show ?thesis unfolding s'
    using d fresh by (intro set_ledger_moves) (auto simp: cp_ok_def decisions_ok_def row_decision_def valid_decision_def)
qed simp

lemma mirror_moves:
  assumes "find_decision i s = None" "r \<in> set (cp_ledger s)" "dc_thread_id r = i" "dc_checkpoint_id r = c"
    and "row_decision r = d"
  shows "moves L cfg s (mirror_decision i c d s)"
proof -
  have "i \<notin> rd_job_id ` set (cp_decisions s)"
    using assms(1) by (auto simp: find_decision_def find_None_iff)
  moreover have "agrees \<lparr> rd_job_id = i, rd_checkpoint_id = c, rd_decision = od_decision d,
        rd_rejection_note = od_rejection_note d \<rparr> r"
    using assms by (auto simp: agrees_def row_decision_def)
  ultimately have "decisions_ok (cp_decisions (mirror_decision i c d s)) (cp_ledger s)"
    if "decisions_ok (cp_decisions s) (cp_ledger s)"
    using that assms(2) by (auto simp: decisions_ok_def mirror_decision_def)
  moreover have "queue_of (mirror_decision i c d s) = queue_of s"
    by (rule queue_of_cong) (simp_all add: mirror_decision_def)
  ultimately show ?thesis
    unfolding moves_def cp_ok_def cp_le_def by (auto simp: mirror_decision_def grows_refl)
qed

lemma mirror_simps [simp]: "cp_jobs (mirror_decision i c d s) = cp_jobs s" "cp_ledger (mirror_decision i c d s) = cp_ledger s"
  by (simp_all add: mirror_decision_def)

lemma event_after: "moves L cfg s s' \<Longrightarrow> moves L cfg s (event i name flds s')"
  using event_moves moves_trans by blast

lemma queue_decided_moves:
  assumes "j \<in> set (cp_jobs s)" "rj_id j = i" "rj_status j = PAUSED_APPROVAL"
  shows "moves L cfg s (queue_decided i c d s)"
  unfolding queue_decided_def
  using assms by (intro event_after update_job_moves [of j]) (auto simp: job_ok_def job_le_def phase_of_def job_edge_def)

text \<open>A loop over rows read before it: each turn moves and leaves the other jobs alone.\<close>

definition only_job :: "string \<Rightarrow> control_plane \<Rightarrow> control_plane \<Rightarrow> bool" where
  "only_job i s s' \<longleftrightarrow> (\<forall>k \<in> set (cp_jobs s). rj_id k \<noteq> i \<longrightarrow> k \<in> set (cp_jobs s'))"

lemma only_job_update [simp]: "only_job i s (event i' name flds (update_job i f s))"
proof -
  have "k = (if rj_id k = i then f k else k)" if "rj_id k \<noteq> i" for k using that by simp
  then show ?thesis unfolding only_job_def event_simps in_update_job by blast
qed

lemma fold_rows_moves:
  assumes "\<And>row s. row \<in> set (cp_jobs s) \<Longrightarrow> P row \<Longrightarrow> moves L cfg s (g row s) \<and> only_job (rj_id row) s (g row s)"
    and "set rows \<subseteq> set (cp_jobs s)" "distinct (map rj_id rows)" "\<forall>row \<in> set rows. P row"
  shows "moves L cfg s (fold g rows s)"
  using assms(2-)
proof (induction rows arbitrary: s)
  case (Cons row rows)
  have step: "moves L cfg s (g row s)" "only_job (rj_id row) s (g row s)" using assms(1) Cons.prems by auto
  moreover have "set rows \<subseteq> set (cp_jobs (g row s))"
  proof
    fix k assume k: "k \<in> set rows"
    then have "rj_id k \<noteq> rj_id row" using Cons.prems(2) by (metis distinct.simps(2) image_eqI list.set_map list.simps(9))
    with k step(2) Cons.prems(1) show "k \<in> set (cp_jobs (g row s))" by (auto simp: only_job_def)
  qed
  ultimately have "moves L cfg (g row s) (fold g rows (g row s))"
    using Cons.prems by (intro Cons.IH) auto
  with step(1) show ?case by (auto intro: moves_trans)
qed simp

lemma distinct_filter_ids: "distinct (map rj_id js) \<Longrightarrow> distinct (map rj_id (filter P js))"
  by (simp add: distinct_map_filter)

lemma moves_assuming: "(cp_ok L cfg s \<Longrightarrow> moves L cfg s s') \<Longrightarrow> moves L cfg s s'"
  by (auto simp: moves_def)

lemma given_up_moves:
  assumes "j \<in> set (cp_jobs s)" "rj_id j = i" "rj_status j = RUNNING"
    and "cc_max_replay_attempts cfg \<le> rj_attempt_count j + 1"
  shows "moves L cfg s (update_job i (given_up (rj_attempt_count j + 1) reason) s)"
  using assms by (intro update_job_moves [of j]) (auto simp: job_ok_def job_le_def phase_of_def job_edge_def given_up_def)

lemma requeued_moves:
  assumes "j \<in> set (cp_jobs s)" "rj_id j = i" "rj_status j = RUNNING"
    and "rj_attempt_count j + 1 < cc_max_replay_attempts cfg"
  shows "moves L cfg s (update_job i (requeued (rj_attempt_count j + 1) retry_at) s)"
  using assms by (intro update_job_moves [of j]) (auto simp: job_ok_def job_le_def phase_of_def job_edge_def requeued_def)

lemma reclaim_expired_investigations_moves: "moves L cfg s (reclaim_expired_investigations cfg now s)"
proof (rule moves_assuming)
  assume "cp_ok L cfg s"
  then have dist: "distinct (map rj_id (cp_jobs s))" by (simp add: cp_ok_def)
  have "moves L cfg s (reclaim_row cfg now row s) \<and> only_job (rj_id row) s (reclaim_row cfg now row s)"
    if "row \<in> set (cp_jobs s)" "rj_status row = RUNNING" for row s
    using that by (auto simp: reclaim_row_def Let_def intro!: event_after given_up_moves requeued_moves)
  then show "moves L cfg s (reclaim_expired_investigations cfg now s)"
    unfolding reclaim_expired_investigations_def
    by (rule fold_rows_moves) (auto simp: distinct_filter_ids dist)
qed

section \<open>Every method moves\<close>

lemma only_job_trans: "only_job i s s' \<Longrightarrow> cp_jobs s' = cp_jobs t \<Longrightarrow> only_job i s t"
  by (simp add: only_job_def)

lemma reconcile_row_Inr:
  assumes run: "reconcile_row down row s = Inr s'"
  obtains (none) c where "s' = s" "rj_checkpoint_id row = Some c"
      "read_decision_for_thread down (cp_ledger s) (rj_id row) = Inr None"
  | (some) c r d where "read_decision_for_thread down (cp_ledger s) (rj_id row) = Inr (Some r)"
      "dc_checkpoint_id r = c" "rj_checkpoint_id row = Some c"
      "owner_decision_new (dc_decision r) (dc_rejection_note r) = Inr d"
      "find_decision (rj_id row) s = None \<and> s' = queue_decided (rj_id row) c d (mirror_decision (rj_id row) c d s)
       \<or> (\<exists>m. find_decision (rj_id row) s = Some m \<and> decision_from_row m = Inr d) \<and> s' = queue_decided (rj_id row) c d s"
proof -
  from run obtain c where c: "rj_checkpoint_id row = Some c" "c \<noteq> []"
    by (auto simp: reconcile_row_def split: option.splits if_splits)
  show thesis
  proof (cases "read_decision_for_thread down (cp_ledger s) (rj_id row)")
    case (Inl e)
    with run c show thesis by (simp add: reconcile_row_def ledger_decision_def)
  next
    case (Inr ro)
    show thesis
    proof (cases ro)
      case None
      with run c Inr show thesis by (intro none) (simp_all add: reconcile_row_def ledger_decision_def)
    next
      case (Some r)
      with run c Inr have cp: "dc_checkpoint_id r = c"
        by (auto simp: reconcile_row_def ledger_decision_def split: if_splits)
      with run c Inr Some obtain d where d: "owner_decision_new (dc_decision r) (dc_rejection_note r) = Inr d"
        by (auto simp: reconcile_row_def ledger_decision_def bind_r_Inr)
      show thesis
        using run c Inr Some cp d
        by (intro some [OF _ cp c(1) d])
          (auto simp: reconcile_row_def ledger_decision_def bind_r_Inr split: option.splits if_splits)
    qed
  qed
qed

lemma reconcile_row_moves:
  assumes row: "row \<in> set (cp_jobs s)" "rj_status row = PAUSED_APPROVAL"
    and inv: "cp_ok L cfg s" and run: "reconcile_row down row s = Inr s'"
  shows "moves L cfg s s' \<and> only_job (rj_id row) s s'"
proof -
  let ?i = "rj_id row"
  consider (none) "s' = s"
    | (mirror) c r d where "s' = queue_decided ?i c d (mirror_decision ?i c d s)" "find_decision ?i s = None"
        "read_decision_for_thread down (cp_ledger s) ?i = Inr (Some r)" "dc_checkpoint_id r = c"
        "owner_decision_new (dc_decision r) (dc_rejection_note r) = Inr d"
    | (queue) c d where "s' = queue_decided ?i c d s"
    by (rule reconcile_row_Inr [OF run]) blast+
  then show ?thesis
  proof cases
    case none
    then show ?thesis by (simp add: only_job_def)
  next
    case mirror
    have r: "r \<in> set (cp_ledger s)" "dc_thread_id r = ?i" using read_decision_Some [OF mirror(3)] by simp_all
    then have "row_decision r = d" using inv valid_row [OF _ mirror(5)] by (simp add: cp_ok_def decisions_ok_def)
    then have "moves L cfg s (mirror_decision ?i c d s)" using mirror r by (intro mirror_moves)
    moreover have "moves L cfg (mirror_decision ?i c d s) s'"
      unfolding mirror(1) using row by (intro queue_decided_moves [of row]) simp_all
    moreover have "only_job ?i s s'"
      using only_job_update [of ?i "mirror_decision ?i c d s"] unfolding mirror(1) queue_decided_def
      by (simp add: only_job_def)
    ultimately show ?thesis using moves_trans by blast
  next
    case queue
    then show ?thesis using row by (auto simp: queue_decided_def intro: queue_decided_moves [unfolded queue_decided_def])
  qed
qed

lemma reconcile_rows_moves:
  assumes "set rows \<subseteq> set (cp_jobs s)" "distinct (map rj_id rows)" "\<forall>row \<in> set rows. rj_status row = PAUSED_APPROVAL"
    and "cp_ok L cfg s" "reconcile_rows down rows s = Inr s'"
  shows "moves L cfg s s'"
  using assms
proof (induction rows arbitrary: s)
  case (Cons row rows)
  from Cons.prems(5) obtain s1 where s1: "reconcile_row down row s = Inr s1" "reconcile_rows down rows s1 = Inr s'"
    by (auto simp: bind_r_Inr)
  have step: "moves L cfg s s1" "only_job (rj_id row) s s1"
    using reconcile_row_moves [OF _ _ Cons.prems(4) s1(1)] Cons.prems by auto
  have "moves L cfg s1 s'"
  proof (rule Cons.IH)
    show "set rows \<subseteq> set (cp_jobs s1)"
    proof
      fix k assume k: "k \<in> set rows"
      then have "rj_id k \<noteq> rj_id row" using Cons.prems(2) by (metis distinct.simps(2) image_eqI list.set_map list.simps(9))
      with k step(2) Cons.prems(1) show "k \<in> set (cp_jobs s1)" by (auto simp: only_job_def)
    qed
  qed (use Cons.prems step s1 in \<open>auto simp: moves_def\<close>)
  with step(1) show ?case by (rule moves_trans)
qed simp

lemma reconcile_durable_decisions_moves:
  assumes "reconcile_durable_decisions down s = Inr s'"
  shows "moves L cfg s s'"
proof (rule moves_assuming)
  assume inv: "cp_ok L cfg s"
  then have "distinct (map rj_id (cp_jobs s))" by (simp add: cp_ok_def)
  with inv assms show "moves L cfg s s'" unfolding reconcile_durable_decisions_def
    by (intro reconcile_rows_moves) (auto simp: distinct_filter_ids)
qed

lemma owned_Inr: "owned owner i s = Inr j \<Longrightarrow> j \<in> set (cp_jobs s) \<and> rj_id j = i \<and> rj_owner j = owner"
  by (auto simp: owned_def find_Some_iff split: option.splits)

lemma find_job_Some: "find_job i s = Some j \<Longrightarrow> j \<in> set (cp_jobs s) \<and> rj_id j = i"
  by (auto simp: find_job_def find_Some_iff)

lemma append_job_moves:
  assumes "find_job (rj_id j) s = None" "0 < cc_max_replay_attempts cfg \<Longrightarrow> job_ok L cfg j" "rj_status j = QUEUED"
    "rj_failure_reason j = None"
  shows "moves L cfg s (s\<lparr>cp_jobs := cp_jobs s @ [j]\<rparr>)"
proof -
  have fresh: "rj_id j \<notin> rj_id ` set (cp_jobs s)" using assms(1) by (auto simp: find_job_def find_None_iff)
  have "rj_status j \<noteq> RUNNING" using assms(3) by simp
  then have one: "one_running (cp_jobs s @ [j])" if "one_running (cp_jobs s)"
    using that unfolding one_running_def set_append set_simps by blast
  have del: "delivery_ok cfg (cp_jobs s @ [j]) d" if "delivery_ok cfg (cp_jobs s) d" for d
    using that by (auto simp: delivery_ok_def)
  have "cp_ok L cfg (s\<lparr>cp_jobs := cp_jobs s @ [j]\<rparr>)" if "cp_ok L cfg s"
    using that fresh assms(2,3) del one by (auto simp: cp_ok_def)
  moreover have "cp_le s (s\<lparr>cp_jobs := cp_jobs s @ [j]\<rparr>)"
    by (auto simp: cp_le_def grows_refl grows_snoc)
  moreover have "spec_step\<^sup>*\<^sup>* (queue_of s) (queue_of (s\<lparr>cp_jobs := cp_jobs s @ [j]\<rparr>))"
  proof -
    have "queue_of (s\<lparr>cp_jobs := cp_jobs s @ [j]\<rparr>) = (queue_of s)\<lparr>qs_jobs := (qs_jobs (queue_of s))(rj_id j \<mapsto> Waiting)\<rparr>"
      using map_of_snoc [OF fresh, of phase_of] assms(3,4) by (simp add: queue_of_def phase_of_def)
    moreover have "qs_jobs (queue_of s) (rj_id j) = None"
      using map_of_new_key [OF fresh] by (simp add: queue_of_def)
    ultimately show ?thesis by (auto intro: spec_step.submit)
  qed
  ultimately show ?thesis by (simp add: moves_def)
qed

lemma create_job_moves: "moves L cfg s (snd (create_job dies owner_email family key new_id s))"
  unfolding create_job_def
  by (rule transaction_moves)
    (auto simp: job_ok_def split: option.splits intro!: event_after append_job_moves)

lemma decide_body_moves:
  assumes d: "valid_decision d"
  shows "moves L cfg s (snd (decide_body down owner_email i d t s))"
proof (cases "owned owner_email i s")
  case (Inl e)
  then show ?thesis by (simp add: decide_body_def)
next
  case (Inr j)
  then have j: "j \<in> set (cp_jobs s)" "rj_id j = i" using owned_Inr by blast+
  show ?thesis
  proof (cases "find_decision i s")
    case None
    have "moves L cfg s (queue_decided i c d (mirror_decision i c d s'))"
      if run: "ensure_ledger_decision down i c d t s = (Inr (), s')" and paused: "rj_status j = PAUSED_APPROVAL" for c s'
    proof -
      from ensure_ledger_cases [OF run] obtain r where
        r: "r \<in> set (cp_ledger s')" "dc_thread_id r = i" "dc_checkpoint_id r = c" "row_decision r = d"
        and same: "cp_jobs s' = cp_jobs s" "cp_decisions s' = cp_decisions s" by auto
      have "moves L cfg s s'" using ensure_ledger_moves [OF d run] .
      moreover have "moves L cfg s' (mirror_decision i c d s')"
        using r None same by (intro mirror_moves) (simp_all add: find_decision_def)
      moreover have "moves L cfg (mirror_decision i c d s') (queue_decided i c d (mirror_decision i c d s'))"
        using j paused same by (intro queue_decided_moves [of j]) simp_all
      ultimately show ?thesis using moves_trans by blast
    qed
    then show ?thesis
      using Inr None ensure_ledger_moves [OF d]
      by (auto simp: decide_body_def split: option.splits prod.splits sum.splits)
  next
    case (Some m)
    then show ?thesis
      using Inr ensure_ledger_moves [OF decision_from_row_valid]
      by (auto simp: decide_body_def split: option.splits prod.splits sum.splits)
  qed
qed

lemma decide_moves: "valid_decision d \<Longrightarrow> moves L cfg s (snd (decide dies down owner_email i d t s))"
  unfolding decide_def by (intro transaction_moves decide_body_moves)

lemma first_row_in: "first_row before rs = Some r \<Longrightarrow> r \<in> set rs"
  by (induction rs arbitrary: r) (auto split: option.splits if_splits)

lemma claimed_moves:
  assumes "row \<in> set (cp_jobs s)" "rj_status row = QUEUED" "rj_failure_reason row = None"
    and "\<forall>k \<in> set (cp_jobs s). rj_status k \<noteq> RUNNING"
  shows "moves L cfg s (update_job (rj_id row) (claimed token expires_at) s)"
  using assms by (intro update_job_moves [of row]) (auto simp: job_ok_def job_le_def phase_of_def job_edge_def claimed_def)

lemma claim_row_moves:
  assumes "row \<in> set (cp_jobs s)" "rj_status row = QUEUED" "rj_failure_reason row = None"
    and "\<forall>k \<in> set (cp_jobs s). rj_status k \<noteq> RUNNING"
  shows "moves L cfg s (snd (claim_row cfg down now token t row s))"
proof -
  let ?s = "event (rj_id row) ''investigation_started'' []
    (update_job (rj_id row) (claimed token (f_add now (cc_claim_lease_seconds cfg))) s)"
  have "moves L cfg s ?s" by (intro event_after claimed_moves assms)
  moreover have "moves L cfg ?s (snd (claim_row cfg down now token t row s))"
    using ensure_ledger_moves [OF decision_from_row_valid]
    by (auto simp: claim_row_def Let_def split: option.splits prod.splits sum.splits)
  ultimately show ?thesis by (rule moves_trans)
qed

lemma claim_next_moves: "moves L cfg s (snd (claim_next cfg dies down now token t s))"
  unfolding claim_next_def
proof (rule transaction_moves)
  let ?s1 = "reclaim_expired_investigations cfg now s"
  have r1: "moves L cfg s ?s1" by (rule reclaim_expired_investigations_moves)
  show "moves L cfg s (snd (claim_next_body cfg down now token t s))"
  proof (cases "reconcile_durable_decisions down ?s1")
    case (Inl e)
    then show ?thesis by (simp add: claim_next_body_def)
  next
    case (Inr s2)
    have r2: "moves L cfg s s2" using r1 reconcile_durable_decisions_moves [OF Inr] by (rule moves_trans)
    have "moves L cfg s2 (snd (claim_row cfg down now token t row s2))"
      if "first_row job_before (filter (\<lambda>j. rj_status j = QUEUED \<and> rj_failure_reason j = None
             \<and> f_le (rj_available_at j) now) (cp_jobs s2)) = Some row"
        and "\<not> list_ex (\<lambda>j. rj_status j = RUNNING) (cp_jobs s2)" for row
      using first_row_in [OF that(1)] that(2) by (intro claim_row_moves) (auto simp: list_ex_iff)
    then have "moves L cfg s (snd (claim_row cfg down now token t row s2))"
      if "first_row job_before (filter (\<lambda>j. rj_status j = QUEUED \<and> rj_failure_reason j = None
             \<and> f_le (rj_available_at j) now) (cp_jobs s2)) = Some row"
        and "\<not> list_ex (\<lambda>j. rj_status j = RUNNING) (cp_jobs s2)" for row
      using that moves_trans [OF r2] by blast
    with Inr r2 show ?thesis by (auto simp: claim_next_body_def split: option.splits)
  qed
qed

lemma claim_current_running: "claim_current token now j \<Longrightarrow> rj_status j = RUNNING \<and> rj_claim_token j = Some token"
  by (simp add: claim_current_def)

lemma renew_running_moves: "moves L cfg s (snd (renew_running cfg dies i token now s))"
  unfolding renew_running_def
proof (rule transaction_moves)
  have "moves L cfg s (update_job i (\<lambda>j. j\<lparr>rj_claim_expires_at := Some e\<rparr>) s)"
    if "j \<in> set (cp_jobs s)" "rj_id j = i" "claim_current token now j" for j e
    using that claim_current_running [OF that(3)]
    by (intro update_job_moves [of j]) (auto simp: job_ok_def job_le_def phase_of_def job_edge_def)
  then show "moves L cfg s (snd (if list_ex (\<lambda>j. rj_id j = i \<and> claim_current token now j) (cp_jobs s)
     then (Inr (), update_job i (\<lambda>j. j\<lparr>rj_claim_expires_at := Some (f_add now (cc_claim_lease_seconds cfg))\<rparr>) s)
     else (Inl ControlPlaneConflictError, s)))"
    by (auto simp: list_ex_iff)
qed

lemma reserve_incident_moves: "moves L cfg s (snd (reserve_incident dies i token now s))"
  unfolding reserve_incident_def
proof (rule transaction_moves, cases "find_job i s")
  case (Some row)
  note row = find_job_Some [OF Some]
  have "moves L cfg s (update_job i (\<lambda>j. j\<lparr>rj_incident_id := Some x\<rparr>) s)"
    if "claim_current token now row" "rj_incident_id row = None" for x
    using row that claim_current_running [OF that(1)]
    by (intro update_job_moves [of row]) (auto simp: job_ok_def job_le_def phase_of_def job_edge_def)
  with Some show "moves L cfg s (snd (case find_job i s of None \<Rightarrow> (Inl ControlPlaneNotFoundError, s) | Some row \<Rightarrow>
     if \<not> claim_current token now row then (Inl ControlPlaneConflictError, s)
     else (case rj_incident_id row of
         None \<Rightarrow> let incident_id = ''scenario'' @ i in
           (Inr incident_id, event i ''scenario_reserved'' [(''incident_id'', JStr incident_id)]
              (update_job i (\<lambda>j. j\<lparr>rj_incident_id := Some incident_id\<rparr>) s))
       | Some stored \<Rightarrow> if isalnum stored then (Inr stored, s) else (Inl ControlPlaneIntegrityError, s))))"
    by (auto simp: Let_def split: option.splits intro!: event_after)
qed simp

lemma mark_paused_moves: "moves L cfg s (snd (mark_paused dies i checkpoint_id token now s))"
proof (cases "py_strip checkpoint_id = []")
  case False
  then have nonempty: "checkpoint_id \<noteq> []" by (auto simp: py_strip_def)
  have "moves L cfg s (update_job i (\<lambda>j. j\<lparr>rj_status := PAUSED_APPROVAL, rj_checkpoint_id := Some checkpoint_id,
             rj_claim_token := None, rj_claim_expires_at := None\<rparr>) s)"
    if "find_job i s = Some row" "claim_current token now row" for row
    using find_job_Some [OF that(1)] claim_current_running [OF that(2)] nonempty
    by (intro update_job_moves [of row]) (auto simp: job_ok_def job_le_def phase_of_def job_edge_def)
  with False show ?thesis unfolding mark_paused_def
    by (auto intro!: transaction_moves event_after split: option.splits)
qed (simp add: mark_paused_def)

lemma requeue_running_moves: "moves L cfg s (snd (requeue_running dies i token s))"
proof -
  have "moves L cfg s (update_job i (\<lambda>j. j\<lparr>rj_status := QUEUED, rj_claim_token := None, rj_claim_expires_at := None\<rparr>) s)"
    if "j \<in> set (cp_jobs s)" "rj_id j = i" "rj_status j = RUNNING" for j
    using that by (intro update_job_moves [of j]) (auto simp: job_ok_def job_le_def phase_of_def job_edge_def)
  then show ?thesis unfolding requeue_running_def
    by (auto simp: list_ex_iff intro!: transaction_moves event_after)
qed

lemma retry_running_moves: "moves L cfg s (snd (retry_running cfg dies i token error_name now s))"
proof -
  have "moves L cfg s (update_job i (given_up (rj_attempt_count row + 1) reason) s)"
    if "find_job i s = Some row" "rj_status row = RUNNING" "cc_max_replay_attempts cfg \<le> rj_attempt_count row + 1" for row reason
    using find_job_Some [OF that(1)] that by (intro given_up_moves) auto
  moreover have "moves L cfg s (update_job i (requeued (rj_attempt_count row + 1) retry_at) s)"
    if "find_job i s = Some row" "rj_status row = RUNNING" "\<not> cc_max_replay_attempts cfg \<le> rj_attempt_count row + 1" for row retry_at
    using find_job_Some [OF that(1)] that by (intro requeued_moves) auto
  ultimately show ?thesis unfolding retry_running_def
    by (auto simp: Let_def split: option.splits intro!: transaction_moves event_after)
qed

section \<open>Finished jobs and their deliveries\<close>

lemma delivery_ok_mono:
  "delivery_ok cfg js d \<Longrightarrow> (\<And>j. j \<in> set js \<Longrightarrow> rj_id j = dl_job_id d \<Longrightarrow> j \<in> set js') \<Longrightarrow> delivery_ok cfg js' d"
  by (auto simp: delivery_ok_def)

lemma complete_moves:
  assumes row: "row \<in> set (cp_jobs s)" "rj_id row = i" "rj_status row = RUNNING"
    and ok: "job_ok L cfg row \<Longrightarrow> job_ok L cfg (f row)"
    and le_f: "job_ok L cfg row \<Longrightarrow> job_le row (f row)" and finished: "rj_status (f row) = COMPLETED"
    and new: "dl_job_id d = i" "dl_destination_email d = rj_owner row" "dl_status d = PENDING"
      "dl_claim_token d = None" "dl_claim_expires_at d = None" "dl_attempt_count d = 0" "dl_failure_reason d = None"
    and fresh: "\<not> list_ex (\<lambda>d. dl_job_id d = i) (cp_deliveries s)"
  shows "moves L cfg s ((update_job i f s)\<lparr>cp_deliveries := cp_deliveries s @ [d]\<rparr>)"
  unfolding moves_def
proof (intro impI conjI)
  assume inv: "cp_ok L cfg s"
  let ?t = "(update_job i f s)\<lparr>cp_deliveries := cp_deliveries s @ [d]\<rparr>"
  let ?g = "\<lambda>y. if rj_id y = i then f y else y"
  have dist: "distinct (map rj_id (cp_jobs s))" using inv by (simp add: cp_ok_def)
  have only: "y = row" if "y \<in> set (cp_jobs s)" "rj_id y = i" for y
    using same_id [OF dist that(1) row(1)] that row by simp
  have f: "job_le row (f row)" "rj_status (f row) = COMPLETED" using inv  row le_f finished by (auto simp: cp_ok_def)
  have t: "cp_jobs ?t = map ?g (cp_jobs s)" by (simp add: update_job_jobs)
  have le: "job_le y (?g y)" if "y \<in> set (cp_jobs s)" for y using that only [of y] f by auto
  then have ids: "map rj_id (cp_jobs ?t) = map rj_id (cp_jobs s)" by (simp add: t job_le_def)
  have src: "x = f row \<or> x \<in> set (cp_jobs s) \<and> rj_id x \<noteq> i" if x: "x \<in> set (cp_jobs ?t)" for x
  proof -
    from x obtain y where y: "y \<in> set (cp_jobs s)" "x = ?g y" unfolding t by auto
    show ?thesis using y only [OF y(1)] by (cases "rj_id y = i") auto
  qed
  have kept: "x \<in> set (cp_jobs ?t)" if "x \<in> set (cp_jobs s)" "rj_id x \<noteq> i" for x
    using that unfolding t by (auto intro: image_eqI [of x ?g x])
  have new_in: "f row \<in> set (cp_jobs ?t)" using row unfolding t by (auto intro: image_eqI [of _ ?g row])
  have fid: "rj_id (f row) = i" "rj_owner (f row) = rj_owner row" using f(1) row by (simp_all add: job_le_def)
  have jobs: "job_ok L cfg x" if "x \<in> set (cp_jobs ?t)" for x
    using src [OF that] inv ok row(1) unfolding cp_ok_def by blast
  have "one_running (cp_jobs s)" using inv unfolding cp_ok_def by blast
  then have one: "one_running (cp_jobs ?t)"
    using src f(2) unfolding one_running_def by (metis investigation_status.distinct(11))
  have old: "delivery_ok cfg (cp_jobs ?t) e" if e: "e \<in> set (cp_deliveries s)" for e
  proof -
    have "dl_job_id e \<noteq> i" using fresh e by (auto simp: list_ex_iff)
    moreover have "delivery_ok cfg (cp_jobs s) e" using inv e by (simp add: cp_ok_def)
    ultimately show ?thesis using kept by (auto intro: delivery_ok_mono)
  qed
  have "delivery_ok cfg (cp_jobs ?t) d"
    using inv new new_in fid f(2) by (auto simp: delivery_ok_def cp_ok_def)
  then have dels: "\<forall>e \<in> set (cp_deliveries ?t). delivery_ok cfg (cp_jobs ?t) e" using old by auto
  have full: "rj_id x \<in> dl_job_id ` set (cp_deliveries ?t)" if "x \<in> set (cp_jobs ?t)" "rj_status x = COMPLETED" for x
    using src [OF that(1)] that inv fid new(1) by (auto simp: cp_ok_def)
  have dds: "distinct (map dl_job_id (cp_deliveries ?t))"
    using inv fresh new(1) by (auto simp: cp_ok_def list_ex_iff)
  have rest: "cp_decisions ?t = cp_decisions s" "cp_events ?t = cp_events s" "cp_ledger ?t = cp_ledger s" by simp_all
  show "cp_le s ?t"
    unfolding cp_le_def rest t using le
    by (auto simp: grows_snoc list_all2_map2 list_all2_same intro!: grows_same)
  show "cp_ok L cfg ?t"
    using inv jobs one dels full dds unfolding cp_ok_def ids rest by blast
  have "job_ok L cfg row" using inv row(1) by (simp add: cp_ok_def)
  then have "phase_of row = Working" "phase_of (f row) = Finished (rj_report_content (f row))" "outgoing_of d = Due"
    using ok row(3) f(2) new by (auto simp: phase_of_def outgoing_of_def job_ok_def)
  moreover have "i \<notin> dl_job_id ` set (cp_deliveries s)" using fresh by (auto simp: list_ex_iff)
  ultimately have "qs_jobs (queue_of s) i = Some Working" "qs_outbox (queue_of s) i = None"
    "queue_of ?t = (queue_of s)\<lparr>qs_jobs := (qs_jobs (queue_of s))(i \<mapsto> Finished (rj_report_content (f row))),
      qs_outbox := (qs_outbox (queue_of s))(i \<mapsto> Due)\<rparr>"
    using map_of_key [OF dist row(1), of phase_of] row(2) map_of_new_key [of i dl_job_id]
      map_of_map_update [where f = f and val = phase_of, OF dist row(1,2) fid(1)] map_of_snoc [of dl_job_id d _ outgoing_of] new(1)
    by (simp_all add: queue_of_def t)
  then show "spec_step\<^sup>*\<^sup>* (queue_of s) (queue_of ?t)" by (auto intro: spec_step.finish)
qed

lemma finalize_moves: "moves L cfg s (snd (finalize L snapshot dies i report_artifact token now s))"
proof (cases "py_strip report_artifact = []")
  case False
  let ?f = "\<lambda>content j. j\<lparr>rj_status := COMPLETED, rj_report_artifact := Some report_artifact,
      rj_report_content := Some content, rj_report_sha256 := Some (sha256_hex L content),
      rj_claim_token := None, rj_claim_expires_at := None\<rparr>"
  have "moves L cfg s ((update_job i (?f content) s)\<lparr>cp_deliveries := cp_deliveries s @ [\<lparr> dl_job_id = i,
      dl_destination_email = rj_owner row, dl_status = PENDING, dl_claim_token = None, dl_claim_expires_at = None,
      dl_attempt_count = 0, dl_available_at = Fin 0, dl_failure_reason = None \<rparr>]\<rparr>)"
    if "find_job i s = Some row" "claim_current token now row" "validate_report_reference i report_artifact = Inr ()"
      "\<not> list_ex (\<lambda>d. dl_job_id d = i) (cp_deliveries s)" for row content
    using find_job_Some [OF that(1)] claim_current_running [OF that(2)] that False
    by (intro complete_moves [of row]) (auto simp: job_ok_def job_le_def phase_of_def job_edge_def report_stored_def)
  with False show ?thesis unfolding finalize_def
    by (auto simp: bind_r_Inr intro!: transaction_moves event_after split: option.splits sum.splits)
qed (simp add: finalize_def)

lemma delivery_given_up_moves:
  assumes "d \<in> set (cp_deliveries s)" "dl_job_id d = i" "dl_status d = SENDING"
    and "cc_max_delivery_attempts cfg \<le> dl_attempt_count d + 1"
  shows "moves L cfg s (update_delivery i (delivery_given_up (dl_attempt_count d + 1) reason) s)"
  using assms by (intro update_delivery_moves [of d]) (auto simp: delivery_ok_def delivery_le_def outgoing_of_def outbox_edge_def delivery_given_up_def)

lemma delivery_requeued_moves:
  assumes "d \<in> set (cp_deliveries s)" "dl_job_id d = i" "dl_status d = SENDING"
    and "\<not> cc_max_delivery_attempts cfg \<le> dl_attempt_count d + 1"
  shows "moves L cfg s (update_delivery i (delivery_requeued (dl_attempt_count d + 1) retry_at) s)"
  using assms by (intro update_delivery_moves [of d]) (auto simp: delivery_ok_def delivery_le_def outgoing_of_def outbox_edge_def delivery_requeued_def)

lemma other_delivery_kept:
  "k \<in> set (cp_deliveries s) \<Longrightarrow> dl_job_id k \<noteq> i \<Longrightarrow> k \<in> set (cp_deliveries (event i' name flds (update_delivery i f s)))"
  unfolding event_simps in_update_delivery by (intro bexI [of _ k]) simp_all

lemma reclaim_expired_deliveries_moves: "moves L cfg s (reclaim_expired_deliveries cfg now s)"
proof (rule moves_assuming)
  assume "cp_ok L cfg s"
  then have dist: "distinct (map dl_job_id (cp_deliveries s))" by (simp add: cp_ok_def)
  have step: "moves L cfg t (reclaim_delivery_row cfg now row t)"
    if "row \<in> set (cp_deliveries t)" "dl_status row = SENDING" for row t
    using that by (auto simp: reclaim_delivery_row_def Let_def
        intro!: event_after delivery_given_up_moves delivery_requeued_moves)
  have "moves L cfg t (fold (reclaim_delivery_row cfg now) rows t)"
    if "set rows \<subseteq> set (cp_deliveries t)" "distinct (map dl_job_id rows)" "\<forall>row \<in> set rows. dl_status row = SENDING" for rows t
    using that
  proof (induction rows arbitrary: t)
    case (Cons row rows)
    let ?t = "reclaim_delivery_row cfg now row t"
    have "moves L cfg ?t (fold (reclaim_delivery_row cfg now) rows ?t)"
    proof (rule Cons.IH)
      show "set rows \<subseteq> set (cp_deliveries ?t)"
      proof
        fix k assume k: "k \<in> set rows"
        then have "dl_job_id k \<noteq> dl_job_id row"
          using Cons.prems(2) by (metis distinct.simps(2) image_eqI list.set_map list.simps(9))
        with k Cons.prems(1) show "k \<in> set (cp_deliveries ?t)"
          by (auto simp: reclaim_delivery_row_def Let_def intro!: other_delivery_kept simp del: event_simps)
      qed
    qed (use Cons.prems in auto)
    moreover have "moves L cfg t ?t" using Cons.prems by (intro step) auto
    ultimately show ?case using moves_trans by fastforce
  qed simp
  then show "moves L cfg s (reclaim_expired_deliveries cfg now s)"
    unfolding reclaim_expired_deliveries_def by (auto simp: dist distinct_map_filter)
qed

lemma pending_deliveries_in: "(j, d) \<in> set (pending_deliveries now s) \<Longrightarrow> j \<in> set (cp_jobs s)
    \<and> d \<in> set (cp_deliveries s) \<and> dl_job_id d = rj_id j \<and> dl_status d = PENDING \<and> dl_failure_reason d = None"
  by (auto simp: pending_deliveries_def)

lemma claim_delivery_moves: "moves L cfg s (snd (claim_delivery cfg dies now token s))"
  unfolding claim_delivery_def
proof (rule transaction_moves)
  let ?s = "reclaim_expired_deliveries cfg now s"
  let ?f = "\<lambda>d. d\<lparr>dl_status := SENDING, dl_claim_token := Some token,
      dl_claim_expires_at := Some (f_add now (cc_claim_lease_seconds cfg))\<rparr>"
  have r: "moves L cfg s ?s" by (rule reclaim_expired_deliveries_moves)
  have "moves L cfg ?s (update_delivery (rj_id j) ?f ?s)"
    if "first_row (\<lambda>a b. f_lt (dl_available_at (snd a)) (dl_available_at (snd b))) (pending_deliveries now ?s) = Some (j, d)" for j d
    using pending_deliveries_in [OF first_row_in [OF that]]
    by (intro update_delivery_moves [of d]) (auto simp: delivery_ok_def delivery_le_def outgoing_of_def outbox_edge_def)
  then have "moves L cfg s (update_delivery (rj_id j) ?f ?s)"
    if "first_row (\<lambda>a b. f_lt (dl_available_at (snd a)) (dl_available_at (snd b))) (pending_deliveries now ?s) = Some (j, d)" for j d
    using moves_trans [OF r] that by blast
  with r show "moves L cfg s (snd (let s = ?s in
     case first_row (\<lambda>a b. f_lt (dl_available_at (snd a)) (dl_available_at (snd b))) (pending_deliveries now s) of
       None \<Rightarrow> (Inr None, s)
     | Some (j, d) \<Rightarrow>
       let s1 = update_delivery (rj_id j) ?f s in
       (case (rj_report_artifact j, rj_report_content j, rj_report_sha256 j) of
          (Some artifact, Some content, Some digest) \<Rightarrow>
            (Inr (Some \<lparr> dv_investigation_id = rj_id j, dv_status = rj_status j,
               dv_report_artifact = artifact, dv_report_content = content, dv_report_sha256 = digest,
               dv_destination_email = dl_destination_email d, dv_delivery_id = rj_id j,
               dv_claim_token = token \<rparr>), s1)
        | _ \<Rightarrow> (Inl ValidationError, s1))))"
    by (auto simp: Let_def split: option.splits)
qed

lemma delivery_methods_move:
  "moves L cfg s (snd (mark_delivered dies i token now s))"
  "moves L cfg s (snd (renew_delivery cfg dies i token now s))"
  "moves L cfg s (snd (release_delivery dies i token s))"
  "moves L cfg s (snd (retry_delivery cfg dies i token error_name now s))"
proof -
  have upd: "moves L cfg s (update_delivery i (\<lambda>d. d\<lparr>dl_status := st, dl_claim_token := None, dl_claim_expires_at := None\<rparr>) s)"
    "moves L cfg s (update_delivery i (\<lambda>d. d\<lparr>dl_claim_expires_at := Some e\<rparr>) s)"
    if "d \<in> set (cp_deliveries s)" "dl_job_id d = i" "dl_status d = SENDING" "st \<noteq> SENDING" for d st e
    using that by (intro update_delivery_moves [of d]; auto simp: delivery_ok_def delivery_le_def outgoing_of_def outbox_edge_def
      split: delivery_status.splits)+
  show "moves L cfg s (snd (mark_delivered dies i token now s))" unfolding mark_delivered_def
    using upd(1) [where st = SENT] by (auto simp: list_ex_iff delivery_current_def intro!: transaction_moves event_after)
  show "moves L cfg s (snd (renew_delivery cfg dies i token now s))" unfolding renew_delivery_def
    using upd(2) [where st = SENT] by (auto simp: list_ex_iff delivery_current_def intro!: transaction_moves)
  show "moves L cfg s (snd (release_delivery dies i token s))" unfolding release_delivery_def
    using upd(1) [where st = PENDING] by (auto simp: list_ex_iff intro!: transaction_moves event_after)
  show "moves L cfg s (snd (retry_delivery cfg dies i token error_name now s))" unfolding retry_delivery_def
    by (auto simp: Let_def find_Some_iff split: option.splits
        intro!: transaction_moves event_after delivery_given_up_moves delivery_requeued_moves)
qed

end
