(* ===== verification/ControlProps.thy ===== *)
theory ControlProps
  imports ControlInv
begin

text \<open>
  Histories of the job queue: any order of calls of any method by owners and workers, with any
  arguments, clock readings and faults, and the properties that hold over them.
\<close>

section \<open>Histories\<close>

inductive cp_step :: "libs \<Rightarrow> cp_config \<Rightarrow> control_plane \<Rightarrow> control_plane \<Rightarrow> bool" for L cfg where
  create: "cp_step L cfg s (snd (create_job dies owner_email family key new_id s))"
| decided: "owner_decision_new kind text = Inr d \<Longrightarrow> cp_step L cfg s (snd (decide dies down owner_email i d t s))"
| claim: "cp_step L cfg s (snd (claim_next cfg dies down now token t s))"
| renew: "cp_step L cfg s (snd (renew_running cfg dies i token now s))"
| reserve: "cp_step L cfg s (snd (reserve_incident dies i token now s))"
| pause: "cp_step L cfg s (snd (mark_paused dies i checkpoint_id token now s))"
| requeue: "cp_step L cfg s (snd (requeue_running dies i token s))"
| retry: "cp_step L cfg s (snd (retry_running cfg dies i token error_name now s))"
| finish: "cp_step L cfg s (snd (finalize L snapshot dies i report_artifact token now s))"
| take: "cp_step L cfg s (snd (claim_delivery cfg dies now token s))"
| sent: "cp_step L cfg s (snd (mark_delivered dies i token now s))"
| renew_sending: "cp_step L cfg s (snd (renew_delivery cfg dies i token now s))"
| release: "cp_step L cfg s (snd (release_delivery dies i token s))"
| retry_sending: "cp_step L cfg s (snd (retry_delivery cfg dies i token error_name now s))"
| command_line: "owner_decision_new kind text = Inr d \<Longrightarrow> read_decision_for_thread down (cp_ledger s) i = Inr None \<Longrightarrow>
    cp_step L cfg s (s\<lparr>cp_ledger := snd (record_decision_before_resume down (cp_ledger s) i c d t)\<rparr>)"

lemma command_line_moves:
  assumes "owner_decision_new kind text = Inr d" "read_decision_for_thread down (cp_ledger s) i = Inr None"
  shows "moves L cfg s (s\<lparr>cp_ledger := snd (record_decision_before_resume down (cp_ledger s) i c d t)\<rparr>)"
proof (rule set_ledger_moves)
  have d: "valid_decision d" using assms(1) by (rule owner_decision_new_valid)
  have fresh: "i \<notin> dc_thread_id ` set (cp_ledger s)" using assms(2) by (rule read_decision_None)
  show "prefix (cp_ledger s) (snd (record_decision_before_resume down (cp_ledger s) i c d t))"
    by (simp add: record_decision_before_resume_def)
  show "decisions_ok (cp_decisions s) (snd (record_decision_before_resume down (cp_ledger s) i c d t))" if "cp_ok L cfg s"
    using that d fresh
    by (auto simp: record_decision_before_resume_def cp_ok_def decisions_ok_def row_decision_def valid_decision_def)
qed

lemma cp_step_moves: "cp_step L cfg s s' \<Longrightarrow> moves L cfg s s'"
  by (induction rule: cp_step.induct)
    (intro create_job_moves decide_moves owner_decision_new_valid claim_next_moves renew_running_moves
      reserve_incident_moves mark_paused_moves requeue_running_moves retry_running_moves finalize_moves
      claim_delivery_moves delivery_methods_move command_line_moves; assumption)+

lemma cp_steps_move: "(cp_step L cfg)\<^sup>*\<^sup>* s s' \<Longrightarrow> moves L cfg s s'"
  by (induction rule: rtranclp_induct) (auto intro: moves_trans cp_step_moves)

interpretation queue: invariant_system "cp_step L cfg" "cp_ok L cfg"
  by unfold_locales (use cp_step_moves in \<open>auto simp: moves_def\<close>)

definition empty_plane :: "decision_row list \<Rightarrow> control_plane" where
  "empty_plane rows = \<lparr> cp_jobs = [], cp_events = [], cp_decisions = [], cp_deliveries = [], cp_ledger = rows \<rparr>"

lemma empty_plane_ok:
  "0 < cc_max_replay_attempts cfg \<Longrightarrow> 0 < cc_max_delivery_attempts cfg \<Longrightarrow> decisions_ok [] rows \<Longrightarrow>
   cp_ok L cfg (empty_plane rows)"
  by (simp add: cp_ok_def empty_plane_def one_running_def ordinals_ok_def)

section \<open>Finished jobs\<close>

lemma owned_iff: "distinct (map rj_id (cp_jobs s)) \<Longrightarrow> j \<in> set (cp_jobs s) \<Longrightarrow>
    owned owner (rj_id j) s = (if owner = rj_owner j then Inr j else Inl ControlPlaneNotFoundError)"
proof -
  assume a: "distinct (map rj_id (cp_jobs s))" "j \<in> set (cp_jobs s)"
  have "find (\<lambda>k. rj_id k = rj_id j \<and> rj_owner k = owner) (cp_jobs s) = (if owner = rj_owner j then Some j else None)"
  proof (cases "owner = rj_owner j")
    case True
    have "find (\<lambda>k. rj_id k = rj_id j \<and> rj_owner k = owner) (cp_jobs s) \<noteq> None"
      using a(2) True by (auto simp: find_None_iff)
    then obtain k where k: "find (\<lambda>k. rj_id k = rj_id j \<and> rj_owner k = owner) (cp_jobs s) = Some k" by blast
    then have "k \<in> set (cp_jobs s)" "rj_id k = rj_id j" by (auto simp: find_Some_iff)
    with a have "k = j" using same_id by blast
    with k True show ?thesis by simp
  next
    case False
    then have "\<not> (\<exists>k. k \<in> set (cp_jobs s) \<and> rj_id k = rj_id j \<and> rj_owner k = owner)" using a same_id by blast
    with False show ?thesis by (simp add: find_None_iff)
  qed
  then show ?thesis by (simp add: owned_def)
qed

lemma job_report_stored:
  assumes "cp_ok L cfg s" "j \<in> set (cp_jobs s)" "rj_status j = COMPLETED"
  shows "\<exists>content. rj_report_content j = Some content \<and> job_report L (rj_owner j) (rj_id j) s = Inr content"
proof -
  have "report_stored L j" using assms by (auto simp: cp_ok_def job_ok_def)
  then obtain artifact content where r: "rj_report_artifact j = Some artifact" "py_strip artifact \<noteq> []"
    "validate_report_reference (rj_id j) artifact = Inr ()" "rj_report_content j = Some content"
    "rj_report_sha256 j = Some (sha256_hex L content)" by (auto simp: report_stored_def)
  have "artifact \<noteq> []" using r(2) by (auto simp: py_strip_def)
  moreover have "owned (rj_owner j) (rj_id j) s = Inr j" using assms owned_iff by (simp add: cp_ok_def)
  ultimately show ?thesis using r assms(3) by (simp add: job_report_def)
qed

lemma finished_stays:
  assumes "cp_ok L cfg s" "(cp_step L cfg)\<^sup>*\<^sup>* s s'" "j \<in> set (cp_jobs s)" "rj_status j = COMPLETED"
  shows "j \<in> set (cp_jobs s')"
proof -
  have "cp_le s s'" using cp_steps_move [OF assms(2)] assms(1) by (simp add: moves_def)
  then obtain j' where "j' \<in> set (cp_jobs s')" "job_le j j'"
    using grows_member [of job_le "cp_jobs s" "cp_jobs s'" j] assms(3) by (auto simp: cp_le_def)
  with assms(4) show ?thesis by (auto simp: job_le_def)
qed

lemma deliveries_for:
  assumes "distinct (map dl_job_id ds)" "d \<in> set ds"
  shows "filter (\<lambda>e. dl_job_id e = dl_job_id d) ds = [d]"
  using assms by (induction ds) (auto simp: filter_empty_conv image_iff)

text \<open>A refused transaction changes no table.\<close>

lemma transaction_refused: "body s = (Inl e, s) \<Longrightarrow> transaction dies body s = (Inl e, s)"
  by (simp add: transaction_def)

section \<open>Decisions that outlive a crash\<close>

lemma find_job_update: "find_job i (update_job k f s) = (if i = k then map_option f (find_job i s) else find_job i s)"
  if "\<And>j. rj_id (f j) = rj_id j"
proof -
  have "find (\<lambda>j. rj_id j = i) (map (\<lambda>j. if rj_id j = k then f j else j) js) =
      (if i = k then map_option f (find (\<lambda>j. rj_id j = i) js) else find (\<lambda>j. rj_id j = i) js)" for js
    using that by (induction js) auto
  then show ?thesis by (simp add: find_job_def update_job_jobs)
qed

lemma find_job_event [simp]: "find_job i (event k name flds s) = find_job i s"
  by (simp add: find_job_def)

lemma find_decision_simps [simp]: "find_decision i (event k name flds s) = find_decision i s"
  "find_decision i (update_job k f s) = find_decision i s"
  by (simp_all add: find_decision_def)

lemma find_decision_mirror: "find_decision i (mirror_decision k c d s) = (case find_decision i s of Some m \<Rightarrow> Some m
    | None \<Rightarrow> if i = k then Some \<lparr> rd_job_id = k, rd_checkpoint_id = c, rd_decision = od_decision d,
        rd_rejection_note = od_rejection_note d \<rparr> else None)"
proof -
  have "find P (xs @ ys) = (case find P xs of Some x \<Rightarrow> Some x | None \<Rightarrow> find P ys)" for P and xs ys :: "replay_decision list"
    by (induction xs) auto
  then show ?thesis by (simp add: find_decision_def mirror_decision_def split: option.splits)
qed

lemma find_job_mirror [simp]: "find_job i (mirror_decision k c d s) = find_job i s"
  by (simp add: find_job_def)

lemma find_job_queue_decided: "find_job i (queue_decided k c d s) =
    (if i = k then map_option (\<lambda>j. j\<lparr>rj_status := QUEUED\<rparr>) (find_job i s) else find_job i s)"
  by (simp add: queue_decided_def find_job_update)

lemma queue_decided_simps [simp]: "find_decision i (queue_decided k c d s) = find_decision i s"
  "cp_ledger (queue_decided k c d s) = cp_ledger s"
  by (simp_all add: queue_decided_def)

text \<open>What one reconciled row leaves alone, and what it does to its own job.\<close>

lemma reconcile_row_other:
  assumes "reconcile_row down row s = Inr s'" "rj_id row \<noteq> i"
  shows "find_job i s' = find_job i s \<and> find_decision i s' = find_decision i s \<and> cp_ledger s' = cp_ledger s"
  using assms(1)
  by (rule reconcile_row_Inr)
    (use assms(2) in \<open>auto simp: find_job_queue_decided find_decision_mirror split: option.splits\<close>)

lemma reconcile_rows_other:
  "reconcile_rows down rows s = Inr s' \<Longrightarrow> i \<notin> rj_id ` set rows \<Longrightarrow>
    find_job i s' = find_job i s \<and> find_decision i s' = find_decision i s \<and> cp_ledger s' = cp_ledger s"
proof (induction rows arbitrary: s)
  case (Cons row rows)
  then obtain s1 where "reconcile_row down row s = Inr s1" "reconcile_rows down rows s1 = Inr s'"
    by (auto simp: bind_r_Inr)
  with Cons.IH [of s1] Cons.prems reconcile_row_other [of down row s s1 i] show ?case by auto
qed simp

lemma reconcile_rows_append:
  "reconcile_rows down (xs @ ys) s = bind_r (reconcile_rows down xs s) (reconcile_rows down ys)"
proof (induction xs arbitrary: s)
  case (Cons x xs)
  then show ?case by (cases "reconcile_row down x s") auto
qed simp

abbreviation mirror_of :: "decision_row \<Rightarrow> replay_decision" where
  "mirror_of r \<equiv> \<lparr> rd_job_id = dc_thread_id r, rd_checkpoint_id = dc_checkpoint_id r,
     rd_decision = dc_decision r, rd_rejection_note = dc_rejection_note r \<rparr>"

lemma reconcile_rows_recovers:
  assumes run: "reconcile_rows down rows s = Inr s'" and row: "row \<in> set rows" "distinct (map rj_id rows)"
    and ledger: "read_decision_for_thread down (cp_ledger s) (rj_id row) = Inr (Some r)" "valid_decision (row_decision r)"
    and job: "find_decision (rj_id row) s = None" "find_job (rj_id row) s = Some row"
  shows "find_job (rj_id row) s' = Some (row\<lparr>rj_status := QUEUED\<rparr>) \<and> find_decision (rj_id row) s' = Some (mirror_of r)"
proof -
  obtain xs ys where rows: "rows = xs @ row # ys" using split_list [OF row(1)] by blast
  have others: "rj_id row \<notin> rj_id ` set xs" "rj_id row \<notin> rj_id ` set ys" using row(2) rows by auto
  from run obtain s1 s2 where s1: "reconcile_rows down xs s = Inr s1" and s2: "reconcile_row down row s1 = Inr s2"
    and s3: "reconcile_rows down ys s2 = Inr s'" unfolding rows reconcile_rows_append by (auto simp: bind_r_Inr)
  have pre: "find_job (rj_id row) s1 = Some row" "find_decision (rj_id row) s1 = None" "cp_ledger s1 = cp_ledger s"
    using reconcile_rows_other [OF s1 others(1)] job by simp_all
  have thread: "dc_thread_id r = rj_id row" using read_decision_Some [OF ledger(1)] by simp
  have "find_job (rj_id row) s2 = Some (row\<lparr>rj_status := QUEUED\<rparr>) \<and> find_decision (rj_id row) s2 = Some (mirror_of r)"
    using s2
  proof (rule reconcile_row_Inr)
    fix c r' d
    assume r': "read_decision_for_thread down (cp_ledger s1) (rj_id row) = Inr (Some r')" "dc_checkpoint_id r' = c"
      "owner_decision_new (dc_decision r') (dc_rejection_note r') = Inr d"
      and s2': "find_decision (rj_id row) s1 = None \<and> s2 = queue_decided (rj_id row) c d (mirror_decision (rj_id row) c d s1)
       \<or> (\<exists>m. find_decision (rj_id row) s1 = Some m \<and> decision_from_row m = Inr d) \<and> s2 = queue_decided (rj_id row) c d s1"
    have "r' = r" using r'(1) ledger(1) pre(3) by simp
    moreover from this have "d = row_decision r" using valid_row [OF ledger(2)] r'(3) by simp
    ultimately show ?thesis using s2' pre r'(2) thread
      by (auto simp: find_job_queue_decided find_decision_mirror row_decision_def)
  next
    assume "read_decision_for_thread down (cp_ledger s1) (rj_id row) = Inr None"
    then show ?thesis using ledger(1) pre(3) by simp
  qed
  with reconcile_rows_other [OF s3 others(2)] show ?thesis by simp
qed

lemma reclaim_keeps_open_jobs:
  assumes "distinct (map rj_id (cp_jobs s))" "find_job i s = Some j" "rj_status j \<noteq> RUNNING"
  shows "find_job i (reclaim_expired_investigations cfg now s) = Some j
    \<and> find_decision i (reclaim_expired_investigations cfg now s) = find_decision i s
    \<and> cp_ledger (reclaim_expired_investigations cfg now s) = cp_ledger s"
proof -
  let ?rows = "filter (\<lambda>j. rj_status j = RUNNING \<and> lease_expired now (rj_claim_expires_at j)) (cp_jobs s)"
  have one: "find_job i (reclaim_row cfg now row t) = find_job i t \<and> find_decision i (reclaim_row cfg now row t) = find_decision i t
      \<and> cp_ledger (reclaim_row cfg now row t) = cp_ledger t" if "rj_id row \<noteq> i" for row t
    using that by (auto simp: reclaim_row_def Let_def find_job_update given_up_def requeued_def)
  have fold: "find_job i (fold (reclaim_row cfg now) rows t) = find_job i t
      \<and> find_decision i (fold (reclaim_row cfg now) rows t) = find_decision i t
      \<and> cp_ledger (fold (reclaim_row cfg now) rows t) = cp_ledger t" if "i \<notin> rj_id ` set rows" for rows t
    using that by (induction rows arbitrary: t) (auto simp: one)
  have "i \<notin> rj_id ` set ?rows"
    using same_id [OF assms(1)] find_job_Some [OF assms(2)] assms(3) by auto
  from fold [OF this] assms(2) show ?thesis by (simp add: reclaim_expired_investigations_def)
qed

lemma claim_row_Inr:
  assumes "claim_row cfg down now token t row s = (Inr r, s')"
  shows "find_decision i s' = find_decision i s"
    and "find_job i s' = (if i = rj_id row then map_option (claimed token (f_add now (cc_claim_lease_seconds cfg))) (find_job i s)
         else find_job i s)"
    and "\<exists>c. r = Some c \<and> wc_investigation_id c = rj_id row
      \<and> (case find_decision (rj_id row) s of None \<Rightarrow> wc_owner_decision c = None
         | Some m \<Rightarrow> \<exists>d. decision_from_row m = Inr d \<and> wc_owner_decision c = Some d)"
proof -
  let ?s = "event (rj_id row) ''investigation_started'' []
    (update_job (rj_id row) (claimed token (f_add now (cc_claim_lease_seconds cfg))) s)"
  have led: "find_decision i s' = find_decision i ?s \<and> find_job i s' = find_job i ?s"
    using assms ensure_ledger_cases
    by (auto simp: claim_row_def Let_def find_decision_def find_job_def split: option.splits sum.splits if_splits prod.splits)
       (fastforce dest: ensure_ledger_cases)+
  then show "find_decision i s' = find_decision i s" by simp
  have "rj_id (claimed tok e j) = rj_id j" for tok e j by (simp add: claimed_def)
  with led show "find_job i s' = (if i = rj_id row then map_option (claimed token (f_add now (cc_claim_lease_seconds cfg))) (find_job i s)
         else find_job i s)" by (simp add: find_job_update)
  show "\<exists>c. r = Some c \<and> wc_investigation_id c = rj_id row
      \<and> (case find_decision (rj_id row) s of None \<Rightarrow> wc_owner_decision c = None
         | Some m \<Rightarrow> \<exists>d. decision_from_row m = Inr d \<and> wc_owner_decision c = Some d)"
    using assms by (auto simp: claim_row_def claim_of_def Let_def split: option.splits sum.splits if_splits prod.splits)
qed

lemma claim_next_body_Inr:
  assumes "claim_next_body cfg down now token t s = (Inr r, s')"
  obtains s2 where "reconcile_durable_decisions down (reclaim_expired_investigations cfg now s) = Inr s2"
    "r = None \<and> s' = s2 \<or> (\<exists>row. claim_row cfg down now token t row s2 = (Inr r, s'))"
  using assms by (auto simp: claim_next_body_def split: sum.splits if_splits option.splits)

lemma read_single_row:
  assumes "i \<notin> dc_thread_id ` set rows" "dc_thread_id r = i" "valid_decision (row_decision r)"
  shows "read_decision_for_thread False (rows @ [r]) i = Inr (Some r)"
proof -
  have "filter (\<lambda>r. dc_thread_id r = i) (rows @ [r]) = [r]"
    using assms(1,2) by (simp add: filter_empty_conv image_iff) metis
  moreover have "decision_row_validate r = Inr r"
    using assms(3) normalize_note_Some [of "dc_rejection_note r"]
    by (cases "dc_decision r")
      (auto simp: valid_decision_def row_decision_def owner_decision_new_iff decision_row_validate_def split: option.splits)
  ultimately show ?thesis by (simp add: read_decision_for_thread_def newest_def)
qed

text \<open>
  A decide call on a waiting job that dies before its commit: the ledger has the decision, the
  tables do not.
\<close>

lemma decide_dies:
  assumes "owned owner i s = Inr j" "rj_status j = PAUSED_APPROVAL" "rj_checkpoint_id j = Some c" "c \<noteq> []"
    and "find_decision i s = None" "i \<notin> dc_thread_id ` set (cp_ledger s)"
  shows "decide True False owner i d t s = (Inl (OtherError ''OperationalError''), s\<lparr>cp_ledger := cp_ledger s @
    [\<lparr> dc_thread_id = i, dc_checkpoint_id = c, dc_decision = od_decision d, dc_rejection_note = od_rejection_note d,
       dc_decided_at = t \<rparr>]\<rparr>)"
proof -
  have "filter (\<lambda>r. dc_thread_id r = i) (cp_ledger s) = []" using assms(6) by (auto simp: filter_empty_conv)
  moreover have "\<not> (\<exists>r \<in> set (cp_ledger s). dc_thread_id r = i \<and> dc_checkpoint_id r = c)" using assms(6) by auto
  ultimately have "ensure_ledger_decision False i c d t s = (Inr (), s\<lparr>cp_ledger := cp_ledger s @
    [\<lparr> dc_thread_id = i, dc_checkpoint_id = c, dc_decision = od_decision d, dc_rejection_note = od_rejection_note d,
       dc_decided_at = t \<rparr>]\<rparr>)"
    unfolding ensure_ledger_decision_def ledger_decision_def read_decision_for_thread_def record_decision_before_resume_def newest_def
    by simp
  then show ?thesis using assms by (simp add: decide_def decide_body_def transaction_def)
qed

lemma recovered_claim:
  assumes inv: "cp_ok L cfg s" and j: "find_job i s = Some j" "rj_status j = PAUSED_APPROVAL" "find_decision i s = None"
    and r: "read_decision_for_thread False (cp_ledger s) i = Inr (Some r)" "valid_decision (row_decision r)"
    and run: "claim_next cfg False False now token t s = (Inr res, s')"
  shows "find_decision i s' = Some (mirror_of r)"
    and "find_job i s' = Some (j\<lparr>rj_status := QUEUED\<rparr>)
      \<or> find_job i s' = Some (claimed token (f_add now (cc_claim_lease_seconds cfg)) (j\<lparr>rj_status := QUEUED\<rparr>))"
    and "\<forall>c. res = Some c \<longrightarrow> wc_investigation_id c = i \<longrightarrow> wc_owner_decision c = Some (row_decision r)"
proof -
  from run have body: "claim_next_body cfg False now token t s = (Inr res, s')"
    by (auto simp: claim_next_def transaction_def split: prod.splits sum.splits)
  then obtain s2 where s2: "reconcile_durable_decisions False (reclaim_expired_investigations cfg now s) = Inr s2"
    and res: "res = None \<and> s' = s2 \<or> (\<exists>row. claim_row cfg False now token t row s2 = (Inr res, s'))"
    by (rule claim_next_body_Inr)
  let ?s = "reclaim_expired_investigations cfg now s"
  have ids: "distinct (map rj_id (cp_jobs s))" using inv by (simp add: cp_ok_def)
  have kept: "find_job i ?s = Some j" "find_decision i ?s = None" "cp_ledger ?s = cp_ledger s"
    using reclaim_keeps_open_jobs [OF ids j(1)] j by simp_all
  have "cp_ok L cfg ?s" using reclaim_expired_investigations_moves inv by (auto simp: moves_def)
  then have ids': "distinct (map rj_id (cp_jobs ?s))" by (simp add: cp_ok_def)
  have ji: "rj_id j = i" "j \<in> set (cp_jobs ?s)" using find_job_Some [OF kept(1)] by simp_all
  have "find_job (rj_id j) s2 = Some (j\<lparr>rj_status := QUEUED\<rparr>) \<and> find_decision (rj_id j) s2 = Some (mirror_of r)"
    using s2 unfolding reconcile_durable_decisions_def
    by (rule reconcile_rows_recovers) (use kept ji j r ids' in \<open>auto simp: distinct_filter_ids\<close>)
  then have at: "find_job i s2 = Some (j\<lparr>rj_status := QUEUED\<rparr>)" "find_decision i s2 = Some (mirror_of r)"
    using ji by simp_all
  from res show "find_decision i s' = Some (mirror_of r)" using at(2) claim_row_Inr(1) by metis
  from res show "find_job i s' = Some (j\<lparr>rj_status := QUEUED\<rparr>)
      \<or> find_job i s' = Some (claimed token (f_add now (cc_claim_lease_seconds cfg)) (j\<lparr>rj_status := QUEUED\<rparr>))"
    using at(1) claim_row_Inr(2) by (metis (no_types, lifting) option.simps(9))
  have "decision_from_row (mirror_of r) = Inr (row_decision r)"
    using r(2) by (simp add: decision_from_row_def valid_decision_def row_decision_def)
  then show "\<forall>c. res = Some c \<longrightarrow> wc_investigation_id c = i \<longrightarrow> wc_owner_decision c = Some (row_decision r)"
    using res at(2) by (auto dest!: claim_row_Inr(3))
qed

section \<open>Properties\<close>

definition sample_cfg :: cp_config where
  "sample_cfg = \<lparr> cc_claim_lease_seconds = Fin 300, cc_retry_base_seconds = 5, cc_max_replay_attempts = 3,
     cc_max_delivery_attempts = 3 \<rparr>"

definition sample_queued :: control_plane where
  "sample_queued = snd (create_job False ''o'' CONFIGURATION_CHANGE ''k'' ''j'' (empty_plane []))"

definition sample_running :: control_plane where
  "sample_running = snd (claim_next sample_cfg False False (Fin 1) ''t'' 0 sample_queued)"

definition sample_finished :: control_plane where
  "sample_finished = snd (finalize sample_libs (\<lambda>_ _. Inr ''ok'') False ''j'' ''j/report.md'' ''t'' (Fin 2) sample_running)"

definition sample_paused :: control_plane where
  "sample_paused = snd (mark_paused False ''j'' ''c'' ''t'' (Fin 2) sample_running)"

text \<open>The samples, evaluated.\<close>

definition sample_job :: replay_job where
  "sample_job = \<lparr> rj_id = ''j'', rj_owner = ''o'', rj_status = QUEUED, rj_scenario_family = CONFIGURATION_CHANGE,
     rj_seed = DEVELOPMENT, rj_checkpoint_id = None, rj_incident_id = None, rj_report_artifact = None,
     rj_report_content = None, rj_report_sha256 = None, rj_attempt_count = 0, rj_available_at = Fin 0,
     rj_failure_reason = None, rj_claim_token = None, rj_claim_expires_at = None, rj_idempotency_key = Some ''k'' \<rparr>"

lemma sample_lease: "fl 301 = Fin 301"
proof -
  have "repr 301" unfolding repr_def by (intro exI [of _ 301] exI [of _ 0]) simp
  then show ?thesis using fl_repr [of 301] by simp
qed

lemma sample_queued_tables: "cp_jobs sample_queued = [sample_job]" "cp_decisions sample_queued = []"
  "cp_deliveries sample_queued = []" "cp_ledger sample_queued = []"
  by (simp_all add: sample_queued_def create_job_def transaction_def empty_plane_def find_job_def event_def sample_job_def)

lemma sample_running_tables: "cp_jobs sample_running = [claimed ''t'' (Fin 301) sample_job]" "cp_decisions sample_running = []"
  "cp_deliveries sample_running = []" "cp_ledger sample_running = []"
  by (simp_all add: sample_running_def claim_next_def claim_next_body_def transaction_def sample_queued_tables
      reclaim_expired_investigations_def reconcile_durable_decisions_def claim_row_def find_decision_def
      update_job_def event_def sample_job_def sample_cfg_def sample_lease Let_def)

lemma sample_current: "find_job ''j'' sample_running = Some (claimed ''t'' (Fin 301) sample_job)"
  "claim_current ''t'' (Fin 2) (claimed ''t'' (Fin 301) sample_job)"
  by (simp_all add: find_job_def sample_running_tables claimed_def sample_job_def claim_current_def)

lemma sample_reference: "validate_report_reference ''j'' ''j/report.md'' = Inr ()"
  by code_simp

lemma sample_finished_tables: "cp_jobs sample_finished = [(claimed ''t'' (Fin 301) sample_job)\<lparr>rj_status := COMPLETED,
     rj_report_artifact := Some ''j/report.md'', rj_report_content := Some ''ok'', rj_report_sha256 := Some ''ok'',
     rj_claim_token := None, rj_claim_expires_at := None\<rparr>]"
  by (simp add: sample_finished_def finalize_def transaction_def sample_current sample_running_tables sample_reference
      claim_current_def update_job_def event_def claimed_def sample_job_def sample_libs_def py_strip_def is_space_def)

lemma sample_paused_tables: "cp_jobs sample_paused = [(claimed ''t'' (Fin 301) sample_job)\<lparr>rj_status := PAUSED_APPROVAL,
     rj_checkpoint_id := Some ''c'', rj_claim_token := None, rj_claim_expires_at := None\<rparr>]"
  "cp_decisions sample_paused = []" "cp_ledger sample_paused = []"
  by (simp_all add: sample_paused_def mark_paused_def transaction_def sample_current sample_running_tables
      claim_current_def update_job_def event_def claimed_def sample_job_def py_strip_def is_space_def)

lemma sample_steps: "(cp_step L sample_cfg)\<^sup>*\<^sup>* (empty_plane []) sample_running"
  "cp_step sample_libs sample_cfg sample_running sample_finished"
  "cp_step L sample_cfg sample_running sample_paused"
proof -
  have "cp_step L sample_cfg (empty_plane []) sample_queued" unfolding sample_queued_def by (rule cp_step.create)
  moreover have "cp_step L sample_cfg sample_queued sample_running" unfolding sample_running_def by (rule cp_step.claim)
  ultimately show "(cp_step L sample_cfg)\<^sup>*\<^sup>* (empty_plane []) sample_running" by auto
  show "cp_step sample_libs sample_cfg sample_running sample_finished" unfolding sample_finished_def by (rule cp_step.finish)
  show "cp_step L sample_cfg sample_running sample_paused" unfolding sample_paused_def by (rule cp_step.pause)
qed

lemma sample_start: "0 < cc_max_replay_attempts sample_cfg" "0 < cc_max_delivery_attempts sample_cfg" "decisions_ok [] []"
  by (simp_all add: sample_cfg_def decisions_ok_def)

lemma sample_ok: "cp_ok L sample_cfg sample_running" "cp_ok sample_libs sample_cfg sample_finished" "cp_ok L sample_cfg sample_paused"
  using queue.inv_reachable [OF sample_steps(1) empty_plane_ok [OF sample_start]]
    queue.inv_step [OF sample_steps(2)] queue.inv_step [OF sample_steps(3)] by blast+

text \<open>
  C13: the job queue implements the life cycle it promises. Starting from empty tables, whatever
  methods owners, workers and the command line call, in whatever order, with any arguments, clock
  readings and deaths before a commit: the tables keep their invariant (one job running at most,
  tokens and leases exactly on running rows, attempts within their limits, one delivery for each
  completed job and no other, no mirrored decision without its ledger row, gapless event
  ordinals), and each call is, on the phases of the jobs and of their deliveries, a sequence of
  steps of the abstract machine.
\<close>

theorem job_queue_refines_lifecycle:
  assumes "0 < cc_max_replay_attempts cfg" "0 < cc_max_delivery_attempts cfg" "decisions_ok [] rows"
    and "(cp_step L cfg)\<^sup>*\<^sup>* (empty_plane rows) s" "cp_step L cfg s s'"
  shows "cp_ok L cfg s \<and> cp_ok L cfg s'
    \<and> spec_step\<^sup>*\<^sup>* (queue_of (empty_plane rows)) (queue_of s) \<and> spec_step\<^sup>*\<^sup>* (queue_of s) (queue_of s')
    \<and> lone_worker (queue_of s')"
proof -
  have start: "cp_ok L cfg (empty_plane rows)" by (rule empty_plane_ok) (use assms in auto)
  have reach: "cp_ok L cfg s" "spec_step\<^sup>*\<^sup>* (queue_of (empty_plane rows)) (queue_of s)"
    using cp_steps_move [OF assms(4)] start by (simp_all add: moves_def)
  have step: "cp_ok L cfg s'" "spec_step\<^sup>*\<^sup>* (queue_of s) (queue_of s')"
    using cp_step_moves [OF assms(5)] reach(1) by (simp_all add: moves_def)
  have "lone_worker (queue_of (empty_plane rows))" by (simp add: lone_worker_def queue_of_def empty_plane_def)
  then have "lone_worker (queue_of s')"
    using lifecycle.inv_reachable rtranclp_trans [OF reach(2) step(2)] by blast
  with reach step show ?thesis by blast
qed

theorem job_queue_refines_lifecycle_witness:
  "cp_ok sample_libs sample_cfg sample_finished
   \<and> spec_step\<^sup>*\<^sup>* (queue_of sample_running) (queue_of sample_finished)
   \<and> qs_jobs (queue_of sample_running) ''j'' = Some Working
   \<and> qs_jobs (queue_of sample_finished) ''j'' = Some (Finished (Some ''ok''))"
proof -
  have "qs_jobs (queue_of sample_running) ''j'' = Some Working"
    "qs_jobs (queue_of sample_finished) ''j'' = Some (Finished (Some ''ok''))"
    by (simp_all add: queue_of_def sample_running_tables sample_finished_tables claimed_def sample_job_def phase_of_def)
  then show ?thesis using job_queue_refines_lifecycle [OF sample_start sample_steps(1,2)] by blast
qed

text \<open>
  C14: a completed investigation is immutable. Whatever the queue does after it finished, its row
  stays as it is, its owner keeps reading exactly the report content that was stored, nobody else
  can read it, and there is exactly one delivery for it, addressed to its owner.
\<close>

theorem finished_reports_are_immutable:
  assumes "cp_ok L cfg s" "(cp_step L cfg)\<^sup>*\<^sup>* s s'" "j \<in> set (cp_jobs s)" "rj_status j = COMPLETED"
  shows "j \<in> set (cp_jobs s')
    \<and> (\<exists>content. rj_report_content j = Some content \<and> (\<forall>reader. job_report L reader (rj_id j) s' =
         (if reader = rj_owner j then Inr content else Inl ControlPlaneNotFoundError)))
    \<and> (\<exists>d. filter (\<lambda>d. dl_job_id d = rj_id j) (cp_deliveries s') = [d] \<and> dl_destination_email d = rj_owner j)"
proof -
  have inv: "cp_ok L cfg s'" using queue.inv_reachable [OF assms(2,1)] .
  have j: "j \<in> set (cp_jobs s')" using finished_stays [OF assms] .
  have ids: "distinct (map rj_id (cp_jobs s'))" "distinct (map dl_job_id (cp_deliveries s'))"
    using inv by (simp_all add: cp_ok_def)
  from job_report_stored [OF inv j assms(4)] obtain content where
    c: "rj_report_content j = Some content" "job_report L (rj_owner j) (rj_id j) s' = Inr content" by blast
  have "job_report L reader (rj_id j) s' = Inl ControlPlaneNotFoundError" if "reader \<noteq> rj_owner j" for reader
    using owned_iff [OF ids(1) j] that by (simp add: job_report_def)
  moreover from inv j assms(4) obtain d where d: "d \<in> set (cp_deliveries s')" "dl_job_id d = rj_id j"
    by (auto simp: cp_ok_def)
  then have "filter (\<lambda>d. dl_job_id d = rj_id j) (cp_deliveries s') = [d]" using deliveries_for [OF ids(2) d(1)] by simp
  moreover have "dl_destination_email d = rj_owner j"
  proof -
    have "delivery_ok cfg (cp_jobs s') d" using inv d(1) by (simp add: cp_ok_def)
    then obtain k where "k \<in> set (cp_jobs s')" "rj_id k = rj_id j" "rj_owner k = dl_destination_email d"
      using d(2) by (auto simp: delivery_ok_def)
    then show ?thesis using same_id [OF ids(1) _ j] by metis
  qed
  ultimately show ?thesis using j c by auto
qed

theorem finished_reports_are_immutable_witness:
  "job_report sample_libs ''o'' ''j'' (snd (claim_delivery sample_cfg False (Fin 9) ''u'' sample_finished)) = Inr ''ok''"
proof -
  have job: "hd (cp_jobs sample_finished) \<in> set (cp_jobs sample_finished)"
    "rj_status (hd (cp_jobs sample_finished)) = COMPLETED" "rj_owner (hd (cp_jobs sample_finished)) = ''o''"
    "rj_id (hd (cp_jobs sample_finished)) = ''j''" "rj_report_content (hd (cp_jobs sample_finished)) = Some ''ok''"
    by (simp_all add: sample_finished_tables claimed_def sample_job_def)
  have "(cp_step sample_libs sample_cfg)\<^sup>*\<^sup>* sample_finished (snd (claim_delivery sample_cfg False (Fin 9) ''u'' sample_finished))"
    by (rule r_into_rtranclp) (rule cp_step.take)
  from finished_reports_are_immutable [OF sample_ok(2) this job(1,2)] job show ?thesis by auto
qed

text \<open>
  C16: an owner's decision is never lost. When the process dies between the ledger write and the
  commit of the queue's own tables, those tables are as before, and the next successful poll of
  any worker finds the decision: the job waits in the queue or was handed out, the mirrored
  decision is the one the owner made, a claim of that job carries exactly that decision, and a
  different decision for it is refused from then on.
\<close>

theorem interrupted_decision_is_recovered:
  assumes inv: "cp_ok L cfg s" and d: "owner_decision_new kind text = Inr d"
    and job: "owned owner i s = Inr j" "rj_status j = PAUSED_APPROVAL"
    and none: "find_decision i s = None" "i \<notin> dc_thread_id ` set (cp_ledger s)"
    and dead: "decide True False owner i d t s = (res, s1)"
    and poll: "claim_next cfg False False now token t' s1 = (Inr claim, s2)"
  shows "res = Inl (OtherError ''OperationalError'') \<and> (\<exists>row. s1 = s\<lparr>cp_ledger := cp_ledger s @ [row]\<rparr>)
    \<and> (\<exists>m. find_decision i s2 = Some m \<and> decision_from_row m = Inr d)
    \<and> (\<exists>k. find_job i s2 = Some k \<and> rj_status k \<in> {QUEUED, RUNNING})
    \<and> (\<forall>c. claim = Some c \<longrightarrow> wc_investigation_id c = i \<longrightarrow> wc_owner_decision c = Some d)
    \<and> (\<forall>d'. d' \<noteq> d \<longrightarrow> decide dies down owner i d' t'' s2 = (Inl ControlPlaneConflictError, s2))"
proof -
  note j = owned_Inr [OF job(1)]
  have "job_ok L cfg j" using inv j by (simp add: cp_ok_def)
  then obtain c where c: "rj_checkpoint_id j = Some c" "c \<noteq> []" using job(2) by (auto simp: job_ok_def)
  let ?row = "\<lparr> dc_thread_id = i, dc_checkpoint_id = c, dc_decision = od_decision d,
    dc_rejection_note = od_rejection_note d, dc_decided_at = t \<rparr>"
  have s1: "res = Inl (OtherError ''OperationalError'')" "s1 = s\<lparr>cp_ledger := cp_ledger s @ [?row]\<rparr>"
    using dead decide_dies [OF job c none] by simp_all
  have rd: "row_decision ?row = d" "valid_decision (row_decision ?row)"
    using owner_decision_new_valid [OF d] by (cases d; simp add: row_decision_def)+
  have inv1: "cp_ok L cfg s1"
    using decide_moves [OF owner_decision_new_valid [OF d], of L cfg s True False owner i t] dead inv by (simp add: moves_def)
  have ids: "distinct (map rj_id (cp_jobs s))" using inv by (simp add: cp_ok_def)
  have "find_job i s \<noteq> None" using j by (auto simp: find_job_def find_None_iff)
  then have fj: "find_job i s1 = Some j"
    using find_job_Some [of i s] same_id [OF ids] j by (auto simp: s1(2) find_job_def)
  have led: "read_decision_for_thread False (cp_ledger s1) i = Inr (Some ?row)"
    using read_single_row [OF none(2), of ?row] rd(2) by (simp add: s1(2))
  have nd: "find_decision i s1 = None" using none(1) by (simp add: s1(2) find_decision_def)
  note rec = recovered_claim [OF inv1 fj job(2) nd led rd(2) poll]
  obtain k where k: "find_job i s2 = Some k" "rj_status k \<in> {QUEUED, RUNNING}" "rj_checkpoint_id k = Some c" "rj_owner k = owner"
    using rec(2) c j by (auto simp: claimed_def)
  have dm: "decision_from_row (mirror_of ?row) = Inr d"
    using rd(2) unfolding rd(1) by (simp add: decision_from_row_def valid_decision_def)
  have "cp_ok L cfg s2"
    using claim_next_moves [of L cfg s1 False False now token t'] poll inv1 by (simp add: moves_def)
  then have "owned owner i s2 = Inr k"
    using owned_iff [of s2 k owner] find_job_Some [OF k(1)] k(4) by (auto simp: cp_ok_def)
  then have "decide dies down owner i d' t'' s2 = (Inl ControlPlaneConflictError, s2)" if "d' \<noteq> d" for d'
    unfolding decide_def using that rec(1) dm k(3) c(2) by (intro transaction_refused) (simp add: decide_body_def)
  with s1 rec(1,3) dm k rd(1) show ?thesis by auto
qed

theorem interrupted_decision_is_recovered_witness:
  "\<exists>s1 s2 c. decide True False ''o'' ''j'' \<lparr> od_decision = Accept, od_rejection_note = None \<rparr> 5 sample_paused
       = (Inl (OtherError ''OperationalError''), s1)
     \<and> claim_next sample_cfg False False (Fin 1) ''u'' 6 s1 = (Inr (Some c), s2)
     \<and> wc_owner_decision c = Some \<lparr> od_decision = Accept, od_rejection_note = None \<rparr>"
proof -
  let ?d = "\<lparr> od_decision = Accept, od_rejection_note = None \<rparr>"
  let ?j = "hd (cp_jobs sample_paused)"
  let ?s1 = "snd (decide True False ''o'' ''j'' ?d 5 sample_paused)"
  have d: "owner_decision_new Accept None = Inr ?d" by (simp add: owner_decision_new_iff normalize_note_def)
  have job: "owned ''o'' ''j'' sample_paused = Inr ?j" "rj_status ?j = PAUSED_APPROVAL"
    "find_decision ''j'' sample_paused = None" "''j'' \<notin> dc_thread_id ` set (cp_ledger sample_paused)"
    by (simp_all add: owned_def sample_paused_tables claimed_def sample_job_def find_decision_def)
  have s1: "decide True False ''o'' ''j'' ?d 5 sample_paused = (Inl (OtherError ''OperationalError''), ?s1)"
    "cp_jobs ?s1 = cp_jobs sample_paused" "cp_decisions ?s1 = []"
    "cp_ledger ?s1 = [\<lparr> dc_thread_id = ''j'', dc_checkpoint_id = ''c'', dc_decision = Accept, dc_rejection_note = None, dc_decided_at = 5 \<rparr>]"
    using decide_dies [OF job(1,2) _ _ job(3,4), of "''c''" ?d 5]
    by (simp_all add: sample_paused_tables claimed_def sample_job_def)
  obtain c s2 where poll: "claim_next sample_cfg False False (Fin 1) ''u'' 6 ?s1 = (Inr (Some c), s2)" "wc_investigation_id c = ''j''"
    by (simp add: claim_next_def claim_next_body_def transaction_def s1(2-) sample_paused_tables
      reclaim_expired_investigations_def reconcile_durable_decisions_def reconcile_row_def ledger_decision_def
      read_decision_for_thread_def newest_def decision_row_validate_def d find_decision_def queue_decided_def mirror_decision_def
      claim_row_def decision_from_row_def ensure_ledger_decision_def matches_def claim_of_def
      update_job_def event_def claimed_def sample_job_def sample_cfg_def Let_def)
  show ?thesis
    using interrupted_decision_is_recovered [OF sample_ok(3) d job(1-4) s1(1) poll(1)] s1(1) poll by blast
qed

end
