(* ===== verification/Workers.thy ===== *)
theory Workers
  imports ControlProps
begin

text \<open>
  The workers of \<open>src/causalops/api_runtime.py\<close> that drain the job queue: \<open>ReplayWorker\<close>,
  \<open>ReportDeliveryWorker\<close> with its file hand-off, and the loop that polls both. What runs beside a
  worker (its own heartbeat thread, other processes) acts on the tables between its calls.
\<close>

section \<open>The replay worker\<close>

datatype worker_outcome = PausedWorkerOutcome string | FinalizedWorkerOutcome string

text \<open>The tables, and whatever else the runner and its callbacks act on.\<close>

type_synonym 'x hosted = "control_plane \<times> 'x"

record 'x replay_worker =
  rw_runner :: "worker_claim \<Rightarrow> 'x hosted \<Rightarrow> (exn + worker_outcome) \<times> 'x hosted"
  rw_reconcile :: "('x hosted \<Rightarrow> (exn + unit) \<times> 'x hosted) option"
  rw_on_paused :: "(worker_claim \<Rightarrow> 'x hosted \<Rightarrow> (exn + unit) \<times> 'x hosted) option"
  rw_on_finalized :: "(worker_claim \<Rightarrow> 'x hosted \<Rightarrow> (exn + unit) \<times> 'x hosted) option"
  rw_on_failed :: "(worker_claim \<Rightarrow> 'x hosted \<Rightarrow> (exn + unit) \<times> 'x hosted) option"

text \<open>
  What one pass meets: the readings of the clock and the deaths of its calls in their order, the
  token it draws, what others did to the tables before each call, and the first failure of the
  heartbeat thread. \<open>MINIMUM_HEARTBEAT_SECONDS\<close> only spaces the renewals, which are among the
  steps of the others.
\<close>

record pass =
  ps_now :: "nat \<Rightarrow> pyfloat"
  ps_dies :: "nat \<Rightarrow> bool"
  ps_others :: "nat \<Rightarrow> control_plane \<Rightarrow> control_plane"
  ps_token :: string
  ps_decided_at :: instant
  ps_down :: bool
  ps_heartbeat :: "exn option"

definition on_plane :: "pass \<Rightarrow> nat \<Rightarrow> (control_plane \<Rightarrow> (exn + 'r) \<times> control_plane) \<Rightarrow> 'x hosted \<Rightarrow> (exn + 'r) \<times> 'x hosted" where
  "on_plane K n op w = (let (r, s) = op (ps_others K n (fst w)) in (r, (s, snd w)))"

text \<open>An optional hook that is not there does nothing.\<close>

definition hook :: "('x hosted \<Rightarrow> (exn + unit) \<times> 'x hosted) option \<Rightarrow> 'x hosted \<Rightarrow> (exn + unit) \<times> 'x hosted" where
  "hook h w = (case h of None \<Rightarrow> (Inr (), w) | Some f \<Rightarrow> f w)"

definition then_do :: "(exn + 'a) \<times> 'w \<Rightarrow> ('a \<Rightarrow> 'w \<Rightarrow> (exn + 'b) \<times> 'w) \<Rightarrow> (exn + 'b) \<times> 'w" where
  "then_do m f = (case m of (Inl e, w) \<Rightarrow> (Inl e, w) | (Inr a, w) \<Rightarrow> f a w)"

text \<open>The body of the \<open>try\<close>: run, then record the outcome under the claim.\<close>

definition record_outcome :: "libs \<Rightarrow> (string \<Rightarrow> string \<Rightarrow> exn + string) \<Rightarrow> 'x replay_worker \<Rightarrow> pass \<Rightarrow> worker_claim \<Rightarrow>
    'x hosted \<Rightarrow> (exn + unit) \<times> 'x hosted" where
  "record_outcome L snapshot W K claim w =
     then_do (rw_runner W claim (ps_others K 1 (fst w), snd w)) (\<lambda>outcome w.
       case ps_heartbeat K of Some e \<Rightarrow> (Inl e, w) | None \<Rightarrow>
       (case outcome of
          PausedWorkerOutcome checkpoint_id \<Rightarrow>
            then_do (on_plane K 2 (mark_paused (ps_dies K 2) (wc_investigation_id claim) checkpoint_id
                (wc_claim_token claim) (ps_now K 2)) w)
              (\<lambda>_. hook (map_option (\<lambda>f. f claim) (rw_on_paused W)))
        | FinalizedWorkerOutcome report_artifact \<Rightarrow>
            then_do (on_plane K 2 (finalize L snapshot (ps_dies K 2) (wc_investigation_id claim) report_artifact
                (wc_claim_token claim) (ps_now K 2)) w)
              (\<lambda>_. hook (map_option (\<lambda>f. f claim) (rw_on_finalized W)))))"

text \<open>
  The \<open>except\<close> clause: a conflict of the retry (or of the hook behind it) is dropped, any other
  exception replaces the worker's own.
\<close>

definition after_failure :: "cp_config \<Rightarrow> 'x replay_worker \<Rightarrow> pass \<Rightarrow> worker_claim \<Rightarrow> exn \<Rightarrow> 'x hosted \<Rightarrow>
    (exn + bool) \<times> 'x hosted" where
  "after_failure cfg W K claim error w =
     (case then_do (on_plane K 3 (retry_running cfg (ps_dies K 3) (wc_investigation_id claim) (wc_claim_token claim)
              (exn_name error) (ps_now K 3)) w)
          (\<lambda>retryable. hook (if retryable then None else map_option (\<lambda>f. f claim) (rw_on_failed W))) of
        (Inl e, w') \<Rightarrow> (Inl (if e = ControlPlaneConflictError then error else e), w')
      | (Inr _, w') \<Rightarrow> (Inl error, w'))"

definition replay_run_once :: "libs \<Rightarrow> (string \<Rightarrow> string \<Rightarrow> exn + string) \<Rightarrow> cp_config \<Rightarrow> 'x replay_worker \<Rightarrow> pass \<Rightarrow>
    'x hosted \<Rightarrow> (exn + bool) \<times> 'x hosted" where
  "replay_run_once L snapshot cfg W K w =
     then_do (hook (rw_reconcile W) w) (\<lambda>_ w.
     then_do (on_plane K 0 (claim_next cfg (ps_dies K 0) (ps_down K) (ps_now K 0) (ps_token K) (ps_decided_at K)) w)
       (\<lambda>c w. case c of None \<Rightarrow> (Inr False, w) | Some claim \<Rightarrow>
         (case record_outcome L snapshot W K claim w of
            (Inl error, w') \<Rightarrow> after_failure cfg W K claim error w'
          | (Inr _, w') \<Rightarrow> (Inr True, w'))))"

section \<open>The delivery worker\<close>

text \<open>
  \<open>FilesystemReportDeliverySender\<close>: the directory of hand-off files by name. The payload is
  written to a file of a fresh name and linked to its target, which fails when the target exists.
  A fault hits before the link (nothing is there), or after it, when the fresh file is removed.
\<close>

type_synonym handoffs = "string \<rightharpoonup> string"

datatype send_fault = No_fault | Before_link exn | At_cleanup exn

definition delivery_payload :: "libs \<Rightarrow> delivery_claim \<Rightarrow> string" where
  "delivery_payload L claim = json_dumps (float_repr L) '', '' '': '' (JObj
     [(''destination_email'', JStr (dv_destination_email claim)), (''report_content'', JStr (dv_report_content claim)),
      (''report_sha256'', JStr (dv_report_sha256 claim))])"

definition delivery_target :: "string \<Rightarrow> string" where
  "delivery_target delivery_id = delivery_id @ ''.json''"

definition send_report :: "libs \<Rightarrow> send_fault \<Rightarrow> delivery_claim \<Rightarrow> handoffs \<Rightarrow> (exn + unit) \<times> handoffs" where
  "send_report L fault claim files =
     (let target = delivery_target (dv_delivery_id claim);
          (r, files') = (case fault of Before_link e \<Rightarrow> (Inl e, files) | _ \<Rightarrow>
            (case files target of
               None \<Rightarrow> (Inr (), files(target \<mapsto> delivery_payload L claim))
             | Some existing \<Rightarrow>
               (if existing \<noteq> delivery_payload L claim then Inl ControlPlaneIntegrityError else Inr (), files)))
      in case fault of At_cleanup e \<Rightarrow> (Inl e, files') | _ \<Rightarrow> (r, files'))"

definition delivery_run_once :: "libs \<Rightarrow> cp_config \<Rightarrow> send_fault \<Rightarrow> pass \<Rightarrow> handoffs hosted \<Rightarrow>
    (exn + bool) \<times> handoffs hosted" where
  "delivery_run_once L cfg fault K w =
     then_do (on_plane K 0 (claim_delivery cfg (ps_dies K 0) (ps_now K 0) (ps_token K)) w)
       (\<lambda>c w. case c of None \<Rightarrow> (Inr False, w) | Some claim \<Rightarrow>
         (case then_do (let (r, files) = send_report L fault claim (snd w) in (r, (ps_others K 1 (fst w), files))) (\<lambda>_ w.
              case ps_heartbeat K of Some e \<Rightarrow> (Inl e, w) | None \<Rightarrow>
              on_plane K 2 (mark_delivered (ps_dies K 2) (dv_investigation_id claim) (dv_claim_token claim) (ps_now K 2)) w) of
            (Inr _, w') \<Rightarrow> (Inr True, w')
          | (Inl error, w') \<Rightarrow>
            (case on_plane K 3 (retry_delivery cfg (ps_dies K 3) (dv_investigation_id claim) (dv_claim_token claim)
                  (exn_name error) (ps_now K 3)) w' of
               (Inl e, w'') \<Rightarrow> (Inl (if e = ControlPlaneConflictError then error else e), w'')
             | (Inr _, w'') \<Rightarrow> (Inl error, w''))))"

section \<open>The loop\<close>

text \<open>
  One turn of \<open>BackgroundControlPlaneWorkers._run\<close>: whether something progressed. An exception of
  either pass ends the turn.
\<close>

definition worker_turn :: "('w \<Rightarrow> (exn + bool) \<times> 'w) \<Rightarrow> ('w \<Rightarrow> (exn + bool) \<times> 'w) \<Rightarrow> 'w \<Rightarrow> bool \<times> 'w" where
  "worker_turn replay delivery w =
     (case then_do (replay w) (\<lambda>progressed w. then_do (delivery w) (\<lambda>delivered w. (Inr (delivered \<or> progressed), w))) of
        (Inl _, w') \<Rightarrow> (False, w') | (Inr progressed, w') \<Rightarrow> (progressed, w'))"

text \<open>
  The two passes of a turn are not independent: while the replay pass keeps raising before it does
  anything (an unreadable scenario marker, a ledger that disagrees), no delivery is attempted.
\<close>

lemma failing_poll_starves_deliveries:
  assumes "\<And>w. \<exists>e. replay w = (Inl e, w)"
  shows "((snd \<circ> worker_turn replay delivery) ^^ n) w = w"
proof -
  have "(snd \<circ> worker_turn replay delivery) w = w" for w
    using assms [of w] by (auto simp: worker_turn_def then_do_def)
  then show ?thesis by (induction n) simp_all
qed

end
