(* ===== verification/ClaimProps.thy ===== *)
theory ClaimProps
  imports ControlProps
begin

text \<open>
  Who holds a claim of the job queue. The jobs claimed under a token, how every call of the queue
  changes them, and the fence this puts around a worker that was too slow: once its lease ran out
  it can do nothing to its job, and once a poll took the job back it never can again.
\<close>

section \<open>Claims held under a token\<close>

definition holders :: "string \<Rightarrow> control_plane \<Rightarrow> string set" where
  "holders token s = {rj_id j |j. j \<in> set (cp_jobs s) \<and> rj_claim_token j = Some token}"

lemma holders_cong: "cp_jobs s = cp_jobs s' \<Longrightarrow> holders token s = holders token s'"
  by (simp add: holders_def)

lemma holders_event [simp]: "holders token (event i name flds s) = holders token s"
  by (rule holders_cong) simp

lemma holders_mirror [simp]: "holders token (mirror_decision i c d s) = holders token s"
  by (rule holders_cong) simp

lemma holders_ledger [simp]: "holders token (s\<lparr>cp_ledger := rows\<rparr>) = holders token s"
  by (rule holders_cong) simp

lemma holders_deliveries [simp]: "holders token (s\<lparr>cp_deliveries := ds\<rparr>) = holders token s"
  by (rule holders_cong) simp

lemma holdersI: "j \<in> set (cp_jobs s) \<Longrightarrow> rj_claim_token j = Some token \<Longrightarrow> rj_id j \<in> holders token s"
  by (auto simp: holders_def)

lemma holders_update:
  assumes id: "\<And>j. rj_id (f j) = rj_id j"
  shows "holders token (update_job i f s) \<subseteq> insert i (holders token s)"
    and "(\<And>j. rj_claim_token (f j) \<noteq> Some token) \<Longrightarrow> holders token (update_job i f s) = holders token s - {i}"
    and "(\<And>j. rj_claim_token (f j) = rj_claim_token j) \<Longrightarrow> holders token (update_job i f s) = holders token s"
proof -
  have idg: "rj_id (if rj_id y = i then f y else y) = rj_id y" for y using id by simp
  have mem: "x \<in> holders token (update_job i f s) \<longleftrightarrow>
      (\<exists>j \<in> set (cp_jobs s). x = rj_id j \<and> rj_claim_token (if rj_id j = i then f j else j) = Some token)" for x
  proof -
    have "x \<in> holders token (update_job i f s) \<longleftrightarrow> x \<in> rj_id ` {j \<in> set (cp_jobs (update_job i f s)). rj_claim_token j = Some token}"
      by (auto simp: holders_def)
    also have "\<dots> \<longleftrightarrow> (\<exists>y \<in> set (cp_jobs s). x = rj_id (if rj_id y = i then f y else y)
        \<and> rj_claim_token (if rj_id y = i then f y else y) = Some token)"
      unfolding image_iff mem_Collect_eq in_update_job by blast
    also have "\<dots> \<longleftrightarrow> (\<exists>j \<in> set (cp_jobs s). x = rj_id j \<and> rj_claim_token (if rj_id j = i then f j else j) = Some token)"
      unfolding idg ..
    finally show ?thesis .
  qed
  show "holders token (update_job i f s) \<subseteq> insert i (holders token s)"
    unfolding subset_iff mem by (auto simp: holders_def split: if_splits)
  show "holders token (update_job i f s) = holders token s - {i}" if none: "\<And>j. rj_claim_token (f j) \<noteq> Some token"
    unfolding set_eq_iff mem by (auto simp: none holders_def split: if_splits)
  show "holders token (update_job i f s) = holders token s" if same: "\<And>j. rj_claim_token (f j) = rj_claim_token j"
    unfolding set_eq_iff mem by (auto simp: same holders_def)
qed

lemma holders_transaction:
  assumes "transaction dies body s = (r, s')"
  shows "(\<exists>e. r = Inl e) \<and> holders token s' = holders token s \<or> (\<exists>x. r = Inr x) \<and> body s = (r, s')"
  using assms by (auto simp: transaction_def split: prod.splits sum.splits if_splits)

lemma holders_queue_decided [simp]: "holders token (queue_decided i c d s) = holders token s"
  unfolding queue_decided_def by (simp add: holders_update(3))

lemma holders_reconcile_row: "reconcile_row down row s = Inr s' \<Longrightarrow> holders token s' = holders token s"
  by (erule reconcile_row_Inr) auto

lemma holders_reconcile_rows: "reconcile_rows down rows s = Inr s' \<Longrightarrow> holders token s' = holders token s"
proof (induction rows arbitrary: s)
  case (Cons row rows)
  then obtain s1 where "reconcile_row down row s = Inr s1" "reconcile_rows down rows s1 = Inr s'" by (auto simp: bind_r_Inr)
  with Cons.IH [of s1] holders_reconcile_row show ?case by simp
qed simp

lemma holders_reclaim: "holders token (reclaim_expired_investigations cfg now s) \<subseteq> holders token s"
proof -
  have one: "holders token (reclaim_row cfg now row t) \<subseteq> holders token t" for row t
    by (auto simp: reclaim_row_def Let_def holders_update(2) given_up_def requeued_def)
  have "holders token (fold (reclaim_row cfg now) rows t) \<subseteq> holders token t" for rows t
    using one by (induction rows arbitrary: t) (auto, blast)
  then show ?thesis by (simp add: reclaim_expired_investigations_def)
qed

lemma holders_claim_row:
  assumes "claim_row cfg down now token t row s = (Inr r, s')"
  shows "holders token s' \<subseteq> insert (rj_id row) (holders token s)
    \<and> (\<exists>c. r = Some c \<and> wc_investigation_id c = rj_id row \<and> wc_claim_token c = token)"
proof -
  let ?s = "event (rj_id row) ''investigation_started'' []
    (update_job (rj_id row) (claimed token (f_add now (cc_claim_lease_seconds cfg))) s)"
  have id: "rj_id (claimed tok e j) = rj_id j" for tok e j by (simp add: claimed_def)
  have "holders token s' = holders token ?s \<and> (\<exists>c. r = Some c \<and> wc_investigation_id c = rj_id row \<and> wc_claim_token c = token)"
    using assms ensure_ledger_cases
    by (auto simp: claim_row_def Let_def claim_of_def split: option.splits sum.splits if_splits prod.splits)
       (fastforce dest: ensure_ledger_cases)+
  moreover have "holders token ?s \<subseteq> insert (rj_id row) (holders token s)" by (simp add: holders_update(1) id)
  ultimately show ?thesis by simp
qed

lemma holders_claim_next:
  assumes "claim_next cfg dies down now token t s = (r, s')"
  shows "(\<exists>c. r = Inr (Some c) \<and> wc_claim_token c = token \<and> holders token s' \<subseteq> insert (wc_investigation_id c) (holders token s))
    \<or> (\<forall>c. r \<noteq> Inr (Some c)) \<and> holders token s' \<subseteq> holders token s"
  using holders_transaction [OF assms [unfolded claim_next_def], of token]
proof (elim disjE conjE exE)
  fix x assume r: "r = Inr x" and "claim_next_body cfg down now token t s = (r, s')"
  then obtain s2 where s2: "reconcile_durable_decisions down (reclaim_expired_investigations cfg now s) = Inr s2"
    and res: "x = None \<and> s' = s2 \<or> (\<exists>row. claim_row cfg down now token t row s2 = (Inr x, s'))"
    by (metis claim_next_body_Inr)
  have "holders token s2 \<subseteq> holders token s"
    using s2 holders_reconcile_rows holders_reclaim unfolding reconcile_durable_decisions_def by metis
  then have sub: "insert i (holders token s2) \<subseteq> insert i (holders token s)" for i by blast
  from res show ?thesis
  proof (elim disjE exE)
    fix row assume "claim_row cfg down now token t row s2 = (Inr x, s')"
    from holders_claim_row [OF this] obtain c where "x = Some c" "wc_investigation_id c = rj_id row" "wc_claim_token c = token"
      and h: "holders token s' \<subseteq> insert (rj_id row) (holders token s2)" by blast
    with subset_trans [OF h sub] r show ?thesis by auto
  qed (use r \<open>holders token s2 \<subseteq> holders token s\<close> in auto)
qed auto

text \<open>Pausing and finishing give the claim back; a retry does unless another took it over.\<close>

lemma holders_mark_paused:
  assumes "mark_paused dies i checkpoint_id tok now s = (r, s')"
  shows "(\<exists>e. r = Inl e) \<and> holders token s' = holders token s \<or> r = Inr () \<and> holders token s' = holders token s - {i}"
  using assms by (auto simp: mark_paused_def transaction_def holders_update(2) split: option.splits if_splits prod.splits sum.splits)

lemma holders_finalize:
  assumes "finalize L snapshot dies i artifact tok now s = (r, s')"
  shows "(\<exists>e. r = Inl e) \<and> holders token s' = holders token s \<or> r = Inr () \<and> holders token s' = holders token s - {i}"
  using assms by (auto simp: finalize_def transaction_def holders_update(2) split: option.splits if_splits prod.splits sum.splits)

lemma holders_retry:
  assumes "cp_ok L cfg s" "retry_running cfg False i token name now s = (r, s')"
  shows "holders token s' \<subseteq> holders token s - {i}"
proof (cases "find_job i s")
  case None
  then have "i \<notin> holders token s" by (auto simp: find_job_def find_None_iff holders_def)
  with None assms(2) show ?thesis by (auto simp: retry_running_def transaction_def)
next
  case (Some row)
  show ?thesis
  proof (cases "rj_status row = RUNNING \<and> rj_claim_token row = Some token")
    case True
    with Some assms(2) show ?thesis
      by (auto simp: retry_running_def transaction_def Let_def holders_update(2) given_up_def requeued_def split: if_splits)
  next
    case False
    have "rj_claim_token j \<noteq> Some token" if "j \<in> set (cp_jobs s)" "rj_id j = i" for j
    proof -
      have "j = row" using same_id that find_job_Some [OF Some] assms(1) by (auto simp: cp_ok_def)
      moreover have "job_ok L cfg row" using assms(1) find_job_Some [OF Some] by (simp add: cp_ok_def)
      ultimately show ?thesis using False by (auto simp: job_ok_def)
    qed
    then have "i \<notin> holders token s" by (auto simp: holders_def)
    with False Some assms(2) show ?thesis by (auto simp: retry_running_def transaction_def)
  qed
qed

section \<open>Calls of others\<close>

text \<open>Any call of the queue, by anybody with any token, but no claim of a job under the token \<open>t\<close>.\<close>

inductive others_call :: "libs \<Rightarrow> cp_config \<Rightarrow> string \<Rightarrow> control_plane \<Rightarrow> control_plane \<Rightarrow> bool" for L cfg t where
  create: "others_call L cfg t s (snd (create_job dies owner_email family key new_id s))"
| decided: "owner_decision_new kind text = Inr d \<Longrightarrow> others_call L cfg t s (snd (decide dies down owner_email i d tm s))"
| claim: "token \<noteq> t \<Longrightarrow> others_call L cfg t s (snd (claim_next cfg dies down now token tm s))"
| renew: "others_call L cfg t s (snd (renew_running cfg dies i token now s))"
| reserve: "others_call L cfg t s (snd (reserve_incident dies i token now s))"
| pause: "others_call L cfg t s (snd (mark_paused dies i checkpoint_id token now s))"
| requeue: "others_call L cfg t s (snd (requeue_running dies i token s))"
| retry: "others_call L cfg t s (snd (retry_running cfg dies i token error_name now s))"
| finish: "others_call L cfg t s (snd (finalize L snapshot dies i report_artifact token now s))"
| take: "others_call L cfg t s (snd (claim_delivery cfg dies now token s))"
| sent: "others_call L cfg t s (snd (mark_delivered dies i token now s))"
| renew_sending: "others_call L cfg t s (snd (renew_delivery cfg dies i token now s))"
| release: "others_call L cfg t s (snd (release_delivery dies i token s))"
| retry_sending: "others_call L cfg t s (snd (retry_delivery cfg dies i token error_name now s))"
| command_line: "owner_decision_new kind text = Inr d \<Longrightarrow> read_decision_for_thread down (cp_ledger s) i = Inr None \<Longrightarrow>
    others_call L cfg t s (s\<lparr>cp_ledger := snd (record_decision_before_resume down (cp_ledger s) i c d tm)\<rparr>)"

lemma holders_snd:
  assumes "holders token (snd (body s)) \<subseteq> holders token s"
  shows "holders token (snd (transaction dies body s)) \<subseteq> holders token s"
  using assms by (auto simp: transaction_def split: prod.splits sum.splits)

lemma holders_create: "holders token (snd (create_job dies owner family key new_id s)) \<subseteq> holders token s"
  unfolding create_job_def by (rule holders_snd) (auto simp: holders_def split: option.splits if_splits)

lemma holders_ensure: "holders token (snd (ensure_ledger_decision down i c d t s)) = holders token s"
  using ensure_ledger_cases [of down i c d t s] by (cases "ensure_ledger_decision down i c d t s") auto

lemma holders_decide: "holders token (snd (decide dies down owner i d t s)) \<subseteq> holders token s"
proof -
  have e: "ensure_ledger_decision down i c d' t s = (r, s') \<Longrightarrow> holders token s' = holders token s" for c d' r s'
    using holders_ensure [of token down i c d' t s] by simp
  show ?thesis unfolding decide_def
    by (rule holders_snd) (auto simp: decide_body_def split: sum.splits option.splits prod.splits if_splits dest!: e)
qed

lemma holders_claim_row_other:
  assumes "token \<noteq> t"
  shows "holders t (snd (claim_row cfg down now token tm row s)) \<subseteq> holders t s"
proof -
  have e: "ensure_ledger_decision down i c d t' s = (r, s') \<Longrightarrow> holders t s' = holders t s" for i c d t' r s s'
    using holders_ensure [of t down i c d t' s] by simp
  show ?thesis
    using assms by (auto simp: claim_row_def Let_def claimed_def holders_update(2) split: option.splits sum.splits prod.splits if_splits dest!: e)
qed

lemma holders_claim_other:
  assumes "token \<noteq> t"
  shows "holders t (snd (claim_next cfg dies down now token tm s)) \<subseteq> holders t s"
proof -
  note row = holders_claim_row_other [OF assms]
  have rec: "holders t s2 \<subseteq> holders t s" if "reconcile_durable_decisions down (reclaim_expired_investigations cfg now s) = Inr s2" for s2
    using that holders_reconcile_rows holders_reclaim unfolding reconcile_durable_decisions_def by metis
  have "holders t (snd (claim_next_body cfg down now token tm s)) \<subseteq> holders t s"
  proof (cases "reconcile_durable_decisions down (reclaim_expired_investigations cfg now s)")
    case (Inr s2)
    have "holders t (snd (claim_next_body cfg down now token tm s)) \<subseteq> holders t s2"
      using Inr row by (simp add: claim_next_body_def split: option.split)
    with rec [OF Inr] show ?thesis by blast
  qed (simp add: claim_next_body_def)
  then show ?thesis unfolding claim_next_def by (rule holders_snd)
qed

lemma holders_same_jobs: "cp_jobs t = cp_jobs s \<Longrightarrow> holders token t \<subseteq> holders token s"
  by (simp add: holders_def)

lemma reclaim_deliveries_jobs: "cp_jobs (reclaim_expired_deliveries cfg now s) = cp_jobs s"
proof -
  have "cp_jobs (fold (reclaim_delivery_row cfg now) rows t) = cp_jobs t" for rows t
    by (induction rows arbitrary: t) (auto simp: reclaim_delivery_row_def Let_def)
  then show ?thesis by (simp add: reclaim_expired_deliveries_def)
qed

lemma delivery_calls_jobs:
  "cp_jobs (snd (claim_delivery cfg dies now token s)) = cp_jobs s" "cp_jobs (snd (mark_delivered dies i token now s)) = cp_jobs s"
  "cp_jobs (snd (renew_delivery cfg dies i token now s)) = cp_jobs s" "cp_jobs (snd (release_delivery dies i token s)) = cp_jobs s"
  "cp_jobs (snd (retry_delivery cfg dies i token name now s)) = cp_jobs s"
  by (auto simp: claim_delivery_def mark_delivered_def renew_delivery_def release_delivery_def retry_delivery_def transaction_def
      Let_def reclaim_deliveries_jobs split: option.splits prod.splits sum.splits if_splits)

lemma holders_worker_calls:
  "holders t (snd (renew_running cfg dies i token now s)) \<subseteq> holders t s"
  "holders t (snd (reserve_incident dies i token now s)) \<subseteq> holders t s"
  "holders t (snd (requeue_running dies i token s)) \<subseteq> holders t s"
  "holders t (snd (retry_running cfg dies i token name now s)) \<subseteq> holders t s"
proof -
  show "holders t (snd (renew_running cfg dies i token now s)) \<subseteq> holders t s"
    unfolding renew_running_def by (rule holders_snd) (auto simp: Let_def holders_update(3) split: option.splits)
  show "holders t (snd (reserve_incident dies i token now s)) \<subseteq> holders t s"
    unfolding reserve_incident_def by (rule holders_snd) (auto simp: Let_def holders_update(3) split: option.splits)
  show "holders t (snd (requeue_running dies i token s)) \<subseteq> holders t s"
    unfolding requeue_running_def by (rule holders_snd) (auto simp: Let_def holders_update(2) requeued_def split: option.splits)
  show "holders t (snd (retry_running cfg dies i token name now s)) \<subseteq> holders t s"
    unfolding retry_running_def
    by (rule holders_snd) (auto simp: Let_def holders_update(2) given_up_def requeued_def split: option.splits)
qed

lemma others_call_holders: "others_call L cfg t s s' \<Longrightarrow> holders t s' \<subseteq> holders t s"
proof (induction rule: others_call.induct)
  case (pause s dies i checkpoint_id token now)
  then show ?case using holders_mark_paused [of dies i checkpoint_id token now s _ _ t] by (metis Diff_subset order_refl prod.collapse)
next
  case (finish s snapshot dies i report_artifact token now)
  then show ?case using holders_finalize [of L snapshot dies i report_artifact token now s _ _ t]
    by (metis Diff_subset order_refl prod.collapse)
qed (simp_all add: holders_create holders_decide holders_claim_other holders_worker_calls holders_same_jobs delivery_calls_jobs)

lemma others_calls_holders: "(others_call L cfg t)\<^sup>*\<^sup>* s s' \<Longrightarrow> holders t s' \<subseteq> holders t s"
  by (induction rule: rtranclp_induct) (auto dest: others_call_holders)

section \<open>A claim that ran out\<close>

text \<open>The call raises and leaves the tables as they are.\<close>

definition refused :: "('s \<Rightarrow> (exn + 'r) \<times> 's) \<Rightarrow> 's \<Rightarrow> bool" where
  "refused call s \<longleftrightarrow> (case call s of (Inl _, s') \<Rightarrow> s' = s | (Inr _, _) \<Rightarrow> False)"

lemma refused_transaction: "body s = (Inl x, s) \<Longrightarrow> refused (transaction dies body) s"
  by (simp add: refused_def transaction_refused)

lemma not_held: "i \<notin> holders t s \<Longrightarrow> find_job i s = Some row \<Longrightarrow> rj_claim_token row \<noteq> Some t"
  using find_job_Some [of i s row] holdersI [of row s t] by auto

lemma refused_if:
  assumes "\<And>j. j \<in> set (cp_jobs s) \<Longrightarrow> rj_id j = i \<Longrightarrow> \<not> claim_current t now j"
  shows "refused (renew_running cfg dies i t now) s" "refused (reserve_incident dies i t now) s"
    "refused (mark_paused dies i c t now) s" "refused (finalize L snapshot dies i artifact t now) s"
proof -
  have row: "\<not> claim_current t now row" if "find_job i s = Some row" for row
    using assms find_job_Some [OF that] by blast
  show "refused (renew_running cfg dies i t now) s"
    unfolding renew_running_def using assms by (intro refused_transaction) (auto simp: list_ex_iff)
  show "refused (reserve_incident dies i t now) s"
    unfolding reserve_incident_def using row by (cases "find_job i s") (auto intro!: refused_transaction)
  show "refused (mark_paused dies i c t now) s"
    using row by (cases "find_job i s") (auto simp: mark_paused_def refused_def transaction_def)
  show "refused (finalize L snapshot dies i artifact t now) s"
    using row by (cases "find_job i s") (auto simp: finalize_def refused_def transaction_def)
qed

lemma refused_unheld:
  assumes "i \<notin> holders t s"
  shows "refused (requeue_running dies i t) s" "refused (retry_running cfg dies i t name now) s"
proof -
  show "refused (requeue_running dies i t) s"
    unfolding requeue_running_def using assms by (intro refused_transaction) (auto simp: list_ex_iff dest: holdersI)
  show "refused (retry_running cfg dies i t name now) s"
    unfolding retry_running_def using not_held [OF assms] by (cases "find_job i s") (auto intro!: refused_transaction)
qed

lemma reclaimed_not_held:
  assumes "find_job i s = Some row" "rj_status row = RUNNING" "lease_expired now (rj_claim_expires_at row)"
  shows "i \<notin> holders t (reclaim_expired_investigations cfg now s)"
proof -
  have one: "holders t (reclaim_row cfg now r u) = holders t u - {rj_id r}" for r u
    by (auto simp: reclaim_row_def Let_def holders_update(2) given_up_def requeued_def)
  have "holders t (fold (reclaim_row cfg now) rows u) = holders t u - rj_id ` set rows" for rows u
    by (induction rows arbitrary: u) (auto simp: one)
  moreover have "row \<in> set (cp_jobs s)" "rj_id row = i" using find_job_Some [OF assms(1)] by simp_all
  ultimately show ?thesis using assms by (auto simp: reclaim_expired_investigations_def)
qed

text \<open>A poll at the end of a lease takes the claim away.\<close>

lemma poll_takes_back:
  assumes row: "find_job i s = Some row" "rj_status row = RUNNING" "lease_expired now (rj_claim_expires_at row)"
    and poll: "claim_next cfg False down now t' d s = (Inr r, s1)" and other: "t' \<noteq> t"
  shows "i \<notin> holders t s1"
proof -
  have "claim_next_body cfg down now t' d s = (Inr r, s1)"
    using poll by (auto simp: claim_next_def transaction_def split: prod.splits sum.splits)
  then obtain s2 where s2: "reconcile_durable_decisions down (reclaim_expired_investigations cfg now s) = Inr s2"
    and res: "r = None \<and> s1 = s2 \<or> (\<exists>k. claim_row cfg down now t' d k s2 = (Inr r, s1))"
    by (rule claim_next_body_Inr)
  have "i \<notin> holders t s2"
    using s2 holders_reconcile_rows reclaimed_not_held [OF row] unfolding reconcile_durable_decisions_def by metis
  moreover have "holders t s1 \<subseteq> holders t s2"
    using res holders_claim_row_other [OF other] by (metis snd_conv subset_refl)
  ultimately show ?thesis by blast
qed

text \<open>
  C15: a worker that lost its lease is fenced off. From the moment the lease on a running job has
  run out, its holder can neither renew it, reserve the lab, pause nor finish the job, even before
  anybody noticed. The first poll after that moment takes the claim away for good: whatever is
  called afterwards by anybody, and whoever holds the job by then, every call under the old token
  at any clock reading raises and changes nothing, also handing the job back or scheduling its
  retry, which ask for the token only. The token is not handed out again, it is a fresh UUID.
\<close>

theorem expired_claim_is_fenced_off:
  assumes inv: "cp_ok L cfg s" and row: "find_job i s = Some row" "rj_status row = RUNNING"
    and token: "rj_claim_token row = Some t" "rj_claim_expires_at row = Some e" and late: "f_le e now"
  shows "refused (renew_running cfg dies i t now) s \<and> refused (reserve_incident dies i t now) s
    \<and> refused (mark_paused dies i c t now) s \<and> refused (finalize L snapshot dies i artifact t now) s
    \<and> (claim_next cfg False down now t' d s = (Inr r, s1) \<longrightarrow> t' \<noteq> t \<longrightarrow> (others_call L cfg t)\<^sup>*\<^sup>* s1 s2 \<longrightarrow>
        refused (renew_running cfg dies i t now') s2 \<and> refused (reserve_incident dies i t now') s2
        \<and> refused (mark_paused dies i c t now') s2 \<and> refused (finalize L snapshot dies i artifact t now') s2
        \<and> refused (requeue_running dies i t) s2 \<and> refused (retry_running cfg dies i t name now') s2)"
proof -
  have "\<not> claim_current t now j" if "j \<in> set (cp_jobs s)" "rj_id j = i" for j
    using same_id [of "cp_jobs s" j row] that find_job_Some [OF row(1)] inv token(2) late by (auto simp: cp_ok_def claim_current_def)
  note now = refused_if [of s i t now, OF this]
  have "refused (renew_running cfg dies i t now') s2 \<and> refused (reserve_incident dies i t now') s2
      \<and> refused (mark_paused dies i c t now') s2 \<and> refused (finalize L snapshot dies i artifact t now') s2
      \<and> refused (requeue_running dies i t) s2 \<and> refused (retry_running cfg dies i t name now') s2"
    if poll: "claim_next cfg False down now t' d s = (Inr r, s1)" "t' \<noteq> t" and later: "(others_call L cfg t)\<^sup>*\<^sup>* s1 s2"
  proof -
    have "lease_expired now (rj_claim_expires_at row)" using token(2) late by (simp add: lease_expired_def)
    then have gone: "i \<notin> holders t s2"
      using poll_takes_back [OF row _ poll] others_calls_holders [OF later] by blast
    have "\<not> claim_current t now' j" if "j \<in> set (cp_jobs s2)" "rj_id j = i" for j
      using gone holdersI [OF that(1)] that(2) by (auto simp: claim_current_def)
    from refused_if [of s2 i t now', OF this] refused_unheld [OF gone] show ?thesis by blast
  qed
  with now show ?thesis by blast
qed

text \<open>The lease of \<open>sample_running\<close> ends at 301: a poll at 400 takes the job back, a second one hands it to another token.\<close>

definition sample_reclaimed :: control_plane where
  "sample_reclaimed = snd (claim_next sample_cfg False False (Fin 400) ''u'' 0 sample_running)"

definition sample_taken_over :: control_plane where
  "sample_taken_over = snd (claim_next sample_cfg False False (Fin 4000) ''v'' 0 sample_reclaimed)"

lemma sample_floats: "fl 5 = Fin 5" "fl 405 = Fin 405" "fl 4300 = Fin 4300"
proof -
  have "repr (of_int n)" if "\<bar>n\<bar> < 2 ^ 53" for n
    using that unfolding repr_def by (intro exI [of _ n] exI [of _ 0]) simp
  from this [of 5] this [of 405] this [of 4300] have "repr 5" "repr 405" "repr 4300" by simp_all
  then show "fl 5 = Fin 5" "fl 405 = Fin 405" "fl 4300 = Fin 4300"
    using fl_repr [of 5] fl_repr [of 405] fl_repr [of 4300] by simp_all
qed

lemma sample_reclaimed_tables:
  "cp_jobs sample_reclaimed = [requeued 1 (Fin 405) (claimed ''t'' (Fin 301) sample_job)]" "cp_decisions sample_reclaimed = []"
  "cp_deliveries sample_reclaimed = []" "cp_ledger sample_reclaimed = []"
  "\<exists>r. claim_next sample_cfg False False (Fin 400) ''u'' 0 sample_running = (Inr r, sample_reclaimed)"
  by (simp_all add: sample_reclaimed_def claim_next_def claim_next_body_def transaction_def sample_running_tables
      reclaim_expired_investigations_def reconcile_durable_decisions_def reclaim_row_def lease_expired_def
      update_job_def event_def claimed_def requeued_def sample_job_def sample_cfg_def retry_delay_def sample_floats Let_def)

lemma sample_taken_over_tables:
  "cp_jobs sample_taken_over = [claimed ''v'' (Fin 4300) (requeued 1 (Fin 405) (claimed ''t'' (Fin 301) sample_job))]"
  by (simp add: sample_taken_over_def claim_next_def claim_next_body_def transaction_def sample_reclaimed_tables
      reclaim_expired_investigations_def reconcile_durable_decisions_def claim_row_def find_decision_def
      update_job_def event_def claimed_def requeued_def sample_job_def sample_cfg_def sample_floats Let_def)

theorem expired_claim_is_fenced_off_witness:
  "map rj_claim_token (cp_jobs sample_taken_over) = [Some ''v'']
    \<and> refused (finalize sample_libs (\<lambda>_ _. Inr ''ok'') False ''j'' ''j/report.md'' ''t'' (Fin 302)) sample_running
    \<and> refused (mark_paused False ''j'' ''c'' ''t'' (Fin 4001)) sample_taken_over
    \<and> refused (requeue_running False ''j'' ''t'') sample_taken_over"
proof -
  obtain r where poll: "claim_next sample_cfg False False (Fin 400) ''u'' 0 sample_running = (Inr r, sample_reclaimed)"
    using sample_reclaimed_tables(5) by blast
  have "others_call sample_libs sample_cfg ''t'' sample_reclaimed sample_taken_over"
    unfolding sample_taken_over_def by (rule others_call.claim) simp
  then have later: "(others_call sample_libs sample_cfg ''t'')\<^sup>*\<^sup>* sample_reclaimed sample_taken_over" ..
  have row: "find_job ''j'' sample_running = Some (claimed ''t'' (Fin 301) sample_job)"
    "rj_status (claimed ''t'' (Fin 301) sample_job) = RUNNING" "rj_claim_token (claimed ''t'' (Fin 301) sample_job) = Some ''t''"
    "rj_claim_expires_at (claimed ''t'' (Fin 301) sample_job) = Some (Fin 301)"
    using sample_current(1) by (simp_all add: claimed_def)
  note fenced = expired_claim_is_fenced_off [OF sample_ok(1) [of sample_libs] row]
  have late: "f_le (Fin 301) (Fin 302)" "f_le (Fin 301) (Fin 400)" by simp_all
  have "refused (finalize sample_libs (\<lambda>_ _. Inr ''ok'') False ''j'' ''j/report.md'' ''t'' (Fin 302)) sample_running"
    using fenced [OF late(1)] by blast
  moreover have "refused (mark_paused False ''j'' ''c'' ''t'' (Fin 4001)) sample_taken_over
      \<and> refused (requeue_running False ''j'' ''t'') sample_taken_over"
    using fenced [OF late(2)] poll later by blast
  ultimately show ?thesis by (simp add: sample_taken_over_tables claimed_def)
qed

end
