(* ===== verification/WorkerProps.thy ===== *)
theory WorkerProps
  imports Workers ClaimProps
begin

text \<open>
  What the workers guarantee: a pass leaves no claim of its own behind, and a report is confirmed
  only when its hand-off file holds it.
\<close>

section \<open>A pass leaves no claim behind\<close>

text \<open>
  What the worker relies on: everything else touches the tables through the queue's own methods
  and does not claim under the token of this pass.
\<close>

definition tame :: "libs \<Rightarrow> cp_config \<Rightarrow> string \<Rightarrow> control_plane \<Rightarrow> control_plane \<Rightarrow> bool" where
  "tame L cfg token s s' \<longleftrightarrow> (cp_step L cfg)\<^sup>*\<^sup>* s s' \<and> holders token s' \<subseteq> holders token s"

definition tame_call :: "libs \<Rightarrow> cp_config \<Rightarrow> string \<Rightarrow> ('x hosted \<Rightarrow> 'r \<times> 'x hosted) \<Rightarrow> bool" where
  "tame_call L cfg token f \<longleftrightarrow> (\<forall>w. tame L cfg token (fst w) (fst (snd (f w))))"

definition tame_worker :: "libs \<Rightarrow> cp_config \<Rightarrow> 'x replay_worker \<Rightarrow> pass \<Rightarrow> bool" where
  "tame_worker L cfg W K \<longleftrightarrow> (let t = ps_token K in
     (\<forall>n s. tame L cfg t s (ps_others K n s)) \<and> (\<forall>c. tame_call L cfg t (rw_runner W c))
     \<and> (\<forall>h \<in> set_option (rw_reconcile W). tame_call L cfg t h)
     \<and> (\<forall>h \<in> set_option (rw_on_paused W) \<union> set_option (rw_on_finalized W) \<union> set_option (rw_on_failed W).
          \<forall>c. tame_call L cfg t (h c)))"

lemma tame_refl [simp]: "tame L cfg token s s"
  by (simp add: tame_def)

lemma tame_trans: "tame L cfg token a b \<Longrightarrow> tame L cfg token b c \<Longrightarrow> tame L cfg token a c"
  by (auto simp: tame_def)

lemma tame_ok: "tame L cfg token s s' \<Longrightarrow> cp_ok L cfg s \<Longrightarrow> cp_ok L cfg s'"
  unfolding tame_def using queue.inv_reachable by blast

lemma tame_callD: "tame_call L cfg token f \<Longrightarrow> f w = (r, w') \<Longrightarrow> tame L cfg token (fst w) (fst w')"
  unfolding tame_call_def by (metis snd_conv)

lemma tame_hook:
  assumes "hook h w = (r, w')" "\<forall>f \<in> set_option h. tame_call L cfg token f"
  shows "tame L cfg token (fst w) (fst w')"
proof (cases h)
  case (Some f)
  then show ?thesis using assms by (auto simp: hook_def intro: tame_callD)
qed (use assms(1) in \<open>simp add: hook_def\<close>)

lemma on_planeD: "on_plane K n op w = (r, w') \<Longrightarrow> op (ps_others K n (fst w)) = (r, fst w') \<and> snd w' = snd w"
  by (auto simp: on_plane_def split: prod.splits)

lemma tame_steps: "tame L cfg token s s' \<Longrightarrow> (cp_step L cfg)\<^sup>*\<^sup>* s s'" "tame L cfg token s s' \<Longrightarrow> holders token s' \<subseteq> holders token s"
  by (simp_all add: tame_def)

lemma then_do_cases:
  assumes "then_do m f = (r, w')"
  obtains (fail) e where "m = (Inl e, w')" "r = Inl e" | (ok) a w where "m = (Inr a, w)" "f a w = (r, w')"
  using assms by (auto simp: then_do_def split: prod.splits sum.splits)

text \<open>A call that gives the claim back when it succeeds, with the hook behind it.\<close>

definition gives_back :: "libs \<Rightarrow> cp_config \<Rightarrow> string \<Rightarrow> string \<Rightarrow> (control_plane \<Rightarrow> (exn + unit) \<times> control_plane) \<Rightarrow> bool" where
  "gives_back L cfg token i op \<longleftrightarrow> (\<forall>s r s'. op s = (r, s') \<longrightarrow> cp_step L cfg s s' \<and>
     ((\<exists>e. r = Inl e) \<and> holders token s' = holders token s \<or> r = Inr () \<and> holders token s' = holders token s - {i}))"

lemma gives_back_mark_paused: "gives_back L cfg token i (mark_paused dies i c tok now)"
  unfolding gives_back_def
  using holders_mark_paused cp_step.pause [of L cfg _ dies i c tok now] by (metis snd_conv)

lemma gives_back_finalize: "gives_back L cfg token i (finalize L snapshot dies i artifact tok now)"
  unfolding gives_back_def
  using holders_finalize cp_step.finish [of L cfg _ snapshot dies i artifact tok now] by (metis snd_conv)

text \<open>The claim of this pass is the only one under its token, and \<open>cp_ok\<close> holds.\<close>

definition claim_held :: "libs \<Rightarrow> cp_config \<Rightarrow> string \<Rightarrow> string set \<Rightarrow> 'x hosted \<Rightarrow> bool" where
  "claim_held L cfg token I w \<longleftrightarrow> cp_ok L cfg (fst w) \<and> holders token (fst w) \<subseteq> I"

lemma claim_held_tame: "tame L cfg token (fst w) (fst w') \<Longrightarrow> claim_held L cfg token I w \<Longrightarrow> claim_held L cfg token I w'"
  unfolding claim_held_def using tame_ok tame_steps(2) by blast

lemma claim_held_call:
  assumes others: "\<And>n s. tame L cfg token s (ps_others K n s)" and op: "gives_back L cfg token i op"
    and held: "claim_held L cfg token {i} w" and run: "on_plane K n op w = (r, w')"
  shows "claim_held L cfg token (case r of Inl _ \<Rightarrow> {i} | Inr _ \<Rightarrow> {}) w'"
proof -
  have o: "op (ps_others K n (fst w)) = (r, fst w')" using on_planeD [OF run] by simp
  have "claim_held L cfg token {i} (ps_others K n (fst w), snd w)"
    using claim_held_tame [of L cfg token w "(ps_others K n (fst w), snd w)"] others held by simp
  then have inv: "cp_ok L cfg (ps_others K n (fst w))" "holders token (ps_others K n (fst w)) \<subseteq> {i}"
    by (simp_all add: claim_held_def)
  from op o have s: "cp_step L cfg (ps_others K n (fst w)) (fst w')"
    "(\<exists>e. r = Inl e) \<and> holders token (fst w') = holders token (ps_others K n (fst w))
     \<or> r = Inr () \<and> holders token (fst w') = holders token (ps_others K n (fst w)) - {i}"
    unfolding gives_back_def by blast+
  from queue.inv_step [OF s(1) inv(1)] s(2) inv(2) show ?thesis by (auto simp: claim_held_def)
qed

lemma call_then_hook:
  assumes others: "\<And>n s. tame L cfg token s (ps_others K n s)" and op: "gives_back L cfg token i op"
    and hooks: "\<forall>f \<in> set_option h. tame_call L cfg token f" and held: "claim_held L cfg token {i} w"
    and run: "then_do (on_plane K n op w) (\<lambda>_. hook h) = (r, w')"
  shows "claim_held L cfg token (case r of Inl _ \<Rightarrow> {i} | Inr _ \<Rightarrow> {}) w'"
  using run
proof (cases rule: then_do_cases)
  case (fail e)
  then show ?thesis using claim_held_call [OF others op held fail(1)] by simp
next
  case (ok a w1)
  have "claim_held L cfg token {} w1" using claim_held_call [OF others op held ok(1)] by simp
  then have "claim_held L cfg token {} w'" using claim_held_tame [OF tame_hook [OF ok(2) hooks]] by blast
  then show ?thesis by (auto simp: claim_held_def split: sum.splits)
qed

lemma record_outcome_gives_back:
  assumes W: "tame_worker L cfg W K" and held: "claim_held L cfg (ps_token K) {wc_investigation_id claim} w"
    and run: "record_outcome L snapshot W K claim w = (r, w')"
  shows "claim_held L cfg (ps_token K) (case r of Inl _ \<Rightarrow> {wc_investigation_id claim} | Inr _ \<Rightarrow> {}) w'"
proof -
  let ?t = "ps_token K" and ?i = "wc_investigation_id claim"
  have others: "tame L cfg ?t s (ps_others K n s)" for n s using W by (simp add: tame_worker_def Let_def)
  have hooks: "\<forall>f \<in> set_option (map_option (\<lambda>f. f claim) (rw_on_paused W)). tame_call L cfg ?t f"
    "\<forall>f \<in> set_option (map_option (\<lambda>f. f claim) (rw_on_finalized W)). tame_call L cfg ?t f"
    "tame_call L cfg ?t (rw_runner W claim)"
    using W by (auto simp: tame_worker_def Let_def)
  from held have start: "claim_held L cfg ?t {?i} (ps_others K 1 (fst w), snd w)"
    using claim_held_tame [of L cfg ?t w "(ps_others K 1 (fst w), snd w)"] others by simp
  from run [unfolded record_outcome_def] show ?thesis
  proof (cases rule: then_do_cases)
    case (fail e)
    with claim_held_tame [OF tame_callD [OF hooks(3) fail(1)] start] show ?thesis by simp
  next
    case (ok outcome w2)
    have w2: "claim_held L cfg ?t {?i} w2" using claim_held_tame [OF tame_callD [OF hooks(3) ok(1)] start] .
    show ?thesis
    proof (cases "ps_heartbeat K")
      case (Some e)
      with ok(2) w2 show ?thesis by auto
    next
      case None
      with ok(2) show ?thesis
        using call_then_hook [OF others gives_back_mark_paused hooks(1) w2]
          call_then_hook [OF others gives_back_finalize hooks(2) w2]
        by (cases outcome) auto
    qed
  qed
qed

lemma retry_dies: "snd (retry_running cfg True i token name now s) = s"
  by (auto simp: retry_running_def transaction_def Let_def split: option.splits if_splits prod.splits)

lemma after_failure_gives_back:
  assumes W: "tame_worker L cfg W K" and token: "wc_claim_token claim = ps_token K"
    and held: "claim_held L cfg (ps_token K) {wc_investigation_id claim} w"
    and run: "after_failure cfg W K claim error w = (r, w')"
  shows "claim_held L cfg (ps_token K) (if ps_dies K 3 then {wc_investigation_id claim} else {}) w'"
proof -
  let ?t = "ps_token K" and ?i = "wc_investigation_id claim"
  let ?left = "if ps_dies K 3 then {?i} else {}"
  let ?op = "retry_running cfg (ps_dies K 3) ?i (wc_claim_token claim) (exn_name error) (ps_now K 3)"
  have others: "tame L cfg ?t s (ps_others K n s)" for n s using W by (simp add: tame_worker_def Let_def)
  have hooks: "\<forall>f \<in> set_option (if b then None else map_option (\<lambda>f. f claim) (rw_on_failed W)). tame_call L cfg ?t f" for b
    using W by (auto simp: tame_worker_def Let_def)
  have retried: "claim_held L cfg ?t ?left w1" if o: "on_plane K 3 ?op w = (x, w1)" for x w1
  proof -
    have "claim_held L cfg ?t {?i} (ps_others K 3 (fst w), snd w)"
      using claim_held_tame [of L cfg ?t w "(ps_others K 3 (fst w), snd w)"] others held by simp
    then have inv: "cp_ok L cfg (ps_others K 3 (fst w))" "holders ?t (ps_others K 3 (fst w)) \<subseteq> {?i}"
      by (simp_all add: claim_held_def)
    have call: "retry_running cfg (ps_dies K 3) ?i ?t (exn_name error) (ps_now K 3) (ps_others K 3 (fst w)) = (x, fst w1)"
      using on_planeD [OF o] token by simp
    have ok: "cp_ok L cfg (fst w1)"
      using queue.inv_step [OF cp_step.retry inv(1), of "ps_dies K 3" ?i ?t "exn_name error" "ps_now K 3"] call by simp
    show ?thesis
    proof (cases "ps_dies K 3")
      case True
      with call retry_dies have "fst w1 = ps_others K 3 (fst w)" by (metis snd_conv)
      with True inv show ?thesis by (simp add: claim_held_def)
    next
      case False
      with holders_retry [OF inv(1)] call inv(2) ok show ?thesis by (fastforce simp: claim_held_def)
    qed
  qed
  obtain x w1 where "then_do (on_plane K 3 ?op w)
      (\<lambda>retryable. hook (if retryable then None else map_option (\<lambda>f. f claim) (rw_on_failed W))) = (x, w1)" and w1: "w1 = w'"
    using run by (auto simp: after_failure_def split: prod.splits sum.splits)
  from this(1) have "claim_held L cfg ?t ?left w1"
  proof (cases rule: then_do_cases)
    case (ok b w2)
    then show ?thesis using claim_held_tame [OF tame_hook [OF ok(2) hooks]] retried by blast
  qed (use retried in blast)
  with w1 show ?thesis by simp
qed

lemma claim_held_mono: "claim_held L cfg token I w \<Longrightarrow> I \<subseteq> J \<Longrightarrow> claim_held L cfg token J w"
  by (auto simp: claim_held_def)

text \<open>A claim that succeeds holds its job under the pass's token, any other end of the call holds none.\<close>

lemma claim_call_holds:
  assumes W: "tame_worker L cfg W K" and t: "t = ps_token K"
    and claim: "on_plane K 0 (claim_next cfg (ps_dies K 0) (ps_down K) (ps_now K 0) t (ps_decided_at K)) w1 = (x, w2)"
    and w1: "claim_held L cfg t {} w1"
  shows "claim_held L cfg t (case x of Inr (Some c) \<Rightarrow> {wc_investigation_id c} | _ \<Rightarrow> {}) w2
      \<and> (\<forall>c. x = Inr (Some c) \<longrightarrow> wc_claim_token c = t)"
proof -
  let ?s = "ps_others K 0 (fst w1)"
  have others: "tame L cfg t s (ps_others K n s)" for n s using W t by (simp add: tame_worker_def Let_def)
  have c: "claim_next cfg (ps_dies K 0) (ps_down K) (ps_now K 0) t (ps_decided_at K) ?s = (x, fst w2)"
    using on_planeD [OF claim] by simp
  have "claim_held L cfg t {} (?s, snd w1)" using claim_held_tame [of L cfg t w1 "(?s, snd w1)"] others w1 by simp
  then have s: "cp_ok L cfg ?s" "holders t ?s = {}" by (auto simp: claim_held_def)
  have "cp_ok L cfg (fst w2)"
    using queue.inv_step [OF cp_step.claim s(1), of "ps_dies K 0" "ps_down K" "ps_now K 0" t "ps_decided_at K"] c by simp
  with holders_claim_next [OF c] s(2) show ?thesis by (auto simp: claim_held_def split: sum.splits option.splits)
qed

text \<open>
  C17: a pass of the replay worker gives its claim back. Whatever the runner does, fails with or
  is overtaken by, whichever hook, heartbeat or call of the queue raises and whatever other
  processes do to the tables in between: when the pass is over, returned or raised, the invariant
  of the tables holds and at most one job is held under its token. No job is, so that the queue
  can hand it out again at once, unless the transaction of \<open>retry_running\<close>, the last resort of a
  failed pass, itself fails to commit; then the one job claimed stays claimed until its lease ends.
\<close>

theorem pass_leaves_no_claim:
  assumes W: "tame_worker L cfg W K" and inv: "cp_ok L cfg (fst w)"
    and fresh: "\<forall>j \<in> set (cp_jobs (fst w)). rj_claim_token j \<noteq> Some (ps_token K)"
    and run: "replay_run_once L snapshot cfg W K w = (r, w')"
  shows "cp_ok L cfg (fst w')
    \<and> (\<exists>i. \<forall>j \<in> set (cp_jobs (fst w')). rj_claim_token j = Some (ps_token K) \<longrightarrow> ps_dies K 3 \<and> rj_id j = i)"
proof -
  let ?t = "ps_token K"
  have rec: "\<forall>f \<in> set_option (rw_reconcile W). tame_call L cfg ?t f" using W by (simp add: tame_worker_def Let_def)
  have held: "claim_held L cfg ?t {} w" using inv fresh by (auto simp: claim_held_def holders_def)
  have "\<exists>i. claim_held L cfg ?t (if ps_dies K 3 then {i} else {}) w'"
    using run [unfolded replay_run_once_def]
  proof (cases rule: then_do_cases)
    case (fail e)
    then show ?thesis using claim_held_tame [OF tame_hook [OF _ rec] held] claim_held_mono by blast
  next
    case (ok u w1)
    have w1: "claim_held L cfg ?t {} w1" using claim_held_tame [OF tame_hook [OF ok(1) rec] held] .
    from ok(2) show ?thesis
    proof (cases rule: then_do_cases)
      case (fail e)
      with claim_call_holds [OF W refl fail(1) w1] show ?thesis using claim_held_mono by fastforce
    next
      case (ok c w2)
      note c = claim_call_holds [OF W refl ok(1) w1]
      show ?thesis
      proof (cases c)
        case None
        with ok(2) c show ?thesis using claim_held_mono by fastforce
      next
        case (Some claim)
        obtain x w3 where x: "record_outcome L snapshot W K claim w2 = (x, w3)" by (cases "record_outcome L snapshot W K claim w2")
        have w3: "claim_held L cfg ?t (case x of Inl _ \<Rightarrow> {wc_investigation_id claim} | Inr _ \<Rightarrow> {}) w3"
          using record_outcome_gives_back [OF W _ x] c Some by simp
        show ?thesis
        proof (cases x)
          case (Inl e)
          with ok(2) Some x have "after_failure cfg W K claim e w3 = (r, w')" by simp
          from after_failure_gives_back [OF W _ _ this] w3 Inl c Some show ?thesis by auto
        next
          case (Inr y)
          with ok(2) Some x w3 show ?thesis using claim_held_mono by fastforce
        qed
      qed
    qed
  qed
  then obtain i where "claim_held L cfg ?t (if ps_dies K 3 then {i} else {}) w'" ..
  then have "cp_ok L cfg (fst w')"
    "\<forall>j \<in> set (cp_jobs (fst w')). rj_claim_token j = Some ?t \<longrightarrow> rj_id j \<in> (if ps_dies K 3 then {i} else {})"
    using holdersI [of _ "fst w'" ?t] unfolding claim_held_def by blast+
  then show ?thesis by (auto split: if_splits)
qed

definition sample_pass :: pass where
  "sample_pass = \<lparr> ps_now = (\<lambda>n. Fin (of_nat n)), ps_dies = (\<lambda>_. False), ps_others = (\<lambda>_ s. s), ps_token = ''t'',
     ps_decided_at = 0, ps_down = False, ps_heartbeat = None \<rparr>"

definition failing_worker :: "unit replay_worker" where
  "failing_worker = \<lparr> rw_runner = (\<lambda>_ w. (Inl ValueError, w)), rw_reconcile = None, rw_on_paused = None,
     rw_on_finalized = None, rw_on_failed = None \<rparr>"

theorem pass_leaves_no_claim_witness:
  "list_all (\<lambda>j. rj_claim_token j \<noteq> Some ''t'')
     (cp_jobs (fst (snd (replay_run_once sample_libs (\<lambda>_ _. Inr ''ok'') sample_cfg failing_worker sample_pass (sample_queued, ())))))"
proof -
  have W: "tame_worker sample_libs sample_cfg failing_worker sample_pass" and alive: "\<not> ps_dies sample_pass 3"
    by (simp_all add: tame_worker_def failing_worker_def sample_pass_def tame_call_def)
  have "cp_step sample_libs sample_cfg (empty_plane []) sample_queued" unfolding sample_queued_def by (rule cp_step.create)
  then have inv: "cp_ok sample_libs sample_cfg sample_queued" using queue.inv_step empty_plane_ok [OF sample_start] by blast
  have fresh: "\<forall>j \<in> set (cp_jobs sample_queued). rj_claim_token j \<noteq> Some (ps_token sample_pass)"
    by (simp add: sample_queued_tables sample_job_def)
  from pass_leaves_no_claim [OF W, of "(sample_queued, ())" "\<lambda>_ _. Inr ''ok''", OF _ _ surjective_pairing] inv fresh alive
  show ?thesis by (simp add: sample_pass_def list_all_iff)
qed

end
