(* ===== verification/DeliveryProps.thy ===== *)
theory DeliveryProps
  imports WorkerProps
begin

text \<open>
  Delivery of finished reports, from the queue through the delivery worker to the hand-off
  directory: a delivery is confirmed only when its file is there, and a repeated delivery finds
  the very bytes it would write.
\<close>

section \<open>Confirmed deliveries\<close>

definition sent :: "control_plane \<Rightarrow> string set" where
  "sent s = dl_job_id ` {d \<in> set (cp_deliveries s). dl_status d = SENT}"

lemma sent_cong: "cp_deliveries s = cp_deliveries s' \<Longrightarrow> sent s = sent s'"
  by (simp add: sent_def)

lemma sent_event [simp]: "sent (event i name flds s) = sent s"
  by (rule sent_cong) simp

lemma sent_ledger [simp]: "sent (s\<lparr>cp_ledger := rows\<rparr>) = sent s"
  by (rule sent_cong) simp

lemma sent_update:
  assumes id: "\<And>d. dl_job_id (f d) = dl_job_id d"
  shows "sent (update_delivery i f s) \<subseteq> insert i (sent s)"
    and "(\<And>d. dl_status (f d) \<noteq> SENT) \<Longrightarrow> sent (update_delivery i f s) \<subseteq> sent s"
proof -
  have mem: "x \<in> sent (update_delivery i f s) \<longleftrightarrow>
      (\<exists>y \<in> set (cp_deliveries s). x = dl_job_id y \<and> dl_status (if dl_job_id y = i then f y else y) = SENT)" for x
  proof -
    have idg: "dl_job_id (if dl_job_id y = i then f y else y) = dl_job_id y" for y using id by simp
    have "x \<in> sent (update_delivery i f s) \<longleftrightarrow> (\<exists>y \<in> set (cp_deliveries s). x = dl_job_id (if dl_job_id y = i then f y else y)
        \<and> dl_status (if dl_job_id y = i then f y else y) = SENT)"
      unfolding sent_def image_iff mem_Collect_eq in_update_delivery by blast
    then show ?thesis unfolding idg .
  qed
  show "sent (update_delivery i f s) \<subseteq> insert i (sent s)"
    unfolding subset_iff mem by (auto simp: sent_def split: if_splits)
  show "sent (update_delivery i f s) \<subseteq> sent s" if "\<And>d. dl_status (f d) \<noteq> SENT"
    unfolding subset_iff mem using that by (auto simp: sent_def split: if_splits)
qed

lemma sent_transaction:
  assumes "transaction dies body s = (r, s')"
  shows "(\<exists>e. r = Inl e) \<and> sent s' = sent s \<and> cp_jobs s' = cp_jobs s \<or> (\<exists>x. r = Inr x) \<and> body s = (r, s')"
  using assms by (auto simp: transaction_def split: prod.splits sum.splits if_splits)

lemma sent_back: "sent (update_delivery i (delivery_given_up a reason) s) \<subseteq> sent s"
  "sent (update_delivery i (delivery_requeued a retry_at) s) \<subseteq> sent s"
  by (intro sent_update(2); simp add: delivery_given_up_def delivery_requeued_def)+

lemma sent_reclaim: "sent (reclaim_expired_deliveries cfg now s) \<subseteq> sent s"
proof -
  have one: "sent (reclaim_delivery_row cfg now row t) \<subseteq> sent t" for row t
    by (auto simp: reclaim_delivery_row_def Let_def dest!: subsetD [OF sent_back(1)] subsetD [OF sent_back(2)])
  have "sent (fold (reclaim_delivery_row cfg now) rows t) \<subseteq> sent t" for rows t
    using one by (induction rows arbitrary: t) (auto, blast)
  then show ?thesis by (simp add: reclaim_expired_deliveries_def)
qed

lemma sent_retry: "retry_delivery cfg dies i token name now s = (r, s') \<Longrightarrow> sent s' \<subseteq> sent s"
  by (auto simp: retry_delivery_def transaction_def Let_def
      split: option.splits if_splits prod.splits sum.splits dest!: subsetD [OF sent_back(1)] subsetD [OF sent_back(2)])

lemma sent_mark: "mark_delivered dies i token now s = (r, s') \<Longrightarrow> sent s' \<subseteq> (if r = Inr () then insert i (sent s) else sent s)"
  using sent_update(1) [of "\<lambda>d. d\<lparr>dl_status := SENT, dl_claim_token := None, dl_claim_expires_at := None\<rparr>" i s]
  by (auto simp: mark_delivered_def transaction_def split: if_splits prod.splits sum.splits)

section \<open>What a delivery carries\<close>

definition job_payload :: "libs \<Rightarrow> replay_job \<Rightarrow> string option" where
  "job_payload L j = (case (rj_report_content j, rj_report_sha256 j) of
     (Some content, Some digest) \<Rightarrow> Some (json_dumps (float_repr L) '', '' '': '' (JObj
       [(''destination_email'', JStr (rj_owner j)), (''report_content'', JStr content), (''report_sha256'', JStr digest)]))
   | _ \<Rightarrow> None)"

lemma claim_delivery_Some:
  assumes inv: "cp_ok L cfg s" and run: "claim_delivery cfg dies now token s = (Inr (Some c), s')"
  shows "sent s' \<subseteq> sent s" and "\<exists>j \<in> set (cp_jobs s'). rj_status j = COMPLETED \<and> rj_id j = dv_investigation_id c
    \<and> rj_id j = dv_delivery_id c \<and> job_payload L j = Some (delivery_payload L c)"
proof -
  let ?s = "reclaim_expired_deliveries cfg now s"
  let ?f = "\<lambda>d. d\<lparr>dl_status := SENDING, dl_claim_token := Some token,
      dl_claim_expires_at := Some (f_add now (cc_claim_lease_seconds cfg))\<rparr>"
  obtain j d where row: "first_row (\<lambda>a b. f_lt (dl_available_at (snd a)) (dl_available_at (snd b))) (pending_deliveries now ?s) = Some (j, d)"
    and s': "s' = update_delivery (rj_id j) ?f ?s"
    and c: "rj_report_content j = Some (dv_report_content c)" "rj_report_sha256 j = Some (dv_report_sha256 c)"
      "dv_investigation_id c = rj_id j" "dv_delivery_id c = rj_id j" "dv_destination_email c = dl_destination_email d"
    using run by (auto simp: claim_delivery_def transaction_def Let_def split: option.splits prod.splits sum.splits if_splits)
  show "sent s' \<subseteq> sent s"
  proof -
    have "sent (update_delivery (rj_id j) ?f ?s) \<subseteq> sent ?s" by (rule sent_update(2)) simp_all
    then show ?thesis unfolding s' using sent_reclaim by (rule subset_trans)
  qed
  have jd: "j \<in> set (cp_jobs ?s)" "d \<in> set (cp_deliveries ?s)" "dl_job_id d = rj_id j"
    using pending_deliveries_in [OF first_row_in [OF row]] by simp_all
  have inv': "cp_ok L cfg ?s" using reclaim_expired_deliveries_moves inv by (auto simp: moves_def)
  then have "delivery_ok cfg (cp_jobs ?s) d" using jd(2) by (simp add: cp_ok_def)
  then obtain k where "k \<in> set (cp_jobs ?s)" "rj_id k = rj_id j" "rj_status k = COMPLETED" "rj_owner k = dl_destination_email d"
    using jd(3) by (auto simp: delivery_ok_def)
  moreover from this have "k = j" using same_id inv' jd(1) unfolding cp_ok_def by blast
  ultimately show "\<exists>j \<in> set (cp_jobs s'). rj_status j = COMPLETED \<and> rj_id j = dv_investigation_id c
    \<and> rj_id j = dv_delivery_id c \<and> job_payload L j = Some (delivery_payload L c)"
    using c jd(1) unfolding s' by (intro bexI [of _ j]) (auto simp: job_payload_def delivery_payload_def)
qed

lemma claim_delivery_other: "claim_delivery cfg dies now token s = (r, s') \<Longrightarrow> (\<And>c. r \<noteq> Inr (Some c)) \<Longrightarrow> sent s' \<subseteq> sent s"
  using sent_reclaim [of cfg now s]
  by (auto simp: claim_delivery_def transaction_def Let_def split: option.splits prod.splits sum.splits if_splits)

section \<open>The hand-off directory\<close>

definition handed_off :: "libs \<Rightarrow> control_plane \<Rightarrow> handoffs \<Rightarrow> bool" where
  "handed_off L s files \<longleftrightarrow>
     (\<forall>name p. files name = Some p \<longrightarrow> (\<exists>j \<in> set (cp_jobs s). rj_status j = COMPLETED
        \<and> name = delivery_target (rj_id j) \<and> job_payload L j = Some p))
     \<and> (\<forall>i \<in> sent s. delivery_target i \<in> dom files)"

definition handoff_ok :: "libs \<Rightarrow> cp_config \<Rightarrow> handoffs hosted \<Rightarrow> bool" where
  "handoff_ok L cfg w \<longleftrightarrow> cp_ok L cfg (fst w) \<and> handed_off L (fst w) (snd w)"

text \<open>A history of the queue that confirms no delivery.\<close>

definition quiet :: "libs \<Rightarrow> cp_config \<Rightarrow> control_plane \<Rightarrow> control_plane \<Rightarrow> bool" where
  "quiet L cfg s s' \<longleftrightarrow> (cp_step L cfg)\<^sup>*\<^sup>* s s' \<and> sent s' \<subseteq> sent s"

text \<open>Only the delivery worker confirms deliveries; everything else may happen at any time.\<close>

inductive delivery_step :: "libs \<Rightarrow> cp_config \<Rightarrow> handoffs hosted \<Rightarrow> handoffs hosted \<Rightarrow> bool" for L cfg where
  elsewhere: "quiet L cfg s s' \<Longrightarrow> delivery_step L cfg (s, files) (s', files)"
| deliver: "(\<And>n s. quiet L cfg s (ps_others K n s)) \<Longrightarrow> delivery_run_once L cfg fault K w = (r, w') \<Longrightarrow> delivery_step L cfg w w'"

lemma quiet_keeps: "quiet L cfg s s' \<Longrightarrow> handoff_ok L cfg (s, files) \<Longrightarrow> handoff_ok L cfg (s', files)"
proof -
  assume q: "quiet L cfg s s'" and h: "handoff_ok L cfg (s, files)"
  have steps: "(cp_step L cfg)\<^sup>*\<^sup>* s s'" "sent s' \<subseteq> sent s" using q by (simp_all add: quiet_def)
  have inv: "cp_ok L cfg s" "handed_off L s files" using h by (simp_all add: handoff_ok_def)
  have "cp_ok L cfg s'" using queue.inv_reachable [OF steps(1) inv(1)] .
  moreover have "handed_off L s' files"
    using inv(2) steps(2) finished_stays [OF inv(1) steps(1)] unfolding handed_off_def by blast
  ultimately show ?thesis by (simp add: handoff_ok_def)
qed

lemma delivery_target_eq [simp]: "delivery_target a = delivery_target b \<longleftrightarrow> a = b"
  by (simp add: delivery_target_def)

lemma handed_off_same:
  assumes "cp_ok L cfg s" "handed_off L s files" "j \<in> set (cp_jobs s)" "job_payload L j = Some p"
    and "files (delivery_target (rj_id j)) = Some q"
  shows "q = p"
proof -
  from assms(2,5) obtain k where k: "k \<in> set (cp_jobs s)" "rj_id k = rj_id j" "job_payload L k = Some q"
    by (fastforce simp: handed_off_def)
  have "k = j" using same_id k(1,2) assms(1,3) unfolding cp_ok_def by blast
  with k(3) assms(4) show ?thesis by simp
qed

lemma send_report_keeps:
  assumes h: "handoff_ok L cfg (s, files)" and j: "j \<in> set (cp_jobs s)" "rj_status j = COMPLETED" "rj_id j = dv_delivery_id c"
    "job_payload L j = Some (delivery_payload L c)"
    and run: "send_report L fault c files = (r, files')"
  shows "handoff_ok L cfg (s, files') \<and> (r = Inr () \<longrightarrow> files' (delivery_target (dv_delivery_id c)) = Some (delivery_payload L c))
    \<and> (fault = No_fault \<longrightarrow> r = Inr ())"
proof -
  let ?t = "delivery_target (dv_delivery_id c)"
  have inv: "cp_ok L cfg s" "handed_off L s files" using h by (simp_all add: handoff_ok_def)
  have same: "q = delivery_payload L c" if "files ?t = Some q" for q
    using handed_off_same [OF inv j(1,4)] that j(3) by simp
  have "handed_off L s (files(?t \<mapsto> delivery_payload L c))"
    using inv(2) j unfolding handed_off_def by auto
  then have new: "handoff_ok L cfg (s, files(?t \<mapsto> delivery_payload L c))" using inv(1) by (simp add: handoff_ok_def)
  show ?thesis
    using run new h same
    by (cases fault; cases "files ?t") (auto simp: send_report_def Let_def)
qed

lemma cp_step_quiet: "cp_step L cfg s s' \<Longrightarrow> sent s' \<subseteq> sent s \<Longrightarrow> quiet L cfg s s'"
  by (simp add: quiet_def)

lemma quiet_call:
  assumes "\<And>n s. quiet L cfg s (ps_others K n s)" "handoff_ok L cfg w" "on_plane K n op w = (r, w')"
    and "\<And>s x s'. cp_ok L cfg s \<Longrightarrow> op s = (x, s') \<Longrightarrow> quiet L cfg s s'"
  shows "handoff_ok L cfg w'"
proof -
  have o: "op (ps_others K n (fst w)) = (r, fst w')" "snd w' = snd w" using on_planeD [OF assms(3)] by simp_all
  have "handoff_ok L cfg (ps_others K n (fst w), snd w)" using quiet_keeps assms(1,2) by (metis prod.collapse)
  moreover from this have "quiet L cfg (ps_others K n (fst w)) (fst w')" using assms(4) o(1) by (auto simp: handoff_ok_def)
  ultimately show ?thesis using quiet_keeps o(2) by (metis prod.collapse)
qed

lemma mark_keeps:
  assumes others: "\<And>n s. quiet L cfg s (ps_others K n s)" and h: "handoff_ok L cfg w"
    and there: "delivery_target i \<in> dom (snd w)"
    and run: "on_plane K n (mark_delivered dies i token now) w = (r, w')"
  shows "handoff_ok L cfg w'"
proof -
  let ?s = "ps_others K n (fst w)"
  have o: "mark_delivered dies i token now ?s = (r, fst w')" "snd w' = snd w" using on_planeD [OF run] by simp_all
  have h1: "handoff_ok L cfg (?s, snd w)" using quiet_keeps others h by (metis prod.collapse)
  then have inv: "cp_ok L cfg ?s" "handed_off L ?s (snd w)" by (simp_all add: handoff_ok_def)
  have step: "cp_step L cfg ?s (fst w')" using cp_step.sent [of L cfg ?s dies i token now] o(1) by simp
  have ok: "cp_ok L cfg (fst w')" using queue.inv_step [OF step inv(1)] .
  have "sent (fst w') \<subseteq> insert i (sent ?s)" using sent_mark [OF o(1)] by (auto split: if_splits)
  moreover have "k \<in> set (cp_jobs (fst w'))" if "k \<in> set (cp_jobs ?s)" "rj_status k = COMPLETED" for k
    using finished_stays [OF inv(1) r_into_rtranclp [of "cp_step L cfg", OF step] that] .
  ultimately have "handed_off L (fst w') (snd w)"
    using inv(2) there unfolding handed_off_def by blast
  with ok o(2) show ?thesis by (simp add: handoff_ok_def)
qed

lemma claim_delivery_keeps:
  assumes others: "\<And>n s. quiet L cfg s (ps_others K n s)" and h: "handoff_ok L cfg w"
    and run: "on_plane K n (claim_delivery cfg dies now token) w = (r, w')"
  shows "handoff_ok L cfg w'"
    and "\<forall>c. r = Inr (Some c) \<longrightarrow> (\<exists>j \<in> set (cp_jobs (fst w')). rj_status j = COMPLETED \<and> rj_id j = dv_investigation_id c
      \<and> rj_id j = dv_delivery_id c \<and> job_payload L j = Some (delivery_payload L c))"
proof -
  have q: "quiet L cfg s s'" if "cp_ok L cfg s" "claim_delivery cfg dies now token s = (x, s')" for s x s'
  proof (rule cp_step_quiet)
    show "cp_step L cfg s s'" using cp_step.take [of L cfg s dies now token] that(2) by simp
    show "sent s' \<subseteq> sent s"
      using claim_delivery_Some(1) [OF that(1)] claim_delivery_other [OF that(2)] that(2) by blast
  qed
  show "handoff_ok L cfg w'" using quiet_call [OF others h run q] .
  have "handoff_ok L cfg (ps_others K n (fst w), snd w)" using quiet_keeps others h by (metis prod.collapse)
  then have "cp_ok L cfg (ps_others K n (fst w))" by (simp add: handoff_ok_def)
  then show "\<forall>c. r = Inr (Some c) \<longrightarrow> (\<exists>j \<in> set (cp_jobs (fst w')). rj_status j = COMPLETED \<and> rj_id j = dv_investigation_id c
      \<and> rj_id j = dv_delivery_id c \<and> job_payload L j = Some (delivery_payload L c))"
    using claim_delivery_Some(2) on_planeD [OF run] by blast
qed

lemma delivery_run_once_keeps:
  assumes others: "\<And>n s. quiet L cfg s (ps_others K n s)" and h: "handoff_ok L cfg w"
    and run: "delivery_run_once L cfg fault K w = (r, w')"
  shows "handoff_ok L cfg w'"
  using run [unfolded delivery_run_once_def]
proof (cases rule: then_do_cases)
  case (fail e)
  then show ?thesis using claim_delivery_keeps(1) [OF others h] by blast
next
  case (ok co w1)
  note w1 = claim_delivery_keeps [OF others h ok(1)]
  show ?thesis
  proof (cases co)
    case None
    with ok(2) w1(1) show ?thesis by simp
  next
    case (Some c)
    with w1(2) obtain j where j: "j \<in> set (cp_jobs (fst w1))" "rj_status j = COMPLETED" "rj_id j = dv_investigation_id c"
      "rj_id j = dv_delivery_id c" "job_payload L j = Some (delivery_payload L c)" by blast
    obtain x files where x: "send_report L fault c (snd w1) = (x, files)" by (cases "send_report L fault c (snd w1)")
    let ?w2 = "(ps_others K 1 (fst w1), files)"
    have sent: "handoff_ok L cfg (fst w1, files)" "x = Inr () \<longrightarrow> files (delivery_target (dv_delivery_id c)) = Some (delivery_payload L c)"
      using send_report_keeps [OF _ j(1,2,4,5) x] w1(1) by simp_all
    have w2: "handoff_ok L cfg ?w2" using quiet_keeps [OF others sent(1)] .
    let ?mark = "\<lambda>w. case ps_heartbeat K of Some e \<Rightarrow> (Inl e, w) | None \<Rightarrow>
              on_plane K 2 (mark_delivered (ps_dies K 2) (dv_investigation_id c) (dv_claim_token c) (ps_now K 2)) w"
    let ?attempt = "then_do (let (r, files) = send_report L fault c (snd w1) in (r, (ps_others K 1 (fst w1), files))) (\<lambda>_. ?mark)"
    obtain y w3 where y: "?attempt = (y, w3)" by (cases ?attempt)
    have w3: "handoff_ok L cfg w3"
      using y
    proof (cases rule: then_do_cases)
      case (fail e)
      with x w2 show ?thesis by simp
    next
      case (ok a w2')
      then have "w2' = ?w2" "x = Inr a" using x by simp_all
      with ok(2) w2 sent(2) j(3,4) show ?thesis
        by (auto split: option.splits intro: mark_keeps [OF others, of ?w2 "dv_investigation_id c"])
    qed
    have retry: "handoff_ok L cfg w4"
      if "on_plane K 3 (retry_delivery cfg (ps_dies K 3) (dv_investigation_id c) (dv_claim_token c) nm (ps_now K 3)) w3 = (z, w4)" for nm z w4
      using others w3 that
    proof (rule quiet_call)
      fix s u s'
      assume o: "retry_delivery cfg (ps_dies K 3) (dv_investigation_id c) (dv_claim_token c) nm (ps_now K 3) s = (u, s')"
      show "quiet L cfg s s'"
        using cp_step.retry_sending [of L cfg s "ps_dies K 3" "dv_investigation_id c" "dv_claim_token c" nm "ps_now K 3"] sent_retry [OF o] o
        by (intro cp_step_quiet) simp_all
    qed
    from ok(2) Some y w3 retry show ?thesis
      by (auto split: sum.splits prod.splits)
  qed
qed

interpretation handoff: invariant_system "delivery_step L cfg" "handoff_ok L cfg"
proof unfold_locales
  show "handoff_ok L cfg w'" if "delivery_step L cfg w w'" "handoff_ok L cfg w" for w w'
    using that by (induction rule: delivery_step.induct) (auto intro: quiet_keeps delivery_run_once_keeps)
qed

text \<open>
  C18: a report is confirmed only when it was handed off, and a repeated delivery is harmless. Over
  any history of the queue and of delivery passes, with failures before and after the link of
  the hand-off file, lost heartbeats and deaths in any call: every delivery marked SENT has its
  file; every file of the directory is addressed to the owner of a completed job and holds that
  job's stored report and digest; and whatever delivery is claimed next, sending it succeeds,
  whether its file is new or left by an earlier attempt.
\<close>

theorem confirmed_reports_are_handed_off:
  assumes "cp_ok L cfg s" "sent s = {}" "(delivery_step L cfg)\<^sup>*\<^sup>* (s, Map.empty) (s', files)"
  shows "(\<forall>d \<in> set (cp_deliveries s'). dl_status d = SENT \<longrightarrow> delivery_target (dl_job_id d) \<in> dom files)
    \<and> (\<forall>name p. files name = Some p \<longrightarrow> (\<exists>j \<in> set (cp_jobs s'). rj_status j = COMPLETED
         \<and> name = delivery_target (rj_id j) \<and> job_payload L j = Some p))
    \<and> (\<forall>dies now token c s''. claim_delivery cfg dies now token s' = (Inr (Some c), s'') \<longrightarrow>
         fst (send_report L No_fault c files) = Inr ())"
proof -
  have "handoff_ok L cfg (s, Map.empty)" using assms(1,2) by (simp add: handoff_ok_def handed_off_def)
  then have h: "handoff_ok L cfg (s', files)" using handoff.inv_reachable [OF assms(3)] by blast
  then have inv: "cp_ok L cfg s'" "handed_off L s' files" by (simp_all add: handoff_ok_def)
  have "fst (send_report L No_fault c files) = Inr ()"
    if c: "claim_delivery cfg dies now token s' = (Inr (Some c), s'')" for dies now token c s''
  proof -
    have q: "quiet L cfg s' s''"
      using cp_step.take [of L cfg s' dies now token] claim_delivery_Some(1) [OF inv(1) c] c by (intro cp_step_quiet) simp_all
    obtain j where "j \<in> set (cp_jobs s'')" "rj_status j = COMPLETED" "rj_id j = dv_delivery_id c" "job_payload L j = Some (delivery_payload L c)"
      using claim_delivery_Some(2) [OF inv(1) c] by blast
    from send_report_keeps [OF quiet_keeps [OF q h] this, of No_fault] show ?thesis
      by (cases "send_report L No_fault c files") simp
  qed
  with inv(2) show ?thesis by (auto simp: handed_off_def sent_def)
qed

text \<open>The sample job, delivered: its file is there and its delivery is confirmed.\<close>

definition sample_delivered :: "handoffs hosted" where
  "sample_delivered = snd (delivery_run_once sample_libs sample_cfg No_fault sample_pass (sample_finished, Map.empty))"

lemma sample_finished_deliveries: "cp_deliveries sample_finished = [\<lparr> dl_job_id = ''j'', dl_destination_email = ''o'',
    dl_status = PENDING, dl_claim_token = None, dl_claim_expires_at = None, dl_attempt_count = 0,
    dl_available_at = Fin 0, dl_failure_reason = None \<rparr>]"
  by (simp add: sample_finished_def finalize_def transaction_def sample_current sample_running_tables sample_reference
      claim_current_def update_job_def event_def claimed_def sample_job_def sample_libs_def py_strip_def is_space_def)

lemma sample_sending_lease: "fl 300 = Fin 300"
proof -
  have "repr 300" unfolding repr_def by (intro exI [of _ 300] exI [of _ 0]) simp
  then show ?thesis using fl_repr [of 300] by simp
qed

lemma sample_delivered_state: "map dl_status (cp_deliveries (fst sample_delivered)) = [SENT]"
  "map dl_job_id (cp_deliveries (fst sample_delivered)) = [''j'']"
  by (simp_all add: sample_delivered_def delivery_run_once_def then_do_def on_plane_def sample_pass_def claim_delivery_def
      transaction_def reclaim_expired_deliveries_def pending_deliveries_def sample_finished_deliveries sample_finished_tables
      claimed_def sample_job_def Let_def update_delivery_def sample_cfg_def send_report_def mark_delivered_def
      delivery_current_def event_def sample_sending_lease)

theorem confirmed_reports_are_handed_off_witness:
  "map dl_status (cp_deliveries (fst sample_delivered)) = [SENT] \<and> delivery_target ''j'' \<in> dom (snd sample_delivered)"
proof -
  have start: "sent sample_finished = {}" by (simp add: sent_def sample_finished_deliveries)
  have "delivery_step sample_libs sample_cfg (sample_finished, Map.empty) sample_delivered"
    unfolding sample_delivered_def
    by (rule delivery_step.deliver [where K = sample_pass and fault = No_fault, OF _ surjective_pairing])
      (simp add: sample_pass_def quiet_def)
  then have "(delivery_step sample_libs sample_cfg)\<^sup>*\<^sup>* (sample_finished, Map.empty) (fst sample_delivered, snd sample_delivered)" by simp
  from confirmed_reports_are_handed_off [OF sample_ok(2) start this] sample_delivered_state show ?thesis
    by (cases "cp_deliveries (fst sample_delivered)") auto
qed

end
