(* ===== verification/HttpApi.thy ===== *)
theory HttpApi
  imports ControlProps
begin

text \<open>
  The HTTP boundary of \<open>src/causalops/api.py\<close> with \<open>src/causalops/google_identity.py\<close>: who may
  call, what the routes do with the job queue and which status codes its errors become. Google's
  token validation is a parameter. A status code stands for the error response that carries it;
  an exception no route handles becomes a 500.
\<close>

section \<open>Identity\<close>

text \<open>
  \<open>str.casefold\<close> on the code points below 256: Latin letters fold to lower case and the sharp s
  to a double s. The micro sign is kept, its folding is not representable here.
\<close>

definition casefold_char :: "char \<Rightarrow> string" where
  "casefold_char c = (let n = of_char c :: nat in
     if (65 \<le> n \<and> n \<le> 90) \<or> (192 \<le> n \<and> n \<le> 222 \<and> n \<noteq> 215) then [char_of (n + 32)]
     else if n = 223 then ''ss'' else [c])"

definition casefold :: "string \<Rightarrow> string" where
  "casefold s = concat (map casefold_char s)"

text \<open>\<open>GoogleIdentityVerifier\<close>: its constructor and its check of the claims of a validated token.\<close>

definition google_client :: "string \<Rightarrow> exn + string" where
  "google_client client_id = (if py_strip client_id = [] then Inl ValueError else Inr (py_strip client_id))"

definition google_verify :: "(string \<Rightarrow> string \<Rightarrow> exn + json pydict) \<Rightarrow> string \<Rightarrow> string \<Rightarrow> exn + string" where
  "google_verify validator client_id bearer_token =
     (case validator bearer_token client_id of
        Inl _ \<Rightarrow> Inl ValueError
      | Inr claims \<Rightarrow>
        (case dict_get claims ''email'' of
           Some (JStr email) \<Rightarrow>
             if py_strip email = [] then Inl ValueError
             else if dict_get claims ''email_verified'' \<noteq> Some (JBool True) then Inl ValueError
             else Inr email
         | _ \<Rightarrow> Inl ValueError))"

section \<open>The routes\<close>

record app =
  ap_allowed_owners :: "string list"
  ap_verify :: "string \<Rightarrow> exn + string"

definition normalized_owners :: "app \<Rightarrow> string list" where
  "normalized_owners A = map (\<lambda>o'. casefold (py_strip o')) (filter (\<lambda>o'. py_strip o' \<noteq> []) (ap_allowed_owners A))"

text \<open>
  \<open>isinstance(error, ValueError)\<close>, for the exceptions of the model and the subclasses of the
  standard library a verifier can raise.
\<close>

definition is_value_error :: "exn \<Rightarrow> bool" where
  "is_value_error e \<longleftrightarrow> e \<in> {ValueError, ValidationError, OtherError ''UnicodeError'', OtherError ''UnicodeDecodeError'',
     OtherError ''UnicodeEncodeError'', OtherError ''UnicodeTranslateError'', OtherError ''JSONDecodeError''}"

text \<open>
  How \<open>owner(authorization)\<close> can end without an owner: it raises an \<open>HTTPException\<close> with a status,
  or an exception of the verifier that is no \<open>ValueError\<close> leaves it.
\<close>

datatype refusal = Http int | Unhandled exn

text \<open>\<open>owner(authorization)\<close>: 401 without a token that verifies, 403 for somebody else.\<close>

definition request_owner :: "app \<Rightarrow> string option \<Rightarrow> refusal + string" where
  "request_owner A authorization =
     (case authorization of None \<Rightarrow> Inl (Http 401) | Some h \<Rightarrow>
      if take 7 h \<noteq> ''Bearer '' then Inl (Http 401)
      else let token = py_strip (drop 7 h) in
        if token = [] then Inl (Http 401)
        else case ap_verify A token of
          Inl e \<Rightarrow> Inl (if is_value_error e then Http 401 else Unhandled e)
        | Inr email \<Rightarrow>
          let verified_owner = casefold (py_strip email) in
          if verified_owner = [] \<or> verified_owner \<notin> set (normalized_owners A) then Inl (Http 403) else Inr verified_owner)"

definition idempotency_key :: "string option \<Rightarrow> int + string" where
  "idempotency_key raw = (case raw of None \<Rightarrow> Inl 400 | Some k \<Rightarrow> if py_strip k = [] then Inl 400 else Inr (py_strip k))"

abbreviation PermissionError :: exn where
  "PermissionError \<equiv> OtherError ''PermissionError''"

text \<open>
  The \<open>except\<close> clauses: of the reading routes, and of those that also map conflicts. The create
  route has none.
\<close>

definition read_status :: "exn \<Rightarrow> int" where
  "read_status e = (if e = ControlPlaneNotFoundError \<or> e = PermissionError then 404 else 500)"

definition conflict_status :: "exn \<Rightarrow> int" where
  "conflict_status e = (if e = ControlPlaneNotFoundError \<or> e = PermissionError then 404
     else if e = ControlPlaneConflictError then 409 else 500)"

definition respond_with :: "(exn \<Rightarrow> int) \<Rightarrow> ('a \<Rightarrow> 'b) \<Rightarrow> (exn + 'a) \<times> control_plane \<Rightarrow> (int + 'b) \<times> control_plane" where
  "respond_with st f r = (case r of (Inl e, s) \<Rightarrow> (Inl (st e), s) | (Inr a, s) \<Rightarrow> (Inr (f a), s))"

datatype api_request =
    Create scenario_family "string option"
  | GetStatus string
  | GetEvents string
  | Decide string owner_decision
  | GetReport string

datatype api_body = View_body investigation_view | Events_body "replay_event list" | Report_body string

text \<open>What the environment adds to a request: a fresh id, the time of a decision, the ledger, and whether the process dies before its commit.\<close>

record ambient =
  am_new_id :: string
  am_time :: instant
  am_down :: bool
  am_dies :: bool

text \<open>The routes call \<open>owner\<close> inside their \<open>try\<close>, so that their clauses see its exceptions too.\<close>

definition refused_status :: "(exn \<Rightarrow> int) \<Rightarrow> refusal \<Rightarrow> int" where
  "refused_status st f = (case f of Http n \<Rightarrow> n | Unhandled e \<Rightarrow> st e)"

fun serve :: "libs \<Rightarrow> app \<Rightarrow> ambient \<Rightarrow> string option \<Rightarrow> api_request \<Rightarrow> control_plane \<Rightarrow> (int + api_body) \<times> control_plane" where
  "serve L A E authorization (Create family key) s =
     (case request_owner A authorization of Inl f \<Rightarrow> (Inl (refused_status (\<lambda>_. 500) f), s) | Inr o' \<Rightarrow>
      case idempotency_key key of Inl st \<Rightarrow> (Inl st, s) | Inr k \<Rightarrow>
      respond_with (\<lambda>_. 500) View_body (create_job (am_dies E) o' family k (am_new_id E) s))"
| "serve L A E authorization (GetStatus i) s =
     (case request_owner A authorization of Inl f \<Rightarrow> (Inl (refused_status read_status f), s) | Inr o' \<Rightarrow>
      respond_with read_status View_body (job_status o' i s, s))"
| "serve L A E authorization (GetEvents i) s =
     (case request_owner A authorization of Inl f \<Rightarrow> (Inl (refused_status read_status f), s) | Inr o' \<Rightarrow>
      respond_with read_status Events_body (job_events o' i s, s))"
| "serve L A E authorization (Decide i d) s =
     (case request_owner A authorization of Inl f \<Rightarrow> (Inl (refused_status conflict_status f), s) | Inr o' \<Rightarrow>
      respond_with conflict_status View_body (decide (am_dies E) (am_down E) o' i d (am_time E) s))"
| "serve L A E authorization (GetReport i) s =
     (case request_owner A authorization of Inl f \<Rightarrow> (Inl (refused_status conflict_status f), s) | Inr o' \<Rightarrow>
      respond_with conflict_status Report_body (job_report L o' i s, s))"

fun request_target :: "api_request \<Rightarrow> string option" where
  "request_target (Create _ _) = None"
| "request_target (GetStatus i) = Some i"
| "request_target (GetEvents i) = Some i"
| "request_target (Decide i _) = Some i"
| "request_target (GetReport i) = Some i"

section \<open>Properties\<close>

lemma request_owner_Inr:
  "request_owner A authorization = Inr o' \<longleftrightarrow> (\<exists>rest email. authorization = Some (''Bearer '' @ rest) \<and> py_strip rest \<noteq> []
     \<and> ap_verify A (py_strip rest) = Inr email \<and> o' = casefold (py_strip email) \<and> o' \<noteq> []
     \<and> o' \<in> set (normalized_owners A))"
proof -
  have "take 7 h = ''Bearer '' \<longleftrightarrow> h = ''Bearer '' @ drop 7 h" for h :: string
  proof
    assume "take 7 h = ''Bearer ''"
    then show "h = ''Bearer '' @ drop 7 h" by (metis append_take_drop_id)
  next
    assume "h = ''Bearer '' @ drop 7 h"
    then have "take 7 h = take 7 (''Bearer '' @ drop 7 h)" by (rule arg_cong)
    then show "take 7 h = ''Bearer ''" by simp
  qed
  then have "request_owner A (Some h) = Inr o' \<longleftrightarrow> h = ''Bearer '' @ drop 7 h \<and> py_strip (drop 7 h) \<noteq> [] \<and>
      (\<exists>email. ap_verify A (py_strip (drop 7 h)) = Inr email \<and> o' = casefold (py_strip email) \<and> o' \<noteq> [] \<and> o' \<in> set (normalized_owners A))" for h
    unfolding request_owner_def by (auto simp: Let_def split: if_splits sum.splits)
  moreover have "drop 7 (''Bearer '' @ rest) = rest" for rest by simp
  moreover have "request_owner A None \<noteq> Inr o'" by (simp add: request_owner_def)
  ultimately show ?thesis by (cases authorization) (blast, metis option.inject)
qed

text \<open>Why a request has no owner: no token, a token that does not verify, or another's address.\<close>

definition token_of :: "string option \<Rightarrow> string option" where
  "token_of authorization = (case authorization of None \<Rightarrow> None | Some h \<Rightarrow>
     if take 7 h = ''Bearer '' \<and> py_strip (drop 7 h) \<noteq> [] then Some (py_strip (drop 7 h)) else None)"

lemma request_owner_token:
  "request_owner A authorization = (case token_of authorization of None \<Rightarrow> Inl (Http 401) | Some token \<Rightarrow>
     (case ap_verify A token of Inl e \<Rightarrow> Inl (if is_value_error e then Http 401 else Unhandled e)
      | Inr email \<Rightarrow> if casefold (py_strip email) = [] \<or> casefold (py_strip email) \<notin> set (normalized_owners A)
          then Inl (Http 403) else Inr (casefold (py_strip email))))"
  by (cases authorization) (auto simp: request_owner_def token_of_def Let_def split: sum.splits)

lemma google_verify_raises: "google_verify validator client token = Inl e \<Longrightarrow> e = ValueError"
  by (auto simp: google_verify_def split: sum.splits option.splits json.splits if_splits)

lemma not_owned: "owned o' i s = Inl e \<Longrightarrow> e = ControlPlaneNotFoundError"
  by (auto simp: owned_def split: option.splits)

text \<open>The clause of the route a request goes to.\<close>

fun route_status :: "api_request \<Rightarrow> exn \<Rightarrow> int" where
  "route_status (Create _ _) = (\<lambda>_. 500)"
| "route_status (GetStatus _) = read_status"
| "route_status (GetEvents _) = read_status"
| "route_status (Decide _ _) = conflict_status"
| "route_status (GetReport _) = conflict_status"

lemma serve_refused:
  "request_owner A authorization = Inl f \<Longrightarrow> serve L A E authorization q s = (Inl (refused_status (route_status q) f), s)"
  by (cases q) auto

lemma route_status_error: "route_status q e \<in> {404, 409, 500}"
  by (cases q) (simp_all add: read_status_def conflict_status_def)

lemma serve_not_owned:
  assumes "request_owner A authorization = Inr o'" "request_target q = Some i" "owned o' i s = Inl e"
  shows "serve L A E authorization q s = (Inl 404, s)"
proof -
  have e: "owned o' i s = Inl ControlPlaneNotFoundError" using assms(3) not_owned by blast
  then have "decide dies down o' i d t s = (Inl ControlPlaneNotFoundError, s)" for dies down d t
    unfolding decide_def by (intro transaction_refused) (simp add: decide_body_def)
  with assms(1,2) e show ?thesis
    by (cases q) (auto simp: respond_with_def read_status_def conflict_status_def job_status_def job_events_def job_report_def)
qed

lemma find_grows:
  assumes "grows le xs ys" "find P xs = Some x" "\<And>a b. le a b \<Longrightarrow> P a = P b"
  shows "\<exists>y. find P ys = Some y \<and> le x y"
proof -
  obtain zs rest where ys: "ys = zs @ rest" "list_all2 le xs zs" using assms(1) by (auto simp: grows_def)
  from ys(2) assms(2) have "\<exists>y. find P zs = Some y \<and> le x y"
    by (induction rule: list_all2_induct) (auto simp: assms(3) split: if_splits)
  moreover have "find P (zs @ rest) = (case find P zs of None \<Rightarrow> find P rest | Some z \<Rightarrow> Some z)" for zs
    by (induction zs) auto
  ultimately show ?thesis using ys(1) by auto
qed

lemma view_id: "iv_investigation_id (view j) = rj_id j"
  by (simp add: view_def)

text \<open>A successful create leaves a job under its owner and key, the first such job of the table.\<close>

lemma create_job_Inr:
  assumes "create_job dies o' family k new_id s = (Inr v, s')"
  shows "\<exists>j. find (\<lambda>j. rj_owner j = o' \<and> rj_idempotency_key j = Some k) (cp_jobs s') = Some j
    \<and> rj_id j = iv_investigation_id v"
proof (cases "find (\<lambda>j. rj_owner j = o' \<and> rj_idempotency_key j = Some k) (cp_jobs s)")
  case (Some j)
  with assms show ?thesis by (auto simp: create_job_def transaction_def view_id split: if_splits)
next
  case None
  have "find P (xs @ [x]) = (case find P xs of None \<Rightarrow> if P x then Some x else None | Some z \<Rightarrow> Some z)" for P and xs :: "replay_job list" and x
    by (induction xs) auto
  with None assms show ?thesis by (auto simp: create_job_def transaction_def split: if_splits)
qed

lemma create_job_again:
  assumes "find (\<lambda>j. rj_owner j = o' \<and> rj_idempotency_key j = Some k) (cp_jobs s) = Some j"
  shows "create_job False o' family k new_id s = (Inr (view j), s)"
  using assms by (simp add: create_job_def transaction_def)

text \<open>
  C19: only an allowed owner reaches the queue, and only for own investigations. A request is
  answered 401 and changes nothing when it carries no bearer token or one whose verification raises
  a \<open>ValueError\<close>, and 403 when the verified address is not an allowed owner's; with the Google
  verifier these are the only ways to be refused, every other exception of a verifier is
  answered by the clause of its route (404, 409 or 500) and changes nothing either. An accepted
  request comes from an allowed owner whose token verified, and when it asks for an investigation
  that is not the caller's it is answered 404 and changes nothing, exactly as for one that does not
  exist.
\<close>

theorem only_owners_reach_their_investigations:
  "(\<forall>f. request_owner A authorization = Inl f \<longrightarrow>
       (\<exists>st. serve L A E authorization q s = (Inl st, s) \<and>
          (case token_of authorization of None \<Rightarrow> st = 401 | Some token \<Rightarrow>
            (case ap_verify A token of
               Inl e \<Rightarrow> (if is_value_error e then st = 401 else st = route_status q e \<and> st \<in> {404, 409, 500})
             | Inr email \<Rightarrow> st = 403 \<and> casefold (py_strip email) \<notin> set (normalized_owners A) - {[]}))
          \<and> (\<forall>validator client. ap_verify A = google_verify validator client \<longrightarrow> st \<in> {401, 403})))
   \<and> (\<forall>o'. request_owner A authorization = Inr o' \<longrightarrow>
        (\<exists>rest email. authorization = Some (''Bearer '' @ rest) \<and> ap_verify A (py_strip rest) = Inr email
           \<and> o' = casefold (py_strip email) \<and> o' \<in> set (normalized_owners A))
        \<and> (\<forall>i. request_target q = Some i \<longrightarrow> (\<forall>j \<in> set (cp_jobs s). rj_id j = i \<longrightarrow> rj_owner j \<noteq> o') \<longrightarrow>
             serve L A E authorization q s = (Inl 404, s)))"
proof (intro conjI allI impI)
  have foreign: "owned o' i s = Inl ControlPlaneNotFoundError" if "\<forall>j \<in> set (cp_jobs s). rj_id j = i \<longrightarrow> rj_owner j \<noteq> o'" for o' i
    using that by (auto simp: owned_def find_None_iff split: option.splits dest!: sym [of "Some _"])
  fix o'
  assume own: "request_owner A authorization = Inr o'"
  then show "\<exists>rest email. authorization = Some (''Bearer '' @ rest) \<and> ap_verify A (py_strip rest) = Inr email
      \<and> o' = casefold (py_strip email) \<and> o' \<in> set (normalized_owners A)"
    unfolding request_owner_Inr by blast
  fix i
  assume "request_target q = Some i" "\<forall>j \<in> set (cp_jobs s). rj_id j = i \<longrightarrow> rj_owner j \<noteq> o'"
  then show "serve L A E authorization q s = (Inl 404, s)" using serve_not_owned [OF own _ foreign] by blast
next
  fix f
  assume f: "request_owner A authorization = Inl f"
  have google: "is_value_error e" if "ap_verify A = google_verify validator client" "ap_verify A token = Inl e" for validator client token e
    using google_verify_raises [of validator client token e] that by (simp add: is_value_error_def)
  show "\<exists>st. serve L A E authorization q s = (Inl st, s) \<and>
      (case token_of authorization of None \<Rightarrow> st = 401 | Some token \<Rightarrow>
        (case ap_verify A token of
           Inl e \<Rightarrow> (if is_value_error e then st = 401 else st = route_status q e \<and> st \<in> {404, 409, 500})
         | Inr email \<Rightarrow> st = 403 \<and> casefold (py_strip email) \<notin> set (normalized_owners A) - {[]}))
      \<and> (\<forall>validator client. ap_verify A = google_verify validator client \<longrightarrow> st \<in> {401, 403})"
    using serve_refused [OF f, of L E q s] f google route_status_error [of q]
    by (auto simp: request_owner_token refused_status_def split: option.splits sum.splits if_splits) (metis)
qed

definition sample_app :: app where
  "sample_app = \<lparr> ap_allowed_owners = ['' O ''], ap_verify = (\<lambda>t. if t = ''x'' then Inr ''o'' else Inl ValueError) \<rparr>"

definition sample_ambient :: ambient where
  "sample_ambient = \<lparr> am_new_id = ''i2'', am_time = 0, am_down = False, am_dies = False \<rparr>"

lemma sample_request_owner: "request_owner sample_app (Some ''Bearer x'') = Inr ''o''" "request_owner sample_app (Some ''Bearer y'') = Inl (Http 401)"
  by code_simp+

theorem only_owners_reach_their_investigations_witness:
  "serve sample_libs sample_app sample_ambient (Some ''Bearer y'') (GetReport ''j'') sample_finished = (Inl 401, sample_finished)
   \<and> serve sample_libs sample_app sample_ambient (Some ''Bearer x'') (GetReport ''k'') sample_finished = (Inl 404, sample_finished)"
proof -
  note T = only_owners_reach_their_investigations
  have "\<forall>j \<in> set (cp_jobs sample_finished). rj_id j = ''k'' \<longrightarrow> rj_owner j \<noteq> ''o''"
    by (simp add: sample_finished_tables claimed_def sample_job_def)
  then have "serve sample_libs sample_app sample_ambient (Some ''Bearer x'') (GetReport ''k'') sample_finished = (Inl 404, sample_finished)"
    using T [of sample_app "Some ''Bearer x''" sample_libs sample_ambient "GetReport ''k''" sample_finished] sample_request_owner(1)
    by (metis request_target.simps(5))
  moreover have "token_of (Some ''Bearer y'') = Some ''y''" by code_simp
  then have "serve sample_libs sample_app sample_ambient (Some ''Bearer y'') (GetReport ''j'') sample_finished = (Inl 401, sample_finished)"
    using T [of sample_app "Some ''Bearer y''" sample_libs sample_ambient "GetReport ''j''" sample_finished] sample_request_owner(2)
    by (auto simp: sample_app_def is_value_error_def)
  ultimately show ?thesis by blast
qed

text \<open>
  C20: creating is idempotent. Once a create request succeeded, repeating it under the same key,
  by the same owner and after any history of the queue, returns the same investigation and
  changes nothing, even when it asks for another scenario.
\<close>

theorem create_is_idempotent:
  assumes inv: "cp_ok L cfg s" and own: "request_owner A authorization = Inr o'"
    and first: "serve L A E authorization (Create family key) s = (Inr (View_body v), s1)"
    and later: "(cp_step L cfg)\<^sup>*\<^sup>* s1 s2" and alive: "\<not> am_dies E'"
  shows "\<exists>v'. serve L A E' authorization (Create family' key) s2 = (Inr (View_body v'), s2)
    \<and> iv_investigation_id v' = iv_investigation_id v"
proof -
  obtain k where k: "idempotency_key key = Inr k"
    and c: "create_job (am_dies E) o' family k (am_new_id E) s = (Inr v, s1)"
    using first own by (auto simp: respond_with_def split: sum.splits prod.splits)
  from create_job_Inr [OF c] obtain j where
    j: "find (\<lambda>j. rj_owner j = o' \<and> rj_idempotency_key j = Some k) (cp_jobs s1) = Some j" "rj_id j = iv_investigation_id v" by blast
  have "cp_ok L cfg s1" using create_job_moves [of L cfg s "am_dies E" o' family k "am_new_id E"] c inv by (simp add: moves_def)
  then have "cp_le s1 s2" using cp_steps_move [OF later] by (simp add: moves_def)
  then have "grows job_le (cp_jobs s1) (cp_jobs s2)" by (simp add: cp_le_def)
  from find_grows [OF this j(1)] obtain j' where
    j': "find (\<lambda>j. rj_owner j = o' \<and> rj_idempotency_key j = Some k) (cp_jobs s2) = Some j'" "job_le j j'"
    by (auto simp: job_le_def)
  have "rj_id j' = iv_investigation_id v" using j'(2) j(2) by (simp add: job_le_def)
  with create_job_again [OF j'(1)] own k alive show ?thesis by (simp add: respond_with_def view_id)
qed

theorem create_is_idempotent_witness:
  "\<exists>v'. serve sample_libs sample_app sample_ambient (Some ''Bearer x'') (Create AMBIGUOUS_TELEMETRY (Some ''k'')) sample_queued
     = (Inr (View_body v'), sample_queued) \<and> iv_investigation_id v' = ''j''"
proof -
  let ?E = "sample_ambient\<lparr>am_new_id := ''j''\<rparr>"
  have key: "idempotency_key (Some ''k'') = Inr ''k''" by code_simp
  have first: "serve sample_libs sample_app ?E (Some ''Bearer x'') (Create CONFIGURATION_CHANGE (Some ''k'')) (empty_plane [])
      = (Inr (View_body \<lparr> iv_investigation_id = ''j'', iv_status = QUEUED \<rparr>), sample_queued)"
    by (simp add: sample_request_owner key respond_with_def sample_queued_def create_job_def transaction_def empty_plane_def
        find_job_def sample_ambient_def)
  show ?thesis
    using create_is_idempotent [OF empty_plane_ok [OF sample_start] sample_request_owner(1) first rtranclp.rtrancl_refl,
        of sample_ambient AMBIGUOUS_TELEMETRY] by (simp add: sample_ambient_def)
qed

end
