(* ===== verification/Report.thy ===== *)
theory Report
  imports Prompts
begin

text \<open>
  \<open>src/causalops/report.py\<close>: the Markdown report that sits beside a finalized run. Each section
  is a list of lines, built in the order the code appends them.
\<close>

section \<open>Texts of the vocabularies\<close>

fun root_cause_value :: "root_cause_code \<Rightarrow> string" where
  "root_cause_value CONFIG_CHANGE = ''CONFIG_CHANGE''"
| "root_cause_value DOWNSTREAM_TIMEOUT_RETRY_AMPLIFICATION = ''DOWNSTREAM_TIMEOUT_RETRY_AMPLIFICATION''"
| "root_cause_value RESOURCE_POOL_SATURATION = ''RESOURCE_POOL_SATURATION''"
| "root_cause_value UNDETERMINED = ''UNDETERMINED''"

fun disposition_value :: "disposition \<Rightarrow> string" where
  "disposition_value DIAGNOSED = ''DIAGNOSED''"
| "disposition_value INSUFFICIENT_EVIDENCE = ''INSUFFICIENT_EVIDENCE''"
| "disposition_value FAILED_SAFE = ''FAILED_SAFE''"

fun policy_value :: "policy_result \<Rightarrow> string" where
  "policy_value ALLOWED = ''ALLOWED''"
| "policy_value DENIED = ''DENIED''"

text \<open>\<open>receipt.state.value.lower()\<close>.\<close>

fun state_lower :: "receipt_state \<Rightarrow> string" where
  "state_lower RESERVED = ''reserved''"
| "state_lower SETTLED = ''settled''"

abbreviation tick :: string where
  "tick \<equiv> [CHR 0x60]"

abbreviation ticked :: "string \<Rightarrow> string" where
  "ticked s \<equiv> tick @ s @ tick"

section \<open>Sections\<close>

definition REPLAY_CAVEAT :: string where
  "REPLAY_CAVEAT = ''This run used scripted replay fixtures. It shows that the workflow, policy, ''
     @ ''and tools behave as specified. It is not evidence of diagnostic accuracy.''"

definition assessment_section :: "investigation_report \<Rightarrow> string list" where
  "assessment_section report = [''## What it concluded'', []] @ (case ir_assessment report of
     None \<Rightarrow> [''The workflow stopped before a valid assessment, so application code ''
       @ ''recorded a safe failure instead of an answer.'']
   | Some a \<Rightarrow> [fa_uncertainty a, [], ''Proposed next step: '' @ fa_next_step a])"

definition evidence_section :: "investigation_report \<Rightarrow> evidence list \<Rightarrow> string list" where
  "evidence_section report evidence = (let
     cited = (case ir_assessment report of None \<Rightarrow> []
       | Some a \<Rightarrow> fa_supporting_evidence_ids a @ fa_contrary_evidence_ids a)
   in [''## Evidence it cited'', []] @
     (if cited = [] then [''No evidence was cited.'']
      else map (\<lambda>record. ''- '' @ ticked (ev_evidence_id record) @ '' ['' @ kind_value (ev_kind record) @ ''] from ''
             @ ev_source record @ '': '' @ ev_summary record)
           (filter (\<lambda>record. ev_evidence_id record \<in> set cited) evidence)
         @ [[], show_nat (length evidence) @ '' evidence records were collected in total.'']))"

definition guidance_section :: "investigation_report \<Rightarrow> string list" where
  "guidance_section report = [''## Guidance it consulted'', []] @
     (if ir_runbook_passage_ids report = [] then [''No runbook guidance was retrieved.'']
      else (let cited = (case ir_assessment report of None \<Rightarrow> [] | Some a \<Rightarrow> fa_runbook_citations a)
        in map (\<lambda>passage_id. ''- '' @ ticked passage_id @ (if passage_id \<in> set cited then '' (cited)'' else []))
             (ir_runbook_passage_ids report)))"

definition checks_row :: "tool_receipt \<Rightarrow> string" where
  "checks_row receipt = (let
     reason = (case rc_reason_code receipt of Some c \<Rightarrow> reason_value c | None \<Rightarrow> ''-'');
     outcome = (case rc_outcome receipt of Some x \<Rightarrow> outcome_value x
       | None \<Rightarrow> ''unsettled ('' @ state_lower (rc_state receipt) @ '')'')
   in ''| '' @ ticked (tool_value (rc_tool receipt)) @ '' | '' @ policy_value (rc_policy_result receipt) @ '' | ''
      @ outcome @ '' | '' @ ticked reason @ '' | '' @ show_int (rc_duration_ms receipt) @ '' ms |'')"

definition checks_section :: "tool_receipt list \<Rightarrow> string list" where
  "checks_section receipts = [''## Checks it asked for'', []] @
     (if receipts = [] then [''No checks were proposed.'']
      else [''| Tool | Policy | Outcome | Reason | Duration |'', ''|---|---|---|---|---:|''] @ map checks_row receipts)"

definition usage_line :: "investigation_report \<Rightarrow> string" where
  "usage_line report = (case ir_usage report of
     None \<Rightarrow> ''not reported by this model''
   | Some u \<Rightarrow> show_int (input_tokens u) @ '' in, '' @ show_int (output_tokens u) @ '' out'')"

definition runbook_searches_executed :: "tool_receipt list \<Rightarrow> int" where
  "runbook_searches_executed receipts = int (length (filter (\<lambda>receipt. rc_policy_result receipt = ALLOWED
     \<and> rc_state receipt = SETTLED \<and> rc_tool receipt = SEARCH_RUNBOOKS) receipts))"

text \<open>One \<open>x of y\<close> line.\<close>

abbreviation of_line :: "string \<Rightarrow> int \<Rightarrow> int \<Rightarrow> string" where
  "of_line label x y \<equiv> ''- '' @ label @ '': '' @ show_int x @ '' of '' @ show_int y"

definition budget_section :: "investigation_report \<Rightarrow> tool_receipt list \<Rightarrow> string list" where
  "budget_section report receipts = (let
     searches = runbook_searches_executed receipts;
     diagnostic_executed = ir_tools_executed report - searches;
     b = ir_budgets report
   in [''## What it spent'', [],
       of_line ''Model calls'' (ir_model_calls_used report) (b_model_calls b + b_repairs b),
       of_line ''Repairs'' (ir_repairs_used report) (b_repairs b),
       of_line ''Diagnostic checks executed'' diagnostic_executed (b_executed_tools b),
       of_line ''Runbook searches'' searches (b_runbook_searches b),
       ''- Invalid responses: '' @ show_int (ir_invalid_responses report),
       ''- Token usage: '' @ usage_line report,
       ''- Runbook retrieval mode: '' @ ticked (retrieval_mode_value (ir_retrieval_mode report)),
       ''- Final context digest: '' @ ticked (take 16 (ir_final_context_digest report))])"

definition escalation_section :: "escalation_record \<Rightarrow> string list" where
  "escalation_section escalation =
     [''## Owner escalation'', [], ''- Reason: '' @ ticked (escalation_value (er_reason escalation)),
      ''- Decision: **'' @ decision_value (er_decision escalation) @ ''**''] @
     (case er_rejection_note escalation of None \<Rightarrow> [] | Some note \<Rightarrow> [''- Owner'' @ [CHR 0x27] @ ''s note: '' @ note])"

definition limitations_section :: "investigation_report \<Rightarrow> string \<Rightarrow> string list" where
  "limitations_section report model_name = [''## Limitations'', []]
     @ (if model_name = ''replay'' then [''- '' @ REPLAY_CAVEAT] else [])
     @ map (\<lambda>limitation. ''- '' @ limitation) (ir_limitations report)
     @ (if ir_disposition report = FAILED_SAFE
        then [''- A safe failure means the workflow protected itself, not that the '' @ ''incident was understood.'']
        else [])
     @ [[], ''Versions: schema '' @ v_schema_version (ir_versions report) @ '', prompt ''
          @ v_prompt_version (ir_versions report) @ '', policy '' @ v_policy_version (ir_versions report)
          @ '', tools '' @ v_tool_registry_version (ir_versions report) @ ''.'']"

definition report_head :: "investigation_report \<Rightarrow> string \<Rightarrow> string list" where
  "report_head report model_name =
     [''# Investigation '' @ ir_investigation_id report, [],
      ''- Incident: '' @ ticked (ir_incident_id report),
      ''- Disposition: **'' @ disposition_value (ir_disposition report) @ ''**'',
      ''- Root cause: **'' @ root_cause_value (ir_root_cause report) @ ''**'',
      ''- Model: '' @ model_name,
      ''- Started: '' @ isoformat (ir_started_at report),
      ''- Latency: '' @ show_int (ir_latency_ms report) @ '' ms'']
     @ (case ir_reason_code report of None \<Rightarrow> [] | Some c \<Rightarrow> [''- Stopped because: '' @ ticked (reason_value c)])"

definition report_lines ::
    "investigation_report \<Rightarrow> evidence list \<Rightarrow> tool_receipt list \<Rightarrow> string \<Rightarrow> string list" where
  "report_lines report evidence receipts model_name =
     report_head report model_name
     @ [[]] @ assessment_section report
     @ [[]] @ evidence_section report evidence
     @ [[]] @ guidance_section report
     @ [[]] @ checks_section receipts
     @ [[]] @ budget_section report receipts
     @ (case ir_escalation report of None \<Rightarrow> [] | Some e \<Rightarrow> [[]] @ escalation_section e)
     @ [[]] @ limitations_section report model_name"

definition render_report ::
    "investigation_report \<Rightarrow> evidence list \<Rightarrow> tool_receipt list \<Rightarrow> string \<Rightarrow> string" where
  "render_report report evidence receipts model_name =
     py_join newline (report_lines report evidence receipts model_name) @ newline"

end
