(* ===== verification/Evaluation.thy ===== *)
theory Evaluation
  imports Domain "HOL-Library.Sublist"
begin

text \<open>
  \<open>src/causalops/evaluation.py\<close>: the expected outcome of an incident, the predicates a good
  answer must satisfy, the mechanical scores of one run and the summary of a batch. Counts
  and ranges only: every definition is a function of the report, the evidence, the receipts and
  the expectation.
\<close>

section \<open>Expectations and scores\<close>

definition SCORER_VERSION :: string where
  "SCORER_VERSION = ''4''"

definition OUT_OF_SCOPE_REASONS :: "reason_code list" where
  "OUT_OF_SCOPE_REASONS =
     [CROSS_INCIDENT_REQUEST, UNKNOWN_SERVICE, OUTSIDE_INCIDENT_WINDOW, RESULT_LIMIT_EXCEEDED]"

datatype predicate_operator = EQUALS | AT_LEAST | CONTAINS

record required_evidence_predicate =
  pr_source :: string
  pr_kind :: evidence_kind
  pr_template :: "string option"
  pr_field :: string
  pr_operator :: predicate_operator
  pr_value :: json

record expected_outcome =
  eo_root_cause :: root_cause_code
  eo_disposition :: disposition
  eo_predicates :: "required_evidence_predicate list"

record control_counts =
  cc_denied :: int
  cc_duplicate :: int
  cc_out_of_scope :: int
  cc_invalid_responses :: int
  cc_unsettled :: int

record efficiency =
  ef_latency_ms :: int
  ef_model_calls :: int
  ef_tools_executed :: int
  ef_input_tokens :: "int option"
  ef_output_tokens :: "int option"

record mechanical_scores =
  ms_diagnosis_correct :: bool
  ms_disposition_correct :: bool
  ms_citations_valid :: bool
  ms_citations_sufficient :: "bool option"
  ms_correct_and_grounded :: "bool option"
  ms_control :: control_counts
  ms_efficiency :: efficiency

record evaluation_record =
  evr_schema_version :: string
  evr_scorer_version :: string
  evr_run_key :: string
  evr_investigation_id :: string
  evr_incident_id :: string
  evr_expected :: expected_outcome
  evr_scores :: mechanical_scores
  evr_git_sha :: string
  evr_git_dirty :: bool
  evr_versions :: versions
  evr_retrieval_mode :: retrieval_mode
  evr_runbook_corpus_version :: "string option"
  evr_fixture_sha256 :: string
  evr_model_name :: string
  evr_pricing_source :: string
  evr_pricing_verified_on :: string
  evr_configured_ceiling_usd :: pyfloat
  evr_reserved_usd :: pyfloat
  evr_actual_usd :: "pyfloat option"
  evr_failure_reason :: "reason_code option"
  evr_executed_tools :: int
  evr_model_calls_budget :: int
  evr_seed_name :: string

section \<open>Comparing JSON values\<close>

text \<open>
  Python's \<open>==\<close> and \<open>>=\<close> on decoded JSON: \<open>bool\<close> is a subtype of \<open>int\<close>, and an int is
  compared with a float by exact value. Lists compare item by item, dicts by key.
\<close>

fun json_number :: "json \<Rightarrow> pyfloat option" where
  "json_number (JBool b) = Some (Fin (if b then 1 else 0))"
| "json_number (JInt i) = Some (Fin (of_int i))"
| "json_number (JFloat x) = Some x"
| "json_number _ = None"

definition number_eq :: "pyfloat \<Rightarrow> pyfloat \<Rightarrow> bool" where
  "number_eq x y \<longleftrightarrow> x = y \<and> x \<noteq> NaN"

fun json_eq :: "json \<Rightarrow> json \<Rightarrow> bool" where
  "json_eq (JStr a) y \<longleftrightarrow> (case y of JStr b \<Rightarrow> a = b | _ \<Rightarrow> False)"
| "json_eq JNull y \<longleftrightarrow> (case y of JNull \<Rightarrow> True | _ \<Rightarrow> False)"
| "json_eq (JList xs) y \<longleftrightarrow> (case y of JList ys \<Rightarrow> list_all2 json_eq xs ys | _ \<Rightarrow> False)"
| "json_eq (JObj xs) y \<longleftrightarrow> (case y of JObj ys \<Rightarrow> length xs = length ys
     \<and> list_all (\<lambda>kv. case map_of ys (fst kv) of None \<Rightarrow> False | Some w \<Rightarrow> json_eq (snd kv) w) xs | _ \<Rightarrow> False)"
| "json_eq (JBool b) y \<longleftrightarrow> (case json_number y of Some n \<Rightarrow> number_eq (Fin (if b then 1 else 0)) n | None \<Rightarrow> False)"
| "json_eq (JInt i) y \<longleftrightarrow> (case json_number y of Some n \<Rightarrow> number_eq (Fin (of_int i)) n | None \<Rightarrow> False)"
| "json_eq (JFloat x) y \<longleftrightarrow> (case json_number y of Some n \<Rightarrow> number_eq x n | None \<Rightarrow> False)"

definition json_at_least :: "json \<Rightarrow> json \<Rightarrow> bool" where
  "json_at_least observed value = (case (json_number observed, json_number value) of
     (Some x, Some y) \<Rightarrow> f_le y x | _ \<Rightarrow> False)"

definition json_contains :: "json \<Rightarrow> json \<Rightarrow> bool" where
  "json_contains observed value = (case (observed, value) of
     (JStr s, JStr t) \<Rightarrow> sublist t s | _ \<Rightarrow> False)"

section \<open>Scoring one run\<close>

definition satisfies :: "required_evidence_predicate \<Rightarrow> evidence \<Rightarrow> bool" where
  "satisfies predicate evidence =
     (if ev_kind evidence \<noteq> pr_kind predicate \<or> ev_source evidence \<noteq> pr_source predicate then False
      else if (case pr_template predicate of None \<Rightarrow> False
          | Some t \<Rightarrow> (case map_of (ev_payload evidence) ''template'' of
              None \<Rightarrow> True | Some observed \<Rightarrow> \<not> json_eq observed (JStr t))) then False
      else (case map_of (ev_payload evidence) (pr_field predicate) of
          None \<Rightarrow> False
        | Some observed \<Rightarrow> (case pr_operator predicate of
            EQUALS \<Rightarrow> json_eq observed (pr_value predicate)
          | AT_LEAST \<Rightarrow> json_at_least observed (pr_value predicate)
          | CONTAINS \<Rightarrow> json_contains observed (pr_value predicate))))"

definition cited_evidence :: "investigation_report \<Rightarrow> evidence list \<Rightarrow> evidence list" where
  "cited_evidence report evidence = (case ir_assessment report of
     None \<Rightarrow> []
   | Some a \<Rightarrow> filter (\<lambda>record. ev_evidence_id record \<in> set (fa_supporting_evidence_ids a)
       \<and> ev_incident_id record = ir_incident_id report) evidence)"

definition citations_are_valid :: "investigation_report \<Rightarrow> evidence list \<Rightarrow> bool" where
  "citations_are_valid report evidence = (case ir_assessment report of
     None \<Rightarrow> False
   | Some a \<Rightarrow> (let
       known = map ev_evidence_id (filter (\<lambda>record. ev_incident_id record = ir_incident_id report) evidence);
       cited = fa_supporting_evidence_ids a @ fa_contrary_evidence_ids a
     in list_all (\<lambda>evidence_id. evidence_id \<in> set known) cited))"

definition count_control :: "investigation_report \<Rightarrow> tool_receipt list \<Rightarrow> control_counts" where
  "count_control report receipts = (let
     denied = filter (\<lambda>receipt. rc_policy_result receipt = DENIED) receipts
   in \<lparr> cc_denied = int (length denied),
        cc_duplicate = int (length (filter (\<lambda>denial. rc_reason_code denial = Some DUPLICATE_PROPOSAL) denied)),
        cc_out_of_scope = int (length (filter (\<lambda>denial. case rc_reason_code denial of
            None \<Rightarrow> False | Some reason \<Rightarrow> reason \<in> set OUT_OF_SCOPE_REASONS) denied)),
        cc_invalid_responses = ir_invalid_responses report,
        cc_unsettled = int (length (filter (\<lambda>receipt. rc_state receipt = RESERVED) receipts)) \<rparr>)"

definition score_run ::
    "investigation_report \<Rightarrow> evidence list \<Rightarrow> tool_receipt list \<Rightarrow> expected_outcome \<Rightarrow> mechanical_scores" where
  "score_run report evidence receipts expected = (let
     supported = cited_evidence report evidence;
     rejected = (case ir_escalation report of None \<Rightarrow> False | Some e \<Rightarrow> er_decision e = Reject);
     diagnosis_correct = (ir_assessment report \<noteq> None \<and> ir_root_cause report = eo_root_cause expected);
     citations_sufficient = (if eo_predicates expected = [] then None
       else Some (list_all (\<lambda>predicate. list_ex (satisfies predicate) supported) (eo_predicates expected)))
   in \<lparr> ms_diagnosis_correct = diagnosis_correct,
        ms_disposition_correct = (ir_disposition report = eo_disposition expected \<and> \<not> rejected),
        ms_citations_valid = citations_are_valid report evidence,
        ms_citations_sufficient = citations_sufficient,
        ms_correct_and_grounded = (if eo_predicates expected = [] then None
          else map_option (\<lambda>sufficient. diagnosis_correct \<and> sufficient) citations_sufficient),
        ms_control = count_control report receipts,
        ms_efficiency =
          \<lparr> ef_latency_ms = ir_latency_ms report, ef_model_calls = ir_model_calls_used report,
            ef_tools_executed = ir_tools_executed report,
            ef_input_tokens = map_option input_tokens (ir_usage report),
            ef_output_tokens = map_option output_tokens (ir_usage report) \<rparr> \<rparr>)"

section \<open>Summary of a batch\<close>

type_synonym 'n range = "'n option \<times> 'n option"

text \<open>
  \<open>min\<close> and \<open>max\<close> keep the earlier value unless the later one is strictly smaller or greater;
  the comparison is an argument because the source uses it at ints and at floats.
\<close>

fun min_max :: "('n \<Rightarrow> 'n \<Rightarrow> bool) \<Rightarrow> 'n list \<Rightarrow> 'n range" where
  "min_max lt [] = (None, None)"
| "min_max lt (v # vs) =
     (Some (foldl (\<lambda>m x. if lt x m then x else m) v vs), Some (foldl (\<lambda>m x. if lt m x then x else m) v vs))"

record evaluation_summary =
  es_total_records :: int
  es_correct_and_grounded_count :: int
  es_diagnosis_correct_count :: int
  es_disposition_correct_count :: int
  es_citations_valid_count :: int
  es_citations_sufficient_count :: int
  es_citations_sufficient_applicable_count :: int
  es_scorer_versions :: "string list"
  es_latency_ms :: "int range"
  es_model_calls :: "int range"
  es_tools_executed :: "int range"
  es_denied :: "int range"
  es_duplicate :: "int range"
  es_out_of_scope :: "int range"
  es_invalid_responses :: "int range"
  es_unsettled :: "int range"
  es_input_tokens :: "int range"
  es_input_tokens_known_count :: int
  es_output_tokens :: "int range"
  es_output_tokens_known_count :: int
  es_reserved_usd :: "pyfloat range"
  es_actual_usd :: "pyfloat range"
  es_actual_usd_known_count :: int

definition count_if :: "('a \<Rightarrow> bool) \<Rightarrow> 'a list \<Rightarrow> int" where
  "count_if P xs = int (length (filter P xs))"

definition known :: "('a \<Rightarrow> 'b option) \<Rightarrow> 'a list \<Rightarrow> 'b list" where
  "known f xs = map (\<lambda>x. the (f x)) (filter (\<lambda>x. f x \<noteq> None) xs)"

definition sufficient_record :: "evaluation_record \<Rightarrow> bool" where
  "sufficient_record r \<longleftrightarrow> eo_predicates (evr_expected r) \<noteq> [] \<and> ms_citations_sufficient (evr_scores r) = Some True"

definition summarize_evaluation :: "evaluation_record list \<Rightarrow> evaluation_summary" where
  "summarize_evaluation records = (let
     input_tokens_known = known (\<lambda>r. ef_input_tokens (ms_efficiency (evr_scores r))) records;
     output_tokens_known = known (\<lambda>r. ef_output_tokens (ms_efficiency (evr_scores r))) records;
     actual_usd_known = known evr_actual_usd records;
     ints = (\<lambda>f. min_max (<) (map f records))
   in \<lparr> es_total_records = int (length records),
        es_correct_and_grounded_count = count_if (\<lambda>r. eo_predicates (evr_expected r) \<noteq> []
          \<and> ms_diagnosis_correct (evr_scores r) \<and> ms_citations_sufficient (evr_scores r) = Some True) records,
        es_diagnosis_correct_count = count_if (\<lambda>r. ms_diagnosis_correct (evr_scores r)) records,
        es_disposition_correct_count = count_if (\<lambda>r. ms_disposition_correct (evr_scores r)) records,
        es_citations_valid_count = count_if (\<lambda>r. ms_citations_valid (evr_scores r)) records,
        es_citations_sufficient_count = count_if sufficient_record records,
        es_citations_sufficient_applicable_count =
          count_if (\<lambda>r. eo_predicates (evr_expected r) \<noteq> []) records,
        es_scorer_versions = sort (remdups (map evr_scorer_version records)),
        es_latency_ms = ints (\<lambda>r. ef_latency_ms (ms_efficiency (evr_scores r))),
        es_model_calls = ints (\<lambda>r. ef_model_calls (ms_efficiency (evr_scores r))),
        es_tools_executed = ints (\<lambda>r. ef_tools_executed (ms_efficiency (evr_scores r))),
        es_denied = ints (\<lambda>r. cc_denied (ms_control (evr_scores r))),
        es_duplicate = ints (\<lambda>r. cc_duplicate (ms_control (evr_scores r))),
        es_out_of_scope = ints (\<lambda>r. cc_out_of_scope (ms_control (evr_scores r))),
        es_invalid_responses = ints (\<lambda>r. cc_invalid_responses (ms_control (evr_scores r))),
        es_unsettled = ints (\<lambda>r. cc_unsettled (ms_control (evr_scores r))),
        es_input_tokens = min_max (<) input_tokens_known,
        es_input_tokens_known_count = int (length input_tokens_known),
        es_output_tokens = min_max (<) output_tokens_known,
        es_output_tokens_known_count = int (length output_tokens_known),
        es_reserved_usd = min_max f_lt (map evr_reserved_usd records),
        es_actual_usd = min_max f_lt actual_usd_known,
        es_actual_usd_known_count = int (length actual_usd_known) \<rparr>)"

end
