(* ===== verification/ReportProps.thy ===== *)
theory ReportProps
  imports GraphSample Report Evaluation
begin

text \<open>
  What the evaluator scores and what the report prints for a result of the graph. Both are
  functions of the result, so the facts of the graph's invariant carry over: the printed
  spending stays within the printed limits, every citation is printed, every answer scores
  valid citations, and no safe failure scores as a diagnosis. Then the arithmetic of a batch
  summary.
\<close>

section \<open>What a finished result holds\<close>

text \<open>The facts of the graph's invariant that a reader of the result alone can use.\<close>

definition result_ok :: "budgets \<Rightarrow> investigation_result \<Rightarrow> bool" where
  "result_ok b res \<longleftrightarrow> (let r = res_report res in
     ir_budgets r = b \<and> 0 \<le> ir_repairs_used r \<and> ir_repairs_used r \<le> b_repairs b
     \<and> ir_repairs_used r \<le> ir_model_calls_used r \<and> ir_model_calls_used r - ir_repairs_used r \<le> b_model_calls b
     \<and> receipts_ok (ir_incident_id r) b (res_receipts res) \<and> ir_tools_executed r = tools_executed (res_receipts res)
     \<and> (\<forall>e \<in> set (res_evidence res). ev_incident_id e = ir_incident_id r)
     \<and> (\<forall>a. ir_assessment r = Some a \<longrightarrow> cited_ids a \<subseteq> ev_evidence_id ` set (res_evidence res))
     \<and> (ir_disposition r = FAILED_SAFE \<longleftrightarrow> ir_assessment r = None))"

lemma finished_result_ok:
  assumes "start_ok cfg es w" and "run_graph_investigation cfg es iid name cp w = (Inr (Result res), evs, w')"
  shows "result_ok (g_budgets cfg) res"
proof (rule investigation_outcome [OF assms(1), of iid name cp])
  fix res' st w1
  assume "run_graph_investigation cfg es iid name cp w = (Inr (Result res'), gs_events st, w1)"
    and ok: "state_ok cfg st w1" and rep: "result_reports cfg st None res'" and "concluded st"
  with assms(2) have res: "res' = res" by simp
  have s: "counters_ok (g_budgets cfg) st" "receipts_ok (gs_incident_id st) (g_budgets cfg) (gs_receipts st)"
    "evidence_ok (gs_incident_id st) (gs_evidence st)" "assessment_ok st"
    using ok unfolding state_ok_def by blast+
  have r: "res_receipts res = gs_receipts st" "set (res_evidence res) \<subseteq> set (gs_evidence st)"
    "ev_evidence_id ` set (res_evidence res) = ev_evidence_id ` set (gs_evidence st)"
    "report_states st (g_budgets cfg) None (res_report res)" using rep by (simp_all add: res result_reports_def)
  have "ir_disposition (res_report res) = FAILED_SAFE \<longleftrightarrow> ir_assessment (res_report res) = None"
    using r(4) by (auto simp: report_states_def report_disposition_def split: option.splits)
  moreover have "cited_ids a \<subseteq> ev_evidence_id ` set (res_evidence res)" if "ir_assessment (res_report res) = Some a" for a
    using s(4) r(3,4) that by (auto simp: report_states_def assessment_ok_def)
  ultimately show ?thesis using s r
    by (auto simp: result_ok_def Let_def report_states_def counters_ok_def evidence_ok_def)
qed (use assms(2) in simp)

section \<open>Counting receipts\<close>

lemma searches_split:
  "0 \<le> runbook_searches_executed rs \<and> runbook_searches_executed rs \<le> spent_in True rs
   \<and> 0 \<le> tools_executed rs - runbook_searches_executed rs
   \<and> tools_executed rs - runbook_searches_executed rs \<le> spent_in False rs"
  by (induction rs) (auto simp: runbook_searches_executed_def spent_in_def tools_executed_def spends_def)

lemma receipts_partition:
  assumes "\<forall>r \<in> set rs. receipt_ok i r"
  shows "tools_executed rs + cc_denied (count_control report rs) + cc_unsettled (count_control report rs) = int (length rs)"
  using assms
proof (induction rs)
  case (Cons r rs)
  have "rc_policy_result r = DENIED \<longrightarrow> rc_state r = SETTLED" using Cons.prems by (simp add: receipt_ok_def)
  moreover have "(rc_policy_result r \<noteq> ALLOWED) = (rc_policy_result r = DENIED)" "(rc_state r \<noteq> SETTLED) = (rc_state r = RESERVED)"
    by (metis policy_result.distinct(1) policy_result.exhaust) (metis receipt_state.distinct(1) receipt_state.exhaust)
  ultimately show ?case using Cons by (auto simp: tools_executed_def count_control_def Let_def)
qed (simp add: tools_executed_def count_control_def)

lemma control_reasons_within_denials:
  "cc_duplicate (count_control report rs) + cc_out_of_scope (count_control report rs) \<le> cc_denied (count_control report rs)"
  by (induction rs) (auto simp: count_control_def Let_def OUT_OF_SCOPE_REASONS_def split: option.splits)

section \<open>Scores of a finished result\<close>

lemma valid_citations_iff:
  assumes "result_ok b res"
  shows "citations_are_valid (res_report res) (res_evidence res) \<longleftrightarrow> ir_assessment (res_report res) \<noteq> None"
  using assms
  by (fastforce simp: result_ok_def Let_def citations_are_valid_def cited_ids_def list_all_iff split: option.splits)

lemma sufficient_iff:
  "ms_citations_sufficient (score_run report es rs x) = Some True \<longleftrightarrow>
     eo_predicates x \<noteq> [] \<and> (\<forall>p \<in> set (eo_predicates x). \<exists>e \<in> set (cited_evidence report es). satisfies p e)"
  by (simp add: score_run_def Let_def list_all_iff list_ex_iff)

lemma grounded_iff:
  "ms_correct_and_grounded (score_run report es rs x) = Some True \<longleftrightarrow>
     ms_diagnosis_correct (score_run report es rs x) \<and> ms_citations_sufficient (score_run report es rs x) = Some True"
  by (auto simp: score_run_def Let_def)

lemma nothing_supported: "ir_assessment report = None \<Longrightarrow> cited_evidence report es = []"
  by (simp add: cited_evidence_def)

text \<open>
  C29: scores of an investigation are honest. Whatever the expectation, the citations of a
  result of the graph score valid exactly when the run reached an assessment; a safe failure
  never scores as a correct diagnosis, never as sufficiently cited and never as correct and
  grounded, also when the expected root cause is \<open>UNDETERMINED\<close>; the control counts and the
  count of executed checks account for every receipt exactly once, and the duplicate and
  out-of-scope denials are disjoint parts of the denials.
\<close>

theorem scores_are_honest:
  assumes "start_ok cfg es w" and "run_graph_investigation cfg es iid name cp w = (Inr (Result res), evs, w')"
  shows "let s = score_run (res_report res) (res_evidence res) (res_receipts res) expected; c = ms_control s in
     (ms_citations_valid s \<longleftrightarrow> ir_assessment (res_report res) \<noteq> None)
     \<and> (ir_disposition (res_report res) = FAILED_SAFE \<longrightarrow> \<not> ms_diagnosis_correct s
          \<and> ms_citations_sufficient s \<noteq> Some True \<and> ms_correct_and_grounded s \<noteq> Some True)
     \<and> ef_tools_executed (ms_efficiency s) + cc_denied c + cc_unsettled c = int (length (res_receipts res))
     \<and> cc_duplicate c + cc_out_of_scope c \<le> cc_denied c"
proof -
  let ?r = "res_report res"
  let ?s = "score_run ?r (res_evidence res) (res_receipts res) expected"
  have ok: "result_ok (g_budgets cfg) res" by (rule finished_result_ok [OF assms])
  have s: "ms_citations_valid ?s = citations_are_valid ?r (res_evidence res)" "ms_control ?s = count_control ?r (res_receipts res)"
    "ef_tools_executed (ms_efficiency ?s) = ir_tools_executed ?r" "ms_diagnosis_correct ?s \<longrightarrow> ir_assessment ?r \<noteq> None"
    by (simp_all add: score_run_def Let_def)
  have "\<not> ms_diagnosis_correct ?s" "ms_citations_sufficient ?s \<noteq> Some True" "ms_correct_and_grounded ?s \<noteq> Some True"
    if "ir_disposition ?r = FAILED_SAFE"
  proof -
    have "ir_assessment ?r = None" using ok that by (simp add: result_ok_def Let_def)
    then show "\<not> ms_diagnosis_correct ?s" "ms_citations_sufficient ?s \<noteq> Some True" "ms_correct_and_grounded ?s \<noteq> Some True"
      using s(4) nothing_supported [of ?r] by (auto simp: grounded_iff sufficient_iff neq_Nil_conv)
  qed
  moreover have "ms_citations_valid ?s \<longleftrightarrow> ir_assessment ?r \<noteq> None"
    by (simp add: s valid_citations_iff [OF ok])
  moreover have "ef_tools_executed (ms_efficiency ?s) + cc_denied (ms_control ?s) + cc_unsettled (ms_control ?s)
      = int (length (res_receipts res))"
    using ok receipts_partition [of "res_receipts res" "ir_incident_id ?r" ?r]
    by (simp add: s result_ok_def Let_def receipts_ok_def)
  moreover have "cc_duplicate (ms_control ?s) + cc_out_of_scope (ms_control ?s) \<le> cc_denied (ms_control ?s)"
    by (simp add: s control_reasons_within_denials)
  ultimately show ?thesis by (simp add: Let_def)
qed

definition sample_expectation :: expected_outcome where
  "sample_expectation = \<lparr> eo_root_cause = UNDETERMINED, eo_disposition = INSUFFICIENT_EVIDENCE, eo_predicates = [] \<rparr>"

theorem scores_are_honest_witness:
  "\<exists>res evs w'. run_graph_investigation baseline_config [sample_evidence] (Some ''i'') ''m'' ''cp'' still_world
      = (Inr (Result res), evs, w')
     \<and> ms_citations_valid (score_run (res_report res) (res_evidence res) (res_receipts res) sample_expectation)"
proof (rule baseline_run)
  fix res evs w'
  assume run: "run_graph_investigation baseline_config [sample_evidence] (Some ''i'') ''m'' ''cp'' still_world
      = (Inr (Result res), evs, w')" and a: "ir_assessment (res_report res) = Some sample_diagnosis"
  have "ms_citations_valid (score_run (res_report res) (res_evidence res) (res_receipts res) sample_expectation)"
    using scores_are_honest [OF sample_start_ok(2) run, of sample_expectation] a by (simp add: Let_def)
  with run show ?thesis by blast
qed

section \<open>The printed report\<close>

abbreviation spend_line :: "string \<times> int \<times> int \<Rightarrow> string" where
  "spend_line s \<equiv> of_line (fst s) (fst (snd s)) (snd (snd s))"

definition spending :: "investigation_result \<Rightarrow> (string \<times> int \<times> int) list" where
  "spending res = (let r = res_report res; b = ir_budgets r; n = runbook_searches_executed (res_receipts res) in
     [(''Model calls'', ir_model_calls_used r, b_model_calls b + b_repairs b),
      (''Repairs'', ir_repairs_used r, b_repairs b),
      (''Diagnostic checks executed'', ir_tools_executed r - n, b_executed_tools b),
      (''Runbook searches'', n, b_runbook_searches b)])"

lemma budget_lines:
  "\<exists>rest. budget_section (res_report res) (res_receipts res) = [''## What it spent'', []] @ map spend_line (spending res) @ rest"
  by (simp add: budget_section_def spending_def Let_def)

lemma report_has_budget_section:
  "\<exists>before after. report_lines r es rs name = before @ budget_section r rs @ after"
proof -
  have "report_lines r es rs name = (report_head r name @ [[]] @ assessment_section r @ [[]] @ evidence_section r es
      @ [[]] @ guidance_section r @ [[]] @ checks_section rs @ [[]]) @ budget_section r rs
      @ ((case ir_escalation r of None \<Rightarrow> [] | Some e \<Rightarrow> [[]] @ escalation_section e)
         @ [[]] @ limitations_section r name)"
    by (simp add: report_lines_def)
  then show ?thesis by blast
qed

lemma spending_bounded:
  assumes "result_ok b res" and "(l, x, y) \<in> set (spending res)"
  shows "0 \<le> x \<and> x \<le> y"
  using assms searches_split [of "res_receipts res"]
  by (auto simp: spending_def result_ok_def Let_def receipts_ok_def)

lemma cited_is_printed:
  assumes "ir_assessment r = Some a" and "i \<in> cited_ids a" and "i \<in> ev_evidence_id ` set es"
  shows "\<exists>e \<in> set es. ev_evidence_id e = i \<and> ''- '' @ ticked i @ '' ['' @ kind_value (ev_kind e) @ ''] from ''
       @ ev_source e @ '': '' @ ev_summary e \<in> set (report_lines r es rs name)"
  using assms by (auto simp: report_lines_def evidence_section_def Let_def cited_ids_def)

text \<open>
  C31: the report printed for a result of the graph is honest about it: its four \<open>x of y\<close> lines
  follow its spending heading, in each of them \<open>0 \<le> x \<le> y\<close> (a run that used every pool fully and repaired
  is never printed as over its budget), and each evidence record the assessment cites, for or
  against, has its line with its kind, source and summary.
\<close>

theorem printed_report_is_honest:
  assumes "start_ok cfg es w" and "run_graph_investigation cfg es iid name cp w = (Inr (Result res), evs, w')"
  shows "\<exists>before after spend.
       report_lines (res_report res) (res_evidence res) (res_receipts res) model_name
         = before @ [''## What it spent'', []] @ map spend_line spend @ after
       \<and> map fst spend = [''Model calls'', ''Repairs'', ''Diagnostic checks executed'', ''Runbook searches'']
       \<and> (\<forall>(label, x, y) \<in> set spend. 0 \<le> x \<and> x \<le> y)
       \<and> (\<forall>a i. ir_assessment (res_report res) = Some a \<longrightarrow> i \<in> cited_ids a \<longrightarrow>
            (\<exists>e \<in> set (res_evidence res). ev_evidence_id e = i
              \<and> ''- '' @ ticked i @ '' ['' @ kind_value (ev_kind e) @ ''] from '' @ ev_source e @ '': '' @ ev_summary e
                 \<in> set (report_lines (res_report res) (res_evidence res) (res_receipts res) model_name)))"
proof -
  have ok: "result_ok (g_budgets cfg) res" by (rule finished_result_ok [OF assms])
  obtain before after rest where
    "report_lines (res_report res) (res_evidence res) (res_receipts res) model_name
       = before @ budget_section (res_report res) (res_receipts res) @ after"
    "budget_section (res_report res) (res_receipts res) = [''## What it spent'', []] @ map spend_line (spending res) @ rest"
    using report_has_budget_section [of "res_report res" "res_evidence res" "res_receipts res" model_name]
      budget_lines [of res] by auto
  moreover have "map fst (spending res) = [''Model calls'', ''Repairs'', ''Diagnostic checks executed'', ''Runbook searches'']"
    by (simp add: spending_def Let_def)
  moreover have "\<exists>e \<in> set (res_evidence res). ev_evidence_id e = i
         \<and> ''- '' @ ticked i @ '' ['' @ kind_value (ev_kind e) @ ''] from '' @ ev_source e @ '': '' @ ev_summary e
            \<in> set (report_lines (res_report res) (res_evidence res) (res_receipts res) model_name)"
    if "ir_assessment (res_report res) = Some a" "i \<in> cited_ids a" for a i
    using ok that by (intro cited_is_printed) (auto simp: result_ok_def Let_def)
  ultimately show ?thesis using spending_bounded [OF ok]
    by (intro exI [of _ before] exI [of _ "rest @ after"] exI [of _ "spending res"]) auto
qed

theorem printed_report_is_honest_witness:
  "\<exists>res evs w'. run_graph_investigation baseline_config [sample_evidence] (Some ''i'') ''m'' ''cp'' still_world
      = (Inr (Result res), evs, w')
     \<and> (\<exists>e \<in> set (res_evidence res). ev_evidence_id e = ''e-1'')"
proof (rule baseline_run)
  fix res evs w'
  assume run: "run_graph_investigation baseline_config [sample_evidence] (Some ''i'') ''m'' ''cp'' still_world
      = (Inr (Result res), evs, w')" and a: "ir_assessment (res_report res) = Some sample_diagnosis"
  have "''e-1'' \<in> cited_ids sample_diagnosis" by (simp add: cited_ids_def sample_diagnosis_def)
  with printed_report_is_honest [OF sample_start_ok(2) run, of "''m''"] a run show ?thesis by blast
qed

section \<open>The summary of a batch\<close>

definition in_range :: "('n \<Rightarrow> 'n \<Rightarrow> bool) \<Rightarrow> 'n range \<Rightarrow> 'n \<Rightarrow> bool" where
  "in_range le r v \<longleftrightarrow> (\<exists>lo hi. r = (Some lo, Some hi) \<and> le lo v \<and> le v hi)"

lemma foldl_extreme:
  assumes "\<And>x y. \<not> lt x y \<Longrightarrow> le y (x :: 'n)" "\<And>x y. lt x y \<Longrightarrow> le x y"
    and "\<And>x y z. le x y \<Longrightarrow> le y z \<Longrightarrow> le x z" "\<And>x. le x x"
  shows "\<forall>x \<in> set (v # vs). le (foldl (\<lambda>m x. if lt x m then x else m) v vs) x"
proof (induction vs arbitrary: v)
  case (Cons u us)
  define m where "m = (if lt u v then u else v)"
  define F where "F = foldl (\<lambda>m x. if lt x m then x else m) m us"
  have m: "le m u" "le m v" using assms by (auto simp: m_def)
  have F: "\<forall>x \<in> set (m # us). le F x" unfolding F_def by (rule Cons)
  then have "le F m" by simp
  with m have "le F u" "le F v" using assms(3) by blast+
  with F have "\<forall>x \<in> set (v # u # us). le F x" by simp
  then show ?case by (simp add: F_def m_def)
qed (use assms(4) in simp)

lemma min_max_covers_ints: "v \<in> set vs \<Longrightarrow> in_range (\<le>) (min_max (<) vs) (v :: int)"
  using foldl_extreme [of "(<) :: int \<Rightarrow> int \<Rightarrow> bool" "(\<le>)" "hd vs" "tl vs"]
    foldl_extreme [of "(>) :: int \<Rightarrow> int \<Rightarrow> bool" "(\<ge>)" "hd vs" "tl vs"]
  by (cases vs) (auto simp: in_range_def)

lemma count_if_mono: "(\<And>x. x \<in> set xs \<Longrightarrow> P x \<Longrightarrow> Q x) \<Longrightarrow> count_if P xs \<le> count_if Q xs"
  by (induction xs) (auto simp: count_if_def)

lemma count_if_le: "count_if P xs \<le> int (length xs)"
  by (simp add: count_if_def)

lemma in_known: "v \<in> set (known f rs) \<longleftrightarrow> (\<exists>r \<in> set rs. f r = Some v)"
  by (force simp: known_def)

lemma length_known: "length (known f rs) \<le> length rs"
  by (simp add: known_def)

text \<open>
  The counts of a batch summary nest and its ranges cover the batch. For every list of
  records, also ones written by an older scorer, the correct-and-grounded count is at most the
  diagnosis count and at most the sufficient count, which is at most its denominator, which is
  at most the number of records; and every record's latency, model calls, executed checks and
  known token counts lie in the printed ranges.
\<close>

theorem summary_counts_nest:
  "let s = summarize_evaluation records in
     es_correct_and_grounded_count s \<le> es_diagnosis_correct_count s
     \<and> es_correct_and_grounded_count s \<le> es_citations_sufficient_count s
     \<and> es_citations_sufficient_count s \<le> es_citations_sufficient_applicable_count s
     \<and> es_citations_sufficient_applicable_count s \<le> es_total_records s
     \<and> es_diagnosis_correct_count s \<le> es_total_records s
     \<and> es_input_tokens_known_count s \<le> es_total_records s
     \<and> (\<forall>r \<in> set records. in_range (\<le>) (es_latency_ms s) (ef_latency_ms (ms_efficiency (evr_scores r)))
          \<and> in_range (\<le>) (es_model_calls s) (ef_model_calls (ms_efficiency (evr_scores r)))
          \<and> in_range (\<le>) (es_tools_executed s) (ef_tools_executed (ms_efficiency (evr_scores r)))
          \<and> (\<forall>n. ef_input_tokens (ms_efficiency (evr_scores r)) = Some n \<longrightarrow> in_range (\<le>) (es_input_tokens s) n))"
  by (auto simp: summarize_evaluation_def Let_def sufficient_record_def in_known count_if_le length_known
      intro!: count_if_mono min_max_covers_ints)

definition sample_record :: "int \<Rightarrow> evaluation_record" where
  "sample_record latency =
     \<lparr> evr_schema_version = ''1'', evr_scorer_version = SCORER_VERSION, evr_run_key = ''k'', evr_investigation_id = ''i'',
       evr_incident_id = ''inc-1'', evr_expected = sample_expectation,
       evr_scores =
         \<lparr> ms_diagnosis_correct = True, ms_disposition_correct = True, ms_citations_valid = True,
           ms_citations_sufficient = Some True, ms_correct_and_grounded = None,
           ms_control = \<lparr> cc_denied = 0, cc_duplicate = 0, cc_out_of_scope = 0, cc_invalid_responses = 0, cc_unsettled = 0 \<rparr>,
           ms_efficiency = \<lparr> ef_latency_ms = latency, ef_model_calls = 2, ef_tools_executed = 1,
             ef_input_tokens = Some 10, ef_output_tokens = None \<rparr> \<rparr>,
       evr_git_sha = ''a'', evr_git_dirty = False,
       evr_versions = \<lparr> v_schema_version = ''1'', v_prompt_version = ''1'', v_policy_version = ''1'', v_tool_registry_version = ''1'' \<rparr>,
       evr_retrieval_mode = DISABLED, evr_runbook_corpus_version = None, evr_fixture_sha256 = ''f'', evr_model_name = ''m'',
       evr_pricing_source = ''s'', evr_pricing_verified_on = ''d'', evr_configured_ceiling_usd = Fin 1,
       evr_reserved_usd = Fin 0, evr_actual_usd = None, evr_failure_reason = None, evr_executed_tools = 2,
       evr_model_calls_budget = 4, evr_seed_name = ''evaluation'' \<rparr>"

theorem summary_counts_nest_witness:
  "in_range (\<le>) (es_latency_ms (summarize_evaluation [sample_record 5, sample_record 3])) 3
     \<and> es_citations_sufficient_count (summarize_evaluation [sample_record 5, sample_record 3]) = 0"
  using summary_counts_nest [of "[sample_record 5, sample_record 3]"]
  by (simp add: Let_def sample_record_def summarize_evaluation_def count_if_def sufficient_record_def sample_expectation_def)

end
