(* ===== verification/Telemetry.thy ===== *)
theory Telemetry
  imports ToolWrappers GraphState
begin

text \<open>
  \<open>src/causalops/telemetry.py\<close> and the result builder of \<open>evidence.py\<close> it ends in: the backends of
  the log, change and topology tools. They read the files of one run: the lines of a service's
  log, the change manifest and the topology manifest. The lab is a record of those files, the
  readings of the monotonic clock and the metric server's answers; the functions return a
  result or the exception that leaves them, and the lab with its clock advanced.

  Decoding UTF-8 and JSON text, ISO timestamps and decimal text is Python's own; the four
  decoders are fields of a record, so that every statement holds for whatever they return.
\<close>

section \<open>The lab\<close>

record decoders =
  utf8_decode :: "string \<Rightarrow> string option"
  json_loads :: "(string \<Rightarrow> json option) \<Rightarrow> (string \<Rightarrow> pyfloat option) \<Rightarrow> string \<Rightarrow> json option"
  fromisoformat :: "string \<Rightarrow> (instant \<times> bool) option"
  float_of_text :: "string \<Rightarrow> pyfloat option"

text \<open>
  \<open>json_loads\<close> takes the hooks \<open>parse_constant\<close> and \<open>parse_float\<close>, which fail where the Python
  hook raises \<open>ValueError\<close>; \<open>fromisoformat\<close> says whether the timestamp carries an offset. A file
  is its bytes, absent when it cannot be read.
\<close>

datatype http_reply = Timed_out | Unreachable | Raises exn | Body string

record lab =
  lab_log :: "string \<Rightarrow> string list option"
  lab_changes :: "string option"
  lab_topology :: "string option"
  lab_metrics :: "nat \<Rightarrow> string \<Rightarrow> http_reply"
  lab_metrics_n :: nat
  monotonic_at :: "nat \<Rightarrow> pyfloat"
  monotonic_n :: nat

definition monotonic :: "lab \<Rightarrow> pyfloat \<times> lab" where
  "monotonic x = (monotonic_at x (monotonic_n x), x\<lparr>monotonic_n := Suc (monotonic_n x)\<rparr>)"

definition executed_check ::
    "evidence_kind \<Rightarrow> string \<Rightarrow> string \<Rightarrow> json pydict \<Rightarrow> pyfloat \<Rightarrow> lab \<Rightarrow> (exn + check_outcome) \<times> lab" where
  "executed_check kind source summary payload started x =
     (case monotonic x of (finished, x') \<Rightarrow>
        (map_sum id (\<lambda>duration.
           \<lparr> co_outcome = EXECUTED, co_kind = kind, co_source = source, co_summary = summary,
             co_payload = payload, co_reason_code = None, co_duration_ms = duration \<rparr>)
          (f_to_int (f_mul_fin (f_sub finished started) 1000)), x'))"

section \<open>Reading lab files\<close>

definition reject_non_finite_json_token :: "string \<Rightarrow> json option" where
  "reject_non_finite_json_token token = None"

definition parse_finite_float :: "decoders \<Rightarrow> string \<Rightarrow> pyfloat option" where
  "parse_finite_float D text = (case float_of_text D text of
     Some value \<Rightarrow> if is_finite value then Some value else None
   | None \<Rightarrow> None)"

definition strict_loads :: "decoders \<Rightarrow> string \<Rightarrow> json option" where
  "strict_loads D = json_loads D reject_non_finite_json_token (parse_finite_float D)"

definition read_json_file :: "decoders \<Rightarrow> string option \<Rightarrow> json option" where
  "read_json_file D bytes =
     Option.bind (Option.bind bytes (utf8_decode D)) (strict_loads D)"

definition read_json_line :: "decoders \<Rightarrow> string \<Rightarrow> json pydict option" where
  "read_json_line D line = (case strict_loads D line of Some (JObj record) \<Rightarrow> Some record | _ \<Rightarrow> None)"

fun log_filter_value :: "log_filter \<Rightarrow> string" where
  "log_filter_value ERRORS_ONLY = ''errors_only''"
| "log_filter_value TIMEOUTS_ONLY = ''timeouts_only''"
| "log_filter_value POOL_EXHAUSTION = ''pool_exhaustion''"
| "log_filter_value CONFIG_RELOAD = ''config_reload''"

fun matches_filter :: "log_filter \<Rightarrow> json pydict \<Rightarrow> bool" where
  "matches_filter ERRORS_ONLY record \<longleftrightarrow> dict_get record ''severity'' = Some (JStr ''error'')"
| "matches_filter TIMEOUTS_ONLY record \<longleftrightarrow> dict_get record ''event'' = Some (JStr ''upstream_timeout'')"
| "matches_filter POOL_EXHAUSTION record \<longleftrightarrow> dict_get record ''event'' = Some (JStr ''pool_exhausted'')"
| "matches_filter CONFIG_RELOAD record \<longleftrightarrow>
     dict_get record ''event'' \<in> {Some (JStr ''config_loaded''), Some (JStr ''config_rejected_request'')}"

definition within_window :: "decoders \<Rightarrow> string \<Rightarrow> instant \<Rightarrow> instant \<Rightarrow> bool" where
  "within_window D moment start end' = (case fromisoformat D moment of
     None \<Rightarrow> False
   | Some (observed, aware) \<Rightarrow> if \<not> aware then False else start \<le> observed \<and> observed \<le> end')"

text \<open>\<open>moment = record.get("at")\<close>, a text inside the window.\<close>

definition at_within :: "decoders \<Rightarrow> json pydict \<Rightarrow> instant \<Rightarrow> instant \<Rightarrow> bool" where
  "at_within D record start end' = (case dict_get record ''at'' of
     Some (JStr moment) \<Rightarrow> within_window D moment start end' | _ \<Rightarrow> False)"

text \<open>What an f-string prints of a count, and of a text, that a payload holds under a key.\<close>

definition payload_count :: "json pydict \<Rightarrow> string \<Rightarrow> string" where
  "payload_count payload key = (case dict_get payload key of Some (JInt n) \<Rightarrow> show_int n | _ \<Rightarrow> [])"

definition payload_rows :: "json pydict \<Rightarrow> string \<Rightarrow> json list" where
  "payload_rows payload key = (case dict_get payload key of Some (JList rows) \<Rightarrow> rows | _ \<Rightarrow> [])"

abbreviation is_truncated :: "json pydict \<Rightarrow> bool" where
  "is_truncated payload \<equiv> dict_get payload ''truncated'' = Some (JBool True)"

text \<open>The texts under one key of the rows that are objects.\<close>

fun row_text :: "string \<Rightarrow> json \<Rightarrow> string option" where
  "row_text key (JObj row) = (case dict_get row key of Some (JStr s) \<Rightarrow> Some s | _ \<Rightarrow> None)"
| "row_text key _ = None"

definition row_texts :: "string \<Rightarrow> json list \<Rightarrow> string list" where
  "row_texts key rows = List.map_filter (row_text key) rows"

section \<open>Logs\<close>

definition MAX_LOG_ROWS :: int where
  "MAX_LOG_ROWS = 40"

text \<open>The records a scan of the log keeps, in file order.\<close>

definition matching_records :: "decoders \<Rightarrow> query_logs_arguments \<Rightarrow> instant \<Rightarrow> instant \<Rightarrow> string list \<Rightarrow> json pydict list" where
  "matching_records D arguments start end' raw_lines =
     filter (\<lambda>record. matches_filter (ql_log_filter arguments) record \<and> at_within D record start end')
       (List.map_filter (\<lambda>raw. Option.bind (utf8_decode D raw) (read_json_line D)) raw_lines)"

text \<open>\<open>deque(maxlen=limit)\<close>: appending to a full ring drops its oldest element.\<close>

definition ring_append :: "nat \<Rightarrow> 'a list \<Rightarrow> 'a \<Rightarrow> 'a list" where
  "ring_append limit ring v = (let r = ring @ [v] in drop (length r - limit) r)"

definition logs_payload :: "libs \<Rightarrow> query_logs_arguments \<Rightarrow> json list \<Rightarrow> nat \<Rightarrow> json pydict" where
  "logs_payload L arguments rows matched_count = (let
     payload = [(''filter'', JStr (log_filter_value (ql_log_filter arguments))),
                (''service'', JStr (ql_service arguments)),
                (''row_count'', JInt (int (length rows))),
                (''event_codes'', JStr []),
                (''truncated'', JBool (length rows < matched_count))];
     payload = trim_to_bytes (float_repr L) payload ''rows'' rows ''row_count'';
     kept_events = remdups (row_texts ''event'' (payload_rows payload ''rows''))
   in dict_set ''event_codes'' (JStr (py_join '','' (sort kept_events))) payload)"

definition logs_summary :: "query_logs_arguments \<Rightarrow> json pydict \<Rightarrow> nat \<Rightarrow> string" where
  "logs_summary arguments payload matched_count = (let
     codes = text_of payload ''event_codes'';
     truncated_note = (if is_truncated payload
       then '' (kept the newest '' @ payload_count payload ''row_count'' @ '' of '' @ show_nat matched_count @ '')''
       else [])
   in log_filter_value (ql_log_filter arguments) @ '' on '' @ ql_service arguments @ '': ''
      @ payload_count payload ''row_count'' @ '' rows, events '' @ (if codes = [] then ''none'' else codes)
      @ truncated_note)"

text \<open>A negative \<open>maxlen\<close> is refused by \<open>deque\<close>; the schema asks for at least one row.\<close>

definition run_logs_check :: "libs \<Rightarrow> decoders \<Rightarrow> query_logs_arguments \<Rightarrow> lab \<Rightarrow> (exn + check_outcome) \<times> lab" where
  "run_logs_check L D arguments x =
     (case monotonic x of (started, x1) \<Rightarrow>
      case (ql_window_start arguments, ql_window_end arguments) of
        (Some start, Some end') \<Rightarrow>
          (case lab_log x1 (ql_service arguments) of
             None \<Rightarrow> (Inr (failed_check LOG ''query_logs'' UNAVAILABLE TOOL_UNAVAILABLE
                       (''no log for '' @ ql_service arguments @ '' in this run'')), x1)
           | Some raw_lines \<Rightarrow>
               (let limit = min (ql_row_limit arguments) MAX_LOG_ROWS;
                    matched = matching_records D arguments start end' raw_lines;
                    rows = foldl (ring_append (nat limit)) [] (map JObj matched);
                    payload = logs_payload L arguments rows (length matched)
                in if limit < 0 then (Inl ValueError, x1)
                   else executed_check LOG ''query_logs''
                     (logs_summary arguments payload (length matched)) payload started x1))
      | _ \<Rightarrow> (Inl AssertionError, x1))"

section \<open>Changes\<close>

definition change_moment :: "decoders \<Rightarrow> json \<Rightarrow> instant" where
  "change_moment D entry = (case entry of
     JObj e \<Rightarrow> (case dict_get e ''at'' of
       Some (JStr moment) \<Rightarrow> (case fromisoformat D moment of Some (t, _) \<Rightarrow> t | None \<Rightarrow> 0) | _ \<Rightarrow> 0)
   | _ \<Rightarrow> 0)"

fun change_matches :: "decoders \<Rightarrow> string \<Rightarrow> instant \<Rightarrow> instant \<Rightarrow> json \<Rightarrow> bool" where
  "change_matches D service start end' (JObj entry) \<longleftrightarrow>
     dict_get entry ''service'' = Some (JStr service) \<and> at_within D entry start end'"
| "change_matches D service start end' _ \<longleftrightarrow> False"

definition changes_payload :: "libs \<Rightarrow> string \<Rightarrow> json list \<Rightarrow> json list \<Rightarrow> json pydict" where
  "changes_payload L service matched changes = (let
     payload = [(''service'', JStr service),
                (''change_count'', JInt (int (length changes))),
                (''summaries'', JStr (py_join ''; '' (row_texts ''summary'' matched))),
                (''truncated'', JBool False)];
     payload = trim_to_bytes (float_repr L) payload ''changes'' changes ''change_count''
   in dict_set ''summaries'' (JStr (py_join ''; '' (row_texts ''summary'' (payload_rows payload ''changes'')))) payload)"

text \<open>The newest end of the change texts that fits next to the prefix, and the final clamp.\<close>

definition tail_content :: "string \<Rightarrow> int \<Rightarrow> string" where
  "tail_content raw_content content_budget =
     (if content_budget \<le> 0 then []
      else if int (length raw_content) \<le> content_budget then raw_content
      else let keep = content_budget - 3 in
        if 0 < keep then ''...'' @ drop (length raw_content - nat keep) raw_content else [])"

definition clamp_summary :: "string \<Rightarrow> string" where
  "clamp_summary summary = (if 400 < length summary then take 397 summary @ ''...'' else summary)"

definition changes_summary :: "string \<Rightarrow> json pydict \<Rightarrow> nat \<Rightarrow> string" where
  "changes_summary service payload matched_count = (let
     truncated_note = (if is_truncated payload
       then '' (kept the newest '' @ payload_count payload ''change_count'' @ '' of '' @ show_nat matched_count @ '')''
       else []);
     prefix = payload_count payload ''change_count'' @ '' recent changes on '' @ service @ truncated_note;
     content = tail_content (text_of payload ''summaries'') (400 - int (length prefix) - 2)
   in clamp_summary (prefix @ (if content = [] then [] else '': '' @ content)))"

definition run_changes_check ::
    "libs \<Rightarrow> decoders \<Rightarrow> list_recent_changes_arguments \<Rightarrow> lab \<Rightarrow> (exn + check_outcome) \<times> lab" where
  "run_changes_check L D arguments x =
     (case monotonic x of (started, x1) \<Rightarrow>
      case (lc_window_start arguments, lc_window_end arguments) of
        (Some start, Some end') \<Rightarrow>
          (case read_json_file D (lab_changes x1) of
             Some (JList loaded) \<Rightarrow>
               (let matched = filter (change_matches D (lc_service arguments) start end') loaded;
                    changes = sort_key (change_moment D) matched;
                    payload = changes_payload L (lc_service arguments) matched changes
                in if \<not> fits (float_repr L) payload then (Inl AssertionError, x1)
                   else executed_check CHANGE ''list_recent_changes''
                     (changes_summary (lc_service arguments) payload (length changes)) payload started x1)
           | _ \<Rightarrow> (Inr (failed_check CHANGE ''list_recent_changes'' UNAVAILABLE TOOL_UNAVAILABLE
                     ''this run records no changes''), x1))
      | _ \<Rightarrow> (Inl AssertionError, x1))"

section \<open>Topology\<close>

definition list_field :: "json pydict \<Rightarrow> string \<Rightarrow> json list" where
  "list_field loaded key = (case dict_get loaded key of Some (JList xs) \<Rightarrow> xs | _ \<Rightarrow> [])"

definition topology_payload :: "libs \<Rightarrow> json list \<Rightarrow> json list \<Rightarrow> json pydict" where
  "topology_payload L edge_list service_list = (let
     payload = [(''services'', JList service_list),
                (''service_count'', JInt (int (length service_list))),
                (''edges'', JList edge_list),
                (''edge_count'', JInt (int (length edge_list))),
                (''truncated'', JBool False)];
     payload = trim_to_bytes (float_repr L) payload ''edges'' edge_list ''edge_count''
   in trim_to_bytes (float_repr L) payload ''services'' service_list ''service_count'')"

definition topology_summary :: "json pydict \<Rightarrow> string" where
  "topology_summary payload = payload_count payload ''edge_count'' @ '' service edges in this incident''
     @ (if is_truncated payload then '' (truncated)'' else [])"

definition run_topology_check :: "libs \<Rightarrow> decoders \<Rightarrow> get_topology_arguments \<Rightarrow> lab \<Rightarrow> (exn + check_outcome) \<times> lab" where
  "run_topology_check L D arguments x =
     (case monotonic x of (started, x1) \<Rightarrow>
      case read_json_file D (lab_topology x1) of
        Some (JObj loaded) \<Rightarrow>
          (let payload = topology_payload L (list_field loaded ''edges'') (list_field loaded ''services'')
           in if \<not> fits (float_repr L) payload then (Inl AssertionError, x1)
              else executed_check TOPOLOGY ''get_topology'' (topology_summary payload) payload started x1)
      | _ \<Rightarrow> (Inr (failed_check TOPOLOGY ''get_topology'' UNAVAILABLE TOOL_UNAVAILABLE
                ''this run records no topology''), x1))"

end
