(* ===== verification/Prometheus.thy ===== *)
theory Prometheus
  imports Telemetry
begin

text \<open>
  \<open>src/causalops/prometheus.py\<close>: the metric backend. A registered query template, one range
  query on a grid aligned with the end of the window, the untrusted answer checked into
  samples, and the result with its status. The server's answer to a URL is part of the lab: a
  time-out, a refused connection, another exception, or a body.
\<close>

section \<open>Queries\<close>

definition MAX_METRIC_SAMPLES :: nat where
  "MAX_METRIC_SAMPLES = 60"

definition METRIC_STEP_SECONDS :: int where
  "METRIC_STEP_SECONDS = 15"

fun template_value :: "metric_template \<Rightarrow> string" where
  "template_value GATEWAY_ERROR_RATE = ''gateway_error_rate''"
| "template_value GATEWAY_LATENCY_P95 = ''gateway_latency_p95''"
| "template_value DOWNSTREAM_TIMEOUT_SHARE = ''downstream_timeout_share''"
| "template_value RESOURCE_POOL_ATTEMPTS_PER_CAPACITY = ''resource_pool_attempts_per_capacity''"

definition char_in :: "char \<Rightarrow> char \<Rightarrow> char \<Rightarrow> bool" where
  "char_in lo hi c \<longleftrightarrow> (of_char lo :: nat) \<le> of_char c \<and> (of_char c :: nat) \<le> of_char hi"

definition service_char :: "char \<Rightarrow> bool" where
  "service_char c \<longleftrightarrow> char_in (CHR ''a'') (CHR ''z'') c \<or> char_in (CHR ''0'') (CHR ''9'') c \<or> c = CHR ''-''"

text \<open>
  \<open>^[a-z][a-z0-9-]{0,30}$\<close> with \<open>re.match\<close>: the \<open>$\<close> of Python also matches before one newline
  at the very end.
\<close>

definition safe_name :: "string \<Rightarrow> bool" where
  "safe_name s = (case s of [] \<Rightarrow> False
     | c # cs \<Rightarrow> char_in (CHR ''a'') (CHR ''z'') c \<and> length cs \<le> 30 \<and> list_all service_char cs)"

definition SAFE_SERVICE_NAME :: "string \<Rightarrow> bool" where
  "SAFE_SERVICE_NAME s \<longleftrightarrow> safe_name s \<or> (s \<noteq> [] \<and> last s = CHR 0x0A \<and> safe_name (butlast s))"

abbreviation dq :: string where
  "dq \<equiv> [CHR 0x22]"

definition label :: "string \<Rightarrow> string \<Rightarrow> string" where
  "label name v = name @ ''='' @ dq @ v @ dq"

fun metric_query :: "metric_template \<Rightarrow> string \<Rightarrow> string \<Rightarrow> string" where
  "metric_query GATEWAY_ERROR_RATE service incident =
     ''sum(rate(causalops_requests_total{'' @ label ''service'' service @ '','' @ label ''incident'' incident @ '',''
     @ label ''outcome'' ''error'' @ ''}[30s]))''"
| "metric_query GATEWAY_LATENCY_P95 service incident =
     ''histogram_quantile(0.95, sum by (le) (rate('' @ ''causalops_request_latency_seconds_bucket{''
     @ label ''service'' service @ '','' @ label ''incident'' incident @ ''}[1m])))''"
| "metric_query DOWNSTREAM_TIMEOUT_SHARE service incident =
     ''sum(rate(causalops_requests_total{'' @ label ''service'' service @ '','' @ label ''incident'' incident @ '',''
     @ label ''outcome'' ''timeout'' @ ''}[30s])) / '' @ ''sum(rate(causalops_requests_total{''
     @ label ''service'' service @ '','' @ label ''incident'' incident @ ''}[30s]))''"
| "metric_query RESOURCE_POOL_ATTEMPTS_PER_CAPACITY service incident =
     ''max(causalops_pool_attempts_per_capacity'' @ ''{'' @ label ''service'' service @ '','' @ label ''incident'' incident @ ''})''"

section \<open>Samples\<close>

record metric_sample =
  sample_at :: pyfloat
  sample_value :: pyfloat

text \<open>\<open>float(x)\<close> of a JSON number or text: \<open>None\<close> for \<open>ValueError\<close> and \<open>OverflowError\<close>.\<close>

definition float_of_int :: "int \<Rightarrow> pyfloat option" where
  "float_of_int i = (let v = fl (of_int i) in if is_finite v then Some v else None)"

fun number_float :: "json \<Rightarrow> pyfloat option" where
  "number_float (JBool b) = Some (Fin (if b then 1 else 0))"
| "number_float (JInt i) = float_of_int i"
| "number_float (JFloat v) = Some v"
| "number_float _ = None"

fun to_float :: "decoders \<Rightarrow> json \<Rightarrow> pyfloat option" where
  "to_float D (JStr s) = float_of_text D s"
| "to_float D v = number_float v"

fun is_number :: "json \<Rightarrow> bool" where
  "is_number (JBool _) \<longleftrightarrow> True"
| "is_number (JInt _) \<longleftrightarrow> True"
| "is_number (JFloat _) \<longleftrightarrow> True"
| "is_number _ \<longleftrightarrow> False"

fun is_text :: "json \<Rightarrow> bool" where
  "is_text (JStr _) \<longleftrightarrow> True"
| "is_text _ \<longleftrightarrow> False"

definition read_sample :: "decoders \<Rightarrow> json \<Rightarrow> metric_sample option" where
  "read_sample D pair = (case pair of
     JList [moment, reading] \<Rightarrow>
       (if \<not> is_number moment \<or> \<not> (is_text reading \<or> is_number reading) then None
        else case (to_float D moment, to_float D reading) of
          (Some t, Some v) \<Rightarrow>
            (if \<not> is_finite t \<or> \<not> is_finite v then None else Some \<lparr> sample_at = t, sample_value = v \<rparr>)
        | _ \<Rightarrow> None)
   | _ \<Rightarrow> None)"

record parsed_samples =
  ps_samples :: "metric_sample list"
  ps_raw_count :: nat
  ps_series_count :: nat

definition parse_samples :: "decoders \<Rightarrow> json \<Rightarrow> parsed_samples option" where
  "parse_samples D answered = (case answered of
     JObj a \<Rightarrow>
       (if dict_get a ''status'' \<noteq> Some (JStr ''success'') then None
        else case dict_get a ''data'' of
          Some (JObj data) \<Rightarrow>
            (case dict_get data ''result'' of
               Some (JList []) \<Rightarrow> Some \<lparr> ps_samples = [], ps_raw_count = 0, ps_series_count = 0 \<rparr>
             | Some (JList (first # rest)) \<Rightarrow>
                 (case first of
                    JObj f \<Rightarrow>
                      (case dict_get f ''values'' of
                         Some (JList values) \<Rightarrow>
                           Some \<lparr> ps_samples = List.map_filter (read_sample D) values,
                                  ps_raw_count = length values, ps_series_count = Suc (length rest) \<rparr>
                       | _ \<Rightarrow> Some \<lparr> ps_samples = [], ps_raw_count = 0, ps_series_count = Suc (length rest) \<rparr>)
                  | _ \<Rightarrow> None)
             | _ \<Rightarrow> None)
        | _ \<Rightarrow> None)
   | _ \<Rightarrow> None)"

section \<open>The range query\<close>

text \<open>Instants and durations are microseconds; \<open>timedelta // timedelta\<close> is floor division.\<close>

definition aligned_metric_window :: "instant \<Rightarrow> instant \<Rightarrow> instant \<times> instant \<times> int" where
  "aligned_metric_window window_start window_end = (let
     step = METRIC_STEP_SECONDS * 1000000;
     span = window_end - window_start;
     points = span div step
   in (window_end - points * step, window_end, step))"

definition upper_hex :: "nat \<Rightarrow> char" where
  "upper_hex n = (if n < 10 then char_of (48 + n) else char_of (55 + n))"

definition percent :: "nat \<Rightarrow> string" where
  "percent b = [CHR 0x25, upper_hex (b div 16), upper_hex (b mod 16)]"

text \<open>\<open>quote_plus\<close>: a space becomes a plus sign, a byte outside the safe set an escape.\<close>

definition quote_char :: "char \<Rightarrow> string" where
  "quote_char c = (let n = of_char c :: nat in
     if char_in (CHR ''a'') (CHR ''z'') c \<or> char_in (CHR ''A'') (CHR ''Z'') c \<or> char_in (CHR ''0'') (CHR ''9'') c
       \<or> c \<in> {CHR ''_'', CHR ''.'', CHR ''-'', CHR ''~''} then [c]
     else if c = CHR '' '' then ''+''
     else if n < 128 then percent n
     else percent (192 + n div 64) @ percent (128 + n mod 64))"

definition quote_plus :: "string \<Rightarrow> string" where
  "quote_plus s = concat (map quote_char s)"

definition urlencode :: "(string \<times> string) list \<Rightarrow> string" where
  "urlencode query = py_join ''&'' (map (\<lambda>(k, v). quote_plus k @ ''='' @ quote_plus v) query)"

definition rstrip_slash :: "string \<Rightarrow> string" where
  "rstrip_slash s = rev (dropWhile (\<lambda>c. c = CHR ''/'') (rev s))"

definition query_url :: "string \<Rightarrow> string \<Rightarrow> instant \<Rightarrow> instant \<Rightarrow> int \<Rightarrow> string" where
  "query_url base_url promql start end' step =
     rstrip_slash base_url @ ''/api/v1/query_range?'' @ urlencode
       [(''query'', promql), (''start'', isoformat start), (''end'', isoformat end'),
        (''step'', show_int (step div 1000000) @ ''s'')]"

text \<open>
  The server's answer to one request. A body that is not UTF-8 raises \<open>UnicodeDecodeError\<close>, one
  that is not JSON \<open>JSONDecodeError\<close>; here \<open>json.loads\<close> runs without hooks.
\<close>

datatype query_answer = QTimeout | QUnreachable | QNotJson | QRaises exn | QParsed "parsed_samples option"

definition plain_loads :: "decoders \<Rightarrow> string \<Rightarrow> json option" where
  "plain_loads D = json_loads D
     (\<lambda>token. if token = ''NaN'' then Some (JFloat NaN) else if token = ''Infinity'' then Some (JFloat PosInf)
        else if token = ''-Infinity'' then Some (JFloat NegInf) else None) (float_of_text D)"

definition query_prometheus :: "decoders \<Rightarrow> string \<Rightarrow> lab \<Rightarrow> query_answer \<times> lab" where
  "query_prometheus D url x =
     (case lab_metrics x (lab_metrics_n x) url of
        Timed_out \<Rightarrow> QTimeout
      | Unreachable \<Rightarrow> QUnreachable
      | Raises e \<Rightarrow> QRaises e
      | Body bytes \<Rightarrow>
          (case utf8_decode D bytes of
             None \<Rightarrow> QRaises (OtherError ''UnicodeDecodeError'')
           | Some text \<Rightarrow>
               (case plain_loads D text of
                  None \<Rightarrow> QNotJson
                | Some answered \<Rightarrow> QParsed (parse_samples D answered))),
      x\<lparr>lab_metrics_n := Suc (lab_metrics_n x)\<rparr>)"

definition fetch_metric_samples ::
    "decoders \<Rightarrow> string \<Rightarrow> string \<Rightarrow> instant \<Rightarrow> instant \<Rightarrow> lab \<Rightarrow> (exn + (check_outcome + parsed_samples)) \<times> lab" where
  "fetch_metric_samples D base_url promql window_start window_end x =
     (case aligned_metric_window window_start window_end of (start, end', step) \<Rightarrow>
      case query_prometheus D (query_url base_url promql start end' step) x of (answer, x') \<Rightarrow>
        (let unreadable = failed_check METRIC ''query_metric'' ERROR TOOL_ERROR
               ''Prometheus returned something this tool cannot read''
         in (case answer of
           QTimeout \<Rightarrow> Inr (Inl (failed_check METRIC ''query_metric'' TIMEOUT TOOL_TIMEOUT
                         ''Prometheus did not answer in time''))
         | QUnreachable \<Rightarrow> Inr (Inl (failed_check METRIC ''query_metric'' UNAVAILABLE TOOL_UNAVAILABLE
                         ''Prometheus is not reachable''))
         | QNotJson \<Rightarrow> Inr (Inl unreadable)
         | QRaises e \<Rightarrow> Inl e
         | QParsed None \<Rightarrow> Inr (Inl unreadable)
         | QParsed (Some parsed) \<Rightarrow> Inr (Inr parsed)), x'))"

section \<open>The check\<close>

datatype metric_sample_status =
    MULTIPLE_SERIES | NO_RETURNED_SERIES | NO_USABLE_SAMPLES | ALL_READINGS_DISCARDED | SAMPLED

fun status_value :: "metric_sample_status \<Rightarrow> string" where
  "status_value MULTIPLE_SERIES = ''MULTIPLE_SERIES''"
| "status_value NO_RETURNED_SERIES = ''NO_RETURNED_SERIES''"
| "status_value NO_USABLE_SAMPLES = ''NO_USABLE_SAMPLES''"
| "status_value ALL_READINGS_DISCARDED = ''ALL_READINGS_DISCARDED''"
| "status_value SAMPLED = ''SAMPLED''"

definition sample_status :: "parsed_samples \<Rightarrow> metric_sample_status" where
  "sample_status fetched =
     (if 1 < ps_series_count fetched then MULTIPLE_SERIES
      else if ps_series_count fetched = 0 then NO_RETURNED_SERIES
      else if ps_raw_count fetched = 0 then NO_USABLE_SAMPLES
      else if ps_samples fetched = [] then ALL_READINGS_DISCARDED
      else SAMPLED)"

text \<open>\<open>max(values, default=0.0)\<close>.\<close>

fun max_default :: "pyfloat list \<Rightarrow> pyfloat" where
  "max_default [] = Fin 0"
| "max_default (v # vs) = foldl f_max v vs"

definition newest_samples :: "metric_sample list \<Rightarrow> metric_sample list" where
  "newest_samples all_samples = drop (length all_samples - MAX_METRIC_SAMPLES) all_samples"

text \<open>The second component of a kept row, if it is a number.\<close>

fun kept_value :: "json \<Rightarrow> pyfloat option" where
  "kept_value (JList [t, v]) = number_float v"
| "kept_value _ = None"

definition metric_payload ::
    "libs \<Rightarrow> query_metric_arguments \<Rightarrow> string \<Rightarrow> instant \<Rightarrow> instant \<Rightarrow> parsed_samples \<Rightarrow> json pydict" where
  "metric_payload L arguments promql window_start window_end fetched = (let
     all_samples = ps_samples fetched;
     kept = newest_samples all_samples;
     rows = map (\<lambda>s. JList [JFloat (sample_at s), JFloat (sample_value s)]) kept;
     (start, end', step) = aligned_metric_window window_start window_end;
     payload =
       [(''template'', JStr (template_value (qm_template arguments))),
        (''service'', JStr (qm_service arguments)),
        (''sample_count'', JInt (int (length kept))),
        (''max_value'', JFloat (max_default (map sample_value kept))),
        (''truncated'', JBool (length kept < length all_samples)),
        (''readings_discarded'', JInt (int (ps_raw_count fetched) - int (length all_samples))),
        (''status'', JStr (status_value (sample_status fetched))),
        (''promql'', JStr promql),
        (''query_window_start'', JStr (isoformat start)),
        (''query_window_end'', JStr (isoformat end')),
        (''query_step_seconds'', JInt (step div 1000000)),
        (''grid_points'', JInt ((end' - start) div step + 1))];
     payload = trim_to_bytes (float_repr L) payload ''samples'' rows ''sample_count''
   in dict_set ''max_value''
        (JFloat (max_default (List.map_filter kept_value (payload_rows payload ''samples'')))) payload)"

definition status_note :: "parsed_samples \<Rightarrow> string" where
  "status_note fetched = (case sample_status fetched of
     MULTIPLE_SERIES \<Rightarrow> '' (multiple series returned: showing series 1 of '' @ show_nat (ps_series_count fetched)
       @ '', others not shown)''
   | NO_RETURNED_SERIES \<Rightarrow> '' (status: no series returned for this query)''
   | NO_USABLE_SAMPLES \<Rightarrow> '' (status: a series returned but had no usable samples)''
   | ALL_READINGS_DISCARDED \<Rightarrow> '' (status: every returned reading was unreadable)''
   | SAMPLED \<Rightarrow> [])"

definition payload_float :: "libs \<Rightarrow> json pydict \<Rightarrow> string \<Rightarrow> string" where
  "payload_float L payload key = (case dict_get payload key of Some (JFloat v) \<Rightarrow> float_repr L v | _ \<Rightarrow> [])"

definition metric_summary :: "libs \<Rightarrow> query_metric_arguments \<Rightarrow> json pydict \<Rightarrow> parsed_samples \<Rightarrow> string" where
  "metric_summary L arguments payload fetched = (let
     truncated_note = (if is_truncated payload
       then '' (kept the newest '' @ payload_count payload ''sample_count'' @ '' of ''
         @ show_nat (length (ps_samples fetched)) @ '')''
       else []);
     discarded_note = (if dict_get payload ''readings_discarded'' = Some (JInt 0) then []
       else '' ('' @ payload_count payload ''readings_discarded'' @ '' unreadable, discarded)'')
   in template_value (qm_template arguments) @ '' for '' @ qm_service arguments @ '': ''
      @ payload_count payload ''sample_count'' @ '' samples, peak '' @ payload_float L payload ''max_value''
      @ truncated_note @ discarded_note @ status_note fetched)"

definition run_metric_check ::
    "libs \<Rightarrow> decoders \<Rightarrow> query_metric_arguments \<Rightarrow> incident_scope \<Rightarrow> string \<Rightarrow> lab \<Rightarrow> (exn + check_outcome) \<times> lab" where
  "run_metric_check L D arguments scope base_url x =
     (if \<not> SAFE_SERVICE_NAME (qm_service arguments) then
        (Inr (failed_check METRIC ''query_metric'' ERROR TOOL_ERROR ''that service name cannot be used in a query''), x)
      else let promql = metric_query (qm_template arguments) (qm_service arguments) (sc_incident_id scope) in
        case monotonic x of (started, x1) \<Rightarrow>
        case (qm_window_start arguments, qm_window_end arguments) of
          (Some ws, Some we) \<Rightarrow>
            (case fetch_metric_samples D base_url promql ws we x1 of
               (Inl e, x2) \<Rightarrow> (Inl e, x2)
             | (Inr (Inl failed), x2) \<Rightarrow> (Inr failed, x2)
             | (Inr (Inr fetched), x2) \<Rightarrow>
                 (let payload = metric_payload L arguments promql ws we fetched
                  in executed_check METRIC ''query_metric'' (metric_summary L arguments payload fetched) payload started x2))
        | _ \<Rightarrow> (Inl AssertionError, x1))"

end
