(* ===== verification/TelemetryProps.thy ===== *)
theory TelemetryProps
  imports Prometheus GraphInv
begin

text \<open>
  The results of the lab's tool backends: which of them always fit the byte bound and the
  length of an evidence summary, what they hold, and where the log backend does not.
\<close>

section \<open>The length of printed JSON\<close>

abbreviation dump :: "(pyfloat \<Rightarrow> string) \<Rightarrow> json \<Rightarrow> string" where
  "dump fr \<equiv> json_dumps fr '', '' '': ''"

definition esc_len :: "string \<Rightarrow> nat" where
  "esc_len s = length (concat (map json_escape s))"

lemma esc_len_simps [simp]:
  "esc_len [] = 0" "esc_len (c # s) = length (json_escape c) + esc_len s" "esc_len (s @ t) = esc_len s + esc_len t"
  by (simp_all add: esc_len_def)

lemma length_json_string: "length (json_string s) = 2 + esc_len s"
  by (simp add: json_string_def esc_len_def)

lemma json_escape_bounds: "length (json_escape c) \<le> 6" "1 \<le> length (json_escape c)"
  by (simp_all add: json_escape_def Let_def)

lemma esc_len_le: "esc_len s \<le> 6 * length s"
  by (induction s) (use json_escape_bounds(1) in \<open>auto intro: add_mono\<close>)

lemma length_join: "length (py_join sep xs) = sum_list (map length xs) + length sep * (length xs - 1)"
  by (induction sep xs rule: py_join.induct) auto

lemma esc_len_join: "esc_len (py_join sep xs) = sum_list (map esc_len xs) + esc_len sep * (length xs - 1)"
  by (induction sep xs rule: py_join.induct) auto

lemma length_dump_obj:
  "length (dump fr (JObj p)) = 2 + sum_list (map (\<lambda>(k, v). length (json_string k) + 2 + length (dump fr v)) p) + 2 * (length p - 1)"
  by (simp add: length_join o_def case_prod_unfold)

lemma sum_update:
  assumes "map_of p k = Some u"
  shows "sum_list (map (\<lambda>(k, v). f k + g v) (AList.update k v p)) + g u = sum_list (map (\<lambda>(k, v). f k + g v) p) + (g v :: nat)"
  using assms by (induction p) auto

lemma length_update: "map_of p k = Some u \<Longrightarrow> length (AList.update k v p) = length p"
  by (induction p) auto

lemma length_dump_update:
  assumes "map_of p k = Some u"
  shows "length (dump fr (JObj (AList.update k v p))) + length (dump fr u) = length (dump fr (JObj p)) + length (dump fr v)"
  using sum_update [OF assms, of "\<lambda>k. length (json_string k) + 2" "\<lambda>v. length (dump fr v)" v] length_update [OF assms, of v]
  unfolding length_dump_obj by simp

lemma fits_update:
  assumes "fits fr p" and "map_of p k = Some u" and "length (dump fr v) \<le> length (dump fr u)"
  shows "fits fr (AList.update k v p)"
  using length_dump_update [OF assms(2), of fr v] assms(1,3) by (simp only: fits_def)

text \<open>An association list is determined by its keys and its lookups.\<close>

lemma dict_eq: "distinct ks \<Longrightarrow> dict_keys p = ks \<Longrightarrow> p = map (\<lambda>k. (k, the (map_of p k))) ks"
proof (induction p arbitrary: ks)
  case (Cons a p)
  then obtain k ks' where ks: "ks = k # ks'" "fst a = k" "dict_keys p = ks'" by (cases ks) auto
  have "p = map (\<lambda>k. (k, the (map_of p k))) ks'" using Cons.IH [of ks'] Cons.prems(1) ks by simp
  moreover have "map (\<lambda>k. (k, the (map_of (a # p) k))) ks' = map (\<lambda>k. (k, the (map_of p k))) ks'"
    using Cons.prems(1) ks by (cases a) (auto intro!: map_cong)
  ultimately show ?case using ks by (cases a) simp
qed simp

lemma text_of_cut: "cut_value (Some (JStr s)) v \<Longrightarrow> v = map_of p k \<Longrightarrow> text_of p k = [] \<Longrightarrow> v = Some (JStr [])"
  by (auto simp: text_of_def)

section \<open>Texts of kept rows\<close>

lemma row_texts_append: "row_texts key (xs @ ys) = row_texts key xs @ row_texts key ys"
  by (simp add: row_texts_def map_filter_def)

lemma mset_row_texts: "mset xs = mset ys \<Longrightarrow> mset (row_texts key xs) = mset (row_texts key ys)"
  by (simp add: row_texts_def map_filter_def)

lemma esc_len_join_mono:
  assumes "suffix kept xs" and "mset xs = mset ys"
  shows "esc_len (py_join sep (row_texts key kept)) \<le> esc_len (py_join sep (row_texts key ys))"
proof -
  obtain zs where "xs = zs @ kept" using assms(1) by (auto simp: suffix_def)
  then have m: "mset (row_texts key ys) = mset (row_texts key zs @ row_texts key kept)"
    using mset_row_texts [OF assms(2), of key] by (simp only: row_texts_append)
  have len: "length (row_texts key ys) = length (row_texts key zs @ row_texts key kept)"
    using m by (rule mset_eq_length)
  have sum: "sum_list (map esc_len (row_texts key ys)) = sum_list (map esc_len (row_texts key zs @ row_texts key kept))"
    using m by (metis mset_map sum_mset_sum_list)
  have "esc_len sep * (length (row_texts key kept) - 1)
      \<le> esc_len sep * (length (row_texts key zs @ row_texts key kept) - 1)" by (rule mult_le_mono2) simp
  then have "sum_list (map esc_len (row_texts key kept)) + esc_len sep * (length (row_texts key kept) - 1)
      \<le> (sum_list (map esc_len (row_texts key zs)) + sum_list (map esc_len (row_texts key kept)))
         + esc_len sep * (length (row_texts key zs @ row_texts key kept) - 1)" by (intro add_mono) simp
  then show ?thesis unfolding esc_len_join len sum map_append sum_list.append .
qed

section \<open>Trimmed payloads\<close>

lemma trimmedD:
  assumes "trimmed fr payload rk rows ck kept t"
  shows "suffix kept rows" "map_of t rk = Some (JList kept)" "map_of t ck = Some (JInt (int (length kept)))"
    "fits fr t \<or> kept = [] \<and> (\<forall>k. text_of t k = [])" "kept \<noteq> rows \<Longrightarrow> is_truncated t"
    "map_of t ''truncated'' = Some (JBool True) \<or> map_of t ''truncated'' = map_of payload ''truncated''"
    "k \<noteq> rk \<Longrightarrow> k \<noteq> ck \<Longrightarrow> k \<noteq> ''truncated'' \<Longrightarrow> cut_value (map_of payload k) (map_of t k)"
    "k \<noteq> rk \<Longrightarrow> k \<noteq> ck \<Longrightarrow> k \<noteq> ''truncated'' \<Longrightarrow> kept \<noteq> [] \<Longrightarrow> map_of t k = map_of payload k"
    "''truncated'' \<in> set (dict_keys payload) \<Longrightarrow> dict_keys t = dict_keys (set_rows rk ck rows payload)"
  using assms unfolding trimmed_def by blast+

text \<open>A payload that does not say it was truncated was not touched.\<close>

lemma untruncated_shrink: "\<not> is_truncated (shrink_text fr p) \<Longrightarrow> shrink_text fr p = p"
proof (cases "fits fr p \<or> widest_key p = None")
  case True
  then show ?thesis by (subst shrink_text.simps) auto
next
  case False
  then obtain k where "\<not> fits fr p" "widest_key p = Some k" by auto
  then have "shrink_text fr p = shrink_text fr (halve k p)" using shrink_text.simps [of fr p] by simp
  then have "is_truncated (shrink_text fr p)" by (simp add: shrink_text_truncated get_halve)
  then show "\<not> is_truncated (shrink_text fr p) \<Longrightarrow> ?thesis" by blast
qed

lemma drop_rows_truncated:
  assumes "rk \<noteq> ''truncated''" "ck \<noteq> ''truncated''"
  shows "is_truncated p \<Longrightarrow> is_truncated (drop_rows fr rk ck rows p)"
  using assms by (induction rows arbitrary: p) auto

lemma untruncated_trim:
  assumes "rk \<noteq> ''truncated''" "ck \<noteq> ''truncated''" and "\<not> is_truncated (trim_to_bytes fr p rk rows ck)"
  shows "trim_to_bytes fr p rk rows ck = set_rows rk ck rows p"
proof -
  let ?p = "set_rows rk ck rows p"
  let ?d = "drop_rows fr rk ck rows ?p"
  have same: "trim_to_bytes fr p rk rows ck = ?d" using assms(3) unfolding trim_to_bytes_def by (rule untruncated_shrink)
  have "?d = ?p"
  proof (cases rows)
    case (Cons r rest)
    then have "?d = (if fits fr ?p then ?p else drop_rows fr rk ck rest (set_truncated (set_rows rk ck rest ?p)))" by simp
    moreover have "is_truncated (drop_rows fr rk ck rest (set_truncated q))" for q
      by (rule drop_rows_truncated [OF assms(1,2)]) simp
    ultimately show ?thesis using assms(3) unfolding same by (metis (full_types))
  qed simp
  with same show ?thesis by simp
qed

section \<open>Changes\<close>

text \<open>What the change backend's payload holds: its newest changes, their count and their texts.\<close>

lemma changes_payload_result:
  assumes "mset changes = mset matched"
  obtains kept where "suffix kept changes" "fits (float_repr L) (changes_payload L service matched changes)"
    "payload_rows (changes_payload L service matched changes) ''changes'' = kept"
    "dict_get (changes_payload L service matched changes) ''change_count'' = Some (JInt (int (length kept)))"
    "text_of (changes_payload L service matched changes) ''summaries'' = py_join ''; '' (row_texts ''summary'' kept)"
    "kept \<noteq> changes \<longrightarrow> is_truncated (changes_payload L service matched changes)"
proof -
  let ?fr = "float_repr L"
  let ?all = "py_join ''; '' (row_texts ''summary'' matched)"
  define p where "p = [(''service'', JStr service), (''change_count'', JInt (int (length changes))),
    (''summaries'', JStr ?all), (''truncated'', JBool False)]"
  define t where "t = trim_to_bytes ?fr p ''changes'' changes ''change_count''"
  obtain kept where t: "trimmed ?fr p ''changes'' changes ''change_count'' kept t"
    using trim_result [of "''changes''" "''change_count''" ?fr p changes] by (auto simp: t_def)
  let ?new = "JStr (py_join ''; '' (row_texts ''summary'' kept))"
  have get: "map_of t ''changes'' = Some (JList kept)" "map_of t ''change_count'' = Some (JInt (int (length kept)))" "suffix kept changes"
    using trimmedD(1-3) [OF t] by simp_all
  then have P: "changes_payload L service matched changes = AList.update ''summaries'' ?new t"
    by (simp add: changes_payload_def Let_def p_def [symmetric] t_def [symmetric] payload_rows_def)
  have keys: "dict_keys t = [''service'', ''change_count'', ''summaries'', ''truncated'', ''changes'']"
    using trimmedD(9) [OF t] by (simp add: p_def set_rows_def)
  have cut: "cut_value (Some (JStr ?all)) (map_of t ''summaries'')" "cut_value (Some (JStr service)) (map_of t ''service'')"
    using trimmedD(7) [OF t, of "''summaries''"] trimmedD(7) [OF t, of "''service''"] by (simp_all add: p_def)
  have old: "\<exists>s. map_of t ''summaries'' = Some (JStr s) \<and> esc_len (py_join ''; '' (row_texts ''summary'' kept)) \<le> esc_len s"
  proof (cases "kept = []")
    case True
    then show ?thesis using cut(1) by (auto simp: row_texts_def map_filter_def)
  next
    case False
    then have "map_of t ''summaries'' = Some (JStr ?all)" using trimmedD(8) [OF t, of "''summaries''"] by (simp add: p_def)
    then show ?thesis using esc_len_join_mono [OF get(3) assms] by simp
  qed
  have fit: "fits ?fr t"
  proof (rule ccontr)
    assume "\<not> fits ?fr t"
    with trimmedD(4) [OF t] have empty: "kept = []" "\<And>k. text_of t k = []" by simp_all
    obtain b where "map_of t ''truncated'' = Some (JBool b)" using trimmedD(6) [OF t] by (auto simp: p_def)
    moreover have "map_of t ''summaries'' = Some (JStr [])" "map_of t ''service'' = Some (JStr [])"
      using text_of_cut [OF cut(1) refl empty(2)] text_of_cut [OF cut(2) refl empty(2)] by simp_all
    ultimately have "t = [(''service'', JStr []), (''change_count'', JInt 0), (''summaries'', JStr []),
        (''truncated'', JBool b), (''changes'', JList [])]"
      using dict_eq [OF _ keys] get empty(1) by simp
    then have "fits ?fr t"
      by (simp add: fits_def MAX_RESULT_BYTES_def length_json_string json_escape_def Let_def show_int_def show_nat.simps)
    with \<open>\<not> fits ?fr t\<close> show False ..
  qed
  show thesis
  proof (rule that)
    show "suffix kept changes" by (rule get(3))
    show "fits ?fr (changes_payload L service matched changes)"
      using old unfolding P by (auto intro!: fits_update [OF fit] simp: length_json_string)
    show "payload_rows (changes_payload L service matched changes) ''changes'' = kept"
      unfolding P using get by (simp add: payload_rows_def)
    show "dict_get (changes_payload L service matched changes) ''change_count'' = Some (JInt (int (length kept)))"
      unfolding P using get by simp
    show "text_of (changes_payload L service matched changes) ''summaries'' = py_join ''; '' (row_texts ''summary'' kept)"
      unfolding P by (simp add: text_of_def)
    show "kept \<noteq> changes \<longrightarrow> is_truncated (changes_payload L service matched changes)"
      unfolding P using trimmedD(5) [OF t] by simp
  qed
qed

lemma clamp_summary_le: "length (clamp_summary s) \<le> 400"
  by (simp add: clamp_summary_def)

lemma changes_summary_le: "length (changes_summary service payload n) \<le> 400"
  by (simp only: changes_summary_def Let_def clamp_summary_le)

section \<open>Topology\<close>

lemma trim_fitting:
  assumes "fits fr p" and "dict_get p rk = Some (JList rows)" and "dict_get p ck = Some (JInt (int (length rows)))"
    and "rk \<noteq> ck"
  shows "trim_to_bytes fr p rk rows ck = p"
proof -
  have same: "map_of d k = Some u \<Longrightarrow> AList.update k u d = d" for d k and u :: json
    by (induction d) auto
  have "set_rows rk ck rows p = p" using assms(2-4) by (simp add: set_rows_def same)
  with assms(1) show ?thesis by (cases rows) (simp_all add: trim_to_bytes_def shrink_text_fits)
qed

lemma topology_payload_fits:
  "fits (float_repr L) (topology_payload L edges services)
   \<and> (\<exists>kept. suffix kept edges \<and> dict_get (topology_payload L edges services) ''edge_count'' = Some (JInt (int (length kept)))
        \<and> dict_get (topology_payload L edges services) ''edges'' = Some (JList kept))"
proof -
  let ?fr = "float_repr L"
  define p where "p = [(''services'', JList services), (''service_count'', JInt (int (length services))),
    (''edges'', JList edges), (''edge_count'', JInt (int (length edges))), (''truncated'', JBool False)]"
  define t where "t = trim_to_bytes ?fr p ''edges'' edges ''edge_count''"
  define u where "u = trim_to_bytes ?fr t ''services'' services ''service_count''"
  obtain es where t: "trimmed ?fr p ''edges'' edges ''edge_count'' es t"
    using trim_result [of "''edges''" "''edge_count''" ?fr p edges] by (auto simp: t_def)
  obtain ss where u: "trimmed ?fr t ''services'' services ''service_count'' ss u"
    using trim_result [of "''services''" "''service_count''" ?fr t services] by (auto simp: u_def)
  have P: "topology_payload L edges services = u" by (simp add: topology_payload_def p_def t_def u_def)
  have get: "map_of t ''edges'' = Some (JList es)" "map_of t ''edge_count'' = Some (JInt (int (length es)))" "suffix es edges"
    "map_of t ''services'' = Some (JList services)" "map_of t ''service_count'' = Some (JInt (int (length services)))"
    using trimmedD(1-3) [OF t] trimmedD(7) [OF t, of "''services''"] trimmedD(7) [OF t, of "''service_count''"]
    by (simp_all add: p_def)
  have keys: "dict_keys t = [''services'', ''service_count'', ''edges'', ''edge_count'', ''truncated'']"
    using trimmedD(9) [OF t] by (simp add: p_def set_rows_def)
  then have keys_u: "dict_keys u = [''services'', ''service_count'', ''edges'', ''edge_count'', ''truncated'']"
    using trimmedD(9) [OF u] by (simp add: set_rows_def keys_set dom_update)
  have gu: "map_of u ''edges'' = Some (JList es)" "map_of u ''edge_count'' = Some (JInt (int (length es)))"
    "map_of u ''services'' = Some (JList ss)" "map_of u ''service_count'' = Some (JInt (int (length ss)))"
    using trimmedD(2,3) [OF u] trimmedD(7) [OF u, of "''edges''"] trimmedD(7) [OF u, of "''edge_count''"] get by simp_all
  have "fits ?fr u"
  proof (cases "fits ?fr t")
    case True
    then show ?thesis unfolding u_def using get by (subst trim_fitting) auto
  next
    case False
    show ?thesis
    proof (rule ccontr)
      assume n: "\<not> fits ?fr u"
      with False trimmedD(4) [OF t] trimmedD(4) [OF u] have "es = []" "ss = []" by simp_all
      moreover have "\<exists>b. map_of u ''truncated'' = Some (JBool b)"
        using trimmedD(6) [OF t] trimmedD(6) [OF u] by (auto simp: p_def)
      then obtain b where "map_of u ''truncated'' = Some (JBool b)" ..
      ultimately have "u = [(''services'', JList []), (''service_count'', JInt 0), (''edges'', JList []),
          (''edge_count'', JInt 0), (''truncated'', JBool b)]"
        using dict_eq [OF _ keys_u] gu by simp
      then have "fits ?fr u"
        by (simp add: fits_def MAX_RESULT_BYTES_def length_json_string json_escape_def Let_def show_int_def show_nat.simps)
      with n show False ..
    qed
  qed
  then show ?thesis unfolding P using gu get(3) by blast
qed

section \<open>The steady clock\<close>

text \<open>
  What \<open>time.monotonic\<close> is documented to return: seconds that never go back, here from a
  reference point less than two to the fifty seconds ago.
\<close>

definition monotonic_ok :: "lab \<Rightarrow> bool" where
  "monotonic_ok x \<longleftrightarrow> (\<forall>n. \<exists>q. monotonic_at x n = Fin q \<and> 0 \<le> q \<and> q \<le> 2 ^ 50)
     \<and> (\<forall>m n. m \<le> n \<longrightarrow> f_le (monotonic_at x m) (monotonic_at x n))"

lemma executed_check_ok:
  assumes "monotonic_ok x" and "m \<le> monotonic_n x"
  obtains d where "0 \<le> d" "executed_check kind source summary payload (monotonic_at x m) x
      = (Inr \<lparr> co_outcome = EXECUTED, co_kind = kind, co_source = source, co_summary = summary,
           co_payload = payload, co_reason_code = None, co_duration_ms = d \<rparr>, x\<lparr>monotonic_n := Suc (monotonic_n x)\<rparr>)"
proof -
  obtain a b where ab: "monotonic_at x m = Fin a" "monotonic_at x (monotonic_n x) = Fin b" "0 \<le> a" "b \<le> 2 ^ 50"
    using assms(1) unfolding monotonic_ok_def by metis
  have "f_le (monotonic_at x m) (monotonic_at x (monotonic_n x))" using assms unfolding monotonic_ok_def by blast
  with ab have "a \<le> b" by simp
  then have d: "0 \<le> b - a" "b - a \<le> 2 ^ 50" using ab by linarith+
  obtain q where q: "fl (b - a) = Fin q" "0 \<le> q" "q \<le> 2 ^ 50" by (rule fl_bounded [OF d]) simp
  have "0 \<le> q * 1000" "q * 1000 \<le> 2 ^ 60" using q by simp_all
  then obtain r where "fl (q * 1000) = Fin r" "0 \<le> r" by (rule fl_bounded) simp
  then show thesis using ab q by (intro that [of "\<lfloor>r\<rfloor>"]) (simp_all add: executed_check_def monotonic_def f_sub_def)
qed

section \<open>Results that always fit\<close>

text \<open>A check that returned: its payload and its summary satisfy the bounds of evidence.\<close>

definition check_fits :: "libs \<Rightarrow> check_outcome \<Rightarrow> bool" where
  "check_fits L o_c \<longleftrightarrow> fits (float_repr L) (co_payload o_c) \<and> length (co_summary o_c) \<le> 400 \<and> 0 \<le> co_duration_ms o_c"

text \<open>The changes a query may return, oldest first.\<close>

definition matching_changes :: "decoders \<Rightarrow> list_recent_changes_arguments \<Rightarrow> json list \<Rightarrow> json list" where
  "matching_changes D a loaded = sort_key (change_moment D)
     (filter (change_matches D (lc_service a) (the (lc_window_start a)) (the (lc_window_end a))) loaded)"

lemma monotonic_simps: "monotonic x = (monotonic_at x (monotonic_n x), x\<lparr>monotonic_n := Suc (monotonic_n x)\<rparr>)"
  by (simp add: monotonic_def)

lemma monotonic_ok_tick: "monotonic_ok x \<Longrightarrow> monotonic_ok (x\<lparr>monotonic_n := n\<rparr>)"
  by (simp add: monotonic_ok_def)

lemma run_changes_executed:
  assumes "monotonic_ok x" and "lc_window_start a = Some s" and "lc_window_end a = Some e"
    and "read_json_file D (lab_changes x) = Some (JList loaded)"
  obtains d kept payload where "0 \<le> d" "fits (float_repr L) payload" "suffix kept (matching_changes D a loaded)"
    "fst (run_changes_check L D a x)
      = Inr \<lparr> co_outcome = EXECUTED, co_kind = CHANGE, co_source = ''list_recent_changes'',
          co_summary = changes_summary (lc_service a) payload (length (matching_changes D a loaded)),
          co_payload = payload, co_reason_code = None, co_duration_ms = d \<rparr>"
    "payload_rows payload ''changes'' = kept" "dict_get payload ''change_count'' = Some (JInt (int (length kept)))"
    "text_of payload ''summaries'' = py_join ''; '' (row_texts ''summary'' kept)"
    "kept \<noteq> matching_changes D a loaded \<longrightarrow> is_truncated payload"
proof -
  define m where "m = filter (change_matches D (lc_service a) s e) loaded"
  define c where "c = sort_key (change_moment D) m"
  define p where "p = changes_payload L (lc_service a) m c"
  let ?x = "x\<lparr>monotonic_n := Suc (monotonic_n x)\<rparr>"
  let ?o = "\<lambda>d. \<lparr> co_outcome = EXECUTED, co_kind = CHANGE, co_source = ''list_recent_changes'',
    co_summary = changes_summary (lc_service a) p (length c), co_payload = p, co_reason_code = None, co_duration_ms = d \<rparr>"
  have mc: "matching_changes D a loaded = c" using assms(2,3) by (simp add: matching_changes_def c_def m_def)
  have "mset c = mset m" by (simp add: c_def)
  then obtain kept where k: "suffix kept c" "fits (float_repr L) p" "payload_rows p ''changes'' = kept"
      "dict_get p ''change_count'' = Some (JInt (int (length kept)))"
      "text_of p ''summaries'' = py_join ''; '' (row_texts ''summary'' kept)" "kept \<noteq> c \<longrightarrow> is_truncated p"
    unfolding p_def by (rule changes_payload_result)
  have ok: "monotonic_ok ?x" "monotonic_n x \<le> monotonic_n ?x" using monotonic_ok_tick [OF assms(1)] by simp_all
  obtain d where d: "0 \<le> d" "executed_check CHANGE ''list_recent_changes''
      (changes_summary (lc_service a) p (length c)) p (monotonic_at ?x (monotonic_n x)) ?x
      = (Inr (?o d), ?x\<lparr>monotonic_n := Suc (monotonic_n ?x)\<rparr>)"
    by (rule executed_check_ok [OF ok])
  then have "fst (run_changes_check L D a x) = Inr (?o d)"
    using assms(2-4) k(2) by (simp add: run_changes_check_def monotonic_simps Let_def m_def [symmetric] c_def [symmetric] p_def [symmetric])
  then show thesis using d(1) k by (intro that [of d p kept]) (simp_all only: mc)
qed

lemma show_nat_digits: "n < 10 ^ Suc k \<Longrightarrow> length (show_nat n) \<le> Suc k"
proof (induction k arbitrary: n)
  case 0
  then show ?case by (subst show_nat.simps) simp
next
  case (Suc k)
  have "n div 10 < 10 ^ Suc k" using Suc.prems by simp
  with Suc.IH have "length (show_nat (n div 10)) \<le> Suc k" by blast
  then show ?case by (subst show_nat.simps) simp
qed

lemma kept_rows_bound:
  assumes "fits fr p" and "map_of p k = Some (JList kept)"
  shows "length kept \<le> MAX_RESULT_BYTES"
proof -
  have "length (json_string k) + 2 + length (dump fr (JList kept))
      \<in> set (map (\<lambda>(k, v). length (json_string k) + 2 + length (dump fr v)) p)"
    using map_of_SomeD [OF assms(2)] by force
  then have "length (json_string k) + 2 + length (dump fr (JList kept))
      \<le> sum_list (map (\<lambda>(k, v). length (json_string k) + 2 + length (dump fr v)) p)"
    by (rule member_le_sum_list) simp
  then have "length (dump fr (JList kept)) \<le> length (dump fr (JObj p))" unfolding length_dump_obj by linarith
  moreover have "length kept \<le> length (dump fr (JList kept))" by (simp add: length_join)
  ultimately show ?thesis using assms(1) unfolding fits_def by linarith
qed

lemma run_topology_fits:
  assumes "monotonic_ok x"
  shows "\<exists>o_c. fst (run_topology_check L D a x) = Inr o_c \<and> (co_outcome o_c = EXECUTED \<longrightarrow> check_fits L o_c)"
proof (cases "\<exists>loaded. read_json_file D (lab_topology x) = Some (JObj loaded)")
  case True
  then obtain loaded where loaded: "read_json_file D (lab_topology x) = Some (JObj loaded)" ..
  define p where "p = topology_payload L (list_field loaded ''edges'') (list_field loaded ''services'')"
  define n where "n = topology_summary p"
  obtain kept where p: "fits (float_repr L) p" "dict_get p ''edge_count'' = Some (JInt (int (length kept)))"
    "dict_get p ''edges'' = Some (JList kept)"
    using topology_payload_fits [of L "list_field loaded ''edges''" "list_field loaded ''services''"] unfolding p_def by blast
  have "length kept < 10 ^ Suc 4" using kept_rows_bound [OF p(1,3)] by (simp add: MAX_RESULT_BYTES_def)
  then have "length (show_nat (length kept)) \<le> Suc 4" by (rule show_nat_digits)
  then have n: "length n \<le> 400" by (simp add: n_def topology_summary_def payload_count_def p(2) show_int_def)
  let ?x = "x\<lparr>monotonic_n := Suc (monotonic_n x)\<rparr>"
  have ok: "monotonic_ok ?x" "monotonic_n x \<le> monotonic_n ?x" using monotonic_ok_tick [OF assms] by simp_all
  obtain d where "0 \<le> d" "executed_check TOPOLOGY ''get_topology'' n p (monotonic_at ?x (monotonic_n x)) ?x
      = (Inr \<lparr> co_outcome = EXECUTED, co_kind = TOPOLOGY, co_source = ''get_topology'', co_summary = n, co_payload = p,
           co_reason_code = None, co_duration_ms = d \<rparr>, ?x\<lparr>monotonic_n := Suc (monotonic_n ?x)\<rparr>)"
    by (rule executed_check_ok [OF ok])
  then show ?thesis using loaded p(1) n
    by (simp add: run_topology_check_def monotonic_simps Let_def p_def [symmetric] n_def [symmetric] check_fits_def)
next
  case False
  then have "fst (run_topology_check L D a x) = Inr (failed_check TOPOLOGY ''get_topology'' UNAVAILABLE TOOL_UNAVAILABLE
      ''this run records no topology'')"
    by (auto simp: run_topology_check_def monotonic_simps split: option.splits json.splits)
  then show ?thesis by (simp add: failed_check_def)
qed

text \<open>
  C33: the change and topology backends never break their bounds, whatever the manifests hold
  and however long a service name is. With a steady clock and a resolved window, neither raises
  (their final assertions cannot fail) and a result that executed fits the byte bound and the
  400 characters of an evidence summary. The changes returned are the newest of those that match
  the service and lie in the window, in order of time; their count and their joined texts
  describe exactly the changes returned, and the result says so when some were dropped.
\<close>

theorem change_and_topology_results_fit:
  assumes "monotonic_ok x" and "lc_window_start a = Some s" and "lc_window_end a = Some e"
  shows "(\<exists>o_c. fst (run_changes_check L D a x) = Inr o_c \<and> (co_outcome o_c = EXECUTED \<longrightarrow> check_fits L o_c
       \<and> (\<exists>loaded kept. read_json_file D (lab_changes x) = Some (JList loaded)
            \<and> suffix kept (matching_changes D a loaded)
            \<and> dict_get (co_payload o_c) ''change_count'' = Some (JInt (int (length kept)))
            \<and> payload_rows (co_payload o_c) ''changes'' = kept
            \<and> text_of (co_payload o_c) ''summaries'' = py_join ''; '' (row_texts ''summary'' kept)
            \<and> (kept \<noteq> matching_changes D a loaded \<longrightarrow> is_truncated (co_payload o_c)))))
     \<and> (\<exists>o_t. fst (run_topology_check L D b x) = Inr o_t \<and> (co_outcome o_t = EXECUTED \<longrightarrow> check_fits L o_t))"
proof (intro conjI run_topology_fits assms(1))
  show "\<exists>o_c. fst (run_changes_check L D a x) = Inr o_c \<and> (co_outcome o_c = EXECUTED \<longrightarrow> check_fits L o_c
       \<and> (\<exists>loaded kept. read_json_file D (lab_changes x) = Some (JList loaded)
            \<and> suffix kept (matching_changes D a loaded)
            \<and> dict_get (co_payload o_c) ''change_count'' = Some (JInt (int (length kept)))
            \<and> payload_rows (co_payload o_c) ''changes'' = kept
            \<and> text_of (co_payload o_c) ''summaries'' = py_join ''; '' (row_texts ''summary'' kept)
            \<and> (kept \<noteq> matching_changes D a loaded \<longrightarrow> is_truncated (co_payload o_c))))"
  proof (cases "\<exists>loaded. read_json_file D (lab_changes x) = Some (JList loaded)")
    case True
    then obtain loaded where loaded: "read_json_file D (lab_changes x) = Some (JList loaded)" ..
    show ?thesis
      by (rule run_changes_executed [OF assms loaded, of L])
        (simp add: loaded check_fits_def changes_summary_le)
  next
    case False
    then have "fst (run_changes_check L D a x) = Inr (failed_check CHANGE ''list_recent_changes'' UNAVAILABLE TOOL_UNAVAILABLE
        ''this run records no changes'')"
      using assms(2,3) by (auto simp: run_changes_check_def monotonic_simps split: option.splits json.splits)
    then show ?thesis by (simp add: failed_check_def)
  qed
qed

definition sample_changes_query :: list_recent_changes_arguments where
  "sample_changes_query = \<lparr> lc_service = ''orders'', lc_window_start = Some 0, lc_window_end = Some 10 \<rparr>"

definition changes_decoders :: decoders where
  "changes_decoders = \<lparr> utf8_decode = Some, json_loads = \<lambda>_ _ _. Some (JList [JObj [(''service'', JStr ''orders''), (''at'', JStr ''t'')]]),
     fromisoformat = \<lambda>_. Some (5, True), float_of_text = \<lambda>_. None \<rparr>"

definition sample_files :: lab where
  "sample_files = \<lparr> lab_log = \<lambda>_. None, lab_changes = Some ''c'', lab_topology = None, lab_metrics = \<lambda>_ _. Unreachable,
     lab_metrics_n = 0, monotonic_at = \<lambda>_. Fin 0, monotonic_n = 0 \<rparr>"

theorem change_and_topology_results_fit_witness:
  "\<exists>o_c. fst (run_changes_check sample_libs changes_decoders sample_changes_query sample_files) = Inr o_c
     \<and> co_outcome o_c = EXECUTED \<and> length (co_summary o_c) \<le> 400"
proof -
  have ok: "monotonic_ok sample_files" "lc_window_start sample_changes_query = Some 0" "lc_window_end sample_changes_query = Some 10"
    by (simp_all add: monotonic_ok_def sample_changes_query_def sample_files_def)
  have "read_json_file changes_decoders (lab_changes sample_files) = Some (JList [JObj [(''service'', JStr ''orders''), (''at'', JStr ''t'')]])"
    by (simp add: read_json_file_def strict_loads_def changes_decoders_def sample_files_def)
  then have "\<exists>o_c. fst (run_changes_check sample_libs changes_decoders sample_changes_query sample_files) = Inr o_c \<and> co_outcome o_c = EXECUTED"
    by (rule run_changes_executed [OF ok, where L = sample_libs]) simp
  with change_and_topology_results_fit [OF ok, of sample_libs changes_decoders] show ?thesis by (auto simp: check_fits_def)
qed

section \<open>Where log results do not fit\<close>

lemma executed_check_Inr:
  assumes "fst (executed_check kind source summary payload started x) = Inr o_c"
  shows "co_summary o_c = summary \<and> co_payload o_c = payload \<and> co_outcome o_c = EXECUTED"
  using assms by (cases "f_to_int (f_mul_fin (f_sub (fst (monotonic x)) started) 1000)")
    (auto simp: executed_check_def monotonic_simps)

lemma logs_summary_ge:
  "text_of payload ''event_codes'' \<noteq> [] \<Longrightarrow> length (text_of payload ''event_codes'') \<le> length (logs_summary a payload n)"
  by (simp add: logs_summary_def Let_def)

text \<open>
  C35: the log backend does not bound its summary. Its event codes come from the log and go into the
  summary uncut, so as soon as they exceed 400 characters the evidence record of the finished
  check is refused: the dispatch raises, the reservation stays unsettled, and the run ends in a
  safe failure although the check succeeded.
\<close>

theorem long_event_codes_lose_the_check:
  assumes "fst (run_logs_check L D a x) = Inr o_c" and "co_outcome o_c = EXECUTED"
    and "400 < length (text_of (co_payload o_c) ''event_codes'')"
  shows "fst (settle_check L scope rid (Check o_c) ledger w) = Inl ValidationError
     \<and> fst (snd (settle_check L scope rid (Check o_c) ledger w)) = ledger"
proof -
  have "\<exists>n. co_summary o_c = logs_summary a (co_payload o_c) n"
    using assms(1,2)
    by (auto simp: run_logs_check_def monotonic_simps failed_check_def Let_def
        split: option.splits if_splits dest!: executed_check_Inr)
  then obtain n where "co_summary o_c = logs_summary a (co_payload o_c) n" ..
  moreover have "length (text_of (co_payload o_c) ''event_codes'') \<le> length (logs_summary a (co_payload o_c) n)"
    using assms(3) by (intro logs_summary_ge) auto
  ultimately have "400 < length (co_summary o_c)" using assms(3) by simp
  then show ?thesis using assms(2)
    by (simp add: settle_check_def build_evidence_def evidence_validate_def split: prod.split)
qed

text \<open>A log of one line, whose record has an event code and a padding of given lengths.\<close>

definition sample_row :: "nat \<Rightarrow> nat \<Rightarrow> json pydict" where
  "sample_row n m = [(''severity'', JStr ''error''), (''at'', JStr ''t''), (''event'', JStr (replicate n (CHR ''e''))),
     (''pad'', JStr (replicate m (CHR ''x'')))]"

definition sample_decoders :: "nat \<Rightarrow> nat \<Rightarrow> decoders" where
  "sample_decoders n m = \<lparr> utf8_decode = Some, json_loads = \<lambda>_ _ _. Some (JObj (sample_row n m)),
     fromisoformat = \<lambda>_. Some (5, True), float_of_text = \<lambda>_. None \<rparr>"

definition sample_lab :: lab where
  "sample_lab = \<lparr> lab_log = \<lambda>_. Some [''row''], lab_changes = None, lab_topology = None, lab_metrics = \<lambda>_ _. Unreachable,
     lab_metrics_n = 0, monotonic_at = \<lambda>_. Fin 0, monotonic_n = 0 \<rparr>"

definition sample_logs_query :: query_logs_arguments where
  "sample_logs_query = \<lparr> ql_log_filter = ERRORS_ONLY, ql_service = ''orders'', ql_window_start = Some 0,
     ql_window_end = Some 10, ql_row_limit = 10 \<rparr>"

definition sample_logs_payload :: "nat \<Rightarrow> nat \<Rightarrow> string \<Rightarrow> json pydict" where
  "sample_logs_payload n m codes = [(''filter'', JStr ''errors_only''), (''service'', JStr ''orders''), (''row_count'', JInt 1),
     (''event_codes'', JStr codes), (''truncated'', JBool False), (''rows'', JList [JObj (sample_row n m)])]"

lemma sample_monotonic_ok: "monotonic_ok sample_lab"
  by (simp add: monotonic_ok_def sample_lab_def)

lemma esc_len_plain: "esc_len (replicate n (CHR ''e'')) = n" "esc_len (replicate n (CHR ''x'')) = n"
  by (induction n) (simp_all add: json_escape_def Let_def)

lemma length_sample_payload:
  "length (dump fr (JObj (sample_logs_payload n m codes))) = 169 + esc_len codes + n + m"
  by (simp add: sample_logs_payload_def sample_row_def length_json_string esc_len_plain json_escape_def Let_def show_int_def
      show_nat.simps)

lemma show_one: "show_int 1 = ''1''"
  by code_simp

lemma sample_logs_check:
  assumes "169 + n + m \<le> MAX_RESULT_BYTES" and "0 < n"
  obtains d where "fst (run_logs_check sample_libs (sample_decoders n m) sample_logs_query sample_lab) =
    Inr \<lparr> co_outcome = EXECUTED, co_kind = LOG, co_source = ''query_logs'',
      co_summary = ''errors_only on orders: 1 rows, events '' @ replicate n (CHR ''e''),
      co_payload = sample_logs_payload n m (replicate n (CHR ''e'')), co_reason_code = None, co_duration_ms = d \<rparr>"
proof -
  let ?row = "JObj (sample_row n m)"
  let ?p = "sample_logs_payload n m []"
  let ?q = "sample_logs_payload n m (replicate n (CHR ''e''))"
  have fit: "fits (float_repr sample_libs) ?p" using assms(1) by (simp add: fits_def length_sample_payload del: json_dumps.simps)
  have "trim_to_bytes (float_repr sample_libs) [(''filter'', JStr ''errors_only''), (''service'', JStr ''orders''),
      (''row_count'', JInt 1), (''event_codes'', JStr []), (''truncated'', JBool False)] ''rows'' [?row] ''row_count'' = ?p"
    using fit by (simp add: trim_to_bytes_def set_rows_def shrink_text_fits sample_logs_payload_def)
  then have payload: "logs_payload sample_libs sample_logs_query [?row] (Suc 0) = ?q"
    by (simp add: logs_payload_def sample_logs_query_def payload_rows_def sample_logs_payload_def row_texts_def map_filter_def sample_row_def)
  have rows: "matching_records (sample_decoders n m) sample_logs_query 0 10 [''row''] = [sample_row n m]"
    by (simp add: matching_records_def sample_decoders_def sample_logs_query_def read_json_line_def strict_loads_def
        map_filter_def at_within_def within_window_def sample_row_def)
  have summary: "logs_summary sample_logs_query ?q (Suc 0) = ''errors_only on orders: 1 rows, events '' @ replicate n (CHR ''e'')"
    using assms(2) by (simp add: logs_summary_def sample_logs_query_def sample_logs_payload_def text_of_def payload_count_def show_one)
  let ?x = "sample_lab\<lparr>monotonic_n := Suc (monotonic_n sample_lab)\<rparr>"
  have ok: "monotonic_ok ?x" "monotonic_n sample_lab \<le> monotonic_n ?x" using monotonic_ok_tick [OF sample_monotonic_ok] by simp_all
  obtain d where "executed_check LOG ''query_logs'' (logs_summary sample_logs_query ?q (Suc 0)) ?q (monotonic_at ?x (monotonic_n sample_lab)) ?x
      = (Inr \<lparr> co_outcome = EXECUTED, co_kind = LOG, co_source = ''query_logs'', co_summary = logs_summary sample_logs_query ?q (Suc 0),
           co_payload = ?q, co_reason_code = None, co_duration_ms = d \<rparr>, ?x\<lparr>monotonic_n := Suc (monotonic_n ?x)\<rparr>)"
    by (rule executed_check_ok [OF ok])
  moreover have "ql_window_start sample_logs_query = Some 0" "ql_window_end sample_logs_query = Some 10"
    "min (ql_row_limit sample_logs_query) MAX_LOG_ROWS = 10" "lab_log ?x (ql_service sample_logs_query) = Some [''row'']"
    by (simp_all add: sample_logs_query_def sample_lab_def MAX_LOG_ROWS_def)
  ultimately show thesis using payload
    by (intro that [of d]) (simp add: run_logs_check_def monotonic_simps rows Let_def ring_append_def summary)
qed

theorem long_event_codes_lose_the_check_witness:
  "\<exists>o_c. fst (run_logs_check sample_libs (sample_decoders 401 0) sample_logs_query sample_lab) = Inr o_c
     \<and> fst (settle_check sample_libs sample_scope ''r'' (Check o_c) (ledger_new 2 1) sample_world) = Inl ValidationError"
proof -
  have c: "169 + 401 + 0 \<le> MAX_RESULT_BYTES" "0 < (401 :: nat)" by (simp_all add: MAX_RESULT_BYTES_def)
  obtain d where r: "fst (run_logs_check sample_libs (sample_decoders 401 0) sample_logs_query sample_lab) =
    Inr \<lparr> co_outcome = EXECUTED, co_kind = LOG, co_source = ''query_logs'',
      co_summary = ''errors_only on orders: 1 rows, events '' @ replicate 401 (CHR ''e''),
      co_payload = sample_logs_payload 401 0 (replicate 401 (CHR ''e'')), co_reason_code = None, co_duration_ms = d \<rparr>"
    by (rule sample_logs_check [OF c])
  have "text_of (sample_logs_payload 401 0 (replicate 401 (CHR ''e''))) ''event_codes'' = replicate 401 (CHR ''e'')"
    by (simp add: sample_logs_payload_def text_of_def)
  then have "400 < length (text_of (sample_logs_payload 401 0 (replicate 401 (CHR ''e''))) ''event_codes'')"
    by simp
  with r long_event_codes_lose_the_check [OF r, of sample_scope "''r''" "ledger_new 2 1" sample_world]
  show ?thesis by simp
qed

text \<open>
  The log backend can return a result above the byte bound. The result is trimmed while its
  event codes are still empty and the codes are filled in afterwards, so a log exists whose result
  executes, has a summary short enough to be stored, and is larger than the bound that every
  tool result is meant to respect.
\<close>

theorem log_result_outgrows_byte_bound:
  "\<exists>L D a x o_c. monotonic_ok x \<and> arguments_in_schema (QueryLogsArguments a)
     \<and> fst (run_logs_check L D a x) = Inr o_c \<and> co_outcome o_c = EXECUTED
     \<and> length (co_summary o_c) \<le> 400 \<and> \<not> fits (float_repr L) (co_payload o_c)"
proof -
  have c: "169 + 300 + 11700 \<le> MAX_RESULT_BYTES" "0 < (300 :: nat)" by (simp_all add: MAX_RESULT_BYTES_def)
  obtain d where r: "fst (run_logs_check sample_libs (sample_decoders 300 11700) sample_logs_query sample_lab) =
    Inr \<lparr> co_outcome = EXECUTED, co_kind = LOG, co_source = ''query_logs'',
      co_summary = ''errors_only on orders: 1 rows, events '' @ replicate 300 (CHR ''e''),
      co_payload = sample_logs_payload 300 11700 (replicate 300 (CHR ''e'')), co_reason_code = None, co_duration_ms = d \<rparr>"
    by (rule sample_logs_check [OF c])
  have "\<not> fits (float_repr sample_libs) (sample_logs_payload 300 11700 (replicate 300 (CHR ''e'')))"
    unfolding fits_def length_sample_payload esc_len_plain by (simp add: MAX_RESULT_BYTES_def)
  moreover have "arguments_in_schema (QueryLogsArguments sample_logs_query)" by (simp add: sample_logs_query_def)
  ultimately show ?thesis using r sample_monotonic_ok
    by (intro exI [of _ sample_libs] exI [of _ "sample_decoders 300 11700"] exI [of _ sample_logs_query] exI [of _ sample_lab] exI)
      auto
qed

section \<open>Metrics\<close>

lemma aligned_window:
  assumes "s \<le> e" and "aligned_metric_window s e = (start, e', step)"
  shows "e' = e" "step = 15000000" "s \<le> start" "start < s + step" "start \<le> e" "(e - start) mod step = 0"
proof -
  have eqs: "e' = e" "step = 15000000" "start = e - (e - s) div 15000000 * 15000000"
    using assms(2) by (auto simp: aligned_metric_window_def METRIC_STEP_SECONDS_def Let_def)
  have dm: "(e - s) div 15000000 * 15000000 + (e - s) mod 15000000 = e - s" by (rule div_mult_mod_eq)
  have "0 \<le> (e - s) mod 15000000" "(e - s) mod 15000000 < 15000000" "0 \<le> (e - s) div 15000000" using assms(1) by simp_all
  with dm show "e' = e" "step = 15000000" "s \<le> start" "start < s + step" "start \<le> e" "(e - start) mod step = 0"
    unfolding eqs by simp_all
qed

lemma safe_service_chars:
  assumes "SAFE_SERVICE_NAME service" and "c \<in> set service"
  shows "service_char c \<or> c = CHR 0x0A"
proof -
  have name: "safe_name s \<Longrightarrow> c \<in> set s \<Longrightarrow> service_char c" for s
    by (auto simp: safe_name_def service_char_def list_all_iff split: list.splits)
  have "service = butlast service @ [last service]" if "service \<noteq> []" using that by simp
  with assms name show ?thesis unfolding SAFE_SERVICE_NAME_def by (metis Un_iff empty_iff set_ConsD set_append list.set(1))
qed

lemma max_default_max:
  assumes "\<forall>v \<in> set vs. is_finite v" and "v \<in> set vs"
  shows "f_le v (max_default vs) \<and> max_default vs \<in> set vs"
proof -
  have gen: "is_finite m \<Longrightarrow> \<forall>v \<in> set us. is_finite v \<Longrightarrow>
      foldl f_max m us \<in> insert m (set us) \<and> (\<forall>v \<in> insert m (set us). f_le v (foldl f_max m us))" for m us
  proof (induction us arbitrary: m)
    case (Cons u us)
    obtain a b where ab: "m = Fin a" "u = Fin b" using Cons.prems by (cases m; cases u) auto
    have fin: "is_finite (f_max m u)" by (simp add: ab f_max_def)
    have le: "f_le m (f_max m u)" "f_le u (f_max m u)" "f_max m u \<in> {m, u}" by (auto simp: ab f_max_def)
    from Cons.IH [OF fin] Cons.prems le show ?case by (auto intro: f_le_trans)
  next
    case Nil
    then show ?case by (cases m) auto
  qed
  obtain m us where "vs = m # us" using assms(2) by (cases vs) auto
  with gen [of m us] assms show ?thesis by auto
qed

definition sample_pair :: "metric_sample \<Rightarrow> json" where
  "sample_pair s = JList [JFloat (sample_at s), JFloat (sample_value s)]"

lemma kept_values: "List.map_filter kept_value (map sample_pair ss) = map sample_value ss"
  by (induction ss) (simp_all add: sample_pair_def map_filter_simps)

lemma metric_payload_result:
  obtains kept where "suffix kept (ps_samples fetched)" "length kept \<le> MAX_METRIC_SAMPLES"
    "payload_rows (metric_payload L a q s e fetched) ''samples'' = map sample_pair kept"
    "dict_get (metric_payload L a q s e fetched) ''sample_count'' = Some (JInt (int (length kept)))"
    "dict_get (metric_payload L a q s e fetched) ''max_value'' = Some (JFloat (max_default (map sample_value kept)))"
    "kept \<noteq> ps_samples fetched \<longrightarrow> is_truncated (metric_payload L a q s e fetched)"
    "dict_get (metric_payload L a q s e fetched) ''readings_discarded'' =
       Some (JInt (int (ps_raw_count fetched) - int (length (ps_samples fetched))))"
    "cut_value (Some (JStr (status_value (sample_status fetched)))) (dict_get (metric_payload L a q s e fetched) ''status'')"
    "kept \<noteq> [] \<or> \<not> is_truncated (metric_payload L a q s e fetched) \<longrightarrow>
       dict_get (metric_payload L a q s e fetched) ''status'' = Some (JStr (status_value (sample_status fetched)))"
proof -
  define n where "n = newest_samples (ps_samples fetched)"
  define p0 where "p0 = [(''template'', JStr (template_value (qm_template a))), (''service'', JStr (qm_service a)),
    (''sample_count'', JInt (int (length n))), (''max_value'', JFloat (max_default (map sample_value n))),
    (''truncated'', JBool (length n < length (ps_samples fetched))),
    (''readings_discarded'', JInt (int (ps_raw_count fetched) - int (length (ps_samples fetched)))),
    (''status'', JStr (status_value (sample_status fetched))), (''promql'', JStr q),
    (''query_window_start'', JStr (isoformat (fst (aligned_metric_window s e)))),
    (''query_window_end'', JStr (isoformat (fst (snd (aligned_metric_window s e))))),
    (''query_step_seconds'', JInt (snd (snd (aligned_metric_window s e)) div 1000000)),
    (''grid_points'', JInt ((fst (snd (aligned_metric_window s e)) - fst (aligned_metric_window s e))
       div snd (snd (aligned_metric_window s e)) + 1))]"
  define t where "t = trim_to_bytes (float_repr L) p0 ''samples'' (map sample_pair n) ''sample_count''"
  obtain rows where t: "trimmed (float_repr L) p0 ''samples'' (map sample_pair n) ''sample_count'' rows t"
    using trim_result [of "''samples''" "''sample_count''" "float_repr L" p0 "map sample_pair n"] by (auto simp: t_def)
  obtain pre where pre: "map sample_pair n = pre @ rows" using trimmedD(1) [OF t] by (auto simp: suffix_def)
  then obtain k0 kept where n: "n = k0 @ kept" "map sample_pair kept = rows" by (auto simp: map_eq_append_conv)
  have m: "metric_payload L a q s e fetched = AList.update ''max_value'' (JFloat (max_default (map sample_value kept))) t"
    using trimmedD(2) [OF t] n(2) [symmetric]
    by (simp add: metric_payload_def Let_def case_prod_unfold n_def [symmetric] sample_pair_def [symmetric] p0_def [symmetric]
        t_def [symmetric] payload_rows_def kept_values)
  have short: "suffix kept (ps_samples fetched)"
    using n(1) unfolding n_def newest_samples_def by (metis append_assoc append_take_drop_id suffix_def)
  have "length n \<le> MAX_METRIC_SAMPLES" by (simp add: n_def newest_samples_def)
  moreover have "is_truncated t" if "kept \<noteq> ps_samples fetched"
  proof (cases "k0 = []")
    case True
    with n that have "length n < length (ps_samples fetched)"
      by (metis append_Nil n_def newest_samples_def diff_le_self drop_0 length_drop le_neq_implies_less length_0_conv diff_diff_cancel diff_is_0_eq nle_le)
    then show ?thesis using trimmedD(6) [OF t] by (simp add: p0_def)
  next
    case False
    with n have "rows \<noteq> map sample_pair n" by (metis length_append length_map add_cancel_left_left length_0_conv)
    then show ?thesis by (rule trimmedD(5) [OF t])
  qed
  moreover have "map_of t ''readings_discarded'' = Some (JInt (int (ps_raw_count fetched) - int (length (ps_samples fetched))))"
    using trimmedD(7) [OF t, of "''readings_discarded''"] by (simp add: p0_def)
  moreover have "cut_value (Some (JStr (status_value (sample_status fetched)))) (map_of t ''status'')"
    using trimmedD(7) [OF t, of "''status''"] by (simp add: p0_def)
  moreover have "map_of t ''status'' = Some (JStr (status_value (sample_status fetched)))" if "kept \<noteq> []"
    using trimmedD(8) [OF t, of "''status''"] that n(2) by (auto simp: p0_def)
  moreover have "map_of t ''status'' = Some (JStr (status_value (sample_status fetched)))" if "\<not> is_truncated t"
  proof -
    have "t = set_rows ''samples'' ''sample_count'' (map sample_pair n) p0"
      using that unfolding t_def by (intro untruncated_trim) simp_all
    then show ?thesis by (simp add: p0_def)
  qed
  ultimately show thesis
    using short n(1) n(2) [symmetric] trimmedD(2,3) [OF t]
    by (intro that [of kept]) (simp_all add: m payload_rows_def, blast)
qed

lemma read_sample_finite: "read_sample D v = Some m \<Longrightarrow> is_finite (sample_value m)"
  by (auto simp: read_sample_def split: json.splits list.splits if_splits option.splits)

lemma parsed_finite:
  assumes "parse_samples D j = Some parsed" and "m \<in> set (ps_samples parsed)"
  shows "is_finite (sample_value m)"
  using assms
  by (auto simp: parse_samples_def map_filter_def split: json.splits list.splits if_splits option.splits)
    (metis read_sample_finite)

text \<open>The readings of an answer: the values of its first series.\<close>

definition first_values :: "json list \<Rightarrow> json list" where
  "first_values series = (case series of JObj f # _ \<Rightarrow>
     (case dict_get f ''values'' of Some (JList values) \<Rightarrow> values | _ \<Rightarrow> []) | _ \<Rightarrow> [])"

lemma parse_samples_series:
  assumes "parse_samples D answered = Some parsed"
  obtains (series) a data series where "answered = JObj a" "dict_get a ''status'' = Some (JStr ''success'')"
    "dict_get a ''data'' = Some (JObj data)" "dict_get data ''result'' = Some (JList series)"
    "parsed = \<lparr> ps_samples = List.map_filter (read_sample D) (first_values series),
       ps_raw_count = length (first_values series), ps_series_count = length series \<rparr>"
  using assms
  by (auto simp: parse_samples_def first_values_def map_filter_simps split: json.splits list.splits if_splits option.splits)

lemma length_map_filter: "length xs = length (List.map_filter f xs) + length (filter (\<lambda>x. f x = None) xs)"
  by (induction xs) (auto simp: map_filter_simps split: option.splits)

lemma map_filter_none: "List.map_filter f xs = [] \<longleftrightarrow> (\<forall>x \<in> set xs. f x = None)"
  by (induction xs) (auto simp: map_filter_simps split: option.splits)

lemma cut_text: "cut_value (Some (JStr st)) v \<Longrightarrow> b \<longrightarrow> v = Some (JStr st) \<Longrightarrow>
    \<exists>said. v = Some (JStr said) \<and> prefix said st \<and> (b \<longrightarrow> said = st)"
  by auto

lemma query_parsed:
  assumes "fst (query_prometheus D url x) = QParsed (Some parsed)"
  obtains (answer) bytes body answered where "lab_metrics x (lab_metrics_n x) url = Body bytes" "utf8_decode D bytes = Some body"
    "plain_loads D body = Some answered" "parse_samples D answered = Some parsed"
  using assms by (auto simp: query_prometheus_def split: http_reply.splits option.splits)

lemma fetch_parsed:
  assumes "fetch_metric_samples D url q s e x = (Inr (Inr fetched), x')"
  shows "fst (query_prometheus D (query_url url q (fst (aligned_metric_window s e)) (fst (snd (aligned_metric_window s e)))
      (snd (snd (aligned_metric_window s e)))) x) = QParsed (Some fetched)"
  using assms
  by (auto simp: fetch_metric_samples_def Let_def case_prod_unfold split: query_answer.splits option.splits)

lemma query_parsed_finite:
  assumes "fst (query_prometheus D url x) = QParsed (Some parsed)" and "m \<in> set (ps_samples parsed)"
  shows "is_finite (sample_value m)"
  using assms by (auto simp: query_prometheus_def intro: parsed_finite split: http_reply.splits option.splits)

lemma run_metric_executed:
  assumes "fst (run_metric_check L D a scope url x) = Inr o_c" and "co_outcome o_c = EXECUTED"
    and "qm_window_start a = Some s" and "qm_window_end a = Some e"
  obtains fetched where "SAFE_SERVICE_NAME (qm_service a)"
    "fst (query_prometheus D (query_url url (metric_query (qm_template a) (qm_service a) (sc_incident_id scope))
        (fst (aligned_metric_window s e)) (fst (snd (aligned_metric_window s e))) (snd (snd (aligned_metric_window s e))))
      (snd (monotonic x))) = QParsed (Some fetched)"
    "co_payload o_c = metric_payload L a (metric_query (qm_template a) (qm_service a) (sc_incident_id scope)) s e fetched"
proof -
  let ?q = "metric_query (qm_template a) (qm_service a) (sc_incident_id scope)"
  obtain r x2 where f: "fetch_metric_samples D url ?q s e (snd (monotonic x)) = (r, x2)" by force
  have safe: "SAFE_SERVICE_NAME (qm_service a)"
    using assms(1,2) by (auto simp: run_metric_check_def failed_check_def split: if_splits)
  obtain fetched where r: "r = Inr (Inr fetched)"
  proof (cases r)
    case (Inr b)
    with assms f safe that show ?thesis
      by (cases b) (auto simp: run_metric_check_def monotonic_simps Let_def fetch_metric_samples_def case_prod_unfold failed_check_def
          split: query_answer.splits option.splits)
  qed (use assms f safe in \<open>auto simp: run_metric_check_def monotonic_simps Let_def\<close>)
  have "fst (executed_check METRIC ''query_metric'' (metric_summary L a (metric_payload L a ?q s e fetched) fetched)
      (metric_payload L a ?q s e fetched) (fst (monotonic x)) x2) = Inr o_c"
    using assms f safe r by (simp add: run_metric_check_def monotonic_simps Let_def)
  then have "co_payload o_c = metric_payload L a ?q s e fetched" by (blast dest: executed_check_Inr)
  with safe show thesis using fetch_parsed f r by (intro that) auto
qed

text \<open>
  C32: an executed metric check asked one safe question inside its window and reports what it got.
  The service name it put into the query has no character that could close the label; the
  range it asked for lies in the window, ends at the window's end on a grid of fifteen seconds
  and loses less than one step of its head. The samples it returns are the newest readable ones of
  the first series of the answer, at most sixty, all finite, and counted; the peak is the largest of
  exactly these; the readings that could not be read are counted; the status says whether several
  series came, none, none with values, only unreadable ones, or real samples (it is exact when a
  sample is shown or nothing was cut away, and never more than cut short otherwise); and the result
  says so when samples were left out.
\<close>

theorem metric_result_is_honest:
  assumes "fst (run_metric_check L D a scope url x) = Inr o_c" and "co_outcome o_c = EXECUTED"
    and "qm_window_start a = Some s" and "qm_window_end a = Some e" and "s \<le> e"
  shows "\<exists>start bytes body answer data series kept. s \<le> start \<and> start < s + 15000000 \<and> start \<le> e \<and> (e - start) mod 15000000 = 0
     \<and> (\<forall>c \<in> set (qm_service a). service_char c \<or> c = CHR 0x0A)
     \<and> lab_metrics (snd (monotonic x)) (lab_metrics_n (snd (monotonic x)))
         (query_url url (metric_query (qm_template a) (qm_service a) (sc_incident_id scope)) start e 15000000) = Body bytes
     \<and> utf8_decode D bytes = Some body \<and> plain_loads D body = Some (JObj answer)
     \<and> dict_get answer ''status'' = Some (JStr ''success'') \<and> dict_get answer ''data'' = Some (JObj data)
     \<and> dict_get data ''result'' = Some (JList series)
     \<and> suffix kept (List.map_filter (read_sample D) (first_values series)) \<and> length kept \<le> MAX_METRIC_SAMPLES
     \<and> payload_rows (co_payload o_c) ''samples'' = map sample_pair kept
     \<and> dict_get (co_payload o_c) ''sample_count'' = Some (JInt (int (length kept)))
     \<and> (\<exists>peak. dict_get (co_payload o_c) ''max_value'' = Some (JFloat peak)
          \<and> (\<forall>m \<in> set kept. is_finite (sample_value m) \<and> f_le (sample_value m) peak \<and> peak \<in> sample_value ` set kept))
     \<and> dict_get (co_payload o_c) ''readings_discarded'' =
         Some (JInt (int (length (filter (\<lambda>v. read_sample D v = None) (first_values series)))))
     \<and> (let status = (if 1 < length series then ''MULTIPLE_SERIES'' else if series = [] then ''NO_RETURNED_SERIES''
            else if first_values series = [] then ''NO_USABLE_SAMPLES''
            else if \<forall>v \<in> set (first_values series). read_sample D v = None then ''ALL_READINGS_DISCARDED'' else ''SAMPLED'')
        in \<exists>said. dict_get (co_payload o_c) ''status'' = Some (JStr said) \<and> prefix said status
          \<and> (kept \<noteq> [] \<or> \<not> is_truncated (co_payload o_c) \<longrightarrow> said = status))
     \<and> (kept \<noteq> List.map_filter (read_sample D) (first_values series) \<longrightarrow> is_truncated (co_payload o_c))"
proof -
  let ?q = "metric_query (qm_template a) (qm_service a) (sc_incident_id scope)"
  obtain start e' step where w: "aligned_metric_window s e = (start, e', step)" by (metis prod_cases3)
  note al = aligned_window [OF assms(5) w]
  obtain fetched where f: "SAFE_SERVICE_NAME (qm_service a)"
    "fst (query_prometheus D (query_url url ?q
        (fst (aligned_metric_window s e)) (fst (snd (aligned_metric_window s e))) (snd (snd (aligned_metric_window s e))))
      (snd (monotonic x))) = QParsed (Some fetched)"
    "co_payload o_c = metric_payload L a ?q s e fetched"
    by (rule run_metric_executed [OF assms(1-4)])
  have url: "fst (query_prometheus D (query_url url ?q start e 15000000) (snd (monotonic x))) = QParsed (Some fetched)"
    using f(2) w al(1,2) by simp
  obtain bytes body answered where got: "lab_metrics (snd (monotonic x)) (lab_metrics_n (snd (monotonic x)))
      (query_url url ?q start e 15000000) = Body bytes" "utf8_decode D bytes = Some body"
    "plain_loads D body = Some answered" "parse_samples D answered = Some fetched"
    by (rule query_parsed [OF url])
  obtain answer data series where ser: "answered = JObj answer" "dict_get answer ''status'' = Some (JStr ''success'')"
    "dict_get answer ''data'' = Some (JObj data)" "dict_get data ''result'' = Some (JList series)"
    and fetched: "fetched = \<lparr> ps_samples = List.map_filter (read_sample D) (first_values series),
       ps_raw_count = length (first_values series), ps_series_count = length series \<rparr>"
    by (rule parse_samples_series [OF got(4)])
  let ?status = "if 1 < length series then ''MULTIPLE_SERIES'' else if series = [] then ''NO_RETURNED_SERIES''
      else if first_values series = [] then ''NO_USABLE_SAMPLES''
      else if \<forall>v \<in> set (first_values series). read_sample D v = None then ''ALL_READINGS_DISCARDED'' else ''SAMPLED''"
  have status: "status_value (sample_status fetched) = ?status"
    by (simp add: fetched sample_status_def map_filter_none)
  have discarded: "int (ps_raw_count fetched) - int (length (ps_samples fetched))
      = int (length (filter (\<lambda>v. read_sample D v = None) (first_values series)))"
    using length_map_filter [of "first_values series" "read_sample D"] by (simp add: fetched)
  obtain kept where k: "suffix kept (ps_samples fetched)" "length kept \<le> MAX_METRIC_SAMPLES"
    "payload_rows (co_payload o_c) ''samples'' = map sample_pair kept"
    "dict_get (co_payload o_c) ''sample_count'' = Some (JInt (int (length kept)))"
    "dict_get (co_payload o_c) ''max_value'' = Some (JFloat (max_default (map sample_value kept)))"
    "kept \<noteq> ps_samples fetched \<longrightarrow> is_truncated (co_payload o_c)"
    "dict_get (co_payload o_c) ''readings_discarded'' = Some (JInt (int (ps_raw_count fetched) - int (length (ps_samples fetched))))"
    "cut_value (Some (JStr ?status)) (dict_get (co_payload o_c) ''status'')"
    "kept \<noteq> [] \<or> \<not> is_truncated (co_payload o_c) \<longrightarrow> dict_get (co_payload o_c) ''status'' = Some (JStr ?status)"
    unfolding f(3) status [symmetric] by (rule metric_payload_result)
  have fin: "is_finite (sample_value m)" if "m \<in> set kept" for m
    using query_parsed_finite [OF f(2)] k(1) that by (auto dest: set_mono_suffix)
  have peak: "\<forall>m \<in> set kept. is_finite (sample_value m) \<and> f_le (sample_value m) (max_default (map sample_value kept))
      \<and> max_default (map sample_value kept) \<in> sample_value ` set kept"
    using fin max_default_max [of "map sample_value kept"] by auto
  have chars: "\<forall>c \<in> set (qm_service a). service_char c \<or> c = CHR 0x0A" using safe_service_chars [OF f(1)] by blast
  have said: "\<exists>said. dict_get (co_payload o_c) ''status'' = Some (JStr said) \<and> prefix said ?status
      \<and> (kept \<noteq> [] \<or> \<not> is_truncated (co_payload o_c) \<longrightarrow> said = ?status)"
    using k(8,9) by (rule cut_text)
  have max: "\<exists>peak. dict_get (co_payload o_c) ''max_value'' = Some (JFloat peak)
      \<and> (\<forall>m \<in> set kept. is_finite (sample_value m) \<and> f_le (sample_value m) peak \<and> peak \<in> sample_value ` set kept)"
    using k(5) peak by blast
  have unreadable: "dict_get (co_payload o_c) ''readings_discarded'' =
      Some (JInt (int (length (filter (\<lambda>v. read_sample D v = None) (first_values series)))))"
    unfolding discarded [symmetric] by (rule k(7))
  note rows = k(1,6) [unfolded fetched parsed_samples.simps]
  show ?thesis
    unfolding Let_def
    by (rule exI [of _ start], rule exI [of _ bytes], rule exI [of _ body], rule exI [of _ answer], rule exI [of _ data],
        rule exI [of _ series], rule exI [of _ kept], intro conjI)
      (fact al(3) al(4) [unfolded al(2)] al(5) al(6) [unfolded al(2)] chars got(1,2) got(3) [unfolded ser(1)] ser(2-4) rows k(2-4) max unreadable said)+
qed

definition metric_decoders :: decoders where
  "metric_decoders = \<lparr> utf8_decode = Some, json_loads = \<lambda>_ _ _. Some (JObj [(''status'', JStr ''success''),
     (''data'', JObj [(''result'', JList [JObj [(''values'', JList [JList [JFloat (Fin 1), JFloat (Fin 2)], JList [JFloat (Fin 16), JFloat NaN]])]])])]),
     fromisoformat = \<lambda>_. None, float_of_text = \<lambda>_. None \<rparr>"

definition metric_lab :: lab where
  "metric_lab = \<lparr> lab_log = \<lambda>_. None, lab_changes = None, lab_topology = None, lab_metrics = \<lambda>_ _. Body ''b'',
     lab_metrics_n = 0, monotonic_at = \<lambda>_. Fin 0, monotonic_n = 0 \<rparr>"

definition sample_metric_query :: query_metric_arguments where
  "sample_metric_query = \<lparr> qm_template = GATEWAY_ERROR_RATE, qm_service = ''orders'', qm_window_start = Some 0,
     qm_window_end = Some 20000000 \<rparr>"

lemma sample_metric_executed:
  "\<exists>o_c. fst (run_metric_check sample_libs metric_decoders sample_metric_query sample_scope ''http://p/'' metric_lab) = Inr o_c
     \<and> co_outcome o_c = EXECUTED"
proof -
  let ?x = "metric_lab\<lparr>monotonic_n := 1, lab_metrics_n := 1\<rparr>"
  have ok: "monotonic_ok ?x" "0 \<le> monotonic_n ?x" by (simp_all add: monotonic_ok_def metric_lab_def)
  have "\<exists>d y. executed_check METRIC ''query_metric'' sm p (monotonic_at ?x 0) ?x = (Inr \<lparr> co_outcome = EXECUTED, co_kind = METRIC,
      co_source = ''query_metric'', co_summary = sm, co_payload = p, co_reason_code = None, co_duration_ms = d \<rparr>, y)" for sm p
    by (rule executed_check_ok [OF ok]) blast
  moreover have "SAFE_SERVICE_NAME (qm_service sample_metric_query)" by code_simp
  moreover obtain parsed where "fetch_metric_samples metric_decoders ''http://p/''
      (metric_query (qm_template sample_metric_query) (qm_service sample_metric_query) (sc_incident_id sample_scope)) 0 20000000
      (metric_lab\<lparr>monotonic_n := Suc 0\<rparr>) = (Inr (Inr parsed), ?x)"
    by (simp add: fetch_metric_samples_def query_prometheus_def metric_lab_def metric_decoders_def plain_loads_def parse_samples_def
        case_prod_unfold Let_def)
  moreover have "qm_window_start sample_metric_query = Some 0" "qm_window_end sample_metric_query = Some 20000000"
    "monotonic metric_lab = (monotonic_at ?x 0, metric_lab\<lparr>monotonic_n := Suc 0\<rparr>)"
    by (simp_all add: sample_metric_query_def monotonic_simps metric_lab_def)
  ultimately show ?thesis unfolding run_metric_check_def Let_def by (simp del: metric_query.simps) (metis fst_conv check_outcome.select_convs(1))
qed

definition sample_values :: "json list" where
  "sample_values = [JList [JFloat (Fin 1), JFloat (Fin 2)], JList [JFloat (Fin 16), JFloat NaN]]"

lemma sample_readings: "List.map_filter (read_sample metric_decoders) sample_values = [\<lparr> sample_at = Fin 1, sample_value = Fin 2 \<rparr>]"
  "length (filter (\<lambda>v. read_sample metric_decoders v = None) sample_values) = 1"
  by (simp_all add: sample_values_def read_sample_def map_filter_simps)

theorem metric_result_is_honest_witness:
  "\<exists>o_c kept said. fst (run_metric_check sample_libs metric_decoders sample_metric_query sample_scope ''http://p/'' metric_lab) = Inr o_c
     \<and> payload_rows (co_payload o_c) ''samples'' = map sample_pair kept \<and> suffix kept [\<lparr> sample_at = Fin 1, sample_value = Fin 2 \<rparr>]
     \<and> dict_get (co_payload o_c) ''readings_discarded'' = Some (JInt 1)
     \<and> dict_get (co_payload o_c) ''status'' = Some (JStr said) \<and> prefix said ''SAMPLED''
     \<and> (kept \<noteq> [] \<or> \<not> is_truncated (co_payload o_c) \<longrightarrow> said = ''SAMPLED'')"
proof -
  obtain o_c where o: "fst (run_metric_check sample_libs metric_decoders sample_metric_query sample_scope ''http://p/'' metric_lab) = Inr o_c"
    "co_outcome o_c = EXECUTED" using sample_metric_executed by blast
  have q: "qm_window_start sample_metric_query = Some 0" "qm_window_end sample_metric_query = Some 20000000" "(0 :: int) \<le> 20000000"
    by (simp_all add: sample_metric_query_def)
  obtain kept series answer data body where got: "plain_loads metric_decoders body = Some (JObj answer)"
    "dict_get answer ''data'' = Some (JObj data)" "dict_get data ''result'' = Some (JList series)"
    and k: "suffix kept (List.map_filter (read_sample metric_decoders) (first_values series))"
      "payload_rows (co_payload o_c) ''samples'' = map sample_pair kept"
      "dict_get (co_payload o_c) ''readings_discarded'' =
         Some (JInt (int (length (filter (\<lambda>v. read_sample metric_decoders v = None) (first_values series)))))"
    and st: "let status = (if 1 < length series then ''MULTIPLE_SERIES'' else if series = [] then ''NO_RETURNED_SERIES''
            else if first_values series = [] then ''NO_USABLE_SAMPLES''
            else if \<forall>v \<in> set (first_values series). read_sample metric_decoders v = None then ''ALL_READINGS_DISCARDED'' else ''SAMPLED'')
        in \<exists>said. dict_get (co_payload o_c) ''status'' = Some (JStr said) \<and> prefix said status
          \<and> (kept \<noteq> [] \<or> \<not> is_truncated (co_payload o_c) \<longrightarrow> said = status)"
    using metric_result_is_honest [OF o q] by blast
  have ser: "first_values series = sample_values" "length series = 1" "series \<noteq> []"
    using got by (auto simp: plain_loads_def metric_decoders_def first_values_def sample_values_def)
  have some: "\<not> (\<forall>v \<in> set sample_values. read_sample metric_decoders v = None)" "sample_values \<noteq> []"
    by (simp_all add: sample_values_def read_sample_def)
  have "\<exists>said. dict_get (co_payload o_c) ''status'' = Some (JStr said) \<and> prefix said ''SAMPLED''
      \<and> (kept \<noteq> [] \<or> \<not> is_truncated (co_payload o_c) \<longrightarrow> said = ''SAMPLED'')"
    using st unfolding Let_def ser if_not_P [OF some(1)] if_not_P [OF some(2)] if_not_P [OF ser(3)] by (simp only: if_False less_irrefl)
  moreover have "suffix kept [\<lparr> sample_at = Fin 1, sample_value = Fin 2 \<rparr>]"
    "dict_get (co_payload o_c) ''readings_discarded'' = Some (JInt 1)"
    using k(1,3) unfolding ser sample_readings by simp_all
  ultimately show ?thesis using o(1) k(2) by blast
qed

end
