(* ===== verification/LiveSetup.thy ===== *)
theory LiveSetup
  imports TelemetryProps LiveModel
begin

text \<open>
  \<open>src/causalops/live_setup.py\<close>, \<open>model_profiles.py\<close> and the switch of \<open>retrieval_experiment.py\<close>:
  which provider an environment permits, the spending ceiling it configures, and the tool
  registry of an incident over the lab's backends. Then two facts that join the parts: an
  accepted ceiling admits the cheapest request, and the change and topology checks of the
  registry always settle.
\<close>

section \<open>Switches\<close>

definition ENABLE_CLAUDE_VARIABLE :: string where
  "ENABLE_CLAUDE_VARIABLE = ''ENABLE_CLAUDE''"

definition VM_EXECUTION_ENV_VARIABLE :: string where
  "VM_EXECUTION_ENV_VARIABLE = ''CAUSALOPS_EXECUTION_ENV''"

definition CANDIDATE_EVALUATION_VARIABLE :: string where
  "CANDIDATE_EVALUATION_VARIABLE = ''CAUSALOPS_CANDIDATE_EVALUATION''"

definition LIVE_EVALUATION_MAX_USD_VARIABLE :: string where
  "LIVE_EVALUATION_MAX_USD_VARIABLE = ''LIVE_EVALUATION_MAX_USD''"

definition affirmative :: "string \<Rightarrow> bool" where
  "affirmative raw \<longleftrightarrow> py_lower (py_strip raw) \<in> {''1'', ''true'', ''yes''}"

definition env_get :: "string pydict \<Rightarrow> string \<Rightarrow> string" where
  "env_get environment name = (case dict_get environment name of None \<Rightarrow> [] | Some v \<Rightarrow> v)"

definition claude_enabled :: "string pydict \<Rightarrow> bool" where
  "claude_enabled environment = (case dict_get environment ENABLE_CLAUDE_VARIABLE of
     None \<Rightarrow> True | Some raw \<Rightarrow> affirmative raw)"

definition RAG_EXPERIMENT_ENABLED_VARIABLE :: string where
  "RAG_EXPERIMENT_ENABLED_VARIABLE = ''RAG_EXPERIMENT_ENABLED''"

definition rag_experiment_enabled :: "string pydict \<Rightarrow> bool" where
  "rag_experiment_enabled environment \<longleftrightarrow> affirmative (env_get environment RAG_EXPERIMENT_ENABLED_VARIABLE)"

text \<open>\<open>ProviderDisabledError\<close>.\<close>

abbreviation ProviderDisabledError :: exn where
  "ProviderDisabledError \<equiv> OtherError ''ProviderDisabledError''"

text \<open>The two gates in front of the candidate model.\<close>

definition build_ollama_candidate_model :: "string pydict \<Rightarrow> exn + unit" where
  "build_ollama_candidate_model environment =
     (if py_lower (py_strip (env_get environment VM_EXECUTION_ENV_VARIABLE)) \<noteq> ''vm'' then Inl ProviderDisabledError
      else if \<not> affirmative (env_get environment CANDIDATE_EVALUATION_VARIABLE) then Inl ProviderDisabledError
      else Inr ())"

section \<open>The spending ceiling\<close>

definition DEFAULT_LIVE_EVALUATION_MAX_USD :: pyfloat where
  "DEFAULT_LIVE_EVALUATION_MAX_USD = Fin 5"

text \<open>The cheapest reservation is an argument; the application computes it from the real request.\<close>

definition minimum_usable_ceiling_usd :: "pyfloat \<Rightarrow> pyfloat" where
  "minimum_usable_ceiling_usd cheapest = f_add RESERVATION_CEILING_BUFFER_USD cheapest"

definition live_evaluation_ceiling_usd :: "decoders \<Rightarrow> pyfloat \<Rightarrow> string pydict \<Rightarrow> exn + pyfloat" where
  "live_evaluation_ceiling_usd D cheapest environment =
     (let raw = py_strip (env_get environment LIVE_EVALUATION_MAX_USD_VARIABLE) in
      if raw = [] then Inr DEFAULT_LIVE_EVALUATION_MAX_USD
      else case float_of_text D raw of
        None \<Rightarrow> Inl (CheckpointStoreError CEILING_MALFORMED)
      | Some v \<Rightarrow>
          if \<not> is_finite v then Inl (CheckpointStoreError CEILING_MALFORMED)
          else if f_le v (minimum_usable_ceiling_usd cheapest) then Inl (CheckpointStoreError CEILING_BELOW_RESERVATION_BUFFER)
          else Inr v)"

section \<open>The tool registry\<close>

definition DEFAULT_PROMETHEUS_URL :: string where
  "DEFAULT_PROMETHEUS_URL = ''http://127.0.0.1:9090''"

text \<open>The closures over the run's files; the wrapper has checked the type of the arguments.\<close>

fun lab_metric_check :: "libs \<Rightarrow> decoders \<Rightarrow> lab backend" where
  "lab_metric_check L D (QueryMetricArguments a) scope x =
     apfst (map_sum id Check) (run_metric_check L D a scope DEFAULT_PROMETHEUS_URL x)"
| "lab_metric_check L D _ scope x = (Inl TypeError, x)"

fun lab_logs_check :: "libs \<Rightarrow> decoders \<Rightarrow> lab backend" where
  "lab_logs_check L D (QueryLogsArguments a) scope x = apfst (map_sum id Check) (run_logs_check L D a x)"
| "lab_logs_check L D _ scope x = (Inl TypeError, x)"

fun lab_changes_check :: "libs \<Rightarrow> decoders \<Rightarrow> lab backend" where
  "lab_changes_check L D (ListRecentChangesArguments a) scope x = apfst (map_sum id Check) (run_changes_check L D a x)"
| "lab_changes_check L D _ scope x = (Inl TypeError, x)"

fun lab_topology_check :: "libs \<Rightarrow> decoders \<Rightarrow> lab backend" where
  "lab_topology_check L D (GetTopologyArguments a) scope x = apfst (map_sum id Check) (run_topology_check L D a x)"
| "lab_topology_check L D _ scope x = (Inl TypeError, x)"

text \<open>The search backend is FTS5 unless the experiment is enabled; both are outside this model.\<close>

definition build_tool_registry ::
    "libs \<Rightarrow> decoders \<Rightarrow> lab backend \<Rightarrow> lab backend \<Rightarrow> string pydict \<Rightarrow> tool_name \<Rightarrow> lab tool_wrapper option" where
  "build_tool_registry L D run_fts5 run_pinecone environment =
     dispatch_registry (lab_metric_check L D) (lab_logs_check L D) (lab_changes_check L D) (lab_topology_check L D)
       (if rag_experiment_enabled environment then run_pinecone else run_fts5)"

datatype model_choice = Replay_choice | Claude_choice

text \<open>
  \<open>build_model_and_registry\<close>: the wiring a choice gets, before any client exists. The disabled
  provider is refused before the registry, the ledger, the credential, the price and the ceiling
  are looked at, in this order.
\<close>

datatype wiring = Replay_wiring | Claude_wiring bool pricing_snapshot pyfloat

definition build_model :: "decoders \<Rightarrow> pyfloat \<Rightarrow> model_choice \<Rightarrow> string pydict \<Rightarrow> exn + wiring" where
  "build_model D cheapest choice environment = (case choice of
     Replay_choice \<Rightarrow> Inr Replay_wiring
   | Claude_choice \<Rightarrow>
       (if \<not> claude_enabled environment then Inl ProviderDisabledError
        else case resolve_live_model_pricing environment of Inl e \<Rightarrow> Inl e
        | Inr pricing \<Rightarrow> (case live_evaluation_ceiling_usd D cheapest environment of Inl e \<Rightarrow> Inl e
          | Inr ceil \<Rightarrow> Inr (Claude_wiring (py_strip (env_get environment ''ANTHROPIC_API_KEY'') \<noteq> []) pricing ceil))))"

section \<open>An accepted ceiling admits the cheapest request\<close>

text \<open>What \<open>float()\<close> returns: a value a Python float can take.\<close>

definition decimal_ok :: "decoders \<Rightarrow> bool" where
  "decimal_ok D \<longleftrightarrow> (\<forall>s v. float_of_text D s = Some v \<longrightarrow> wf_float v)"

lemma above_rounded:
  assumes "repr a" and "rnd x < a"
  shows "x \<le> a"
proof (rule ccontr)
  assume "\<not> x \<le> a"
  then have "rnd a \<le> rnd x" by (intro rnd_mono) simp
  with assms show False by simp
qed

lemma difference_admits:
  assumes "repr c" "\<bar>c\<bar> < 2 ^ 1024" "repr b" "repr q" "0 \<le> b" "0 \<le> q" "b + q \<le> c"
  shows "\<exists>d. f_sub (Fin c) (Fin b) = Fin d \<and> repr d \<and> q \<le> d \<and> \<bar>d\<bar> < 2 ^ 1024"
proof -
  have "rnd q \<le> rnd (c - b)" "rnd (c - b) \<le> rnd c" using assms by (intro rnd_mono; simp)+
  then have d: "q \<le> rnd (c - b)" "rnd (c - b) \<le> c" using assms by simp_all
  then have "\<bar>rnd (c - b)\<bar> < 2 ^ 1024" using assms by linarith
  with d show ?thesis by (auto simp: f_sub_def fl_Fin_iff)
qed

lemma accepted_ceiling_above:
  assumes "decimal_ok D" and "repr q" "0 \<le> q" "q \<le> 4"
    and "live_evaluation_ceiling_usd D (Fin q) environment = Inr ceil"
  shows "\<exists>c. ceil = Fin c \<and> repr c \<and> \<bar>c\<bar> < 2 ^ 1024 \<and> buffer + q \<le> c"
proof (cases "py_strip (env_get environment LIVE_EVALUATION_MAX_USD_VARIABLE) = []")
  case True
  then have "ceil = Fin 5"
    using assms(5) by (simp add: live_evaluation_ceiling_usd_def DEFAULT_LIVE_EVALUATION_MAX_USD_def)
  moreover have "repr 5" using repr_int [of 5] by simp
  moreover have "(5 :: rat) < 2 ^ 1024" using power_increasing [of 3 1024 "2 :: rat"] by simp
  ultimately show ?thesis using assms(4) buffer_bounds(2) by (intro exI [of _ 5]) simp
next
  case False
  then have v: "float_of_text D (py_strip (env_get environment LIVE_EVALUATION_MAX_USD_VARIABLE)) = Some ceil"
    "is_finite ceil" "\<not> f_le ceil (f_add (Fin buffer) (Fin q))"
    using assms(5)
    by (auto simp: live_evaluation_ceiling_usd_def Let_def minimum_usable_ceiling_usd_def buffer_float
        split: option.splits if_splits)
  then obtain c where c: "ceil = Fin c" "repr c" "\<bar>c\<bar> < 2 ^ 1024"
    using assms(1) by (cases ceil) (auto simp: decimal_ok_def wf_float_def)
  have "0 \<le> buffer + q" "buffer + q \<le> 2 ^ 3" using assms(3,4) buffer_bounds by simp_all
  then obtain r where "fl (buffer + q) = Fin r" by (rule fl_bounded) simp
  with v(3) c(1) have "rnd (buffer + q) < c" by (simp add: fl_Fin_iff)
  with c show ?thesis using above_rounded by blast
qed

text \<open>
  A ceiling the configuration accepts is usable. Unless the variable is absent or blank, a
  value is returned only when it is the finite number written there; and whatever ceiling is
  returned, a fresh ledger without faults admits the cheapest request under it, in binary64
  arithmetic and with the safety buffer taken off. The cheapest request is assumed to cost at
  most four dollars, far below the default ceiling.
\<close>

theorem accepted_ceiling_admits_cheapest_request:
  assumes "decimal_ok D" and "wf_float cheapest" and "f_le (Fin 0) cheapest" and "f_le cheapest (Fin 4)"
    and "live_evaluation_ceiling_usd D cheapest environment = Inr ceil"
  shows "(\<exists>row. record_reservation_before_request (\<lambda>_. False) [] key cheapest tm ceil = (Inr (row, True), [row])
       \<and> cl_reserved_usd row = cheapest)
     \<and> is_finite ceil
     \<and> (py_strip (env_get environment LIVE_EVALUATION_MAX_USD_VARIABLE) \<noteq> [] \<longrightarrow>
          float_of_text D (py_strip (env_get environment LIVE_EVALUATION_MAX_USD_VARIABLE)) = Some ceil)"
proof -
  obtain q where q: "cheapest = Fin q" "repr q" "0 \<le> q" "q \<le> 4"
    using assms(2-4) by (cases cheapest) (auto simp: wf_float_def f_le_def)
  obtain c where c: "ceil = Fin c" "repr c" "\<bar>c\<bar> < 2 ^ 1024" "buffer + q \<le> c"
    using accepted_ceiling_above [OF assms(1) q(2-4)] assms(5) q(1) by blast
  have b: "repr buffer" "0 \<le> buffer" using buffer_bounds by (simp_all add: buffer_def)
  obtain d where d: "f_sub ceil RESERVATION_CEILING_BUFFER_USD = Fin d" "repr d" "q \<le> d" "\<bar>d\<bar> < 2 ^ 1024"
    using difference_admits [OF c(2,3) b(1) q(2) b(2) q(3) c(4)] by (auto simp: c(1) buffer_float)
  have gate: "\<not> f_lt (f_sub (f_sub ceil RESERVATION_CEILING_BUFFER_USD) (spend [])) cheapest"
    using d q by (simp add: d(1) spend_def f_sub_def fl_repr)
  have amounts: "valid_amount cheapest" "valid_amount ceil" using q c b buffer_bounds by (auto simp: valid_amount_def)
  let ?row = "reserved_row key cheapest tm"
  obtain res t where run: "record_reservation_before_request (\<lambda>_. False) [] key cheapest tm ceil = (res, t)" by force
  then have "t = [?row]" using gate amounts by (simp add: reservation_eq [OF table_ok_Nil(1)])
  then have "record_reservation_before_request (\<lambda>_. False) [] key cheapest tm ceil = (Inr (?row, True), [?row])"
    using reservation_outcome [OF table_ok_Nil(1) assms(2) run] run by fastforce
  moreover have "cl_reserved_usd ?row = cheapest" by (simp add: reserved_row_def split: prod.split)
  ultimately show ?thesis using assms(5) c(1)
    by (auto simp: live_evaluation_ceiling_usd_def Let_def split: option.splits if_splits)
qed

theorem accepted_ceiling_admits_cheapest_request_witness:
  "\<exists>row. record_reservation_before_request (\<lambda>_. False) [] sample_key (Fin 1) 0 (Fin 5) = (Inr (row, True), [row])
     \<and> cl_reserved_usd row = Fin 1"
proof -
  have w: "decimal_ok (sample_decoders 0 0)" "wf_float (Fin 1)" "f_le (Fin 0) (Fin 1)" "f_le (Fin 1) (Fin 4)"
    "live_evaluation_ceiling_usd (sample_decoders 0 0) (Fin 1) [] = Inr (Fin 5)"
    using repr_int [of 1]
    by (simp_all add: decimal_ok_def sample_decoders_def wf_float_def live_evaluation_ceiling_usd_def env_get_def py_strip_def
        DEFAULT_LIVE_EVALUATION_MAX_USD_def)
  from accepted_ceiling_admits_cheapest_request [OF w] show ?thesis by blast
qed

section \<open>Checks that always settle\<close>

text \<open>
  The contract of a backend whose dispatch cannot be lost: in a lab in order it returns a result.
  When what it reads is there the result executed and has a summary evidence accepts; when not,
  it says the tool is unavailable.
\<close>

definition resolved :: "tool_arguments \<Rightarrow> bool" where
  "resolved args \<longleftrightarrow> (\<forall>ws we. arguments_window args = Some (ws, we) \<longrightarrow> ws \<noteq> None \<and> we \<noteq> None)"

text \<open>The receipt of a check and, when the check executed, the evidence that goes with it, in result and ledger.\<close>

definition settled_result :: "evidence_kind \<Rightarrow> bool \<Rightarrow> incident_scope \<Rightarrow> dispatch_result \<Rightarrow> reservation_ledger \<Rightarrow> bool" where
  "settled_result kind executed scope dr ledger \<longleftrightarrow> (let r = dr_receipt dr in rc_state r = SETTLED
     \<and> dict_get (lg_receipts ledger) (rc_receipt_id r) = Some r
     \<and> (if executed then rc_outcome r = Some EXECUTED
          \<and> (case dr_evidence dr of None \<Rightarrow> False | Some ev \<Rightarrow> ev_kind ev = kind \<and> ev_incident_id ev = sc_incident_id scope
               \<and> ev_receipt_id ev = Some (rc_receipt_id r) \<and> rc_evidence_id r = Some (ev_evidence_id ev)
               \<and> rc_result_digest r = Some (ev_content_hash ev)
               \<and> dict_get (lg_evidence ledger) (rc_receipt_id r) = Some ev)
        else rc_outcome r = Some UNAVAILABLE \<and> rc_reason_code r = Some TOOL_UNAVAILABLE \<and> rc_evidence_id r = None
          \<and> dr_evidence dr = None))"

locale settling_backend =
  fixes tool :: tool_name and kind :: evidence_kind and available :: "lab \<Rightarrow> bool" and run :: "lab backend"
  assumes returns: "monotonic_ok x \<Longrightarrow> arguments_tool args = tool \<Longrightarrow> resolved args \<Longrightarrow>
    \<exists>o_c x'. run args scope x = (Inr (Check o_c), x') \<and> 0 \<le> co_duration_ms o_c
      \<and> (if available x then co_outcome o_c = EXECUTED \<and> co_kind o_c = kind \<and> length (co_summary o_c) \<le> 400
         else co_outcome o_c = UNAVAILABLE \<and> co_reason_code o_c = Some TOOL_UNAVAILABLE)"
begin

lemma settles:
  assumes "permitted L p scope seen b ledger" and "tp_tool p = tool"
    and "ids_fresh w (known_ids ledger)" and "monotonic_ok (ext w)"
  shows "\<exists>dr seen' ledger' w'. dispatch L tool tool run p scope seen b ledger w = (Inr dr, seen', ledger', w')
     \<and> settled_result kind (available (ext w)) scope dr ledger'"
proof -
  obtain r w1 where D: "dispatch L (tp_tool p) (tp_tool p) run p scope seen b ledger w =
      (let seen' = insert (fingerprint L (effective p scope)) seen;
           ledger1 = ledger\<lparr>lg_receipts := lg_receipts ledger @ [(rc_receipt_id r, r)]\<rparr>
       in case run (effective p scope) scope (ext w) of
            (Inl e, x) \<Rightarrow> (Inl e, seen', ledger1, w1\<lparr>ext := x\<rparr>)
          | (Inr outcome, x) \<Rightarrow>
              (case settle_check L scope (rc_receipt_id r) outcome ledger1 (w1\<lparr>ext := x\<rparr>) of
                 (res, ledger2, w3) \<Rightarrow> (res, seen', ledger2, w3)))"
    and r: "rc_state r = RESERVED" "rc_receipt_id r \<notin> known_ids ledger"
    by (rule dispatch_allowed [OF assms(1,3), of run])
  have "arguments_tool (effective p scope) = tool" using assms(2) by (simp add: tp_tool_def)
  moreover have "resolved (effective p scope)"
    unfolding resolved_def by (cases "tp_arguments p") auto
  ultimately obtain o_c x where run: "run (effective p scope) scope (ext w) = (Inr (Check o_c), x)" "0 \<le> co_duration_ms o_c"
    "if available (ext w) then co_outcome o_c = EXECUTED \<and> co_kind o_c = kind \<and> length (co_summary o_c) \<le> 400
     else co_outcome o_c = UNAVAILABLE \<and> co_reason_code o_c = Some TOOL_UNAVAILABLE"
    using returns assms(4) by blast
  let ?l = "ledger\<lparr>lg_receipts := lg_receipts ledger @ [(rc_receipt_id r, r)]\<rparr>"
  have get: "dict_get (lg_receipts ?l) (rc_receipt_id r) = Some r"
    using r(2) by (simp add: map_of_eq_None_iff [THEN iffD2] map_add_def)
  have settle: "settle ?l (rc_receipt_id r) out reason (co_duration_ms o_c) dig eid ev =
      (let r' = settled_as r out reason (co_duration_ms o_c) dig eid in
       Inr (r', ?l\<lparr>lg_receipts := dict_set (rc_receipt_id r) r' (lg_receipts ?l),
         lg_evidence := (case ev of None \<Rightarrow> lg_evidence ?l | Some e \<Rightarrow> dict_set (rc_receipt_id r) e (lg_evidence ?l))\<rparr>))"
    for out reason dig eid ev
    using get r(1) run(2) unfolding Let_def settle_iff by blast
  have "\<exists>dr l' w'. settle_check L scope (rc_receipt_id r) (Check o_c) ?l v = (Inr dr, l', w')
      \<and> settled_result kind (available (ext w)) scope dr l'" for v
  proof (cases "available (ext w)")
    case True
    obtain now v1 where clk: "read_clock v = (now, v1)" by force
    obtain eid v2 where id: "new_opaque_id v1 = (eid, v2)" by force
    show ?thesis using True run(3) clk id settle
      by (simp add: settle_check_def build_evidence_def evidence_validate_def settled_result_def Let_def)
  next
    case False
    then show ?thesis using run(3) settle
      by (simp add: settle_check_def settled_result_def Let_def settled_as_def)
  qed
  then obtain dr l' w' where "settle_check L scope (rc_receipt_id r) (Check o_c) ?l (w1\<lparr>ext := x\<rparr>) = (Inr dr, l', w')"
    "settled_result kind (available (ext w)) scope dr l'" by blast
  with D run(1) assms(2) show ?thesis by simp
qed

end

lemma failed_check_quiet: "co_outcome (failed_check k s UNAVAILABLE c n) \<noteq> EXECUTED" "co_duration_ms (failed_check k s o' c n) = 0"
  by (simp_all add: failed_check_def)

text \<open>What each of the two tools needs of the run's files: a list of changes, an object for the topology.\<close>

definition changes_readable :: "decoders \<Rightarrow> lab \<Rightarrow> bool" where
  "changes_readable D x \<longleftrightarrow> (case read_json_file D (lab_changes x) of Some (JList _) \<Rightarrow> True | _ \<Rightarrow> False)"

definition topology_readable :: "decoders \<Rightarrow> lab \<Rightarrow> bool" where
  "topology_readable D x \<longleftrightarrow> (case read_json_file D (lab_topology x) of Some (JObj _) \<Rightarrow> True | _ \<Rightarrow> False)"

lemma run_changes_settles:
  assumes "monotonic_ok x" and "lc_window_start a \<noteq> None" and "lc_window_end a \<noteq> None"
  shows "\<exists>o_c. fst (run_changes_check L D a x) = Inr o_c \<and> 0 \<le> co_duration_ms o_c
     \<and> (if changes_readable D x then co_outcome o_c = EXECUTED \<and> co_kind o_c = CHANGE \<and> length (co_summary o_c) \<le> 400
        else co_outcome o_c = UNAVAILABLE \<and> co_reason_code o_c = Some TOOL_UNAVAILABLE)"
proof -
  obtain s e where w: "lc_window_start a = Some s" "lc_window_end a = Some e" using assms(2,3) by auto
  show ?thesis
  proof (cases "changes_readable D x")
    case True
    then obtain loaded where l: "read_json_file D (lab_changes x) = Some (JList loaded)"
      by (auto simp: changes_readable_def split: option.splits json.splits)
    show ?thesis by (rule run_changes_executed [OF assms(1) w l, of L]) (simp add: changes_summary_le True)
  next
    case False
    then have "fst (run_changes_check L D a x) = Inr (failed_check CHANGE ''list_recent_changes'' UNAVAILABLE TOOL_UNAVAILABLE
        ''this run records no changes'')"
      using w by (auto simp: run_changes_check_def monotonic_simps changes_readable_def split: option.splits json.splits)
    with False show ?thesis by (simp add: failed_check_def)
  qed
qed

lemma executed_check_kind: "fst (executed_check k src summary payload started x) = Inr o_c \<Longrightarrow> co_kind o_c = k"
  by (cases "f_to_int (f_mul_fin (f_sub (fst (monotonic x)) started) 1000)") (auto simp: executed_check_def monotonic_simps)

lemma run_topology_settles:
  assumes "monotonic_ok x"
  shows "\<exists>o_c. fst (run_topology_check L D a x) = Inr o_c \<and> 0 \<le> co_duration_ms o_c
     \<and> (if topology_readable D x then co_outcome o_c = EXECUTED \<and> co_kind o_c = TOPOLOGY \<and> length (co_summary o_c) \<le> 400
        else co_outcome o_c = UNAVAILABLE \<and> co_reason_code o_c = Some TOOL_UNAVAILABLE)"
proof -
  obtain o_c where o: "fst (run_topology_check L D a x) = Inr o_c" "co_outcome o_c = EXECUTED \<longrightarrow> check_fits L o_c"
    using run_topology_fits [OF assms] by blast
  show ?thesis
  proof (cases "topology_readable D x")
    case True
    with o(1) have "co_outcome o_c = EXECUTED" "co_kind o_c = TOPOLOGY"
      by (auto simp: run_topology_check_def topology_readable_def monotonic_simps Let_def split: option.splits json.splits if_splits
          dest: executed_check_Inr executed_check_kind)
    with o True show ?thesis by (auto simp: check_fits_def)
  next
    case False
    with o(1) have "o_c = failed_check TOPOLOGY ''get_topology'' UNAVAILABLE TOOL_UNAVAILABLE ''this run records no topology''"
      by (auto simp: run_topology_check_def topology_readable_def monotonic_simps split: option.splits json.splits)
    with o(1) False show ?thesis by (simp add: failed_check_def)
  qed
qed

lemma apfst_check: "fst y = Inr o_c \<Longrightarrow> \<exists>x'. apfst (map_sum id Check) y = (Inr (Check o_c), x')"
  by (cases y) simp

interpretation changes: settling_backend LIST_RECENT_CHANGES CHANGE "changes_readable D" "lab_changes_check L D" for L D
proof
  fix x args scope
  assume x: "monotonic_ok x" and t: "arguments_tool args = LIST_RECENT_CHANGES" and r: "resolved args"
  obtain a where a: "args = ListRecentChangesArguments a" using t by (cases args) auto
  have "lc_window_start a \<noteq> None" "lc_window_end a \<noteq> None" using r by (simp_all add: a resolved_def)
  from run_changes_settles [OF x this, of L D] show "\<exists>o_c x'. lab_changes_check L D args scope x = (Inr (Check o_c), x')
      \<and> 0 \<le> co_duration_ms o_c
      \<and> (if changes_readable D x then co_outcome o_c = EXECUTED \<and> co_kind o_c = CHANGE \<and> length (co_summary o_c) \<le> 400
         else co_outcome o_c = UNAVAILABLE \<and> co_reason_code o_c = Some TOOL_UNAVAILABLE)"
    unfolding a lab_changes_check.simps using apfst_check by metis
qed

interpretation topology: settling_backend GET_TOPOLOGY TOPOLOGY "topology_readable D" "lab_topology_check L D" for L D
proof
  fix x args scope
  assume x: "monotonic_ok x" and t: "arguments_tool args = GET_TOPOLOGY"
  obtain a where a: "args = GetTopologyArguments a" using t by (cases args) auto
  from run_topology_settles [OF x, of L D a] show "\<exists>o_c x'. lab_topology_check L D args scope x = (Inr (Check o_c), x')
      \<and> 0 \<le> co_duration_ms o_c
      \<and> (if topology_readable D x then co_outcome o_c = EXECUTED \<and> co_kind o_c = TOPOLOGY \<and> length (co_summary o_c) \<le> 400
         else co_outcome o_c = UNAVAILABLE \<and> co_reason_code o_c = Some TOOL_UNAVAILABLE)"
    unfolding a lab_topology_check.simps using apfst_check by metis
qed

lemma registry_wrapper:
  "build_tool_registry L D f5 pc environment LIST_RECENT_CHANGES = Some (make_wrapper LIST_RECENT_CHANGES LIST_RECENT_CHANGES (lab_changes_check L D))"
  "build_tool_registry L D f5 pc environment GET_TOPOLOGY = Some (make_wrapper GET_TOPOLOGY GET_TOPOLOGY (lab_topology_check L D))"
  by (simp_all add: build_tool_registry_def dispatch_registry_def)

text \<open>
  C34: a change or topology check of the incident's registry is never lost. Dispatching such a
  proposal when policy permits it returns a settled receipt, also in the ledger, in every
  environment and whatever the files of the run hold (of the text this model has, code points
  below 256): when the file it reads is there and decodes to a list of changes, or to an object
  for the topology, the check executed and comes with one evidence record of its kind for this
  incident, filed under the receipt, which names its id and digest; otherwise its outcome says the tool
  is unavailable and there is no evidence. No exception of the backend, of the evidence record or of
  the settlement can leave the reservation open.
\<close>

theorem change_and_topology_checks_settle:
  assumes "permitted L p scope seen b ledger" and "tp_tool p \<in> {LIST_RECENT_CHANGES, GET_TOPOLOGY}"
    and "ids_fresh w (known_ids ledger)" and "monotonic_ok (ext w)"
    and "build_tool_registry L D f5 pc environment (tp_tool p) = Some wr"
  shows "\<exists>dr seen' ledger' w'. wrapper_dispatch L wr p scope seen b ledger w = (Inr dr, seen', ledger', w')
     \<and> (if tp_tool p = GET_TOPOLOGY then settled_result TOPOLOGY (topology_readable D (ext w)) scope dr ledger'
        else settled_result CHANGE (changes_readable D (ext w)) scope dr ledger')"
  using assms(2,5) changes.settles [OF assms(1) _ assms(3,4), of L D] topology.settles [OF assms(1) _ assms(3,4), of L D]
  by (auto simp: registry_wrapper wrapper_dispatch_def make_wrapper_def)

definition listing_decoders :: decoders where
  "listing_decoders = \<lparr> utf8_decode = Some, json_loads = \<lambda>_ _ _. Some (JList []), fromisoformat = \<lambda>_. None, float_of_text = \<lambda>_. None \<rparr>"

theorem change_and_topology_checks_settle_witness:
  "\<exists>dr seen' ledger' w'. wrapper_dispatch sample_libs
       (make_wrapper LIST_RECENT_CHANGES LIST_RECENT_CHANGES (lab_changes_check sample_libs listing_decoders))
       sample_changes sample_scope {} DEFAULT_BUDGETS (ledger_new 2 1)
       \<lparr> clock_at = clock_at sample_world, clock_n = 0, event_clock_at = event_clock_at sample_world, event_clock_n = 0,
         id_at = id_at sample_world, id_n = 0, ext = sample_lab\<lparr>lab_changes := Some ''[]''\<rparr> \<rparr> = (Inr dr, seen', ledger', w')
     \<and> rc_state (dr_receipt dr) = SETTLED \<and> rc_outcome (dr_receipt dr) = Some EXECUTED
     \<and> map_option ev_kind (dr_evidence dr) = Some CHANGE"
proof -
  let ?w = "\<lparr> clock_at = clock_at sample_world, clock_n = 0, event_clock_at = event_clock_at sample_world, event_clock_n = 0,
    id_at = id_at sample_world, id_n = 0, ext = sample_lab\<lparr>lab_changes := Some ''[]''\<rparr> \<rparr>"
  have t: "tp_tool sample_changes = LIST_RECENT_CHANGES" by (simp add: tp_tool_def sample_changes_def)
  have p: "permitted sample_libs sample_changes sample_scope {} DEFAULT_BUDGETS (ledger_new 2 1)"
    by (simp add: permitted_def t sample_changes_def sample_scope_def slots_left_for_alt
        ledger_new_def spent_def window_inside_def clamp_start_def clamp_end_def)
  have f: "ids_fresh ?w (known_ids (ledger_new 2 1))"
    using sample_ids_fresh by (simp add: ledger_new_def ids_fresh_def sample_world_def)
  have m: "monotonic_ok (ext ?w)" using sample_monotonic_ok by (simp add: monotonic_ok_def)
  have r: "build_tool_registry sample_libs listing_decoders (lab_logs_check sample_libs listing_decoders)
      (lab_logs_check sample_libs listing_decoders) [] (tp_tool sample_changes) =
      Some (make_wrapper LIST_RECENT_CHANGES LIST_RECENT_CHANGES (lab_changes_check sample_libs listing_decoders))"
    by (simp only: t registry_wrapper)
  have there: "changes_readable listing_decoders (ext ?w)"
    by (simp add: changes_readable_def read_json_file_def listing_decoders_def strict_loads_def)
  from change_and_topology_checks_settle [OF p _ f m r] obtain dr seen' ledger' w' where
    d: "wrapper_dispatch sample_libs (make_wrapper LIST_RECENT_CHANGES LIST_RECENT_CHANGES (lab_changes_check sample_libs listing_decoders))
       sample_changes sample_scope {} DEFAULT_BUDGETS (ledger_new 2 1) ?w = (Inr dr, seen', ledger', w')"
    and s: "settled_result CHANGE True sample_scope dr ledger'"
    using t there by auto
  from s have "rc_state (dr_receipt dr) = SETTLED" "rc_outcome (dr_receipt dr) = Some EXECUTED"
    "map_option ev_kind (dr_evidence dr) = Some CHANGE"
    by (auto simp: settled_result_def Let_def split: option.splits)
  with d show ?thesis by blast
qed

end
