(* ===== verification/Scenario.thy ===== *)
theory Scenario
  imports Evidence ControlPlane
begin

text \<open>
  \<open>src/causalops/scenario_control.py\<close>: the controller that brings one incident about. It claims the
  lab for a run directory, drives healthy and then faulted traffic, and writes the manifests
  and the incident the investigation later reads; it also releases and resets runs.

  A scenario file under \<open>lab/scenarios\<close> is a record with the fields those files have. The run
  tree is the set of run directories with the files the controller writes into them, and the
  text of the marker that names the active run. Docker, the health checks and the pause between
  requests are left out; the gateway's answers are a sequence of statuses. A write of the body of
  \<open>start_scenario\<close> does not fail here; the clean-up of a failed start and the reset can.
\<close>

section \<open>Errors\<close>

datatype lab_reason_code =
    DOCKER_UNAVAILABLE | LAB_NOT_HEALTHY | SCENARIO_ALREADY_ACTIVE | UNKNOWN_FAMILY | UNKNOWN_CONFIG_KEY
  | INCIDENT_NOT_FOUND | BASELINE_NOT_HEALTHY | FAULT_NOT_OBSERVED | UNKNOWN_SEED | CORRUPT_ARTIFACT

datatype lab_error = LabError lab_reason_code | Raised exn

section \<open>Scenario definitions\<close>

record change_entry =
  ce_service :: string
  ce_summary :: string
  ce_config_key :: "string option"
  ce_offset_seconds :: int

record seed_variant =
  sv_change_offsets :: "int list option"
  sv_faulted_config_overrides :: "json pydict option"
  sv_traffic_volume_bump :: "int option"

record scenario_definition =
  sd_family :: string
  sd_endpoint :: string
  sd_services :: "string list"
  sd_symptom :: string
  sd_healthy_config :: "json pydict"
  sd_faulted_config :: "json pydict"
  sd_baseline_requests :: int
  sd_fault_requests :: int
  sd_changes :: "change_entry list"
  sd_topology :: "json pydict"
  sd_expected :: "json pydict"
  sd_seed_variants :: "seed_variant pydict option"
  sd_traffic_volume_bump :: "int option"

definition load_definition :: "scenario_definition pydict \<Rightarrow> string \<Rightarrow> lab_error + scenario_definition" where
  "load_definition files family = (case dict_get files family of
     None \<Rightarrow> Inl (LabError UNKNOWN_FAMILY) | Some d \<Rightarrow> Inr d)"

text \<open>\<open>{**a, **b}\<close>: the keys of \<open>b\<close> win.\<close>

definition merge :: "'v pydict \<Rightarrow> 'v pydict \<Rightarrow> 'v pydict" where
  "merge a b = foldl (\<lambda>d kv. dict_set (fst kv) (snd kv) d) a b"

definition apply_offsets :: "int list option \<Rightarrow> change_entry list \<Rightarrow> lab_error + change_entry list" where
  "apply_offsets offsets changes = (case offsets of None \<Rightarrow> Inr changes
   | Some os \<Rightarrow> if length changes \<noteq> length os then Inl (Raised ValueError)
       else Inr (map2 (\<lambda>change offset. change\<lparr>ce_offset_seconds := offset\<rparr>) changes os))"

definition apply_seed_variant :: "scenario_definition \<Rightarrow> string \<Rightarrow> lab_error + scenario_definition" where
  "apply_seed_variant d seed = (case sd_seed_variants d of
     None \<Rightarrow> Inr d
   | Some variants \<Rightarrow>
       if variants = [] then Inr d
       else case dict_get variants seed of
         None \<Rightarrow> Inl (LabError UNKNOWN_SEED)
       | Some v \<Rightarrow>
           (case apply_offsets (sv_change_offsets v) (sd_changes d) of
              Inl e \<Rightarrow> Inl e
            | Inr changes \<Rightarrow> Inr (d\<lparr>sd_changes := changes,
                sd_faulted_config := (case sv_faulted_config_overrides v of
                  None \<Rightarrow> sd_faulted_config d | Some o_s \<Rightarrow> merge (sd_faulted_config d) o_s),
                sd_traffic_volume_bump := (case sv_traffic_volume_bump v of
                  None \<Rightarrow> sd_traffic_volume_bump d | Some b \<Rightarrow> Some b)\<rparr>)))"

section \<open>The run tree\<close>

record run_dir =
  rd_config :: "json pydict option"
  rd_topology :: "json pydict option"
  rd_changes :: "json list option"
  rd_incident :: "stored_incident option"
  rd_expected :: "json pydict option"

definition new_dir :: run_dir where
  "new_dir = \<lparr> rd_config = None, rd_topology = None, rd_changes = None, rd_incident = None, rd_expected = None \<rparr>"

record run_tree =
  rt_dirs :: "string \<rightharpoonup> run_dir"
  rt_marker :: "string option"

text \<open>\<open>validated_run_paths\<close>: an alphanumeric name stays inside the run tree.\<close>

definition validated_run_paths :: "string \<Rightarrow> lab_error + string" where
  "validated_run_paths incident_id = (if isalnum incident_id then Inr incident_id else Inl (LabError INCIDENT_NOT_FOUND))"

text \<open>The marker's text is stripped before it is compared; an empty one is a claim in progress.\<close>

definition claim_scenario :: "string \<Rightarrow> run_tree \<Rightarrow> (lab_error + unit) \<times> run_tree" where
  "claim_scenario incident_id t = (case rt_marker t of
     None \<Rightarrow> (Inr (), t\<lparr>rt_marker := Some incident_id\<rparr>)
   | Some text \<Rightarrow> (let active = py_strip text in
       if active = [] \<or> rt_dirs t active \<noteq> None then (Inl (LabError SCENARIO_ALREADY_ACTIVE), t)
       else (Inr (), t\<lparr>rt_marker := Some incident_id\<rparr>)))"

text \<open>The marker names this incident.\<close>

definition names :: "run_tree \<Rightarrow> string \<Rightarrow> bool" where
  "names t incident_id \<longleftrightarrow> map_option py_strip (rt_marker t) = Some incident_id"

definition release_scenario :: "string \<Rightarrow> run_tree \<Rightarrow> run_tree" where
  "release_scenario incident_id t = (if names t incident_id then t\<lparr>rt_marker := None\<rparr> else t)"

text \<open>
  \<open>rmtree(ignore_errors=True)\<close>: \<open>left\<close> is what could not be removed of the directory, None when it is
  gone. Where there was no directory there is none afterwards.
\<close>

definition clear_unstarted_scenario :: "run_dir option \<Rightarrow> string \<Rightarrow> run_tree \<Rightarrow> run_tree" where
  "clear_unstarted_scenario left incident_id t =
     (release_scenario incident_id t)\<lparr>rt_dirs := (rt_dirs t)(incident_id := if rt_dirs t incident_id = None then None else left)\<rparr>"

text \<open>
  How the locked clean-up of a failed start goes: it runs and leaves something or nothing; the lock
  cannot be taken or the marker not be removed, and nothing changes; the lock's commit
  raises at the end. The last two raise instead of the exception that failed the start.
\<close>

datatype clear_fault = Cleared "run_dir option" | Clear_locked exn | Clear_stopped exn "run_dir option"

definition fail_start :: "clear_fault \<Rightarrow> string \<Rightarrow> lab_error \<Rightarrow> run_tree \<Rightarrow> lab_error \<times> run_tree" where
  "fail_start clean incident_id e t = (case clean of
     Cleared left \<Rightarrow> (e, clear_unstarted_scenario left incident_id t)
   | Clear_locked x \<Rightarrow> (Raised x, t)
   | Clear_stopped x left \<Rightarrow> (Raised x, clear_unstarted_scenario left incident_id t))"

text \<open>
  How a reset goes: without a fault; the lock cannot be taken or the marker not be removed; or \<open>rmtree\<close>
  or the commit raises with the marker gone and something or nothing left of the directory.
\<close>

datatype reset_fault = Reset_fine | Reset_locked exn | Reset_stopped exn "run_dir option"

definition reset_scenario :: "reset_fault \<Rightarrow> string \<Rightarrow> run_tree \<Rightarrow> (lab_error + unit) \<times> run_tree" where
  "reset_scenario fault incident_id t = (case fault of Reset_locked x \<Rightarrow> (Inl (Raised x), t) | _ \<Rightarrow>
     (case validated_run_paths incident_id of
        Inl e \<Rightarrow> (Inl e, t)
      | Inr _ \<Rightarrow> if rt_dirs t incident_id = None then (Inl (LabError INCIDENT_NOT_FOUND), t)
          else (case fault of
              Reset_stopped x left \<Rightarrow> (Inl (Raised x), clear_unstarted_scenario left incident_id t)
            | _ \<Rightarrow> (Inr (), clear_unstarted_scenario None incident_id t))))"

text \<open>
  The locked opening of \<open>start_scenario\<close>: create the directory, which must be new, and claim the
  marker. The claim is made with the directory in place.
\<close>

definition open_scenario :: "string \<Rightarrow> run_tree \<Rightarrow> (lab_error + unit) \<times> run_tree" where
  "open_scenario incident_id t =
     (if rt_dirs t incident_id \<noteq> None then (Inl (Raised (OtherError ''FileExistsError'')), t)
      else claim_scenario incident_id (t\<lparr>rt_dirs := (rt_dirs t)(incident_id \<mapsto> new_dir)\<rparr>))"

section \<open>Manifests and the incident\<close>

text \<open>The text of a configuration value in an f-string is Python's \<open>str\<close>, an argument.\<close>

definition resolved_change_summary :: "(json \<Rightarrow> string) \<Rightarrow> change_entry \<Rightarrow> json pydict \<Rightarrow> lab_error + string" where
  "resolved_change_summary py_str entry faulted_config = (case ce_config_key entry of
     None \<Rightarrow> Inr (ce_summary entry)
   | Some key \<Rightarrow> (case dict_get faulted_config key of
       None \<Rightarrow> Inl (LabError UNKNOWN_CONFIG_KEY)
     | Some v \<Rightarrow> Inr (''configuration update: '' @ key @ '' set to '' @ py_str v)))"

fun write_changes ::
    "(json \<Rightarrow> string) \<Rightarrow> json pydict \<Rightarrow> instant \<Rightarrow> change_entry list \<Rightarrow> 'w world \<Rightarrow> (lab_error + json list) \<times> 'w world" where
  "write_changes py_str config window_end [] w = (Inr [], w)"
| "write_changes py_str config window_end (entry # entries) w =
     (case new_opaque_id w of (i, w1) \<Rightarrow>
      case resolved_change_summary py_str entry config of
        Inl e \<Rightarrow> (Inl e, w1)
      | Inr summary \<Rightarrow>
          (case write_changes py_str config window_end entries w1 of
             (Inl e, w2) \<Rightarrow> (Inl e, w2)
           | (Inr rest, w2) \<Rightarrow>
               (Inr (JObj [(''change_id'', JStr (take 12 i)),
                  (''at'', JStr (isoformat (window_end + ce_offset_seconds entry * 1000000))),
                  (''service'', JStr (ce_service entry)), (''summary'', JStr summary)] # rest), w2)))"

definition ALERT_SOURCE_VERSION :: string where
  "ALERT_SOURCE_VERSION = ''alert-1''"

definition WINDOW_LEAD_IN :: int where
  "WINDOW_LEAD_IN = 5 * 60 * 1000000"

definition gateway_symptom_of :: "string \<Rightarrow> exn + gateway_symptom" where
  "gateway_symptom_of s = (case find (\<lambda>g. symptom_value g = s) [ELEVATED_ERRORS, ELEVATED_LATENCY, ELEVATED_ERRORS_AND_LATENCY] of
     Some g \<Rightarrow> Inr g | None \<Rightarrow> Inl ValueError)"

definition build_incident ::
    "libs \<Rightarrow> scenario_definition \<Rightarrow> string \<Rightarrow> instant \<Rightarrow> instant \<Rightarrow> int \<Rightarrow> int \<Rightarrow> 'w world \<Rightarrow> (exn + stored_incident) \<times> 'w world" where
  "build_incident L d incident_id window_start window_end failed_requests total_requests w =
     (case incident_scope_validate
         \<lparr> sc_incident_id = incident_id, sc_environment = ''local-lab'', sc_services = sd_services d,
           sc_started_at = window_start, sc_ended_at = window_end, sc_endpoint = sd_endpoint d \<rparr> of
        Inl e \<Rightarrow> (Inl e, w)
      | Inr scope \<Rightarrow>
      case build_evidence L incident_id SYMPTOM ''alert'' window_end
          (show_int failed_requests @ '' of '' @ show_int total_requests @ '' requests to '' @ sd_endpoint d @ '' did not succeed'')
          [(''endpoint'', JStr (sd_endpoint d)), (''failed_requests'', JInt failed_requests),
           (''total_requests'', JInt total_requests)] None w of
        (Inl e, w1) \<Rightarrow> (Inl e, w1)
      | (Inr symptom, w1) \<Rightarrow>
      (case build_evidence L incident_id TOPOLOGY ''alert'' window_end ''gateway calls orders, orders calls inventory''
          (sd_topology d) None w1 of
        (Inl e, w2) \<Rightarrow> (Inl e, w2)
      | (Inr topology, w2) \<Rightarrow>
      (case gateway_symptom_of (sd_symptom d) of
        Inl e \<Rightarrow> (Inl e, w2)
      | Inr g \<Rightarrow>
          (stored_incident_validate
            \<lparr> si_scope = scope,
              si_packet = \<lparr> pk_incident_id = incident_id, pk_window_start = window_start, pk_window_end = window_end,
                pk_endpoint = sd_endpoint d, pk_symptom = g, pk_services = sd_services d, pk_alerted_at = window_end,
                pk_alert_source_version = ALERT_SOURCE_VERSION, pk_symptom_evidence_id = ev_evidence_id symptom,
                pk_topology_evidence_id = ev_evidence_id topology \<rparr>,
              si_evidence = [symptom, topology] \<rparr>, w2))))"

section \<open>Starting a scenario\<close>

text \<open>\<open>drive_traffic\<close>: the statuses of so many requests, counted; \<open>0\<close> stands for no answer.\<close>

definition drive_traffic :: "nat \<Rightarrow> (nat \<Rightarrow> int) \<Rightarrow> int \<times> int" where
  "drive_traffic n status = (let answered = map status [0..<n] in
     (int (length (filter (\<lambda>s. s = 200) answered)), int (length (filter (\<lambda>s. s \<noteq> 200) answered))))"

definition set_dir :: "string \<Rightarrow> (run_dir \<Rightarrow> run_dir) \<Rightarrow> run_tree \<Rightarrow> run_tree" where
  "set_dir i f t = t\<lparr>rt_dirs := (rt_dirs t)(i := map_option f (rt_dirs t i))\<rparr>"

text \<open>
  The body after the lab is claimed: baseline traffic, the fault, the settle delay, the manifests,
  the incident and the expected outcome. It returns how it ended and the files written so far.
\<close>

definition run_scenario ::
    "libs \<Rightarrow> (json \<Rightarrow> string) \<Rightarrow> scenario_definition \<Rightarrow> string \<Rightarrow> string \<Rightarrow> string \<Rightarrow> (nat \<Rightarrow> int) \<Rightarrow> (nat \<Rightarrow> int) \<Rightarrow> run_tree \<Rightarrow> 'w world \<Rightarrow>
     (lab_error + unit) \<times> run_tree \<times> 'w world" where
  "run_scenario L py_str d family seed i baseline faulted t w =
     (let t1 = set_dir i (\<lambda>r. r\<lparr>rd_config := Some (sd_healthy_config d)\<rparr>) t;
          extra = (case sd_traffic_volume_bump d of None \<Rightarrow> 0 | Some b \<Rightarrow> b)
      in case read_clock w of (now, w1) \<Rightarrow>
      let window_start = now - WINDOW_LEAD_IN;
          (healthy, unhealthy) = drive_traffic (nat (sd_baseline_requests d + extra)) baseline
      in if healthy = 0 \<or> 0 < unhealthy then (Inl (LabError BASELINE_NOT_HEALTHY), t1, w1)
      else let t2 = set_dir i (\<lambda>r. r\<lparr>rd_config := Some (sd_faulted_config d)\<rparr>) t1;
               (served, failed) = drive_traffic (nat (sd_fault_requests d + extra)) faulted
      in if failed = 0 then (Inl (LabError FAULT_NOT_OBSERVED), t2, w1)
      else case read_clock w1 of (window_end, w2) \<Rightarrow>
      let t3 = set_dir i (\<lambda>r. r\<lparr>rd_topology := Some (sd_topology d)\<rparr>) t2
      in case write_changes py_str (sd_faulted_config d) window_end (sd_changes d) w2 of
        (Inl e, w3) \<Rightarrow> (Inl e, t3, w3)
      | (Inr changes, w3) \<Rightarrow>
      (let t4 = set_dir i (\<lambda>r. r\<lparr>rd_changes := Some changes\<rparr>) t3
       in case build_incident L d i window_start window_end failed (healthy + served + failed) w3 of
        (Inl e, w4) \<Rightarrow> (Inl (Raised e), t4, w4)
      | (Inr incident, w4) \<Rightarrow>
          (Inr (), set_dir i (\<lambda>r. r\<lparr>rd_incident := Some incident,
             rd_expected := Some (merge [(''seed'', JStr seed), (''family'', JStr family)] (sd_expected d))\<rparr>) t4, w4)))"

definition start_scenario ::
    "libs \<Rightarrow> (json \<Rightarrow> string) \<Rightarrow> scenario_definition pydict \<Rightarrow> string \<Rightarrow> string \<Rightarrow> string option \<Rightarrow> (nat \<Rightarrow> int) \<Rightarrow> (nat \<Rightarrow> int) \<Rightarrow>
     clear_fault \<Rightarrow> run_tree \<Rightarrow> 'w world \<Rightarrow> (lab_error + string) \<times> run_tree \<times> 'w world" where
  "start_scenario L py_str files family seed given baseline faulted clean t w =
     (case load_definition files family of Inl e \<Rightarrow> (Inl e, t, w) | Inr base \<Rightarrow>
      case apply_seed_variant base seed of Inl e \<Rightarrow> (Inl e, t, w) | Inr d \<Rightarrow>
      (case (case given of None \<Rightarrow> new_opaque_id w | Some i \<Rightarrow> (i, w)) of (i, w1) \<Rightarrow>
       if given \<noteq> None \<and> \<not> isalnum i then (Inl (LabError INCIDENT_NOT_FOUND), t, w1)
       else case open_scenario i t of
         (Inl e, t1) \<Rightarrow> (case fail_start clean i e t1 of (x, t3) \<Rightarrow> (Inl x, t3, w1))
       | (Inr _, t1) \<Rightarrow>
           (case run_scenario L py_str d family seed i baseline faulted t1 w1 of
              (Inl e, t2, w2) \<Rightarrow> (case fail_start clean i e t2 of (x, t3) \<Rightarrow> (Inl x, t3, w2))
            | (Inr _, t2, w2) \<Rightarrow> (Inr i, t2, w2))))"

end
