(* ===== verification/RunFiles.thy ===== *)
theory RunFiles
  imports RunRecords
begin

text \<open>
  \<open>src/causalops/run_records.py\<close>: the files of a finished investigation. They are written into
  a staging directory and the directory is then renamed into place. A file is the value that
  is printed into it; \<open>Torn\<close> is what a plain write that fails half way leaves (the line files are
  written beside their target and renamed, so a failure leaves no trace of them).

  A write fails here by raising an \<open>OSError\<close>; a process killed inside a write is not modelled (it can
  leave the temporary file of a line file in the staging directory, where it would stay). The staging
  directories are a map of their own: they lie beside the investigations under the name
  \<open>.staging-\<close> and the id, and ids are opaque hexadecimal text that never begins with a dot. Calls for
  one investigation come one after another.
\<close>

datatype artifact =
    Report_json investigation_report
  | Report_md string
  | Events_jsonl "run_event list"
  | Evidence_jsonl "evidence list"
  | Receipts_jsonl "tool_receipt list"
  | Torn

type_synonym artifact_dir = "string \<rightharpoonup> artifact"

record results_tree =
  rs_investigations :: "string \<rightharpoonup> artifact_dir"
  rs_staging :: "string \<rightharpoonup> artifact_dir"

text \<open>The writes of \<open>finalize_investigation\<close>, in order.\<close>

definition artifacts ::
    "investigation_report \<Rightarrow> run_event list \<Rightarrow> evidence list \<Rightarrow> tool_receipt list \<Rightarrow> string \<Rightarrow> (string \<times> artifact) list" where
  "artifacts report events evidence receipts report_markdown =
     [(''report.json'', Report_json report), (''report.md'', Report_md report_markdown),
      (''events.jsonl'', Events_jsonl events), (''evidence.jsonl'', Evidence_jsonl evidence),
      (''receipts.jsonl'', Receipts_jsonl receipts)]"

definition write_files :: "(string \<times> artifact) list \<Rightarrow> artifact_dir \<Rightarrow> artifact_dir" where
  "write_files files d = foldl (\<lambda>d (name, content). d(name \<mapsto> content)) d files"

text \<open>What the directory holds when write number \<open>k\<close> fails; the first two are plain writes.\<close>

definition write_until :: "nat \<Rightarrow> (string \<times> artifact) list \<Rightarrow> artifact_dir \<Rightarrow> artifact_dir" where
  "write_until k files d = (let written = write_files (take k files) d in
     if k < 2 then written(fst (files ! k) \<mapsto> Torn) else written)"

text \<open>\<open>fault\<close> is the write that raises an \<open>OSError\<close>, the rename being the last; None if all succeed.\<close>

definition finalize_investigation ::
    "nat option \<Rightarrow> investigation_report \<Rightarrow> run_event list \<Rightarrow> evidence list \<Rightarrow> tool_receipt list \<Rightarrow> string \<Rightarrow> results_tree \<Rightarrow>
     (exn + string) \<times> results_tree" where
  "finalize_investigation fault report events evidence receipts report_markdown t = (let
     i = ir_investigation_id report;
     files = artifacts report events evidence receipts report_markdown;
     staging = (case rs_staging t i of None \<Rightarrow> (\<lambda>_. None) | Some d \<Rightarrow> d)
   in if rs_investigations t i \<noteq> None then (Inl (OtherError ''RunRecordError''), t)
      else case fault of
        Some k \<Rightarrow> (Inl (OtherError ''OSError''), t\<lparr>rs_staging := (rs_staging t)(i \<mapsto> write_until k files staging)\<rparr>)
      | None \<Rightarrow> (Inr i, t\<lparr>rs_investigations := (rs_investigations t)(i \<mapsto> write_files files staging),
          rs_staging := (rs_staging t)(i := None)\<rparr>))"

section \<open>Finished investigations are complete and final\<close>

definition artifact_names :: "string list" where
  "artifact_names = [''report.json'', ''report.md'', ''events.jsonl'', ''evidence.jsonl'', ''receipts.jsonl'']"

text \<open>
  Every finished directory holds exactly the five files of one call for its own investigation,
  and whatever earlier failures left in a staging directory, its names are among the five.
\<close>

definition finished_dir :: "string \<Rightarrow> artifact_dir \<Rightarrow> bool" where
  "finished_dir i d \<longleftrightarrow> (\<exists>report events evidence receipts md.
     ir_investigation_id report = i \<and> d = map_of (artifacts report events evidence receipts md))"

definition results_ok :: "results_tree \<Rightarrow> bool" where
  "results_ok t \<longleftrightarrow> (\<forall>i d. rs_investigations t i = Some d \<longrightarrow> finished_dir i d)
     \<and> (\<forall>i d. rs_staging t i = Some d \<longrightarrow> dom d \<subseteq> set artifact_names)"

lemma write_files_dom: "dom (write_files files d) = dom d \<union> fst ` set files"
  unfolding write_files_def by (induction files arbitrary: d) (auto split: prod.splits)

lemma write_files_lookup:
  "distinct (map fst files) \<Longrightarrow> write_files files d n = (case map_of files n of None \<Rightarrow> d n | Some v \<Rightarrow> Some v)"
proof (induction files arbitrary: d)
  case (Cons f files)
  have "map_of files (fst f) = None" using Cons.prems by (simp add: map_of_eq_None_iff)
  with Cons show ?case by (cases f) (auto simp: write_files_def split: option.splits)
qed (simp add: write_files_def)

lemma artifacts_names: "map fst (artifacts r ev es rs md) = artifact_names"
  by (simp add: artifacts_def artifact_names_def)

lemma artifact_names_distinct: "distinct artifact_names"
  by code_simp

lemma write_files_all:
  assumes "dom d \<subseteq> set artifact_names"
  shows "write_files (artifacts r ev es rs md) d = map_of (artifacts r ev es rs md)"
proof
  fix n
  have "d n = None" if "map_of (artifacts r ev es rs md) n = None"
  proof -
    have "n \<notin> set artifact_names" using that by (metis artifacts_names map_of_eq_None_iff set_map)
    then show ?thesis using assms by blast
  qed
  then show "write_files (artifacts r ev es rs md) d n = map_of (artifacts r ev es rs md) n"
    using write_files_lookup [of "artifacts r ev es rs md" d n] artifact_names_distinct
    by (simp add: artifacts_names split: option.splits)
qed

lemma write_until_names:
  assumes "dom d \<subseteq> set artifact_names"
  shows "dom (write_until k (artifacts r ev es rs md) d) \<subseteq> set artifact_names"
proof -
  let ?fs = "artifacts r ev es rs md"
  have names: "fst ` set ?fs = set artifact_names" by (metis artifacts_names set_map)
  then have "fst ` set (take k ?fs) \<subseteq> set artifact_names" by (metis image_mono set_take_subset)
  moreover have "fst (?fs ! k) \<in> set artifact_names" if "k < 2"
  proof -
    have "k < length ?fs" using that by (simp add: artifacts_def)
    then show ?thesis using names by (metis image_eqI nth_mem)
  qed
  ultimately show ?thesis using assms by (auto simp: write_until_def Let_def write_files_dom split: if_splits)
qed

lemma finalize_keeps:
  assumes "finalize_investigation fault r ev es rs md t = (res, t')" and "results_ok t"
  shows "results_ok t'" and "rs_investigations t \<subseteq>\<^sub>m rs_investigations t'"
    and "res = Inr i \<Longrightarrow> i = ir_investigation_id r \<and> rs_investigations t i = None
           \<and> rs_investigations t' i = Some (map_of (artifacts r ev es rs md))"
proof -
  let ?i = "ir_investigation_id r"
  let ?d = "case rs_staging t ?i of None \<Rightarrow> (\<lambda>_. None) | Some d \<Rightarrow> d"
  have d: "dom ?d \<subseteq> set artifact_names" using assms(2) by (auto simp: results_ok_def split: option.splits)
  note w = write_until_names [OF d, of _ r ev es rs md] write_files_all [OF d, of r ev es rs md]
  have f: "finished_dir ?i (map_of (artifacts r ev es rs md))" unfolding finished_dir_def by blast
  consider "t' = t"
    | k where "t' = t\<lparr>rs_staging := (rs_staging t)(?i \<mapsto> write_until k (artifacts r ev es rs md) ?d)\<rparr>"
    | "t' = t\<lparr>rs_investigations := (rs_investigations t)(?i \<mapsto> write_files (artifacts r ev es rs md) ?d),
          rs_staging := (rs_staging t)(?i := None)\<rparr>"
    using assms(1) by (auto simp: finalize_investigation_def Let_def split: if_splits option.splits)
  then show "results_ok t'"
  proof cases
    case 2
    then show ?thesis using assms(2) w(1) unfolding results_ok_def by simp
  next
    case 3
    then show ?thesis using assms(2) w(2) f unfolding results_ok_def by simp
  qed (use assms(2) in simp)
  show "rs_investigations t \<subseteq>\<^sub>m rs_investigations t'"
    using assms(1) by (auto simp: finalize_investigation_def Let_def map_le_def dom_def split: if_splits option.splits)
  show "i = ?i \<and> rs_investigations t i = None \<and> rs_investigations t' i = Some (map_of (artifacts r ev es rs md))" if "res = Inr i"
    using assms(1) that w(2) by (auto simp: finalize_investigation_def Let_def split: if_splits option.splits)
qed

end
