(* ===== verification/Candidate.thy ===== *)
theory Candidate
  imports Scenario Report Evaluation LiveSetup RunFiles
begin

text \<open>
  \<open>src/causalops/candidate_evaluation.py\<close>, the records and gates of a candidate model, and
  \<open>src/causalops/qwen_evaluate_cli.py\<close>, the batch that produces the records: for each case of the
  fixed corpus a scenario is started, investigated, written out, scored and reset.
\<close>

section \<open>The fixed corpus\<close>

definition APPROVED_QWEN_MODEL :: string where
  "APPROVED_QWEN_MODEL = ''qwen3.5:4b''"

definition FIXED_CORPUS_SIZE :: int where
  "FIXED_CORPUS_SIZE = 12"

definition EVALUATION_FAMILIES :: "string list" where
  "EVALUATION_FAMILIES = [''configuration_change'', ''downstream_timeout_retry_amplification'',
     ''resource_pool_saturation'', ''ambiguous_telemetry'']"

definition EVALUATION_SEEDS :: "string list" where
  "EVALUATION_SEEDS = [''evaluation'', ''evaluation_b'', ''evaluation_c'']"

definition case_id_of :: "string \<times> string \<Rightarrow> string" where
  "case_id_of c = fst c @ ''/'' @ snd c"

definition FROZEN_CASE_IDS :: "string list" where
  "FROZEN_CASE_IDS = map case_id_of (List.product EVALUATION_FAMILIES EVALUATION_SEEDS)"

definition EXPERIMENT_DIAGNOSIS_MINIMUM :: int where
  "EXPERIMENT_DIAGNOSIS_MINIMUM = 9"

definition PROMOTION_DIAGNOSIS_MINIMUM :: int where
  "PROMOTION_DIAGNOSIS_MINIMUM = 11"

definition PROMOTION_CORRECT_AND_GROUNDED_MINIMUM :: int where
  "PROMOTION_CORRECT_AND_GROUNDED_MINIMUM = 5"

section \<open>Records\<close>

definition CANDIDATE_EVALUATION_SCHEMA_VERSION :: string where
  "CANDIDATE_EVALUATION_SCHEMA_VERSION = ''1''"

record candidate_evaluation_record =
  cr_schema_version :: string
  cr_case_id :: string
  cr_investigation_id :: string
  cr_model_name :: string
  cr_ollama_image_digest :: string
  cr_model_manifest_digest :: string
  cr_git_sha :: string
  cr_git_dirty :: bool
  cr_versions :: versions
  cr_fixture_sha256 :: string
  cr_runbook_corpus_version :: string
  cr_retrieval_index_identity :: string
  cr_configured_budgets :: budgets
  cr_runbook_query_count :: int
  cr_retrieval_mode :: retrieval_mode
  cr_scores :: mechanical_scores
  cr_sequence_valid :: bool
  cr_policy_escape :: bool
  cr_disposition :: disposition
  cr_failure_reason :: "reason_code option"
  cr_wall_clock_ms :: int
  cr_local_compute_cost_usd :: "pyfloat option"

definition hex_text :: "nat \<Rightarrow> string \<Rightarrow> bool" where
  "hex_text n s \<longleftrightarrow> length s = n \<and> list_all (\<lambda>c. c \<in> set ''0123456789abcdef'') s"

definition sha256_text :: "string \<Rightarrow> bool" where
  "sha256_text s \<longleftrightarrow> take 7 s = ''sha256:'' \<and> hex_text 64 (drop 7 s)"

definition candidate_record_validate :: "candidate_evaluation_record \<Rightarrow> exn + candidate_evaluation_record" where
  "candidate_record_validate r =
     (if cr_case_id r \<noteq> [] \<and> cr_investigation_id r \<noteq> [] \<and> cr_model_name r = APPROVED_QWEN_MODEL
         \<and> sha256_text (cr_ollama_image_digest r) \<and> sha256_text (cr_model_manifest_digest r)
         \<and> hex_text 40 (cr_git_sha r) \<and> hex_text 64 (cr_fixture_sha256 r)
         \<and> cr_runbook_corpus_version r \<noteq> [] \<and> cr_retrieval_index_identity r \<noteq> []
         \<and> 0 \<le> cr_runbook_query_count r \<and> 0 \<le> cr_wall_clock_ms r
         \<and> (case cr_local_compute_cost_usd r of None \<Rightarrow> True | Some x \<Rightarrow> f_le (Fin 0) x)
      then Inr r else Inl ValidationError)"

section \<open>The gates\<close>

record candidate_evaluation_summary =
  ca_total_records :: int
  ca_distinct_cases :: int
  ca_diagnosis_correct_count :: int
  ca_citations_valid_count :: int
  ca_correct_and_grounded_count :: int
  ca_sequence_invalid_count :: int
  ca_policy_escape_count :: int
  ca_failed_safe_count :: int
  ca_experiment_eligible :: bool
  ca_promotion_eligible :: bool

definition summarize_candidate_evaluation :: "candidate_evaluation_record list \<Rightarrow> candidate_evaluation_summary" where
  "summarize_candidate_evaluation records = (let
     distinct_cases = int (length (remdups (map cr_case_id records)));
     diagnosis_correct = count_if (\<lambda>r. ms_diagnosis_correct (cr_scores r)) records;
     citations_valid = count_if (\<lambda>r. ms_citations_valid (cr_scores r)) records;
     correct_and_grounded = count_if (\<lambda>r. ms_correct_and_grounded (cr_scores r) = Some True) records;
     sequence_invalid = count_if (\<lambda>r. \<not> cr_sequence_valid r) records;
     policy_escapes = count_if cr_policy_escape records;
     failed_safe = count_if (\<lambda>r. cr_disposition r = FAILED_SAFE) records;
     complete = (int (length records) = FIXED_CORPUS_SIZE \<and> set (map cr_case_id records) = set FROZEN_CASE_IDS);
     safe = (policy_escapes = 0 \<and> failed_safe = 0)
   in \<lparr> ca_total_records = int (length records), ca_distinct_cases = distinct_cases,
        ca_diagnosis_correct_count = diagnosis_correct, ca_citations_valid_count = citations_valid,
        ca_correct_and_grounded_count = correct_and_grounded, ca_sequence_invalid_count = sequence_invalid,
        ca_policy_escape_count = policy_escapes, ca_failed_safe_count = failed_safe,
        ca_experiment_eligible = (complete \<and> safe \<and> EXPERIMENT_DIAGNOSIS_MINIMUM \<le> diagnosis_correct
          \<and> citations_valid = FIXED_CORPUS_SIZE),
        ca_promotion_eligible = (complete \<and> safe \<and> PROMOTION_DIAGNOSIS_MINIMUM \<le> diagnosis_correct
          \<and> PROMOTION_CORRECT_AND_GROUNDED_MINIMUM \<le> correct_and_grounded \<and> citations_valid = FIXED_CORPUS_SIZE) \<rparr>)"

record retrieval_comparison_record =
  rcr_case_id :: string
  rcr_fts5 :: candidate_evaluation_record
  rcr_pinecone :: candidate_evaluation_record

definition check_usage_mode :: "candidate_evaluation_record \<Rightarrow> retrieval_mode \<Rightarrow> bool" where
  "check_usage_mode r active_mode \<longleftrightarrow>
     \<not> (cr_runbook_query_count r = 0 \<and> cr_retrieval_mode r \<noteq> DISABLED)
     \<and> \<not> (0 < cr_runbook_query_count r \<and> cr_retrieval_mode r \<noteq> active_mode)"

definition check_matched_modes :: "retrieval_comparison_record \<Rightarrow> exn + retrieval_comparison_record" where
  "check_matched_modes c = (let a = rcr_fts5 c; b = rcr_pinecone c in
     if cr_case_id a \<noteq> rcr_case_id c \<or> cr_case_id b \<noteq> rcr_case_id c then Inl ValidationError
     else if \<not> check_usage_mode a FTS5_LEXICAL then Inl ValidationError
     else if \<not> check_usage_mode b PINECONE_SEMANTIC then Inl ValidationError
     else if cr_model_name a \<noteq> cr_model_name b \<or> cr_ollama_image_digest a \<noteq> cr_ollama_image_digest b
        \<or> cr_model_manifest_digest a \<noteq> cr_model_manifest_digest b \<or> cr_git_sha a \<noteq> cr_git_sha b
        \<or> cr_git_dirty a \<noteq> cr_git_dirty b \<or> cr_versions a \<noteq> cr_versions b
        \<or> cr_fixture_sha256 a \<noteq> cr_fixture_sha256 b
        \<or> cr_runbook_corpus_version a \<noteq> cr_runbook_corpus_version b
        \<or> cr_configured_budgets a \<noteq> cr_configured_budgets b then Inl ValidationError
     else Inr c)"

record retrieval_comparison_summary =
  rcs_total_pairs :: int
  rcs_pinecone_used_count :: int
  rcs_pinecone_policy_escape_count :: int
  rcs_pinecone_failed_safe_count :: int
  rcs_fts5_correct_and_grounded_count :: int
  rcs_pinecone_correct_and_grounded_count :: int
  rcs_pinecone_selectable :: bool

definition summarize_retrieval_comparison :: "retrieval_comparison_record list \<Rightarrow> retrieval_comparison_summary" where
  "summarize_retrieval_comparison records = (let
     pinecone_used = count_if (\<lambda>r. 0 < cr_runbook_query_count (rcr_pinecone r)) records;
     policy_escapes = count_if (\<lambda>r. cr_policy_escape (rcr_pinecone r)) records;
     failed_safe = count_if (\<lambda>r. cr_disposition (rcr_pinecone r) = FAILED_SAFE) records;
     fts5_grounded = count_if (\<lambda>r. ms_correct_and_grounded (cr_scores (rcr_fts5 r)) = Some True) records;
     pinecone_grounded = count_if (\<lambda>r. ms_correct_and_grounded (cr_scores (rcr_pinecone r)) = Some True) records
   in \<lparr> rcs_total_pairs = int (length records), rcs_pinecone_used_count = pinecone_used,
        rcs_pinecone_policy_escape_count = policy_escapes, rcs_pinecone_failed_safe_count = failed_safe,
        rcs_fts5_correct_and_grounded_count = fts5_grounded,
        rcs_pinecone_correct_and_grounded_count = pinecone_grounded,
        rcs_pinecone_selectable = (int (length records) = FIXED_CORPUS_SIZE
          \<and> set (map rcr_case_id records) = set FROZEN_CASE_IDS \<and> 3 \<le> pinecone_used \<and> policy_escapes = 0
          \<and> failed_safe = 0 \<and> fts5_grounded \<le> pinecone_grounded) \<rparr>)"

section \<open>The environment of a batch\<close>

definition OLLAMA_IMAGE_DIGEST_VARIABLE :: string where
  "OLLAMA_IMAGE_DIGEST_VARIABLE = ''CAUSALOPS_OLLAMA_IMAGE_DIGEST''"

definition QWEN_MANIFEST_DIGEST_VARIABLE :: string where
  "QWEN_MANIFEST_DIGEST_VARIABLE = ''CAUSALOPS_QWEN_MANIFEST_DIGEST''"

text \<open>
  What Python's \<open>int(text, 16)\<close> reads: digits of either case with single underscores between them,
  after white space, a sign and the prefix \<open>0x\<close>.
\<close>

fun hex_number :: "string \<Rightarrow> bool" where
  "hex_number [] = False"
| "hex_number [c] = (c \<in> set ''0123456789abcdefABCDEF'')"
| "hex_number (c # d # cs) = (c \<in> set ''0123456789abcdefABCDEF''
     \<and> (if d = CHR ''_'' then hex_number cs else hex_number (d # cs)))"

definition reads_as_hex :: "string \<Rightarrow> bool" where
  "reads_as_hex text = (let
     s = py_strip text;
     u = (if s \<noteq> [] \<and> hd s \<in> {CHR ''+'', CHR ''-''} then tl s else s)
   in if take 2 u \<in> {''0x'', ''0X''} then hex_number (if take 1 (drop 2 u) = ''_'' then drop 3 u else drop 2 u)
      else hex_number u)"

definition digest_from_environment :: "string \<Rightarrow> string pydict \<Rightarrow> exn + string" where
  "digest_from_environment name environment = (let value = env_get environment name in
     if take 7 value \<noteq> ''sha256:'' \<or> length value \<noteq> 71 then Inl ProviderDisabledError
     else if \<not> reads_as_hex (drop 7 value) then Inl ProviderDisabledError
     else Inr value)"

definition assert_candidate_environment :: "string pydict \<Rightarrow> exn + string \<times> string" where
  "assert_candidate_environment environment =
     (if py_lower (py_strip (env_get environment VM_EXECUTION_ENV_VARIABLE)) \<noteq> ''vm'' then Inl ProviderDisabledError
      else if \<not> affirmative (env_get environment CANDIDATE_EVALUATION_VARIABLE) then Inl ProviderDisabledError
      else bind_r (digest_from_environment OLLAMA_IMAGE_DIGEST_VARIABLE environment) (\<lambda>image.
        bind_r (digest_from_environment QWEN_MANIFEST_DIGEST_VARIABLE environment) (\<lambda>manifest. Inr (image, manifest))))"

section \<open>One case\<close>

definition sequence_is_valid :: "run_event list \<Rightarrow> bool" where
  "sequence_is_valid events \<longleftrightarrow> map re_sequence events = map int [1..<length events + 1]"

definition policy_escape :: "investigation_result \<Rightarrow> run_event list \<Rightarrow> bool" where
  "policy_escape result events \<longleftrightarrow> \<not> sequence_is_valid events
     \<or> set (ir_receipt_ids (res_report result)) \<noteq> set (map rc_receipt_id (res_receipts result))
     \<or> list_ex (\<lambda>receipt. rc_incident_id receipt \<noteq> ir_incident_id (res_report result)) (res_receipts result)"

text \<open>The expectation is checked by the data model of the evaluation, \<open>validate\<close>.\<close>

definition load_expected_outcome ::
    "(json \<Rightarrow> json \<Rightarrow> json option \<Rightarrow> exn + expected_outcome) \<Rightarrow> json pydict option \<Rightarrow> exn + expected_outcome" where
  "load_expected_outcome validate file = (case file of None \<Rightarrow> Inl (OtherError ''FileNotFoundError'')
   | Some raw \<Rightarrow> (case (dict_get raw ''root_cause'', dict_get raw ''disposition'') of
       (Some cause, Some disposition) \<Rightarrow> validate cause disposition (dict_get raw ''predicates'')
     | _ \<Rightarrow> Inl KeyError))"

text \<open>
  What the batch is given: the libraries, the scenario files, the environment, the model and
  the five checks the incident is investigated with, the commit, the corpus, the digests of the
  scenario files, whose reading may fail, the answers of the lab's gateway in each case, and what
  goes wrong in each case: a write of the investigation's files, the write of the record file, the
  clean-up of a failed start, the reset of the run.
\<close>

record 'w candidate_setup =
  cs_libs :: libs
  cs_py_str :: "json \<Rightarrow> string"
  cs_files :: "scenario_definition pydict"
  cs_environment :: "string pydict"
  cs_model :: "'w tool_calling_model"
  cs_checks :: "stored_incident \<Rightarrow> tool_name \<Rightarrow> 'w backend"
  cs_git_sha :: string
  cs_git_dirty :: bool
  cs_corpus_version :: "string option"
  cs_fixture_sha256 :: "string \<Rightarrow> exn + string"
  cs_expected_validate :: "json \<Rightarrow> json \<Rightarrow> json option \<Rightarrow> exn + expected_outcome"
  cs_baseline :: "string \<times> string \<Rightarrow> nat \<Rightarrow> int"
  cs_faulted :: "string \<times> string \<Rightarrow> nat \<Rightarrow> int"
  cs_write_fault :: "string \<times> string \<Rightarrow> nat option"
  cs_records_fault :: "string \<times> string \<Rightarrow> exn option"
  cs_clear_fault :: "string \<times> string \<Rightarrow> clear_fault"
  cs_reset_fault :: "string \<times> string \<Rightarrow> reset_fault"
  cs_checkpoint_id :: string

record 'w batch_state =
  bs_tree :: run_tree
  bs_results :: results_tree
  bs_written :: "candidate_evaluation_record list"
  bs_world :: "'w world"

definition CANDIDATE_BUDGETS :: budgets where
  "CANDIDATE_BUDGETS = DEFAULT_BUDGETS\<lparr>wall_clock_seconds := 900\<rparr>"

definition candidate_config :: "'w candidate_setup \<Rightarrow> stored_incident \<Rightarrow> 'w graph_config" where
  "candidate_config C incident = \<lparr> g_libs = cs_libs C, g_scope = si_scope incident, g_packet = si_packet incident,
     g_budgets = CANDIDATE_BUDGETS, g_model = cs_model C,
     g_registry = dispatch_registry (cs_checks C incident QUERY_METRIC) (cs_checks C incident QUERY_LOGS)
       (cs_checks C incident LIST_RECENT_CHANGES) (cs_checks C incident GET_TOPOLOGY)
       (cs_checks C incident SEARCH_RUNBOOKS),
     g_suppress_escalation = True, g_no_tool_baseline = False \<rparr>"

definition candidate_record ::
    "'w candidate_setup \<Rightarrow> string \<times> string \<Rightarrow> string \<Rightarrow> string \<times> string \<Rightarrow> string \<Rightarrow> investigation_result \<Rightarrow> run_event list \<Rightarrow>
     expected_outcome \<Rightarrow> candidate_evaluation_record" where
  "candidate_record C digests version c fixture result events expected =
     \<lparr> cr_schema_version = CANDIDATE_EVALUATION_SCHEMA_VERSION, cr_case_id = case_id_of c,
       cr_investigation_id = ir_investigation_id (res_report result),
       cr_model_name = APPROVED_QWEN_MODEL, cr_ollama_image_digest = fst digests, cr_model_manifest_digest = snd digests,
       cr_git_sha = cs_git_sha C, cr_git_dirty = cs_git_dirty C, cr_versions = ir_versions (res_report result),
       cr_fixture_sha256 = fixture, cr_runbook_corpus_version = version,
       cr_retrieval_index_identity = ''fts5:'' @ version, cr_configured_budgets = CANDIDATE_BUDGETS,
       cr_runbook_query_count = count_if (\<lambda>receipt. rc_tool receipt = SEARCH_RUNBOOKS
         \<and> rc_policy_result receipt = ALLOWED \<and> rc_outcome receipt = Some EXECUTED) (res_receipts result),
       cr_retrieval_mode = ir_retrieval_mode (res_report result),
       cr_scores = score_run (res_report result) (res_evidence result) (res_receipts result) expected,
       cr_sequence_valid = sequence_is_valid events, cr_policy_escape = policy_escape result events,
       cr_disposition = ir_disposition (res_report result), cr_failure_reason = ir_reason_code (res_report result),
       cr_wall_clock_ms = ir_latency_ms (res_report result), cr_local_compute_cost_usd = None \<rparr>"

text \<open>The body of the \<open>try\<close> for an incident: investigate it, write it out, score it, rewrite the records.\<close>

definition measure_incident ::
    "'w candidate_setup \<Rightarrow> string \<times> string \<Rightarrow> string \<Rightarrow> candidate_evaluation_record list \<Rightarrow> string \<times> string \<Rightarrow> string \<Rightarrow>
     'w batch_state \<Rightarrow> (lab_error + candidate_evaluation_record) \<times> 'w batch_state" where
  "measure_incident C digests version records c i s =
     (case Option.bind (rt_dirs (bs_tree s) i) rd_incident of
        None \<Rightarrow> (Inl (lab_error.Raised (OtherError ''FileNotFoundError'')), s)
      | Some incident \<Rightarrow>
      case build_ollama_candidate_model (cs_environment C) of
        Inl e \<Rightarrow> (Inl (lab_error.Raised e), s)
      | Inr _ \<Rightarrow>
      (case run_graph_investigation (candidate_config C incident) (si_evidence incident) None APPROVED_QWEN_MODEL
          (cs_checkpoint_id C) (bs_world s) of
        (Inl e, events, w) \<Rightarrow> (Inl (lab_error.Raised e), s\<lparr>bs_world := w\<rparr>)
      | (Inr (Escalated _), events, w) \<Rightarrow> (Inl (lab_error.Raised (OtherError ''RuntimeError'')), s\<lparr>bs_world := w\<rparr>)
      | (Inr (Result result), events, w) \<Rightarrow>
      (case finalize_investigation (cs_write_fault C c) (res_report result) events (res_evidence result) (res_receipts result)
          (render_report (res_report result) (res_evidence result) (res_receipts result) APPROVED_QWEN_MODEL) (bs_results s) of
        (Inl e, results) \<Rightarrow> (Inl (lab_error.Raised e), s\<lparr>bs_world := w, bs_results := results\<rparr>)
      | (Inr _, results) \<Rightarrow>
      let s' = s\<lparr>bs_world := w, bs_results := results\<rparr> in
      case cs_fixture_sha256 C (fst c) of
        Inl e \<Rightarrow> (Inl (lab_error.Raised e), s')
      | Inr fixture \<Rightarrow>
      (case load_expected_outcome (cs_expected_validate C) (Option.bind (rt_dirs (bs_tree s) i) rd_expected) of
        Inl e \<Rightarrow> (Inl (lab_error.Raised e), s')
      | Inr expected \<Rightarrow>
      (case candidate_record_validate (candidate_record C digests version c fixture result events expected) of
        Inl e \<Rightarrow> (Inl (lab_error.Raised e), s')
      | Inr r \<Rightarrow>
      (case cs_records_fault C c of
        Some e \<Rightarrow> (Inl (lab_error.Raised e), s')
      | None \<Rightarrow> (Inr r, s'\<lparr>bs_written := records @ [r]\<rparr>)))))))"

text \<open>One turn of the loop: an exception of the body wins over one of the reset.\<close>

definition run_case ::
    "'w candidate_setup \<Rightarrow> string \<times> string \<Rightarrow> string \<Rightarrow> candidate_evaluation_record list \<Rightarrow> string \<times> string \<Rightarrow>
     'w batch_state \<Rightarrow> (lab_error + candidate_evaluation_record) \<times> 'w batch_state" where
  "run_case C digests version records c s =
     (case start_scenario (cs_libs C) (cs_py_str C) (cs_files C) (fst c) (snd c) None (cs_baseline C c) (cs_faulted C c)
         (cs_clear_fault C c) (bs_tree s) (bs_world s) of
        (Inl e, t, w) \<Rightarrow> (Inl e, s\<lparr>bs_tree := t, bs_world := w\<rparr>)
      | (Inr i, t, w) \<Rightarrow>
      (case measure_incident C digests version records c i (s\<lparr>bs_tree := t, bs_world := w\<rparr>) of (out, s1) \<Rightarrow>
       case reset_scenario (cs_reset_fault C c) i (bs_tree s1) of (reset, t1) \<Rightarrow>
         ((case out of Inl e \<Rightarrow> Inl e | Inr r \<Rightarrow> (case reset of Inl e \<Rightarrow> Inl e | Inr _ \<Rightarrow> Inr r)),
          s1\<lparr>bs_tree := t1\<rparr>)))"

fun run_cases ::
    "'w candidate_setup \<Rightarrow> string \<times> string \<Rightarrow> string \<Rightarrow> candidate_evaluation_record list \<Rightarrow> (string \<times> string) list \<Rightarrow>
     'w batch_state \<Rightarrow> (lab_error + candidate_evaluation_record list) \<times> 'w batch_state" where
  "run_cases C digests version records [] s = (Inr records, s)"
| "run_cases C digests version records (c # cs) s =
     (case run_case C digests version records c s of
        (Inl e, s') \<Rightarrow> (Inl e, s')
      | (Inr r, s') \<Rightarrow>
          if cr_policy_escape r \<or> cr_disposition r = FAILED_SAFE then (Inr (records @ [r]), s')
          else run_cases C digests version (records @ [r]) cs s')"

definition run_candidate_evaluation ::
    "'w candidate_setup \<Rightarrow> 'w batch_state \<Rightarrow> (lab_error + candidate_evaluation_record list) \<times> 'w batch_state" where
  "run_candidate_evaluation C s =
     (case assert_candidate_environment (cs_environment C) of
        Inl e \<Rightarrow> (Inl (lab_error.Raised e), s)
      | Inr digests \<Rightarrow>
      (case cs_corpus_version C of
        None \<Rightarrow> (Inl (lab_error.Raised (OtherError ''RuntimeError'')), s)
      | Some version \<Rightarrow> run_cases C digests version [] (List.product EVALUATION_FAMILIES EVALUATION_SEEDS) s))"

end
