(* ===== verification/ScenarioProps.thy ===== *)
theory ScenarioProps
  imports Scenario GraphInv Samples
begin

text \<open>
  The controller of the lab: at most one scenario is being brought about at a time, each
  operation touches only its own run, a finished start leaves an incident the investigation can
  be started on, a failed start of a new run leaves no trace, and a repeated start of an existing
  run deletes it.
\<close>

section \<open>Names and markers\<close>

lemma alnum_strip:
  assumes "isalnum i"
  shows "py_strip i = i"
proof -
  have "\<not> is_space c" if "c \<in> set i" for c
    using assms that by (fastforce simp: isalnum_def is_space_def list_all_iff Let_def)
  then have "dropWhile is_space i = i" "dropWhile is_space (rev i) = rev i"
    by (metis dropWhile_eq_self_iff hd_in_set set_rev)+
  then show ?thesis by (simp add: py_strip_def)
qed

lemma release_simps [simp]:
  "rt_dirs (release_scenario i t) = rt_dirs t"
  "rt_dirs (clear_unstarted_scenario left i t) = (rt_dirs t)(i := if rt_dirs t i = None then None else left)"
  by (simp_all add: release_scenario_def clear_unstarted_scenario_def)

lemma names_release: "names (release_scenario i t) j \<longleftrightarrow> names t j \<and> j \<noteq> i"
  by (auto simp: names_def release_scenario_def)

lemma names_clear: "names (clear_unstarted_scenario left i t) j \<longleftrightarrow> names t j \<and> j \<noteq> i"
  using names_release [of i t j] by (simp add: clear_unstarted_scenario_def names_def)

lemma names_set_dir [simp]: "names (set_dir i f t) j = names t j" "rt_marker (set_dir i f t) = rt_marker t"
  by (simp_all add: names_def set_dir_def)

lemma dirs_set_dir: "rt_dirs (set_dir i f t) j = (if j = i then map_option f (rt_dirs t i) else rt_dirs t j)"
  by (simp add: set_dir_def)

lemma open_Inr:
  assumes "open_scenario i t = (Inr u, t')" and "isalnum i"
  shows "names t' i" and "rt_dirs t' = (rt_dirs t)(i \<mapsto> new_dir)" and "rt_dirs t i = None"
    and "\<And>j. names t j \<Longrightarrow> j \<noteq> i \<Longrightarrow> rt_dirs t j = None"
  using assms alnum_strip [OF assms(2)]
  by (auto simp: open_scenario_def claim_scenario_def names_def Let_def split: if_splits option.splits)

lemma open_Inl:
  assumes "open_scenario i t = (Inl e, t')"
  shows "rt_marker t' = rt_marker t" and "\<And>j. j \<noteq> i \<Longrightarrow> rt_dirs t' j = rt_dirs t j"
    and "rt_dirs t i = None \<Longrightarrow> e = LabError SCENARIO_ALREADY_ACTIVE"
  using assms by (auto simp: open_scenario_def claim_scenario_def Let_def split: if_splits option.splits)

lemma open_refused:
  assumes "names t i" and "rt_dirs t i \<noteq> None"
  shows "\<exists>e. fst (open_scenario j t) = Inl e"
  using assms by (auto simp: open_scenario_def claim_scenario_def names_def Let_def split: option.splits)

section \<open>Interleaved controllers\<close>

text \<open>
  A step of any controller under the run id \<open>i\<close>, each locked section and each write in one step: open the
  run, be refused, clean up after a failed start, release it, reset it, write into its directory (which
  makes the directory again where it is gone), or come to the end of its start. Nothing is said
  about who takes a step: a controller may do any of this with a run another one is starting. The
  set holds the runs opened whose start did not end and which nobody cleaned up, released or reset since.
\<close>

inductive lab_step :: "string \<Rightarrow> run_tree \<times> string set \<Rightarrow> run_tree \<times> string set \<Rightarrow> bool" where
  opened: "isalnum i \<Longrightarrow> open_scenario i t = (Inr u, t') \<Longrightarrow> lab_step i (t, R) (t', insert i R)"
| refused: "open_scenario i t = (Inl e, t') \<Longrightarrow> lab_step i (t, R) (t', R)"
| wrote: "lab_step i (t, R) (t\<lparr>rt_dirs := (rt_dirs t)(i \<mapsto> d)\<rparr>, R)"
| finished: "lab_step i (t, R) (t, R - {i})"
| cleared: "lab_step i (t, R) (snd (fail_start clean i e t), R - {i})"
| released: "lab_step i (t, R) (release_scenario i t, R - {i})"
| reset: "lab_step i (t, R) (snd (reset_scenario fault i t), R - {i})"

definition any_step :: "run_tree \<times> string set \<Rightarrow> run_tree \<times> string set \<Rightarrow> bool" where
  "any_step s s' \<longleftrightarrow> (\<exists>i. lab_step i s s')"

definition step_of_others :: "string \<Rightarrow> run_tree \<times> string set \<Rightarrow> run_tree \<times> string set \<Rightarrow> bool" where
  "step_of_others i s s' \<longleftrightarrow> (\<exists>j. j \<noteq> i \<and> lab_step j s s')"

definition lab_inv :: "run_tree \<times> string set \<Rightarrow> bool" where
  "lab_inv s \<longleftrightarrow> (\<forall>i \<in> snd s. names (fst s) i \<and> rt_dirs (fst s) i \<noteq> None)"

lemma names_unique: "names t i \<Longrightarrow> names t j \<Longrightarrow> i = j"
  by (auto simp: names_def)

lemma names_cong: "rt_marker t' = rt_marker t \<Longrightarrow> names t' j = names t j"
  by (simp add: names_def)

text \<open>What a clean-up and a reset change: the directory and the claim of their own run.\<close>

definition own_run :: "string \<Rightarrow> run_tree \<Rightarrow> run_tree \<Rightarrow> bool" where
  "own_run i t t' \<longleftrightarrow> (\<forall>j. j \<noteq> i \<longrightarrow> rt_dirs t' j = rt_dirs t j \<and> names t' j = names t j)"

lemma own_run_clear: "own_run i t (clear_unstarted_scenario left i t)"
  by (auto simp: own_run_def names_clear)

lemma own_run_refl: "own_run i t t"
  by (simp add: own_run_def)

lemma fail_start_own: "own_run i t (snd (fail_start clean i e t))"
  by (cases clean) (simp_all add: fail_start_def own_run_clear own_run_refl)

lemma reset_own: "own_run i t (snd (reset_scenario fault i t))"
  by (cases fault) (auto simp: reset_scenario_def own_run_clear own_run_refl split: sum.splits)

lemma lab_inv_own: "own_run i t t' \<Longrightarrow> lab_inv (t, R) \<Longrightarrow> lab_inv (t', R - {i})"
  by (auto simp: own_run_def lab_inv_def)

lemma lab_step_inv:
  assumes "lab_step i s s'" and "lab_inv s"
  shows "lab_inv s'"
  using assms
proof (cases rule: lab_step.cases)
  case (opened t u t' R)
  have False if "j \<in> R" for j
    using open_refused [of t j i] that assms(2) opened by (auto simp: lab_inv_def)
  then show ?thesis using opened open_Inr(1,2) [OF opened(4,3)] by (auto simp: lab_inv_def)
next
  case (refused t e t' R)
  note o = open_Inl [OF refused(3)]
  have "rt_dirs t' j \<noteq> None" if "rt_dirs t j \<noteq> None" for j
    using that refused(3) o(2) by (cases "j = i") (auto simp: open_scenario_def split: if_splits)
  then show ?thesis using assms(2) refused(1,2) names_cong [OF o(1)] by (simp add: lab_inv_def)
next
  case (cleared t clean e R)
  then show ?thesis using assms(2) lab_inv_own [OF fail_start_own] by simp
next
  case (reset t fault R)
  then show ?thesis using assms(2) lab_inv_own [OF reset_own] by simp
next
  case (released t R)
  then show ?thesis using assms(2) by (auto simp: lab_inv_def names_release)
qed (use assms(2) in \<open>auto simp: lab_inv_def names_def\<close>)

lemma any_steps_inv: "any_step\<^sup>*\<^sup>* s s' \<Longrightarrow> lab_inv s \<Longrightarrow> lab_inv s'"
  by (induction rule: rtranclp_induct) (auto simp: any_step_def intro: lab_step_inv)

lemma others_keep: "(step_of_others i)\<^sup>*\<^sup>* s s' \<Longrightarrow> i \<in> snd s \<Longrightarrow> i \<in> snd s'"
  by (induction rule: rtranclp_induct) (auto simp: step_of_others_def elim!: lab_step.cases)

text \<open>
  C38: the lab belongs to one start at a time. Over every interleaving of controllers, which may clean
  up, release, reset or write any run at any moment, at most one run is being started that was
  not cleaned up, released or reset since it was opened; while there is one, the marker names it, its
  directory exists and every attempt to open a run, also under the same id, is refused; and it
  stays so whatever is done under other ids. (A second start under its own id is refused
  as well, but its clean-up then ends the claim.)
\<close>

theorem one_scenario_at_a_time:
  assumes "any_step\<^sup>*\<^sup>* (t0, {}) (t, R)" and "i \<in> R"
  shows "R = {i} \<and> names t i \<and> rt_dirs t i \<noteq> None \<and> (\<forall>j. \<exists>e. fst (open_scenario j t) = Inl e)
     \<and> (\<forall>t' R'. (step_of_others i)\<^sup>*\<^sup>* (t, R) (t', R') \<longrightarrow> R' = {i} \<and> names t' i \<and> rt_dirs t' i \<noteq> None)"
proof -
  have inv: "lab_inv (t, R)" by (rule any_steps_inv [OF assms(1)]) (simp add: lab_inv_def)
  have one: "S = {i} \<and> names u i \<and> rt_dirs u i \<noteq> None" if "lab_inv (u, S)" "i \<in> S" for u S
    using that names_unique [of u i] by (auto simp: lab_inv_def)
  note i = one [OF inv assms(2)]
  have "R' = {i} \<and> names t' i \<and> rt_dirs t' i \<noteq> None" if later: "(step_of_others i)\<^sup>*\<^sup>* (t, R) (t', R')" for t' R'
  proof (rule one)
    have "any_step\<^sup>*\<^sup>* (t, R) (t', R')" using later
      by (rule mono_rtranclp [rule_format, rotated]) (auto simp: step_of_others_def any_step_def)
    then show "lab_inv (t', R')" using inv by (rule any_steps_inv)
    show "i \<in> R'" using others_keep [OF later] assms(2) by simp
  qed
  with i open_refused [of t i] show ?thesis by blast
qed

definition empty_tree :: run_tree where
  "empty_tree = \<lparr> rt_dirs = (\<lambda>_. None), rt_marker = None \<rparr>"

text \<open>One run is opened, and the reset of another one does not end its claim.\<close>

theorem one_scenario_at_a_time_witness:
  "\<exists>t t'. any_step\<^sup>*\<^sup>* (empty_tree, {}) (t, {''a1''}) \<and> (\<forall>j. \<exists>e. fst (open_scenario j t) = Inl e)
     \<and> t' = snd (reset_scenario Reset_fine ''b2'' t) \<and> names t' ''a1'' \<and> rt_dirs t' ''a1'' \<noteq> None"
proof -
  have "isalnum ''a1''" by code_simp
  moreover obtain t where "open_scenario ''a1'' empty_tree = (Inr (), t)"
    by (simp add: open_scenario_def claim_scenario_def empty_tree_def)
  ultimately have "any_step (empty_tree, {}) (t, {''a1''})" unfolding any_step_def by (blast intro: opened)
  then have run: "any_step\<^sup>*\<^sup>* (empty_tree, {}) (t, {''a1''})" ..
  have "step_of_others ''a1'' (t, {''a1''}) (snd (reset_scenario Reset_fine ''b2'' t), {''a1''} - {''b2''})"
    unfolding step_of_others_def by (intro exI [of _ "''b2''"] conjI lab_step.reset) simp
  then have "(step_of_others ''a1'')\<^sup>*\<^sup>* (t, {''a1''}) (snd (reset_scenario Reset_fine ''b2'' t), {''a1''} - {''b2''})" ..
  then have "names (snd (reset_scenario Reset_fine ''b2'' t)) ''a1'' \<and> rt_dirs (snd (reset_scenario Reset_fine ''b2'' t)) ''a1'' \<noteq> None
      \<and> (\<forall>j. \<exists>e. fst (open_scenario j t) = Inl e)"
    using one_scenario_at_a_time [OF run, of "''a1''"] by simp
  with run show ?thesis by (intro exI [of _ t] exI [of _ "snd (reset_scenario Reset_fine ''b2'' t)"]) simp
qed

section \<open>The outcome of a start\<close>

lemma build_evidence_Inr:
  assumes "build_evidence L i k s tm sm p rid w = (Inr e, w')"
  shows "ev_incident_id e = i \<and> evidence_validate e = Inr e"
  using assms by (auto simp: build_evidence_def evidence_validate_def split: prod.splits if_splits)

lemma scope_validate_Inr: "incident_scope_validate x = Inr x' \<Longrightarrow> x' = x"
  by (auto simp: incident_scope_validate_def split: if_splits)

lemma stored_validate_Inr: "stored_incident_validate x = Inr x' \<Longrightarrow> x' = x"
  by (auto simp: stored_incident_validate_def split: if_splits)

text \<open>What the investigation relies on in a stored incident.\<close>

definition incident_ok :: "string \<Rightarrow> stored_incident \<Rightarrow> bool" where
  "incident_ok i inc \<longleftrightarrow> sc_incident_id (si_scope inc) = i \<and> incident_scope_validate (si_scope inc) = Inr (si_scope inc)
     \<and> stored_incident_validate inc = Inr inc \<and> evidence_ok i (si_evidence inc)
     \<and> {pk_symptom_evidence_id (si_packet inc), pk_topology_evidence_id (si_packet inc)} = ev_evidence_id ` set (si_evidence inc)"

lemma build_incident_Inr:
  assumes "build_incident L d i ws we n m w = (Inr inc, w')"
  shows "incident_ok i inc"
proof -
  obtain scope symptom topology g w1 where parts: "incident_scope_validate
         \<lparr> sc_incident_id = i, sc_environment = ''local-lab'', sc_services = sd_services d,
           sc_started_at = ws, sc_ended_at = we, sc_endpoint = sd_endpoint d \<rparr> = Inr scope"
    "ev_incident_id symptom = i" "evidence_validate symptom = Inr symptom"
    "ev_incident_id topology = i" "evidence_validate topology = Inr topology"
    "stored_incident_validate \<lparr> si_scope = scope,
              si_packet = \<lparr> pk_incident_id = i, pk_window_start = ws, pk_window_end = we,
                pk_endpoint = sd_endpoint d, pk_symptom = g, pk_services = sd_services d, pk_alerted_at = we,
                pk_alert_source_version = ALERT_SOURCE_VERSION, pk_symptom_evidence_id = ev_evidence_id symptom,
                pk_topology_evidence_id = ev_evidence_id topology \<rparr>,
              si_evidence = [symptom, topology] \<rparr> = Inr inc"
    using assms unfolding build_incident_def
    by (auto split: sum.splits prod.splits dest!: build_evidence_Inr)
  show ?thesis using parts(2-5) scope_validate_Inr [OF parts(1)] stored_validate_Inr [OF parts(6)] parts(1,6)
    by (auto simp: incident_ok_def evidence_ok_def)
qed

lemma run_scenario_frame:
  assumes "run_scenario L py_str d family seed i baseline faulted t w = (res, t', w')"
  shows "rt_marker t' = rt_marker t \<and> (\<forall>j. j \<noteq> i \<longrightarrow> rt_dirs t' j = rt_dirs t j)"
  using assms
  by (auto simp: run_scenario_def Let_def dirs_set_dir split: prod.splits if_splits sum.splits)

lemma run_scenario_Inr:
  assumes "run_scenario L py_str d family seed i baseline faulted t w = (Inr u, t', w')" and "rt_dirs t i = Some r"
  shows "\<exists>r' inc. rt_dirs t' i = Some r' \<and> rd_incident r' = Some inc \<and> incident_ok i inc
     \<and> rd_config r' = Some (sd_faulted_config d) \<and> rd_topology r' = Some (sd_topology d) \<and> rd_changes r' \<noteq> None \<and> rd_expected r' \<noteq> None"
  using assms
  by (auto simp: run_scenario_def Let_def dirs_set_dir split: prod.splits if_splits sum.splits dest!: build_incident_Inr)

lemma write_changes_le: "write_changes py_str config ended entries w = (r, w') \<Longrightarrow> world_le w w'"
proof (induction entries arbitrary: w r w')
  case (Cons x entries)
  obtain i w1 where i: "new_opaque_id w = (i, w1)" by force
  obtain r2 w2 where rest: "write_changes py_str config ended entries w1 = (r2, w2)" by force
  have "world_le w w1" "world_le w1 w2" using new_opaque_id_le [OF i] Cons.IH [OF rest] by simp_all
  moreover have "w' = w1 \<or> w' = w2" using Cons.prems by (auto simp: i rest split: sum.splits)
  ultimately show ?case using world_le_trans by blast
qed simp

lemma build_incident_le: "build_incident L d i ws we n m w = (r, w') \<Longrightarrow> world_le w w'"
  unfolding build_incident_def
  by (auto simp: build_evidence_def new_opaque_id_def world_le_def split: sum.splits prod.splits)

lemma run_scenario_le: "run_scenario L py_str d family seed i baseline faulted t w = (res, t', w') \<Longrightarrow> world_le w w'"
  unfolding run_scenario_def Let_def
  by (auto split: prod.splits if_splits sum.splits dest!: write_changes_le build_incident_le read_clock_le
      simp: world_le_def)

lemma start_scenario_le: "start_scenario L py_str files family seed given baseline faulted clean t w = (res, t', w') \<Longrightarrow> world_le w w'"
  unfolding start_scenario_def
  by (auto split: prod.splits if_splits sum.splits option.splits dest!: run_scenario_le new_opaque_id_le simp: world_le_def)

lemma start_outcome:
  assumes "start_scenario L py_str files family seed given baseline faulted clean t w = (res, t', w')"
    and "(case given of None \<Rightarrow> new_opaque_id w | Some j \<Rightarrow> (j, w)) = (i, w1)"
    and "isalnum i" and "rt_dirs t i = None" and "\<not> names t i"
  shows "(\<forall>j. j \<noteq> i \<longrightarrow> rt_dirs t' j = rt_dirs t j)
     \<and> (case res of
          Inr i' \<Rightarrow> i' = i \<and> names t' i \<and> (\<exists>r inc. rt_dirs t' i = Some r \<and> rd_incident r = Some inc \<and> incident_ok i inc
            \<and> rd_topology r \<noteq> None \<and> rd_changes r \<noteq> None \<and> rd_expected r \<noteq> None)
        | Inl e \<Rightarrow> (\<forall>left. clean = Cleared left \<longrightarrow>
            (rt_dirs t' = rt_dirs t \<or> rt_dirs t' = (rt_dirs t)(i := left))
            \<and> (rt_marker t' = rt_marker t \<or> rt_marker t' = None \<and> (\<forall>j. names t j \<longrightarrow> rt_dirs t j = None))))"
proof -
  consider (early) e where "res = Inl e" "t' = t"
    | (refused) e t1 x where "open_scenario i t = (Inl e, t1)" "fail_start clean i e t1 = (x, t')" "res = Inl x"
    | (failed) d e t1 t2 u w2 x where "open_scenario i t = (Inr u, t1)"
        "run_scenario L py_str d family seed i baseline faulted t1 w1 = (Inl e, t2, w2)" "fail_start clean i e t2 = (x, t')" "res = Inl x"
    | (ended) d t1 u v w2 where "open_scenario i t = (Inr u, t1)"
        "run_scenario L py_str d family seed i baseline faulted t1 w1 = (Inr v, t', w2)" "res = Inr i"
    using assms(1-3) by (fastforce simp: start_scenario_def split: sum.splits prod.splits)
  then show ?thesis
  proof cases
    case early
    then show ?thesis by simp
  next
    case refused
    note o = open_Inl [OF refused(1)]
    have "own_run i t1 t'" using fail_start_own [of i t1 clean e] refused(2) by simp
    then have others: "rt_dirs t' j = rt_dirs t j" if "j \<noteq> i" for j using o(2) that by (simp add: own_run_def)
    have "rt_marker t' = rt_marker t \<and> (rt_dirs t' = rt_dirs t \<or> rt_dirs t' = (rt_dirs t)(i := left))" if "clean = Cleared left" for left
    proof -
      have t': "t' = clear_unstarted_scenario left i t1" using refused(2) by (simp add: that fail_start_def)
      have "rt_marker t' = rt_marker t"
        using assms(5) o(1) names_cong [OF o(1)] by (simp add: t' clear_unstarted_scenario_def release_scenario_def)
      moreover have "rt_dirs t' = (rt_dirs t)(i := rt_dirs t' i)" using others by (auto simp: fun_eq_iff)
      moreover have "rt_dirs t' i \<in> {None, left}" by (simp add: t')
      ultimately show ?thesis using assms(4) by (metis empty_iff fun_upd_triv insert_iff)
    qed
    then show ?thesis using refused(3) others by simp
  next
    case failed
    note o = open_Inr [OF failed(1) assms(3)] and f = run_scenario_frame [OF failed(2)]
    have "own_run i t2 t'" using fail_start_own [of i t2 clean e] failed(3) by simp
    then have others: "rt_dirs t' j = rt_dirs t j" if "j \<noteq> i" for j using o(2) f that by (simp add: own_run_def)
    have "names t2 i" using o(1) f names_cong by blast
    moreover have "rt_dirs t j = None" if "names t j" for j using o(3,4) that by blast
    ultimately have "rt_marker t' = None \<and> (rt_dirs t' = rt_dirs t \<or> rt_dirs t' = (rt_dirs t)(i := left)) \<and> (\<forall>j. names t j \<longrightarrow> rt_dirs t j = None)"
      if "clean = Cleared left" for left
    proof -
      have t': "t' = clear_unstarted_scenario left i t2" using failed(3) by (simp add: that fail_start_def)
      have "rt_marker t' = None" using \<open>names t2 i\<close> by (simp add: t' clear_unstarted_scenario_def release_scenario_def)
      moreover have "rt_dirs t' = (rt_dirs t)(i := rt_dirs t' i)" using others by (auto simp: fun_eq_iff)
      moreover have "rt_dirs t' i \<in> {None, left}" by (simp add: t')
      ultimately show ?thesis using \<open>\<And>j. names t j \<Longrightarrow> rt_dirs t j = None\<close> assms(4) by (metis empty_iff fun_upd_triv insert_iff)
    qed
    then show ?thesis using failed(4) others by simp
  next
    case ended
    note o = open_Inr [OF ended(1) assms(3)] and f = run_scenario_frame [OF ended(2)]
    have "names t' i" using o(1) f names_cong by blast
    moreover have "rt_dirs t1 i = Some new_dir" using o(2) by simp
    ultimately show ?thesis using run_scenario_Inr [OF ended(2)] ended(3) o(2) f by fastforce
  qed
qed

text \<open>
  C39: what a start of a scenario leaves behind. For a run id that is alphanumeric and new, whatever
  the gateway answers: no other run's directory changes; a start that succeeds leaves the marker
  naming the run, the faulted configuration, all manifests, and an incident that passes every
  check the investigation relies on, with both evidence records of this incident; a start that
  fails, and whose clean-up runs, leaves every directory as it was but for files of its own that
  could not be removed, and the marker too unless it named a run that no longer exists.
\<close>

theorem start_leaves_a_usable_incident_or_nothing:
  assumes "start_scenario L py_str files family seed (Some i) baseline faulted clean t w = (res, t', w')"
    and "isalnum i" and "rt_dirs t i = None" and "\<not> names t i"
  shows "(\<forall>j. j \<noteq> i \<longrightarrow> rt_dirs t' j = rt_dirs t j)
     \<and> (case res of
          Inr i' \<Rightarrow> i' = i \<and> names t' i \<and> (\<exists>r inc. rt_dirs t' i = Some r \<and> rd_incident r = Some inc \<and> incident_ok i inc
            \<and> rd_topology r \<noteq> None \<and> rd_changes r \<noteq> None \<and> rd_expected r \<noteq> None)
        | Inl e \<Rightarrow> (\<forall>left. clean = Cleared left \<longrightarrow>
            (rt_dirs t' = rt_dirs t \<or> rt_dirs t' = (rt_dirs t)(i := left))
            \<and> (rt_marker t' = rt_marker t \<or> rt_marker t' = None \<and> (\<forall>j. names t j \<longrightarrow> rt_dirs t j = None))))"
  by (rule start_outcome [OF assms(1) _ assms(2-4)]) simp

text \<open>A small scenario, whose faulted requests all fail.\<close>

definition sample_scenario :: scenario_definition where
  "sample_scenario = \<lparr> sd_family = ''checkout'', sd_endpoint = ''/checkout'', sd_services = [''gateway''],
     sd_symptom = ''ELEVATED_ERRORS'', sd_healthy_config = [], sd_faulted_config = [(''delay'', JInt 9)],
     sd_baseline_requests = 2, sd_fault_requests = 1,
     sd_changes = [\<lparr> ce_service = ''gateway'', ce_summary = ''x'', ce_config_key = Some ''delay'', ce_offset_seconds = - 60 \<rparr>],
     sd_topology = [], sd_expected = [], sd_seed_variants = None, sd_traffic_volume_bump = None \<rparr>"

definition sample_start :: "(nat \<Rightarrow> int) \<Rightarrow> run_tree \<Rightarrow> (lab_error + string) \<times> run_tree \<times> unit world" where
  "sample_start faulted t = start_scenario sample_libs (\<lambda>_. ''9'') [(''checkout'', sample_scenario)] ''checkout'' ''development''
     (Some ''a1'') (\<lambda>_. 200) faulted (Cleared None) t sample_world"

lemma sample_start_ends: "fst (sample_start (\<lambda>_. 503) empty_tree) = Inr ''a1''"
  by code_simp

theorem start_leaves_a_usable_incident_or_nothing_witness:
  "\<exists>r inc. rt_dirs (fst (snd (sample_start (\<lambda>_. 503) empty_tree))) ''a1'' = Some r
     \<and> rd_incident r = Some inc \<and> incident_ok ''a1'' inc"
proof -
  let ?o = "sample_start (\<lambda>_. 503) empty_tree"
  have "start_scenario sample_libs (\<lambda>_. ''9'') [(''checkout'', sample_scenario)] ''checkout'' ''development''
     (Some ''a1'') (\<lambda>_. 200) (\<lambda>_. 503) (Cleared None) empty_tree sample_world = (Inr ''a1'', fst (snd ?o), snd (snd ?o))"
    using sample_start_ends unfolding sample_start_def by (metis prod.collapse)
  moreover have "isalnum ''a1''" by code_simp
  ultimately show ?thesis
    using start_leaves_a_usable_incident_or_nothing [of _ _ _ _ _ "''a1''"] by (fastforce simp: empty_tree_def names_def)
qed

text \<open>
  C40: a start under the id of a run that exists deletes that run. The directory is refused as
  existing, and the clean-up for failed starts then removes it, with everything in it but what
  cannot be removed, and the marker if it named the run; then the lab is free, and a start under any
  new id goes ahead beside the run that was active.
\<close>

theorem repeated_start_deletes_the_run:
  assumes "load_definition files family = Inr base" and "apply_seed_variant base seed = Inr d" and "isalnum i"
    and "rt_dirs t i = Some r"
  shows "\<exists>t'. start_scenario L py_str files family seed (Some i) baseline faulted (Cleared left) t w
       = (Inl (lab_error.Raised (OtherError ''FileExistsError'')), t', w)
     \<and> rt_dirs t' = (rt_dirs t)(i := left) \<and> \<not> names t' i
     \<and> (names t i \<longrightarrow> (\<forall>j. rt_dirs t' j = None \<longrightarrow> fst (open_scenario j t') = Inr ()))"
proof (intro exI conjI impI allI)
  let ?t = "clear_unstarted_scenario left i t"
  show "start_scenario L py_str files family seed (Some i) baseline faulted (Cleared left) t w
       = (Inl (lab_error.Raised (OtherError ''FileExistsError'')), ?t, w)"
    using assms by (simp add: start_scenario_def open_scenario_def fail_start_def)
  show "rt_dirs ?t = (rt_dirs t)(i := left)" using assms(4) by simp
  show "\<not> names ?t i" by (simp add: names_clear)
  fix j
  assume "names t i" and j: "rt_dirs ?t j = None"
  then have "rt_marker ?t = None" by (simp add: clear_unstarted_scenario_def release_scenario_def)
  with j show "fst (open_scenario j ?t) = Inr ()" by (simp add: open_scenario_def claim_scenario_def)
qed

theorem repeated_start_deletes_the_run_witness:
  "\<exists>t. rt_dirs t ''a1'' \<noteq> None \<and> rt_dirs (fst (snd (sample_start (\<lambda>_. 503) t))) ''a1'' = None
     \<and> fst (open_scenario ''b2'' (fst (snd (sample_start (\<lambda>_. 503) t)))) = Inr ()"
proof -
  define t where "t = \<lparr> rt_dirs = [''a1'' \<mapsto> new_dir], rt_marker = Some ''a1'' \<rparr>"
  have "isalnum ''a1''" by code_simp
  moreover have "load_definition [(''checkout'', sample_scenario)] ''checkout'' = Inr sample_scenario"
    "apply_seed_variant sample_scenario ''development'' = Inr sample_scenario" "rt_dirs t ''a1'' = Some new_dir"
    by (simp_all add: load_definition_def apply_seed_variant_def sample_scenario_def t_def)
  ultimately obtain t' where t': "start_scenario sample_libs (\<lambda>_. ''9'') [(''checkout'', sample_scenario)] ''checkout'' ''development''
      (Some ''a1'') (\<lambda>_. 200) (\<lambda>_. 503) (Cleared None) t sample_world = (Inl (lab_error.Raised (OtherError ''FileExistsError'')), t', sample_world)"
    "rt_dirs t' = (rt_dirs t)(''a1'' := None)" "names t ''a1'' \<longrightarrow> (\<forall>j. rt_dirs t' j = None \<longrightarrow> fst (open_scenario j t') = Inr ())"
    using repeated_start_deletes_the_run [of "[(''checkout'', sample_scenario)]" "''checkout''" sample_scenario
      "''development''" sample_scenario "''a1''" t new_dir sample_libs "\<lambda>_. ''9''" "\<lambda>_. 200" "\<lambda>_. 503" None sample_world] by blast
  have "names t ''a1''" by (simp add: names_def t_def py_strip_def is_space_def)
  moreover have "rt_dirs t' ''b2'' = None" by (simp add: t'(2) t_def)
  ultimately have "fst (open_scenario ''b2'' t') = Inr ()" using t'(3) by blast
  moreover have "rt_dirs t ''a1'' \<noteq> None" by (simp add: t_def)
  moreover have "fst (snd (sample_start (\<lambda>_. 503) t)) = t'" by (simp add: sample_start_def t'(1))
  ultimately show ?thesis using t'(2) by (intro exI [of _ t]) simp
qed

end
