(* ===== verification/GraphWorld.thy ===== *)
theory GraphWorld
  imports GraphOutside GraphThms
begin

text \<open>
  A whole investigation reads its clocks and draws its identifiers from the sequences it was given,
  moving forward only: the world it leaves behind continues the world it found. So what holds of all
  later identifiers and readings before an investigation holds of them after it.
\<close>

section \<open>Steps inside a node\<close>

lemma expired_le: "expired started b w = (x, w') \<Longrightarrow> world_le w w'"
  by (auto simp: expired_def world_le_def read_clock_def split: prod.splits)

lemma stage_event_le [simp]: "world_le (sc_world s) (sc_world (stage_event phase name flds s))"
  by (auto simp: stage_event_def split: prod.splits dest: record_event_ok(2))

lemma stage_event_readings [simp]:
  "clock_at (sc_world (stage_event phase name flds s)) = clock_at (sc_world s)"
  "clock_n (sc_world (stage_event phase name flds s)) = clock_n (sc_world s)"
  "event_clock_at (sc_world (stage_event phase name flds s)) = event_clock_at (sc_world s)"
  "event_clock_n (sc_world (stage_event phase name flds s)) = Suc (event_clock_n (sc_world s))"
  "id_at (sc_world (stage_event phase name flds s)) = id_at (sc_world s)"
  "id_n (sc_world (stage_event phase name flds s)) = id_n (sc_world s)"
  by (simp_all add: stage_event_def record_event_def read_event_clock_def)

lemma logs_le [simp]:
  "world_le (sc_world s) (sc_world (log_invalid phase stage e s))" "world_le (sc_world s) (sc_world (log_stop phase x s))"
  by (simp_all add: log_invalid_def log_stop_def)

lemma denied_le: "denied_receipt p scope mark reason msg w = (r, w') \<Longrightarrow> world_le w w'"
  by (auto simp: denied_receipt_def read_clock_def new_opaque_id_def world_le_def split: prod.splits)

lemma reserve_le: "reserve ledger i tool mark tm arguments w = (r, ledger', w') \<Longrightarrow> world_le w w'"
  by (auto simp: reserve_def new_opaque_id_def Let_def world_le_def split: if_splits)

lemma dispatch_le:
  assumes "wrapper_dispatch L wr p scope seen b ledger w = (res, seen', ledger', w')"
  shows "world_le w w'"
  using assms unfolding wrapper_dispatch_def dispatch_def Let_def
  by (auto split: if_splits prod.splits sum.splits option.splits
      dest!: denied_le reserve_le settle_check_frame(1) read_clock_le simp: world_le_def)

lemma propose_once_le:
  "propose_once cfg st stage store receipts re s = (r, s') \<Longrightarrow> world_le (sc_world s) (sc_world s')"
  unfolding propose_once_def Let_def by (auto split: sum.splits prod.splits option.splits if_splits)

lemma respond_once_le:
  "respond_once cfg st store receipts re s = (r, s') \<Longrightarrow> world_le (sc_world s) (sc_world s')"
  unfolding respond_once_def Let_def by (auto split: sum.splits prod.splits if_splits)

lemma ask_le:
  assumes ask: "\<And>re s r s'. ask_once re s = (r, s') \<Longrightarrow> world_le (sc_world s) (sc_world s')"
    and logs: "\<And>x s. world_le (sc_world s) (sc_world (on_stop x s))" "\<And>e s. world_le (sc_world s) (sc_world (on_invalid e s))"
    and run: "ask_with_repair b started ask_once on_stop on_invalid s = (r, s')"
  shows "world_le (sc_world s) (sc_world s')"
proof -
  obtain x w1 where ex: "expired started b (sc_world s) = (x, w1)" by force
  note w1 = expired_le [OF ex]
  have first: "world_le (sc_world s) u" if "world_le w1 u" for u using w1 that by (rule world_le_trans)
  have stop: "world_le u (sc_world (on_stop x s))" if "world_le u (sc_world s)" for u x s using that logs(1) by (rule world_le_trans)
  have invalid: "world_le u (sc_world (on_invalid x s))" if "world_le u (sc_world s)" for u x s using that logs(2) by (rule world_le_trans)
  have after: "world_le (sc_world s) u" if "world_le (sc_world (on_invalid x s)) u" for u x s
    using logs(2) that by (rule world_le_trans)
  show ?thesis
    using run w1 unfolding ask_with_repair_def ex Let_def stop_with_def
    by (auto split: if_splits sum.splits prod.splits option.splits dest!: ask
        intro!: stop invalid dest!: first after; meson world_le_trans)
qed

lemma proposing_le:
  "ask_with_repair b started (propose_once cfg st stage store receipts) (log_stop phase) (log_invalid phase stage') s
     = (r, s') \<Longrightarrow> world_le (sc_world s) (sc_world s')"
  by (rule ask_le [where ask_once = "propose_once cfg st stage store receipts"])
    (auto intro: propose_once_le)

lemma assessing_le:
  "ask_with_repair b started (respond_once cfg st store receipts) (log_stop phase) (log_invalid phase stage') s
     = (r, s') \<Longrightarrow> world_le (sc_world s) (sc_world s')"
  by (rule ask_le [where ask_once = "respond_once cfg st store receipts"])
    (auto intro: respond_once_le)

section \<open>Nodes and runs\<close>

lemma investigate_le:
  assumes "investigate cfg st w = (r, w')"
  shows "world_le w w'"
  using assms unfolding investigate_def Let_def
  by (auto split: if_splits sum.splits prod.splits option.splits
      dest!: record_event_ok(2) proposing_le simp: world_le_def log_stop_def)

lemma final_assessment_le:
  assumes "final_assessment_node cfg st w = (r, w')"
  shows "world_le w w'"
  using assms unfolding final_assessment_node_def Let_def
  by (auto split: if_splits sum.splits prod.splits option.splits
      dest!: record_event_ok(2) assessing_le simp: world_le_def log_stop_def)

lemma dispatch_events_le: "dispatch_events st p result evs w = (evs', w') \<Longrightarrow> world_le w w'"
  by (auto simp: dispatch_events_def Let_def split: if_splits prod.splits
      dest!: record_event_ok(2) simp: world_le_def)

lemma dispatch_tool_le:
  assumes "dispatch_tool cfg st w = (r, w')"
  shows "world_le w w'"
  using assms unfolding dispatch_tool_def Let_def
  by (auto split: sum.splits prod.splits option.splits
      dest!: record_event_ok(2) dispatch_le dispatch_events_le simp: world_le_def)

lemma build_report_world: "build_report st b forced w = (r, w') \<Longrightarrow> world_le w w'"
  using build_report_le [of w st b forced] by simp

lemma quiet_nodes_le:
  "normalize_evidence st w = (r, w') \<Longrightarrow> world_le w w'"
  "escalation_interrupt b resumes st w = (r', w') \<Longrightarrow> world_le w w'"
  "final_report_node b st w = (r, w') \<Longrightarrow> world_le w w'"
  "route_after_normalize b st w = (n, w') \<Longrightarrow> world_le w w'"
proof -
  show "normalize_evidence st w = (r, w') \<Longrightarrow> world_le w w'"
    by (auto simp: normalize_evidence_def split: prod.splits dest: record_event_ok(2))
  show "escalation_interrupt b resumes st w = (r', w') \<Longrightarrow> world_le w w'"
    unfolding escalation_interrupt_def
    by (auto split: sum.splits option.splits prod.splits dest: record_event_ok(2))
  show "final_report_node b st w = (r, w') \<Longrightarrow> world_le w w'"
    unfolding final_report_node_def Let_def
    by (auto split: sum.splits prod.splits if_splits dest!: build_report_world record_event_ok(2) simp: world_le_def)
  show "route_after_normalize b st w = (n, w') \<Longrightarrow> world_le w w'"
    unfolding route_after_normalize_def
    by (auto split: sum.splits prod.splits if_splits dest: expired_le)
qed

lemma superstep_le:
  assumes "superstep cfg resumes n st w = (r, w')"
  shows "world_le w w'"
  using assms unfolding superstep_def then_to_def
  by (auto split: graph_node.splits sum.splits prod.splits node_outcome.splits
      dest!: quiet_nodes_le dest: investigate_le dispatch_tool_le final_assessment_le simp: world_le_def)

lemma run_loop_le:
  "run_loop cfg resumes limit n st w = (e, n', st', w') \<Longrightarrow> world_le w w'"
proof (induction limit arbitrary: n st w)
  case 0
  then show ?case by (cases n) auto
next
  case (Suc limit)
  show ?case
  proof (cases "n = N_END")
    case True
    with Suc.prems show ?thesis by auto
  next
    case False
    obtain r w1 where step: "superstep cfg resumes n st w = (r, w1)" by force
    have "world_le w w1" using step by (rule superstep_le)
    moreover have "w' = w1 \<or> (\<exists>m st1. run_loop cfg resumes limit m st1 w1 = (e, n', st', w'))"
      using Suc.prems False step by (cases n; cases r) auto
    ultimately show ?thesis using Suc.IH world_le_trans by blast
  qed
qed

lemma start_le: "start_investigation cfg es i m w = (st, w') \<Longrightarrow> world_le w w'"
  by (auto simp: start_investigation_def split: prod.splits option.splits
      dest!: record_event_ok(2) new_opaque_id_le read_clock_le simp: world_le_def)

lemma investigation_le:
  assumes "run_graph_investigation cfg es i m checkpoint_id w = (r, evs, w')"
  shows "world_le w w'"
proof -
  obtain st w1 where st: "start_investigation cfg es i m w = (st, w1)" by force
  obtain e n' st' w2 where run: "run_loop cfg [] GRAPH_RECURSION_LIMIT (graph_start cfg) st w1 = (e, n', st', w2)"
    by (metis prod_cases4)
  have "world_le w w2" using start_le [OF st] run_loop_le [OF run] by (rule world_le_trans)
  moreover have "world_le w2 w'" using assms unfolding run_graph_investigation_def st run settle_invocation_def Let_def
    by (auto simp: run split: run_end.splits sum.splits prod.splits
        dest!: record_event_ok(2) build_report_world simp: world_le_def)
  ultimately show ?thesis by (rule world_le_trans)
qed

end
