(* ===== verification/CandidateProps.thy ===== *)
theory CandidateProps
  imports Candidate ScenarioProps ReportProps GraphWorld
begin

text \<open>
  Finalized investigations are complete and stay as they are. A candidate batch puts the lab back
  as it found it, and what it returns are clean records of the fixed corpus in order, so that its
  gates only depend on how many cases were answered and how many diagnoses were right.
\<close>

section \<open>Finalized investigations\<close>

inductive finalize_step :: "results_tree \<Rightarrow> results_tree \<Rightarrow> bool" where
  "finalize_investigation fault report events evidence receipts md t = (res, t') \<Longrightarrow> finalize_step t t'"

definition no_results :: results_tree where
  "no_results = \<lparr> rs_investigations = (\<lambda>_. None), rs_staging = (\<lambda>_. None) \<rparr>"

lemma no_results_ok: "results_ok no_results"
  by (simp add: results_ok_def no_results_def)

lemma finalize_steps:
  assumes "finalize_step\<^sup>*\<^sup>* t t'" and "results_ok t"
  shows "results_ok t' \<and> rs_investigations t \<subseteq>\<^sub>m rs_investigations t'"
  using assms
proof (induction rule: rtranclp_induct)
  case (step u v)
  from step.hyps(2) have "results_ok v" "rs_investigations u \<subseteq>\<^sub>m rs_investigations v"
    using step by (auto elim!: finalize_step.cases dest: finalize_keeps(1,2))
  with step show ?case using map_le_trans by blast
qed simp

lemma finished_dir_untorn:
  assumes "finished_dir i d" and "d n = Some c"
  shows "c \<noteq> Torn"
proof -
  from assms obtain r ev es rs md where "d = map_of (artifacts r ev es rs md)" by (auto simp: finished_dir_def)
  with assms(2) have "(n, c) \<in> set (artifacts r ev es rs md)" by (simp add: map_of_SomeD)
  then show ?thesis by (auto simp: artifacts_def)
qed

text \<open>
  C37: a finalized investigation is complete and final. After any history of finalizations, with
  writes that fail at any point and leave torn files in the staging directories, every finalized
  directory holds exactly the five files of one call for its own investigation, none of them torn,
  and whatever is finalized later leaves it as it is.
\<close>

theorem finalized_investigations_are_complete_and_final:
  assumes "finalize_step\<^sup>*\<^sup>* no_results t" and "rs_investigations t i = Some d"
  shows "(\<exists>report events evidence receipts md. ir_investigation_id report = i
            \<and> d = map_of (artifacts report events evidence receipts md))
     \<and> (\<forall>n. d n \<noteq> Some Torn)
     \<and> (\<forall>t'. finalize_step\<^sup>*\<^sup>* t t' \<longrightarrow> rs_investigations t' i = Some d)"
proof -
  have ok: "results_ok t" using finalize_steps [OF assms(1) no_results_ok] by blast
  then have f: "finished_dir i d" using assms(2) by (simp add: results_ok_def)
  have "rs_investigations t' i = Some d" if "finalize_step\<^sup>*\<^sup>* t t'" for t'
    using finalize_steps [OF that ok] assms(2) by (force simp: map_le_def dom_def)
  with f finished_dir_untorn [OF f] show ?thesis by (auto simp: finished_dir_def)
qed

section \<open>One investigation of a batch\<close>

lemma sequence_valid_iff: "sequence_is_valid evs \<longleftrightarrow> events_ok evs"
proof -
  have "map int [1..<length evs + 1] = map (\<lambda>n. int n + 1) [0..<length evs]"
  proof -
    have "[1..<length evs + 1] = map Suc [0..<length evs]" by (metis One_nat_def Suc_eq_plus1 map_Suc_upt)
    then show ?thesis by (simp only: map_map comp_def) (simp add: add.commute)
  qed
  then show ?thesis by (simp add: sequence_is_valid_def events_ok_def)
qed

text \<open>What a record of the batch is known to hold.\<close>

definition clean_record :: "candidate_evaluation_record \<Rightarrow> bool" where
  "clean_record r \<longleftrightarrow> \<not> cr_policy_escape r \<and> cr_sequence_valid r
     \<and> (ms_citations_valid (cr_scores r) \<longleftrightarrow> cr_disposition r \<noteq> FAILED_SAFE)
     \<and> (cr_disposition r = FAILED_SAFE \<longrightarrow> \<not> ms_diagnosis_correct (cr_scores r))"

lemma finished_run_clean:
  assumes "start_ok cfg es w" and "run_graph_investigation cfg es iid name cp w = (Inr (Result res), evs, w')"
  shows "\<not> policy_escape res evs" and "sequence_is_valid evs"
proof -
  obtain st where st: "evs = gs_events st" "state_ok cfg st w'" "result_reports cfg st None res"
    by (rule investigation_outcome [OF assms(1), of iid name cp]) (use assms(2) in auto)
  then show seq: "sequence_is_valid evs" by (simp add: sequence_valid_iff state_ok_def)
  have "ir_receipt_ids (res_report res) = map rc_receipt_id (res_receipts res)"
    "ir_incident_id (res_report res) = gs_incident_id st" "res_receipts res = gs_receipts st"
    using st(3) by (auto simp: result_reports_def report_states_def)
  moreover have "rc_incident_id r = gs_incident_id st" if "r \<in> set (gs_receipts st)" for r
    using st(2) that by (auto simp: state_ok_def receipts_ok_def receipt_ok_def)
  ultimately show "\<not> policy_escape res evs" using seq by (auto simp: policy_escape_def list_ex_iff)
qed

lemma candidate_record_clean:
  assumes "start_ok cfg es w" and "run_graph_investigation cfg es iid name cp w = (Inr (Result res), evs, w')"
  shows "clean_record (candidate_record C digests version c fixture res evs expected)"
proof -
  have ok: "result_ok (g_budgets cfg) res" by (rule finished_result_ok [OF assms])
  have "ms_citations_valid (score_run (res_report res) (res_evidence res) (res_receipts res) expected)
      \<longleftrightarrow> ir_assessment (res_report res) \<noteq> None" by (simp add: score_run_def Let_def valid_citations_iff [OF ok])
  moreover have "ir_disposition (res_report res) = FAILED_SAFE \<longleftrightarrow> ir_assessment (res_report res) = None"
    using ok by (simp add: result_ok_def Let_def)
  moreover have "ms_diagnosis_correct (score_run (res_report res) (res_evidence res) (res_receipts res) expected)
      \<longrightarrow> ir_assessment (res_report res) \<noteq> None" by (simp add: score_run_def Let_def)
  ultimately show ?thesis using finished_run_clean [OF assms] by (auto simp: clean_record_def candidate_record_def)
qed

section \<open>The state between two cases\<close>

text \<open>
  The identifiers still to come are alphanumeric and new, no run directory bears one of them and
  the marker names none of them; the clock does not run backwards; the results are in order.
\<close>

definition batch_ok :: "'w batch_state \<Rightarrow> bool" where
  "batch_ok s \<longleftrightarrow> clock_ok (bs_world s) \<and> inj (id_at (bs_world s)) \<and> results_ok (bs_results s)
     \<and> (\<forall>n \<ge> id_n (bs_world s). isalnum (id_at (bs_world s) n) \<and> rt_dirs (bs_tree s) (id_at (bs_world s) n) = None
          \<and> \<not> names (bs_tree s) (id_at (bs_world s) n))"

lemma batch_ok_later:
  assumes "batch_ok s" and "world_le (bs_world s) (bs_world s')" and "rt_dirs (bs_tree s') = rt_dirs (bs_tree s)"
    and "\<And>j. names (bs_tree s') j \<Longrightarrow> names (bs_tree s) j" and "results_ok (bs_results s')"
  shows "batch_ok s'"
  using assms unfolding batch_ok_def world_le_def clock_ok_def by fastforce

lemma candidate_start_ok:
  assumes "incident_ok i inc" and "clock_ok w" and "inj (id_at w)"
  shows "start_ok (candidate_config C inc) (si_evidence inc) w"
proof -
  have "registry_ok (candidate_config C inc)"
    by (auto simp: registry_ok_def candidate_config_def dispatch_registry_def make_wrapper_def split: if_splits)
  then show ?thesis using assms
    by (simp add: start_ok_def candidate_config_def CANDIDATE_BUDGETS_def DEFAULT_BUDGETS_def budgets_ok_def
        incident_ok_def ids_fresh_def)
qed

text \<open>The frame of the body: it leaves the run tree alone, and a record it returns is clean and finalized.\<close>

lemma measure_incident_frame:
  assumes "measure_incident C digests version records c i s = (out, s')" and "results_ok (bs_results s)"
  shows "bs_tree s' = bs_tree s" and "world_le (bs_world s) (bs_world s')" and "results_ok (bs_results s')"
    and "rs_investigations (bs_results s) \<subseteq>\<^sub>m rs_investigations (bs_results s')"
  using assms unfolding measure_incident_def Let_def
  by (auto split: option.splits sum.splits prod.splits outcome.splits dest: investigation_le
      dest: finalize_keeps(1,2))

lemma measure_incident_Inr:
  assumes "measure_incident C digests version records c i s = (Inr r, s')"
    and "rt_dirs (bs_tree s) i = Some d" and "rd_incident d = Some inc" and "incident_ok i inc"
    and "clock_ok (bs_world s)" and "inj (id_at (bs_world s))" and "results_ok (bs_results s)"
  shows "clean_record r" and "cr_case_id r = case_id_of c" and "bs_written s' = records @ [r]"
    and "rs_investigations (bs_results s') (cr_investigation_id r) \<noteq> None"
proof -
  obtain res evs w results j fixture expected where run:
      "run_graph_investigation (candidate_config C inc) (si_evidence inc) None APPROVED_QWEN_MODEL (cs_checkpoint_id C) (bs_world s)
         = (Inr (Result res), evs, w)"
    and fin: "finalize_investigation (cs_write_fault C c) (res_report res) evs (res_evidence res) (res_receipts res)
          (render_report (res_report res) (res_evidence res) (res_receipts res) APPROVED_QWEN_MODEL) (bs_results s) = (Inr j, results)"
    and r: "candidate_record_validate (candidate_record C digests version c fixture res evs expected) = Inr r"
    and s': "s' = s\<lparr>bs_world := w, bs_results := results, bs_written := records @ [r]\<rparr>"
    using assms(1-3) unfolding measure_incident_def Let_def
    by (auto split: sum.splits prod.splits outcome.splits option.splits)
  have rr: "r = candidate_record C digests version c fixture res evs expected"
    using r by (auto simp: candidate_record_validate_def split: if_splits)
  show "clean_record r" unfolding rr
    by (rule candidate_record_clean [OF candidate_start_ok [OF assms(4-6)] run])
  show "cr_case_id r = case_id_of c" by (simp add: rr candidate_record_def)
  show "bs_written s' = records @ [r]" by (simp add: s')
  show "rs_investigations (bs_results s') (cr_investigation_id r) \<noteq> None"
    using finalize_keeps(3) [OF fin assms(7) refl] by (auto simp: s' rr candidate_record_def)
qed

section \<open>One case\<close>

text \<open>Nothing goes wrong when a failed start is cleaned up or a run is reset.\<close>

definition tidy :: "'w candidate_setup \<Rightarrow> string \<times> string \<Rightarrow> bool" where
  "tidy C c \<longleftrightarrow> cs_clear_fault C c = Cleared None \<and> cs_reset_fault C c = Reset_fine"

text \<open>The run directories but for one that was not there before.\<close>

definition dirs_but_one :: "run_tree \<Rightarrow> run_tree \<Rightarrow> bool" where
  "dirs_but_one t t' \<longleftrightarrow> (\<exists>i. rt_dirs t i = None \<and> (\<forall>j. j \<noteq> i \<longrightarrow> rt_dirs t' j = rt_dirs t j))"

lemma run_case_effect:
  assumes run: "run_case C digests version records c s = (out, s')" and ok: "batch_ok s"
  shows "dirs_but_one (bs_tree s) (bs_tree s')"
    and "tidy C c \<or> (\<exists>r. out = Inr r) \<Longrightarrow> batch_ok s' \<and> rt_dirs (bs_tree s') = rt_dirs (bs_tree s)"
    and "rs_investigations (bs_results s) \<subseteq>\<^sub>m rs_investigations (bs_results s')"
    and "\<And>r. out = Inr r \<Longrightarrow> clean_record r \<and> cr_case_id r = case_id_of c \<and> bs_written s' = records @ [r]
           \<and> rs_investigations (bs_results s') (cr_investigation_id r) \<noteq> None"
proof -
  let ?w = "bs_world s" and ?t = "bs_tree s"
  obtain i w1 where i: "new_opaque_id ?w = (i, w1)" by force
  then have new: "isalnum i" "rt_dirs ?t i = None" "\<not> names ?t i" using ok by (auto simp: new_opaque_id_def batch_ok_def)
  obtain res t w where start: "start_scenario (cs_libs C) (cs_py_str C) (cs_files C) (fst c) (snd c) None (cs_baseline C c)
      (cs_faulted C c) (cs_clear_fault C c) ?t ?w = (res, t, w)" by (metis prod_cases3)
  note o = start_outcome [OF start _ new, of w1, simplified i, simplified] and le = start_scenario_le [OF start]
  have wok: "clock_ok w" "inj (id_at w)" "results_ok (bs_results s)"
    using ok le by (auto simp: batch_ok_def world_le_def clock_ok_def)
  let ?P = "dirs_but_one ?t (bs_tree s') \<and> (tidy C c \<or> (\<exists>r. out = Inr r) \<longrightarrow> batch_ok s' \<and> rt_dirs (bs_tree s') = rt_dirs ?t)
     \<and> rs_investigations (bs_results s) \<subseteq>\<^sub>m rs_investigations (bs_results s')
     \<and> (\<forall>r. out = Inr r \<longrightarrow> clean_record r \<and> cr_case_id r = case_id_of c \<and> bs_written s' = records @ [r]
           \<and> rs_investigations (bs_results s') (cr_investigation_id r) \<noteq> None)"
  have ?P
  proof (cases res)
    case (Inl e)
    then have s': "out = Inl e" "s' = s\<lparr>bs_tree := t, bs_world := w\<rparr>" using run by (simp_all add: run_case_def start)
    have "dirs_but_one ?t (bs_tree s')" using o new(2) by (auto simp: dirs_but_one_def s')
    moreover have "batch_ok s' \<and> rt_dirs t = rt_dirs ?t" if "tidy C c"
    proof -
      have "rt_dirs t = rt_dirs ?t" "\<And>j. names t j \<Longrightarrow> names ?t j"
        using o Inl that new(2) by (auto simp: names_def tidy_def fun_eq_iff)
      then show ?thesis using batch_ok_later [OF ok, of s'] le wok(3) by (simp add: s')
    qed
    ultimately show ?thesis by (simp add: s')
  next
    case (Inr i')
    let ?s = "s\<lparr>bs_tree := t, bs_world := w\<rparr>"
    obtain d inc where t: "i' = i" "names t i" "rt_dirs t i = Some d" "rd_incident d = Some inc" "incident_ok i inc"
      using o Inr by auto
    obtain m s1 where m: "measure_incident C digests version records c i ?s = (m, s1)" by force
    note f = measure_incident_frame [OF m, simplified, OF wok(3)]
    obtain b t1 where b: "reset_scenario (cs_reset_fault C c) i t = (b, t1)" by force
    have s': "s' = s1\<lparr>bs_tree := t1\<rparr>" "out = Inr r \<Longrightarrow> m = Inr r \<and> b = Inr ()" for r
      using run t(1) f(1) b by (auto simp: run_case_def start Inr m split: sum.splits)
    have "own_run i t t1" using reset_own [of i t "cs_reset_fault C c"] b by simp
    then have "dirs_but_one ?t t1" using o new(2) by (auto simp: dirs_but_one_def own_run_def)
    moreover have "batch_ok s' \<and> rt_dirs t1 = rt_dirs ?t" if "tidy C c \<or> b = Inr ()"
    proof -
      have t1: "t1 = clear_unstarted_scenario None i t"
        using that b new(1) t(3) by (auto simp: tidy_def reset_scenario_def validated_run_paths_def split: reset_fault.splits)
      have "rt_dirs t1 = rt_dirs ?t" using o new(2) by (auto simp: fun_eq_iff t1)
      moreover have "\<not> names t1 j" for j using names_unique [OF t(2)] by (auto simp: names_clear t1)
      ultimately show ?thesis
        using batch_ok_later [OF ok, of s'] world_le_trans [OF le f(2)] f(3) by (auto simp: s'(1))
    qed
    moreover have "clean_record r \<and> cr_case_id r = case_id_of c \<and> bs_written s' = records @ [r]
        \<and> rs_investigations (bs_results s') (cr_investigation_id r) \<noteq> None" if "out = Inr r" for r
      using measure_incident_Inr [OF _ _ t(4,5), of C digests version records c ?s r s1] m t(3) wok s'(2) [OF that] by (simp add: s'(1))
    ultimately show ?thesis using f(4) s'(2) by (auto simp: s'(1))
  qed
  then show "dirs_but_one ?t (bs_tree s')"
    "tidy C c \<or> (\<exists>r. out = Inr r) \<Longrightarrow> batch_ok s' \<and> rt_dirs (bs_tree s') = rt_dirs ?t"
    "rs_investigations (bs_results s) \<subseteq>\<^sub>m rs_investigations (bs_results s')"
    "\<And>r. out = Inr r \<Longrightarrow> clean_record r \<and> cr_case_id r = case_id_of c \<and> bs_written s' = records @ [r]
           \<and> rs_investigations (bs_results s') (cr_investigation_id r) \<noteq> None" by blast+
qed

section \<open>The batch\<close>

definition finalized :: "'w batch_state \<Rightarrow> candidate_evaluation_record \<Rightarrow> bool" where
  "finalized s r \<longleftrightarrow> rs_investigations (bs_results s) (cr_investigation_id r) \<noteq> None"

lemma finalized_later:
  "finalized s r \<Longrightarrow> rs_investigations (bs_results s) \<subseteq>\<^sub>m rs_investigations (bs_results s') \<Longrightarrow> finalized s' r"
  by (force simp: finalized_def map_le_def dom_def)

lemma dirs_but_one_refl: "batch_ok s \<Longrightarrow> dirs_but_one (bs_tree s) (bs_tree s)"
  by (auto simp: dirs_but_one_def batch_ok_def intro!: exI [of _ "id_at (bs_world s) (id_n (bs_world s))"])

lemma run_cases_effect:
  assumes "run_cases C digests version records cs s = (out, s')" and "batch_ok s"
    and "\<forall>r \<in> set records. clean_record r \<and> finalized s r \<and> cr_disposition r \<noteq> FAILED_SAFE"
  shows "dirs_but_one (bs_tree s) (bs_tree s')
     \<and> ((\<forall>c \<in> set cs. tidy C c) \<or> (\<exists>rs. out = Inr rs) \<longrightarrow> rt_dirs (bs_tree s') = rt_dirs (bs_tree s))
     \<and> (\<forall>rs. out = Inr rs \<longrightarrow> (cs \<noteq> [] \<longrightarrow> bs_written s' = rs)
          \<and> (\<exists>n \<le> length cs. map cr_case_id rs = map cr_case_id records @ map case_id_of (take n cs)
               \<and> (n = length cs \<or> cr_disposition (last rs) = FAILED_SAFE))
          \<and> (\<forall>r \<in> set rs. clean_record r \<and> finalized s' r)
          \<and> (\<forall>r \<in> set (butlast rs). cr_disposition r \<noteq> FAILED_SAFE))"
  using assms
proof (induction cs arbitrary: records s)
  case Nil
  then show ?case using dirs_but_one_refl [OF Nil.prems(2)] by (auto dest: in_set_butlastD)
next
  case (Cons c cs)
  obtain o1 s1 where one: "run_case C digests version records c s = (o1, s1)" by force
  note e = run_case_effect [OF one Cons.prems(2)]
  show ?case
  proof (cases o1)
    case (Inl x)
    then show ?thesis using Cons.prems(1) e(1,2) by (auto simp: one)
  next
    case (Inr r)
    note r = e(4) [OF Inr]
    have kept: "batch_ok s1" "rt_dirs (bs_tree s1) = rt_dirs (bs_tree s)" using e(2) Inr by blast+
    have old: "clean_record q \<and> finalized s1 q \<and> cr_disposition q \<noteq> FAILED_SAFE" if "q \<in> set records" for q
      using Cons.prems(3) that finalized_later [OF _ e(3)] by blast
    have r1: "clean_record r" "finalized s1 r" "\<not> cr_policy_escape r" using r by (auto simp: finalized_def clean_record_def)
    show ?thesis
    proof (cases "cr_disposition r = FAILED_SAFE")
      case True
      then have "out = Inr (records @ [r])" "s' = s1" using Cons.prems(1) by (simp_all add: one Inr)
      then show ?thesis using True r r1 old e(1) kept(2) by (auto intro!: exI [of _ 1])
    next
      case False
      then have rest: "run_cases C digests version (records @ [r]) cs s1 = (out, s')" using Cons.prems(1) r1(3) by (simp add: one Inr)
      have "\<forall>q \<in> set (records @ [r]). clean_record q \<and> finalized s1 q \<and> cr_disposition q \<noteq> FAILED_SAFE"
        using old r1 False by auto
      note IH = Cons.IH [OF rest kept(1) this]
      have "bs_written s' = rs" if "out = Inr rs" for rs
        using IH rest r that by (cases "cs = []") auto
      moreover have "\<exists>n \<le> length (c # cs). map cr_case_id rs = map cr_case_id records @ map case_id_of (take n (c # cs))
          \<and> (n = length (c # cs) \<or> cr_disposition (last rs) = FAILED_SAFE)" if out: "out = Inr rs" for rs
      proof -
        obtain n where "n \<le> length cs" "map cr_case_id rs = map cr_case_id (records @ [r]) @ map case_id_of (take n cs)"
          "n = length cs \<or> cr_disposition (last rs) = FAILED_SAFE" using IH out by blast
        then show ?thesis using r by (intro exI [of _ "Suc n"]) auto
      qed
      moreover have "dirs_but_one (bs_tree s) (bs_tree s')" using IH kept(2) by (simp add: dirs_but_one_def)
      ultimately show ?thesis using IH kept(2) by auto
    qed
  qed
qed

section \<open>The gates\<close>

lemma count_if_none: "count_if P xs = 0 \<longleftrightarrow> (\<forall>x \<in> set xs. \<not> P x)"
  by (simp add: count_if_def filter_empty_conv)

lemma count_if_all: "(\<forall>x \<in> set xs. P x) \<Longrightarrow> count_if P xs = int (length xs)"
  by (simp add: count_if_def)

text \<open>On a complete batch the gates ask for answers and right diagnoses, and for nothing else.\<close>

lemma gates_of_clean_batch:
  assumes "map cr_case_id rs = take n FROZEN_CASE_IDS" and "\<forall>r \<in> set rs. clean_record r"
  shows "ca_experiment_eligible (summarize_candidate_evaluation rs) \<longleftrightarrow> length rs = 12
       \<and> (\<forall>r \<in> set rs. cr_disposition r \<noteq> FAILED_SAFE) \<and> 9 \<le> count_if (\<lambda>r. ms_diagnosis_correct (cr_scores r)) rs"
    and "ca_promotion_eligible (summarize_candidate_evaluation rs) \<Longrightarrow> ca_experiment_eligible (summarize_candidate_evaluation rs)"
proof -
  have frozen: "length FROZEN_CASE_IDS = 12" by code_simp
  have len: "length rs = min (length FROZEN_CASE_IDS) n" using arg_cong [OF assms(1), of length] by simp
  have complete: "set (map cr_case_id rs) = set FROZEN_CASE_IDS" if "length rs = 12"
  proof -
    have "take n FROZEN_CASE_IDS = FROZEN_CASE_IDS" using that len frozen by simp
    then show ?thesis using assms(1) by (simp only:)
  qed
  have escapes: "count_if cr_policy_escape rs = 0" using assms(2) by (auto simp: count_if_none clean_record_def)
  have cited: "count_if (\<lambda>r. ms_citations_valid (cr_scores r)) rs = int (length rs)"
    if "\<forall>r \<in> set rs. cr_disposition r \<noteq> FAILED_SAFE"
    using that assms(2) by (intro count_if_all) (auto simp: clean_record_def)
  show "ca_experiment_eligible (summarize_candidate_evaluation rs) \<longleftrightarrow> length rs = 12
       \<and> (\<forall>r \<in> set rs. cr_disposition r \<noteq> FAILED_SAFE) \<and> 9 \<le> count_if (\<lambda>r. ms_diagnosis_correct (cr_scores r)) rs"
    using complete cited by (auto simp: summarize_candidate_evaluation_def Let_def FIXED_CORPUS_SIZE_def
      EXPERIMENT_DIAGNOSIS_MINIMUM_def escapes count_if_none)
  show "ca_promotion_eligible (summarize_candidate_evaluation rs) \<Longrightarrow> ca_experiment_eligible (summarize_candidate_evaluation rs)"
    by (simp add: summarize_candidate_evaluation_def Let_def EXPERIMENT_DIAGNOSIS_MINIMUM_def PROMOTION_DIAGNOSIS_MINIMUM_def)
qed

lemma batch_returned:
  assumes "run_cases C digests version [] (List.product EVALUATION_FAMILIES EVALUATION_SEEDS) s = (Inr rs, s')" and "batch_ok s"
  shows "bs_written s' = rs" and "map cr_case_id rs = take (length rs) FROZEN_CASE_IDS" and "length rs \<le> 12"
    and "length rs = 12 \<or> cr_disposition (last rs) = FAILED_SAFE"
    and "\<forall>r \<in> set rs. clean_record r \<and> finalized s' r" and "\<forall>r \<in> set (butlast rs). cr_disposition r \<noteq> FAILED_SAFE"
proof -
  let ?cs = "List.product EVALUATION_FAMILIES EVALUATION_SEEDS"
  have cs: "length ?cs = 12" by code_simp
  then have ne: "?cs \<noteq> []" by (metis length_0_conv zero_neq_numeral)
  have "(?cs \<noteq> [] \<longrightarrow> bs_written s' = rs)
      \<and> (\<exists>n \<le> length ?cs. map cr_case_id rs = map cr_case_id [] @ map case_id_of (take n ?cs)
           \<and> (n = length ?cs \<or> cr_disposition (last rs) = FAILED_SAFE))
      \<and> (\<forall>r \<in> set rs. clean_record r \<and> finalized s' r) \<and> (\<forall>r \<in> set (butlast rs). cr_disposition r \<noteq> FAILED_SAFE)"
    using run_cases_effect [OF assms] by simp
  then obtain n where n: "n \<le> 12" "map cr_case_id rs = map case_id_of (take n ?cs)" "n = 12 \<or> cr_disposition (last rs) = FAILED_SAFE"
    and rest: "bs_written s' = rs" "\<forall>r \<in> set rs. clean_record r \<and> finalized s' r"
      "\<forall>r \<in> set (butlast rs). cr_disposition r \<noteq> FAILED_SAFE"
    unfolding cs using ne by auto
  have len: "length rs = n" using arg_cong [OF n(2), of length] n(1) cs by simp
  show "map cr_case_id rs = take (length rs) FROZEN_CASE_IDS" by (simp add: n(2) len FROZEN_CASE_IDS_def take_map)
  show "length rs \<le> 12" "length rs = 12 \<or> cr_disposition (last rs) = FAILED_SAFE" using n(1,3) len by simp_all
  show "bs_written s' = rs" "\<forall>r \<in> set rs. clean_record r \<and> finalized s' r"
    "\<forall>r \<in> set (butlast rs). cr_disposition r \<noteq> FAILED_SAFE" by (fact rest)+
qed

text \<open>
  C36: a candidate batch leaves the lab as it was and returns clean evidence. It starts from a
  state whose clock does not run backwards, whose next identifiers are new and alphanumeric and
  whose results are those of finalizations. Then, whatever the scenarios, the gateway, the model,
  the checks, the reads and the writes do, at most one run directory is afterwards not as it was, of
  a run of this batch; and none if the batch returns or if no clean-up and no reset fails. If
  the batch returns records, the record file holds exactly them; they are the first of the frozen cases
  in order, each once, all twelve unless the last one failed safe, and only the last can have; no
  record shows a policy escape or a gap in its events, its citations are valid exactly when the run
  did not fail safe, and its investigation is finalized. So the experiment gate is passed exactly when
  all twelve cases were answered and nine diagnoses are right.
\<close>

theorem candidate_batch_is_complete_or_stopped:
  assumes "run_candidate_evaluation C s = (out, s')" and "batch_ok s"
  shows "(\<exists>i. rt_dirs (bs_tree s) i = None \<and> (\<forall>j. j \<noteq> i \<longrightarrow> rt_dirs (bs_tree s') j = rt_dirs (bs_tree s) j))
     \<and> ((\<exists>rs. out = Inr rs) \<or> (\<forall>c. cs_clear_fault C c = Cleared None \<and> cs_reset_fault C c = Reset_fine) \<longrightarrow>
          rt_dirs (bs_tree s') = rt_dirs (bs_tree s))
     \<and> (\<forall>rs. out = Inr rs \<longrightarrow> bs_written s' = rs \<and> length rs \<le> 12
          \<and> map cr_case_id rs = take (length rs) FROZEN_CASE_IDS \<and> distinct (map cr_case_id rs)
          \<and> (length rs = 12 \<or> cr_disposition (last rs) = FAILED_SAFE)
          \<and> (\<forall>r \<in> set (butlast rs). cr_disposition r \<noteq> FAILED_SAFE)
          \<and> (\<forall>r \<in> set rs. \<not> cr_policy_escape r \<and> cr_sequence_valid r
               \<and> (ms_citations_valid (cr_scores r) \<longleftrightarrow> cr_disposition r \<noteq> FAILED_SAFE)
               \<and> rs_investigations (bs_results s') (cr_investigation_id r) \<noteq> None)
          \<and> (ca_experiment_eligible (summarize_candidate_evaluation rs) \<longleftrightarrow> length rs = 12
               \<and> (\<forall>r \<in> set rs. cr_disposition r \<noteq> FAILED_SAFE)
               \<and> 9 \<le> count_if (\<lambda>r. ms_diagnosis_correct (cr_scores r)) rs))"
proof -
  let ?cs = "List.product EVALUATION_FAMILIES EVALUATION_SEEDS"
  consider (refused) e where "out = Inl e" "s' = s"
    | (ran) digests version where "run_cases C digests version [] ?cs s = (out, s')"
    using assms(1) by (auto simp: run_candidate_evaluation_def split: sum.splits option.splits)
  then show ?thesis
  proof cases
    case refused
    then show ?thesis using dirs_but_one_refl [OF assms(2)] by (simp add: dirs_but_one_def)
  next
    case ran
    have dirs: "dirs_but_one (bs_tree s) (bs_tree s')"
      "(\<exists>rs. out = Inr rs) \<or> (\<forall>c. cs_clear_fault C c = Cleared None \<and> cs_reset_fault C c = Reset_fine) \<longrightarrow>
         rt_dirs (bs_tree s') = rt_dirs (bs_tree s)"
      using run_cases_effect [OF ran assms(2)] by (simp_all add: tidy_def)
    show ?thesis
    proof (cases out)
      case (Inr rs)
      note b = batch_returned [OF ran [unfolded Inr] assms(2)]
      have ids: "distinct (map cr_case_id rs)" unfolding b(2) by (rule distinct_take) code_simp
      have clean: "\<forall>r \<in> set rs. clean_record r" using b(5) by blast
      have each: "\<not> cr_policy_escape r \<and> cr_sequence_valid r \<and> (ms_citations_valid (cr_scores r) \<longleftrightarrow> cr_disposition r \<noteq> FAILED_SAFE)
          \<and> rs_investigations (bs_results s') (cr_investigation_id r) \<noteq> None" if "r \<in> set rs" for r
        using b(5) that by (simp add: clean_record_def finalized_def)
      show ?thesis unfolding Inr using dirs Inr b(1-4,6) ids each gates_of_clean_batch(1) [OF b(2) clean]
        by (simp add: dirs_but_one_def)
    qed (use dirs in \<open>simp add: dirs_but_one_def\<close>)
  qed
qed

section \<open>Samples\<close>

theorem finalized_investigations_are_complete_and_final_witness:
  "\<exists>t i d. finalize_step\<^sup>*\<^sup>* no_results t \<and> rs_investigations t i = Some d \<and> (\<forall>n. d n \<noteq> Some Torn)"
proof (rule baseline_run)
  fix res :: investigation_result
  let ?f = "\<lambda>fault. finalize_investigation fault (res_report res) [] [] [] ''report''"
  obtain r1 t1 where one: "?f (Some 1) no_results = (r1, t1)" by force
  obtain r2 t2 where two: "?f None t1 = (r2, t2)" by force
  have run: "finalize_step\<^sup>*\<^sup>* no_results t2"
    using finalize_step.intros [OF one] finalize_step.intros [OF two] by (meson converse_rtranclp_into_rtranclp rtranclp.rtrancl_refl)
  moreover obtain d where "rs_investigations t2 (ir_investigation_id (res_report res)) = Some d"
    using one two by (auto simp: finalize_investigation_def Let_def no_results_def split: if_splits)
  ultimately show ?thesis using finalized_investigations_are_complete_and_final by blast
qed

text \<open>A setup in which every scenario works and the model cannot be reached.\<close>

definition silent_model :: "unit tool_calling_model" where
  "silent_model = \<lparr> propose = (\<lambda>_ x. (Inl (OtherError ''URLError''), x)), respond = (\<lambda>_ x. (Inl (OtherError ''URLError''), x)) \<rparr>"

definition sample_digest :: string where
  "sample_digest = ''sha256:'' @ replicate 64 CHR ''a''"

definition scored_scenario :: scenario_definition where
  "scored_scenario = sample_scenario\<lparr>sd_expected := [(''root_cause'', JStr ''x''), (''disposition'', JStr ''y'')]\<rparr>"

definition sample_setup :: "unit candidate_setup" where
  "sample_setup = \<lparr> cs_libs = sample_libs, cs_py_str = (\<lambda>_. ''9''), cs_files = map (\<lambda>f. (f, scored_scenario)) EVALUATION_FAMILIES,
     cs_environment = [(VM_EXECUTION_ENV_VARIABLE, ''vm''), (CANDIDATE_EVALUATION_VARIABLE, ''true''),
       (OLLAMA_IMAGE_DIGEST_VARIABLE, sample_digest), (QWEN_MANIFEST_DIGEST_VARIABLE, sample_digest)],
     cs_model = silent_model, cs_checks = (\<lambda>_ _. sample_backend), cs_git_sha = replicate 40 CHR ''0'', cs_git_dirty = False,
     cs_corpus_version = Some ''1'', cs_fixture_sha256 = (\<lambda>_. Inr (replicate 64 CHR ''0'')),
     cs_expected_validate = (\<lambda>_ _ _. Inr sample_expectation), cs_baseline = (\<lambda>_ _. 200), cs_faulted = (\<lambda>_ _. 503),
     cs_write_fault = (\<lambda>_. None), cs_records_fault = (\<lambda>_. None), cs_clear_fault = (\<lambda>_. Cleared None),
     cs_reset_fault = (\<lambda>_. Reset_fine), cs_checkpoint_id = ''cp'' \<rparr>"

definition sample_batch :: "unit batch_state" where
  "sample_batch = \<lparr> bs_tree = empty_tree, bs_results = no_results, bs_written = [], bs_world = still_world \<rparr>"

lemma sample_incident:
  assumes "ws < we"
  shows "\<exists>inc w'. build_incident sample_libs scored_scenario i ws we 1 3 w = (Inr inc, w')"
proof -
  have "length (show_int 1 @ '' of '' @ show_int 3 @ '' requests to '' @ ''/checkout'' @ '' did not succeed'') \<le> 400" by code_simp
  moreover have "length ''gateway calls orders, orders calls inventory'' \<le> 400" by simp
  ultimately show ?thesis using assms
    by (simp add: build_incident_def incident_scope_validate_def build_evidence_def evidence_validate_def new_opaque_id_def
        gateway_symptom_of_def stored_incident_validate_def scored_scenario_def sample_scenario_def)
qed

lemma sample_run:
  assumes "rt_dirs t i = Some d" and "clock_ok w"
  shows "\<exists>t' w' d'. run_scenario sample_libs (\<lambda>_. ''9'') scored_scenario family seed i (\<lambda>_. 200) (\<lambda>_. 503) t w = (Inr (), t', w')
     \<and> rt_dirs t' i = Some d' \<and> rd_expected d' = Some (merge [(''seed'', JStr seed), (''family'', JStr family)] (sd_expected scored_scenario))"
proof -
  have traffic: "drive_traffic 2 (\<lambda>_. 200) = (2, 0)" "drive_traffic (Suc 0) (\<lambda>_. 503) = (0, 1)"
    by (simp_all add: drive_traffic_def eval_nat_numeral)
  obtain changes w2 where changes: "write_changes (\<lambda>_. ''9'') (sd_faulted_config scored_scenario) (clock_at w (Suc (clock_n w)))
      (sd_changes scored_scenario) (w\<lparr>clock_n := Suc (Suc (clock_n w))\<rparr>) = (Inr changes, w2)"
    by (simp add: scored_scenario_def sample_scenario_def new_opaque_id_def resolved_change_summary_def)
  have "clock_at w (clock_n w) \<le> clock_at w (Suc (clock_n w))" using assms(2) unfolding clock_ok_def by simp
  then have "clock_at w (clock_n w) - WINDOW_LEAD_IN < clock_at w (Suc (clock_n w))" unfolding WINDOW_LEAD_IN_def by linarith
  then obtain inc w3 where inc: "build_incident sample_libs scored_scenario i (clock_at w (clock_n w) - WINDOW_LEAD_IN)
      (clock_at w (Suc (clock_n w))) 1 3 w2 = (Inr inc, w3)" using sample_incident by blast
  have fields: "sd_baseline_requests scored_scenario = 2" "sd_fault_requests scored_scenario = 1" "sd_traffic_volume_bump scored_scenario = None"
    by (simp_all add: scored_scenario_def sample_scenario_def)
  show ?thesis using assms(1) inc changes
    by (simp add: run_scenario_def Let_def read_clock_def fields traffic dirs_set_dir)
qed

lemma sample_batch_ok: "batch_ok sample_batch"
proof -
  have "isalnum (replicate (Suc n) CHR ''i'')" for n by (simp add: isalnum_def list_all_iff Let_def)
  moreover have "clock_ok still_world" "inj (id_at still_world)" using still_world_ok by (simp_all add: ids_fresh_def)
  ultimately show ?thesis
    by (simp add: batch_ok_def sample_batch_def no_results_ok empty_tree_def names_def still_world_def sample_world_def)
qed

lemma sample_case_start:
  assumes "rt_marker t = None" and "new_opaque_id w = (i, w1)" and "rt_dirs t i = None" and "isalnum i" and "clock_ok w"
    and "family \<in> set EVALUATION_FAMILIES"
  shows "\<exists>t' w' d. start_scenario sample_libs (\<lambda>_. ''9'') (cs_files sample_setup) family seed None (\<lambda>_. 200) (\<lambda>_. 503) (Cleared None) t w
       = (Inr i, t', w')
     \<and> rt_dirs t' i = Some d \<and> rd_expected d = Some (merge [(''seed'', JStr seed), (''family'', JStr family)] (sd_expected scored_scenario))"
proof -
  have loaded: "load_definition (cs_files sample_setup) family = Inr scored_scenario"
    using assms(6) by (simp add: load_definition_def sample_setup_def map_of_map_restrict restrict_map_def)
  have seed: "apply_seed_variant scored_scenario seed = Inr scored_scenario"
    by (simp add: apply_seed_variant_def scored_scenario_def sample_scenario_def)
  let ?t = "t\<lparr>rt_dirs := (rt_dirs t)(i \<mapsto> new_dir), rt_marker := Some i\<rparr>"
  have opened: "open_scenario i t = (Inr (), ?t)" using assms(1,3) by (simp add: open_scenario_def claim_scenario_def)
  have "clock_ok w1" using assms(2,5) by (auto simp: new_opaque_id_def clock_ok_def)
  then obtain t' w' d where "run_scenario sample_libs (\<lambda>_. ''9'') scored_scenario family seed i (\<lambda>_. 200) (\<lambda>_. 503) ?t w1 = (Inr (), t', w')"
    "rt_dirs t' i = Some d" "rd_expected d = Some (merge [(''seed'', JStr seed), (''family'', JStr family)] (sd_expected scored_scenario))"
    using sample_run [of ?t i new_dir w1 family seed] by auto
  then show ?thesis by (simp add: start_scenario_def loaded seed assms(2) opened)
qed

lemma finished_id:
  assumes "start_ok cfg es w" and "g_suppress_escalation cfg"
  shows "\<exists>res evs w'. run_graph_investigation cfg es None name cp w = (Inr (Result res), evs, w')
     \<and> ir_investigation_id (res_report res) = id_at w (id_n w) \<and> 0 \<le> ir_latency_ms (res_report res) \<and> id_n w < id_n w'"
proof -
  obtain st0 w0 where st0: "start_investigation cfg es None name w = (st0, w0)" by force
  obtain how n st' w' where loop: "run_loop cfg [] GRAPH_RECURSION_LIMIT (graph_start cfg) st0 w0 = (how, n, st', w')"
    by (metis prod_cases4)
  have ends: "run_ends cfg [] st0 (how, n, st', w')"
    using run_loop_ends [OF _ empty_resumes start_flow_ok [OF assms(1) st0]] assms(1) by (simp add: loop start_ok_def)
  then have fin: "how = Finished" using assms(2) by (cases how) (auto simp: run_ends_def flow_ok_def)
  with ends obtain report where f: "state_ok cfg st' w'" "gs_report st' = Some report"
    "report_states st' (g_budgets cfg) None report" "gs_investigation_id st' = gs_investigation_id st0"
    by (auto simp: run_ends_def flow_ok_def)
  obtain res where res: "result_of st' = Inr (Result res)" "res_report res = report" by (rule result_of_ok [OF f(1-3)])
  have start: "gs_investigation_id st0 = id_at w (id_n w)" "id_n w < id_n w0"
    using st0 by (auto simp: start_investigation_def new_opaque_id_def read_clock_def record_event_def read_event_clock_def
        initial_state_def)
  moreover have "0 \<le> ir_latency_ms report"
    using f(3) by (auto simp: report_states_def investigation_report_validate_def report_counts_ok_def split: if_splits)
  moreover have "ir_investigation_id report = gs_investigation_id st0" using f(3,4) by (simp add: report_states_def)
  moreover have "id_n w0 \<le> id_n w'" using run_loop_le [OF loop] by (simp add: world_le_def)
  ultimately show ?thesis using res by (simp add: run_graph_investigation_def st0 loop fin settle_invocation_def)
qed

lemma sample_record_valid:
  assumes "ir_investigation_id (res_report res) \<noteq> []" and "0 \<le> ir_latency_ms (res_report res)"
  shows "candidate_record_validate (candidate_record sample_setup (sample_digest, sample_digest) ''1'' c (replicate 64 CHR ''0'') res evs sample_expectation)
    = Inr (candidate_record sample_setup (sample_digest, sample_digest) ''1'' c (replicate 64 CHR ''0'') res evs sample_expectation)"
proof -
  have "sha256_text sample_digest" "hex_text 40 (replicate 40 CHR ''0'')" "hex_text 64 (replicate 64 CHR ''0'')" by code_simp+
  then show ?thesis using assms
    by (simp add: candidate_record_validate_def candidate_record_def sample_setup_def case_id_of_def count_if_def)
qed

text \<open>No result is filed under an identifier still to come.\<close>

definition fresh_results :: "'w batch_state \<Rightarrow> bool" where
  "fresh_results s \<longleftrightarrow> (\<forall>n \<ge> id_n (bs_world s). rs_investigations (bs_results s) (id_at (bs_world s) n) = None)"

lemma sample_measured:
  assumes "rt_dirs (bs_tree s) i = Some d" and "rd_incident d = Some inc" and "incident_ok i inc"
    and "rd_expected d = Some (merge [(''seed'', JStr seed), (''family'', JStr family)] (sd_expected scored_scenario))"
    and "clock_ok (bs_world s)" and "inj (id_at (bs_world s))" and "isalnum (id_at (bs_world s) (id_n (bs_world s)))" and "fresh_results s"
  shows "\<exists>r s'. measure_incident sample_setup (sample_digest, sample_digest) ''1'' records c i s = (Inr r, s') \<and> fresh_results s'"
proof -
  let ?w = "bs_world s"
  have sup: "g_suppress_escalation (candidate_config sample_setup inc)" by (simp add: candidate_config_def)
  obtain res evs w' where run: "run_graph_investigation (candidate_config sample_setup inc) (si_evidence inc) None APPROVED_QWEN_MODEL ''cp'' ?w
      = (Inr (Result res), evs, w')" and id: "ir_investigation_id (res_report res) = id_at ?w (id_n ?w)"
    "0 \<le> ir_latency_ms (res_report res)" "id_n ?w < id_n w'"
    using finished_id [OF candidate_start_ok [OF assms(3,5,6)] sup] by metis
  have seqs: "id_at w' = id_at ?w" using investigation_le [OF run] by (simp add: world_le_def)
  have new: "rs_investigations (bs_results s) (ir_investigation_id (res_report res)) = None"
    using assms(8) by (simp add: id(1) fresh_results_def)
  then obtain results where fin: "finalize_investigation None (res_report res) evs (res_evidence res) (res_receipts res)
      (render_report (res_report res) (res_evidence res) (res_receipts res) APPROVED_QWEN_MODEL) (bs_results s)
        = (Inr (ir_investigation_id (res_report res)), results)"
    and others: "\<And>j. j \<noteq> ir_investigation_id (res_report res) \<Longrightarrow> rs_investigations results j = rs_investigations (bs_results s) j"
    by (simp add: finalize_investigation_def Let_def)
  have expected: "load_expected_outcome (cs_expected_validate sample_setup) (Some (merge [(''seed'', JStr seed), (''family'', JStr family)]
      (sd_expected scored_scenario))) = Inr sample_expectation"
    by (simp add: load_expected_outcome_def merge_def scored_scenario_def sample_scenario_def sample_setup_def)
  have env: "build_ollama_candidate_model (cs_environment sample_setup) = Inr ()" by code_simp
  have "ir_investigation_id (res_report res) \<noteq> []" using assms(7) by (simp add: id(1) isalnum_def)
  note valid = sample_record_valid [OF this id(2)]
  have "id_at ?w n \<noteq> ir_investigation_id (res_report res)" if "id_n w' \<le> n" for n
    using assms(6) id(1,3) that by (metis injD leD)
  then have "rs_investigations results (id_at ?w n) = None" if "id_n w' \<le> n" for n
    using that others assms(8) id(3) by (simp add: fresh_results_def)
  moreover have "cs_checkpoint_id sample_setup = ''cp''" "cs_write_fault sample_setup c = None" "cs_records_fault sample_setup c = None"
    "cs_fixture_sha256 sample_setup (fst c) = Inr (replicate 64 CHR ''0'')" by (simp_all add: sample_setup_def)
  ultimately show ?thesis
    using assms(1,2,4) by (simp add: measure_incident_def env run fin expected valid Let_def fresh_results_def seqs)
qed

lemma sample_case:
  assumes "batch_ok s" and "fresh_results s" and "rt_marker (bs_tree s) = None" and "fst c \<in> set EVALUATION_FAMILIES"
  shows "\<exists>r s'. run_case sample_setup (sample_digest, sample_digest) ''1'' records c s = (Inr r, s')
     \<and> fresh_results s' \<and> rt_marker (bs_tree s') = None"
proof -
  let ?t = "bs_tree s" and ?w = "bs_world s"
  obtain i w1 where i: "new_opaque_id ?w = (i, w1)" by force
  then have new: "isalnum i" "rt_dirs ?t i = None" "\<not> names ?t i" and clock: "clock_ok ?w"
    using assms(1) by (auto simp: new_opaque_id_def batch_ok_def)
  obtain t w d where start: "start_scenario sample_libs (\<lambda>_. ''9'') (cs_files sample_setup) (fst c) (snd c) None (\<lambda>_. 200) (\<lambda>_. 503) (Cleared None) ?t ?w
      = (Inr i, t, w)" and d: "rt_dirs t i = Some d"
    "rd_expected d = Some (merge [(''seed'', JStr (snd c)), (''family'', JStr (fst c))] (sd_expected scored_scenario))"
    using sample_case_start [OF assms(3) i new(2,1) clock assms(4)] by blast
  note o = start_outcome [OF start _ new, of w1, simplified i, simplified] and le = start_scenario_le [OF start]
  obtain inc where inc: "rd_incident d = Some inc" "incident_ok i inc" "names t i" using o d(1) by auto
  let ?s = "s\<lparr>bs_tree := t, bs_world := w\<rparr>"
  have w: "clock_ok w" "inj (id_at w)" "isalnum (id_at w (id_n w))" "fresh_results ?s"
    using assms(1,2) le by (auto simp: batch_ok_def world_le_def clock_ok_def fresh_results_def)
  obtain r s1 where m: "measure_incident sample_setup (sample_digest, sample_digest) ''1'' records c i ?s = (Inr r, s1)" "fresh_results s1"
    using sample_measured [of ?s i d inc "snd c" "fst c" records c] d inc w by auto
  have "bs_tree s1 = t" using measure_incident_frame(1) [OF m(1)] assms(1) by (simp add: batch_ok_def)
  moreover have "reset_scenario Reset_fine i t = (Inr (), clear_unstarted_scenario None i t)"
    using new(1) d(1) by (simp add: reset_scenario_def validated_run_paths_def)
  moreover have "rt_marker (clear_unstarted_scenario None i t) = None"
    using inc(3) by (simp add: clear_unstarted_scenario_def release_scenario_def)
  moreover have "cs_libs sample_setup = sample_libs" "cs_py_str sample_setup = (\<lambda>_. ''9'')" "cs_baseline sample_setup c = (\<lambda>_. 200)"
    "cs_faulted sample_setup c = (\<lambda>_. 503)" "cs_clear_fault sample_setup c = Cleared None" "cs_reset_fault sample_setup c = Reset_fine"
    by (simp_all add: sample_setup_def)
  ultimately show ?thesis using m by (simp add: run_case_def start fresh_results_def)
qed

lemma sample_cases:
  assumes "batch_ok s" and "fresh_results s" and "rt_marker (bs_tree s) = None" and "\<forall>c \<in> set cs. fst c \<in> set EVALUATION_FAMILIES"
  shows "\<exists>rs s'. run_cases sample_setup (sample_digest, sample_digest) ''1'' records cs s = (Inr rs, s')
     \<and> (cs \<noteq> [] \<longrightarrow> length records < length rs)"
  using assms
proof (induction cs arbitrary: records s)
  case (Cons c cs)
  obtain r s1 where r: "run_case sample_setup (sample_digest, sample_digest) ''1'' records c s = (Inr r, s1)"
    "fresh_results s1" "rt_marker (bs_tree s1) = None" using sample_case [OF Cons.prems(1-3), of c records] Cons.prems(4) by auto
  have ok: "batch_ok s1" using run_case_effect(2) [OF r(1) Cons.prems(1)] by blast
  obtain rs s2 where "run_cases sample_setup (sample_digest, sample_digest) ''1'' (records @ [r]) cs s1 = (Inr rs, s2)"
    "cs \<noteq> [] \<longrightarrow> length (records @ [r]) < length rs"
    using Cons.IH [OF ok r(2,3), of "records @ [r]"] Cons.prems(4) by auto
  then show ?case using r(1) by (cases cs) auto
qed simp

lemma sample_batch_returns: "\<exists>rs s'. run_candidate_evaluation sample_setup sample_batch = (Inr rs, s') \<and> rs \<noteq> []"
proof -
  have env: "assert_candidate_environment (cs_environment sample_setup) = Inr (sample_digest, sample_digest)" by code_simp
  have "fresh_results sample_batch" "rt_marker (bs_tree sample_batch) = None"
    by (simp_all add: fresh_results_def sample_batch_def no_results_def empty_tree_def)
  moreover have "List.product EVALUATION_FAMILIES EVALUATION_SEEDS \<noteq> []" by (simp add: EVALUATION_FAMILIES_def EVALUATION_SEEDS_def)
  ultimately show ?thesis
    using sample_cases [OF sample_batch_ok, of "List.product EVALUATION_FAMILIES EVALUATION_SEEDS" "[]"] env
    by (auto simp: run_candidate_evaluation_def sample_setup_def)
qed

theorem candidate_batch_is_complete_or_stopped_witness:
  "\<exists>rs s'. run_candidate_evaluation sample_setup sample_batch = (Inr rs, s') \<and> rs \<noteq> [] \<and> bs_written s' = rs
     \<and> map cr_case_id rs = take (length rs) FROZEN_CASE_IDS \<and> list_all (\<lambda>r. \<not> cr_policy_escape r) rs \<and> rt_dirs (bs_tree s') = rt_dirs empty_tree"
proof -
  obtain rs s' where run: "run_candidate_evaluation sample_setup sample_batch = (Inr rs, s')" "rs \<noteq> []"
    using sample_batch_returns by blast
  with candidate_batch_is_complete_or_stopped [OF run(1) sample_batch_ok] show ?thesis
    by (auto simp: sample_batch_def list_all_iff)
qed

end
