(* ===== verification/Replay.thy ===== *)
theory Replay
  imports LiveModel Telemetry
begin

text \<open>
  \<open>src/causalops/models.py\<close>, the replay adapters: answers scripted in a fixture, with the opaque
  names of the incident filled in, behind the interface a live model has; and
  \<open>src/causalops/runbooks.py\<close>, the search backend over the full-text index, whose rows are an argument.
\<close>

section \<open>Lines and placeholders\<close>

definition is_line_break :: "char \<Rightarrow> bool" where
  "is_line_break c \<longleftrightarrow> (of_char c :: nat) \<in> {10, 11, 12, 13, 28, 29, 30, 133}"

text \<open>\<open>str.splitlines\<close>: a carriage return and a line feed after it are one break.\<close>

function lines_of :: "string \<Rightarrow> string \<Rightarrow> string list" where
  "lines_of line [] = (if line = [] then [] else [line])"
| "lines_of line (c # cs) =
     (if is_line_break c
      then line # lines_of [] (if (of_char c :: nat) = 13 \<and> cs \<noteq> [] \<and> (of_char (hd cs) :: nat) = 10 then tl cs else cs)
      else lines_of (line @ [c]) cs)"
  by pat_completeness auto

termination
  by (relation "measure (\<lambda>(_, s). length s)") auto

definition CALLER_PLACEHOLDERS :: "string list" where
  "CALLER_PLACEHOLDERS = [''incident_id'', ''window_start'', ''window_end'', ''symptom_evidence_id'']"

definition placeholder :: "string \<Rightarrow> string" where
  "placeholder name = ''{{'' @ name @ ''}}''"

definition LAST_CHECK_PLACEHOLDER :: string where
  "LAST_CHECK_PLACEHOLDER = ''evidence_from_last_check''"

abbreviation ReplayFixtureError :: exn where
  "ReplayFixtureError \<equiv> OtherError ''ReplayFixtureError''"

section \<open>The scripted model\<close>

record replay_reasoning_model =
  rm_responses :: "json pydict list pydict"
  rm_substitutions :: "string pydict"

record replay_state =
  rp_used :: "string \<Rightarrow> nat"
  rp_requests :: "model_request list"
  rp_next_call_id :: nat

definition replay_new :: "json pydict list pydict \<Rightarrow> string pydict \<Rightarrow> exn + replay_reasoning_model \<times> replay_state" where
  "replay_new responses substitutions =
     (if list_ex (\<lambda>name. name \<notin> set CALLER_PLACEHOLDERS) (dict_keys substitutions) then Inl ReplayFixtureError
      else Inr (\<lparr> rm_responses = responses, rm_substitutions = substitutions \<rparr>,
                \<lparr> rp_used = (\<lambda>_. 0), rp_requests = [], rp_next_call_id = 0 \<rparr>))"

text \<open>The words that stand second in the lines that start an item.\<close>

definition listed_ids :: "string \<Rightarrow> string list" where
  "listed_ids context_text = List.map_filter (\<lambda>line. let words = py_split line in
     if take 2 line = ''- '' \<and> 1 < length words then Some (words ! 1) else None) (lines_of [] context_text)"

definition evidence_from_last_check :: "replay_reasoning_model \<Rightarrow> string \<Rightarrow> exn + string" where
  "evidence_from_last_check m context_text =
     (case find (\<lambda>i. i \<notin> set (dict_values (rm_substitutions m))) (rev (listed_ids context_text)) of
        Some i \<Rightarrow> Inr i | None \<Rightarrow> Inl ReplayFixtureError)"

text \<open>\<open>loads\<close> reads the filled text back.\<close>

definition fill ::
    "libs \<Rightarrow> (string \<Rightarrow> exn + json pydict) \<Rightarrow> replay_reasoning_model \<Rightarrow> json pydict \<Rightarrow> string \<Rightarrow> exn + json pydict" where
  "fill L loads m scripted context_text = (let
     text = json_dumps (float_repr L) '', '' '': '' (JObj scripted);
     text = foldl (\<lambda>text (name, value). py_replace (placeholder name) value text) text (rm_substitutions m);
     last_check = placeholder LAST_CHECK_PLACEHOLDER
   in if sublist last_check text
      then bind_r (evidence_from_last_check m context_text) (\<lambda>i. loads (py_replace last_check i text))
      else loads text)"

definition scripted_for :: "replay_reasoning_model \<Rightarrow> string \<Rightarrow> json pydict list" where
  "scripted_for m stage = (case dict_get (rm_responses m) stage of None \<Rightarrow> [] | Some rs \<Rightarrow> rs)"

definition replay_respond ::
    "libs \<Rightarrow> (string \<Rightarrow> exn + json pydict) \<Rightarrow> replay_reasoning_model \<Rightarrow> model_request \<Rightarrow> replay_state \<Rightarrow>
     (exn + model_response) \<times> replay_state" where
  "replay_respond L loads m request x = (let
     x1 = x\<lparr>rp_requests := rp_requests x @ [request]\<rparr>;
     stage = stage_value (mr_stage request);
     index = rp_used x stage
   in if length (scripted_for m stage) \<le> index then (Inl ReplayFixtureError, x1)
      else (map_sum id (\<lambda>content. \<lparr> resp_content = content, resp_usage = None, resp_errors = [] \<rparr>)
              (fill L loads m (scripted_for m stage ! index) (mr_context_text request)),
            x1\<lparr>rp_used := (rp_used x)(stage := index + 1)\<rparr>))"

section \<open>Behind the interface of a live model\<close>

definition replay_propose ::
    "live_libs \<Rightarrow> (string \<Rightarrow> exn + json pydict) \<Rightarrow> replay_reasoning_model \<Rightarrow> model_request \<Rightarrow> replay_state \<Rightarrow>
     (exn + native_tool_call proposed_turn) \<times> replay_state" where
  "replay_propose LL loads m request x =
     (case replay_respond (ll_libs LL) loads m request x of
        (Inl e, x1) \<Rightarrow> (Inl e, x1)
      | (Inr response, x1) \<Rightarrow>
      (case parse_plan LL (resp_content response) of
        (None, errors) \<Rightarrow>
          (Inr \<lparr> pt_parsed = None, pt_errors = errors, pt_tool_call = [], pt_usage = resp_usage response \<rparr>, x1)
      | (Some plan, _) \<Rightarrow>
      (case sp_proposal plan of
        None \<Rightarrow> (Inr \<lparr> pt_parsed = Some plan, pt_errors = [], pt_tool_call = [], pt_usage = resp_usage response \<rparr>, x1)
      | Some proposal \<Rightarrow>
          (let n = rp_next_call_id x1 + 1 in
           (Inr \<lparr> pt_parsed = Some plan, pt_errors = [],
                  pt_tool_call = [to_tool_call (ll_libs LL) proposal (''call-'' @ show_nat n)], pt_usage = resp_usage response \<rparr>,
            x1\<lparr>rp_next_call_id := n\<rparr>)))))"

definition replay_tool_calling_model ::
    "live_libs \<Rightarrow> (string \<Rightarrow> exn + json pydict) \<Rightarrow> replay_reasoning_model \<Rightarrow> replay_state tool_calling_model" where
  "replay_tool_calling_model LL loads m =
     \<lparr> propose = replay_propose LL loads m, respond = replay_respond (ll_libs LL) loads m \<rparr>"

section \<open>Runbook search\<close>

fun topic_query :: "runbook_topic \<Rightarrow> string" where
  "topic_query GATEWAY_ERRORS = ''gateway OR error OR errors''"
| "topic_query GATEWAY_LATENCY = ''latency OR p95 OR slow OR wait''"
| "topic_query DOWNSTREAM_TIMEOUTS = ''timeout OR timeouts OR retry OR downstream''"
| "topic_query RESOURCE_POOL_PRESSURE = ''pool OR queue OR pressure OR slot''"
| "topic_query RECENT_CONFIG_CHANGES = ''configuration OR rollout OR change OR changed''"

text \<open>
  The index answers a query with rows of passage id, content, version and rank, or raises a
  \<open>sqlite3.Error\<close> (None). A better match has a lower rank and a higher score.
\<close>

type_synonym fts5_index = "string \<Rightarrow> int \<Rightarrow> (string \<times> string \<times> string \<times> pyfloat) list option"

definition runbook_passage_validate :: "runbook_passage \<Rightarrow> exn + runbook_passage" where
  "runbook_passage_validate p = (if length (rp_content p) \<le> 800 then Inr p else Inl ValidationError)"

definition runbook_search :: "libs \<Rightarrow> fts5_index \<Rightarrow> runbook_topic \<Rightarrow> int \<Rightarrow> (exn + runbook_passage list) option" where
  "runbook_search L index topic limit = map_option (map_r (\<lambda>(passage_id, content, source_version, rank).
     runbook_passage_validate
       \<lparr> rp_passage_id = passage_id, rp_content = content, rp_source_version = source_version,
         rp_content_hash = digest_text L content, rp_score = f_neg rank, rp_retrieval_mode = FTS5_LEXICAL \<rparr>))
     (index (topic_query topic) limit)"

text \<open>Only the error of the database is caught.\<close>

definition run_runbook_search ::
    "libs \<Rightarrow> fts5_index \<Rightarrow> search_runbooks_arguments \<Rightarrow> lab \<Rightarrow> (exn + runbook_check_outcome) \<times> lab" where
  "run_runbook_search L index arguments x =
     (case monotonic x of (started, x1) \<Rightarrow>
      let finish = (\<lambda>outcome passages reason. case monotonic x1 of (finished, x2) \<Rightarrow>
        (map_sum id (\<lambda>duration. \<lparr> ro_outcome = outcome, ro_passages = passages, ro_retrieval_mode = FTS5_LEXICAL,
             ro_reason_code = reason, ro_duration_ms = duration \<rparr>)
           (f_to_int (f_mul_fin (f_sub finished started) 1000)), x2))
      in case runbook_search L index (sr_topic arguments) (sr_limit arguments) of
           None \<Rightarrow> finish UNAVAILABLE [] (Some TOOL_UNAVAILABLE)
         | Some (Inl e) \<Rightarrow> (Inl e, x1)
         | Some (Inr passages) \<Rightarrow> finish EXECUTED passages None)"

end
