(* ===== verification/ReplayProps.thy ===== *)
theory ReplayProps
  imports Replay LiveProps
begin

text \<open>
  The replay adapter answers each stage from its script, in order and once each, whatever was
  asked before; it cites only names the context lists; and the native call it makes of a plan
  is read back as the plan's proposal by the decoder that live answers pass through.
\<close>

section \<open>Used answers\<close>

inductive replay_ask :: "live_libs \<Rightarrow> (string \<Rightarrow> exn + json pydict) \<Rightarrow> replay_reasoning_model \<Rightarrow> replay_state \<Rightarrow> replay_state \<Rightarrow> bool"
  for LL loads m where
  responded: "replay_respond (ll_libs LL) loads m request x = (r, x') \<Longrightarrow> replay_ask LL loads m x x'"
| proposed: "replay_propose LL loads m request x = (t, x') \<Longrightarrow> replay_ask LL loads m x x'"

text \<open>How often a stage was asked for.\<close>

definition asked :: "replay_state \<Rightarrow> string \<Rightarrow> nat" where
  "asked x stage = length (filter (\<lambda>q. stage_value (mr_stage q) = stage) (rp_requests x))"

definition script_followed :: "replay_reasoning_model \<Rightarrow> replay_state \<Rightarrow> bool" where
  "script_followed m x \<longleftrightarrow> (\<forall>stage. rp_used x stage = min (asked x stage) (length (scripted_for m stage)))"

lemma replay_respond_followed:
  assumes "replay_respond L loads m request x = (r, x')" and "script_followed m x"
  shows "script_followed m x'"
  using assms unfolding replay_respond_def Let_def
  by (auto simp: script_followed_def asked_def min_def split: if_splits)

lemma replay_propose_state:
  assumes "replay_propose LL loads m request x = (t, x')"
  obtains r x1 n where "replay_respond (ll_libs LL) loads m request x = (r, x1)" and "x' = x1\<lparr>rp_next_call_id := n\<rparr>"
proof -
  obtain r x1 where r: "replay_respond (ll_libs LL) loads m request x = (r, x1)" by force
  have "\<exists>n. x' = x1\<lparr>rp_next_call_id := n\<rparr>"
    using assms by (auto simp: replay_propose_def r Let_def split: sum.splits prod.splits option.splits)
      (metis replay_state.surjective replay_state.update_convs(3))+
  with r that show thesis by blast
qed

lemma replay_ask_followed:
  assumes "replay_ask LL loads m x x'" and "script_followed m x"
  shows "script_followed m x'"
  using assms(1)
proof cases
  case (responded request r)
  then show ?thesis using replay_respond_followed assms(2) by blast
next
  case (proposed request t)
  then obtain r x1 n where "replay_respond (ll_libs LL) loads m request x = (r, x1)" "x' = x1\<lparr>rp_next_call_id := n\<rparr>"
    by (rule replay_propose_state)
  with replay_respond_followed [OF this(1) assms(2)] show ?thesis by (simp add: script_followed_def asked_def)
qed

lemma replay_asks_followed: "(replay_ask LL loads m)\<^sup>*\<^sup>* x x' \<Longrightarrow> script_followed m x \<Longrightarrow> script_followed m x'"
  by (induction rule: rtranclp_induct) (auto intro: replay_ask_followed)

section \<open>Citations\<close>

lemma last_check_listed:
  assumes "evidence_from_last_check m context_text = Inr i"
  shows "i \<in> set (listed_ids context_text) \<and> i \<notin> set (dict_values (rm_substitutions m))"
proof -
  have f: "find (\<lambda>i. i \<notin> set (dict_values (rm_substitutions m))) (rev (listed_ids context_text)) = Some i"
    using assms by (simp add: evidence_from_last_check_def split: option.splits)
  then obtain n where "n < length (rev (listed_ids context_text))" "i = rev (listed_ids context_text) ! n"
    "i \<notin> set (dict_values (rm_substitutions m))" by (auto simp: find_Some_iff)
  then show ?thesis by (metis nth_mem set_rev)
qed

section \<open>Proposals\<close>

lemma proposed_call:
  assumes "replay_propose LL loads m request x = (Inr turn, x')" and "pt_parsed turn = Some plan" and "sp_proposal plan = Some p"
  shows "\<exists>call_id. pt_tool_call turn = [to_tool_call (ll_libs LL) p call_id]"
  using assms by (auto simp: replay_propose_def Let_def split: sum.splits prod.splits option.splits)

text \<open>
  C30: a replayed investigation follows its script. Whatever was asked before, the answer to a
  request is the script's next one for its stage, the n-th request of a stage getting the n-th
  answer with the placeholders filled in, and once the script has no more the adapter raises. The id
  filled in for the last check is one the context lists and none of the names the caller supplied
  (other ids are those the script has or the caller gives). The one native call the adapter makes
  of a plan, when the proposal is valid and pydantic's dump of its arguments validates back to
  them, is read back by the decoder of live answers as exactly that proposal.
\<close>

theorem replayed_turns_follow_the_script:
  assumes "replay_new responses substitutions = Inr (m, x0)" and "(replay_ask LL loads m)\<^sup>*\<^sup>* x0 x"
    and "stage = stage_value (mr_stage request)"
  shows "fst (replay_respond (ll_libs LL) loads m request x)
       = (if asked x stage < length (scripted_for m stage)
          then map_sum id (\<lambda>content. \<lparr> resp_content = content, resp_usage = None, resp_errors = [] \<rparr>)
             (fill (ll_libs LL) loads m (scripted_for m stage ! asked x stage) (mr_context_text request))
          else Inl ReplayFixtureError)
     \<and> (\<forall>i. evidence_from_last_check m (mr_context_text request) = Inr i \<longrightarrow>
          i \<in> set (listed_ids (mr_context_text request)) \<and> i \<notin> set (dict_values substitutions))
     \<and> (\<forall>turn x' plan p. replay_propose LL loads m request x = (Inr turn, x') \<longrightarrow> pt_parsed turn = Some plan \<longrightarrow>
          sp_proposal plan = Some p \<longrightarrow> dump_roundtrips (ll_libs LL) (tp_arguments p) \<longrightarrow> tool_proposal_validate p = Inr p \<longrightarrow>
          (\<exists>call. select_single_tool_call (pt_tool_call turn) = Some call \<and> parse_tool_call (ll_libs LL) call = (Some p, [])))"
proof (intro conjI allI impI)
  have x0: "script_followed m x0" "rm_substitutions m = substitutions"
    using assms(1) by (auto simp: replay_new_def script_followed_def asked_def split: if_splits)
  have "rp_used x stage = min (asked x stage) (length (scripted_for m stage))"
    using replay_asks_followed [OF assms(2) x0(1)] by (simp add: script_followed_def)
  then show "fst (replay_respond (ll_libs LL) loads m request x)
       = (if asked x stage < length (scripted_for m stage)
          then map_sum id (\<lambda>content. \<lparr> resp_content = content, resp_usage = None, resp_errors = [] \<rparr>)
             (fill (ll_libs LL) loads m (scripted_for m stage ! asked x stage) (mr_context_text request))
          else Inl ReplayFixtureError)"
    using assms(3) by (auto simp: replay_respond_def Let_def min_def)
  fix i
  assume "evidence_from_last_check m (mr_context_text request) = Inr i"
  then show "i \<in> set (listed_ids (mr_context_text request))" "i \<notin> set (dict_values substitutions)"
    using last_check_listed x0(2) by blast+
next
  fix turn x' plan p
  assume "replay_propose LL loads m request x = (Inr turn, x')" "pt_parsed turn = Some plan" "sp_proposal plan = Some p"
    and p: "dump_roundtrips (ll_libs LL) (tp_arguments p)" "tool_proposal_validate p = Inr p"
  then obtain call_id where "pt_tool_call turn = [to_tool_call (ll_libs LL) p call_id]" using proposed_call by blast
  then show "\<exists>call. select_single_tool_call (pt_tool_call turn) = Some call \<and> parse_tool_call (ll_libs LL) call = (Some p, [])"
    using to_tool_call_parses [OF p] by (simp add: select_single_tool_call_def)
qed

text \<open>
  The sample's script names the last check; its context lists one and then a name of the caller. What
  reads the filled text back tells whether it names the check and whether a placeholder is left.
\<close>

definition script_libs :: live_libs where
  "script_libs = sample_live_libs\<lparr>plan_fields := (\<lambda>_. Inr \<lparr> sp_hypotheses = sample_hypotheses,
     sp_proposal = Some sample_changes, sp_stop_reason = None \<rparr>)\<rparr>"

definition script_loads :: "string \<Rightarrow> exn + json pydict" where
  "script_loads t = Inr [(''cites'', JBool (sublist ''e-1'' t)), (''open'', JBool (sublist ''{{'' t))]"

definition script_context :: string where
  "script_context = ''- e-1 first'' @ [CHR 0x0A] @ ''- s-1 symptom''"

definition scripted_request :: model_request where
  "scripted_request = \<lparr> mr_stage = INITIAL_PLAN, mr_system_text = [], mr_context_text = script_context, mr_repair_errors = None,
     mr_run_id = ''r'', mr_graph_phase = ''p'', mr_model_turn = 1, mr_context_digest = ''d'' \<rparr>"

definition scripted_answer :: "json pydict" where
  "scripted_answer = [(''cited'', JStr (placeholder LAST_CHECK_PLACEHOLDER))]"

definition sample_script :: replay_reasoning_model where
  "sample_script = \<lparr> rm_responses = [(''initial_plan'', [scripted_answer])],
     rm_substitutions = [(''symptom_evidence_id'', ''s-1'')] \<rparr>"

definition unused_script :: replay_state where
  "unused_script = \<lparr> rp_used = (\<lambda>_. 0), rp_requests = [], rp_next_call_id = 0 \<rparr>"

lemma sample_filled:
  "evidence_from_last_check sample_script script_context = Inr ''e-1''"
  "fill (ll_libs script_libs) script_loads sample_script scripted_answer script_context
     = Inr [(''cites'', JBool True), (''open'', JBool False)]"
  by code_simp+

theorem replayed_turns_follow_the_script_witness:
  "fst (replay_respond (ll_libs script_libs) script_loads sample_script scripted_request unused_script)
     = Inr \<lparr> resp_content = [(''cites'', JBool True), (''open'', JBool False)], resp_usage = None, resp_errors = [] \<rparr>
   \<and> ''e-1'' \<in> set (listed_ids script_context)
   \<and> (\<exists>turn x' call. replay_propose script_libs script_loads sample_script scripted_request unused_script = (Inr turn, x')
        \<and> select_single_tool_call (pt_tool_call turn) = Some call
        \<and> parse_tool_call (ll_libs script_libs) call = (Some sample_changes, []))"
proof -
  let ?plan = "\<lparr> sp_hypotheses = sample_hypotheses, sp_proposal = Some sample_changes, sp_stop_reason = None \<rparr>"
  have new: "replay_new [(''initial_plan'', [scripted_answer])] [(''symptom_evidence_id'', ''s-1'')] = Inr (sample_script, unused_script)"
    by (simp add: replay_new_def CALLER_PLACEHOLDERS_def sample_script_def unused_script_def)
  have asks: "(replay_ask script_libs script_loads sample_script)\<^sup>*\<^sup>* unused_script unused_script" by simp
  note follows = replayed_turns_follow_the_script [OF new asks refl, of scripted_request]
  have stage: "stage_value (mr_stage scripted_request) = ''initial_plan''" "asked unused_script s = 0"
    "mr_context_text scripted_request = script_context" for s
    by (simp_all add: scripted_request_def asked_def unused_script_def)
  have script: "scripted_for sample_script ''initial_plan'' = [scripted_answer]" by (simp add: scripted_for_def sample_script_def)
  have first: "fst (replay_respond (ll_libs script_libs) script_loads sample_script scripted_request unused_script)
     = Inr \<lparr> resp_content = [(''cites'', JBool True), (''open'', JBool False)], resp_usage = None, resp_errors = [] \<rparr>"
    using follows sample_filled(2) by (simp add: stage script)
  then obtain x1 where r: "replay_respond (ll_libs script_libs) script_loads sample_script scripted_request unused_script
     = (Inr \<lparr> resp_content = [(''cites'', JBool True), (''open'', JBool False)], resp_usage = None, resp_errors = [] \<rparr>, x1)"
    by (metis prod.collapse)
  have "length sample_hypotheses = 2" by (simp add: sample_hypotheses_def)
  then have "parse_plan script_libs content = (Some ?plan, [])" for content
    by (simp add: parse_plan_def script_libs_def stage_plan_validate_def)
  then obtain turn x' where turn: "replay_propose script_libs script_loads sample_script scripted_request unused_script = (Inr turn, x')"
    "pt_parsed turn = Some ?plan" using r by (simp add: replay_propose_def Let_def)
  have "ll_libs script_libs = sample_libs" by (simp add: script_libs_def sample_live_libs_def sample_base_libs_def)
  then have "dump_roundtrips (ll_libs script_libs) (tp_arguments sample_changes)" "tool_proposal_validate sample_changes = Inr sample_changes"
    by (simp_all add: dump_roundtrips_def sample_changes_def sample_libs_def sibling_keys_def sample_parse_def opt_int_def
      tool_proposal_validate_def)
  then have "\<exists>call. select_single_tool_call (pt_tool_call turn) = Some call \<and> parse_tool_call (ll_libs script_libs) call = (Some sample_changes, [])"
    using follows turn by simp
  moreover have "''e-1'' \<in> set (listed_ids script_context)" using follows sample_filled(1) by (simp add: stage)
  ultimately show ?thesis using first turn(1) by blast
qed

end
