(* ===== verification/Spec2Isabelle.thy ===== *)
theory Spec2Isabelle
  imports GraphProps BoundaryProps LiveRun DeliveryProps HttpApi ReportProps LiveSetup CandidateProps ReplayProps
begin

text \<open>
  CausalOps: a verification development of \<open>src/causalops\<close>.

  The program investigates one incident. A graph of six nodes asks a reasoning model for
  hypotheses and for at most one diagnostic check per turn, passes every proposed check through
  a policy wrapper, collects evidence, asks for a final assessment whose citations it verifies,
  pauses for the owner when an escalation rule applies, and writes one report. Budgets bound
  model calls, repairs and checks, an application-wide ledger bounds what live models spend. Around
  it stand a lab that brings incidents about and whose files and metrics the checks read, a hosted
  job queue with workers, deliveries and an HTTP interface, and the scoring of runs.

  Theories and what they model (each definition is mapped to its source lines in the manifest):

  \<^item> \<open>Prelude\<close>: Python text, dictionaries, exceptions as values; the locale of invariants over
    steps. \<open>PyFloat\<close>: binary64 as rationals with rounding to nearest even. \<open>Json\<close>:
    \<open>json.dumps\<close>, \<open>isoformat\<close>.
  \<^item> \<open>Tools\<close> (\<open>tools.py\<close>), \<open>Domain\<close> (\<open>domain.py\<close>): the enums, records and validators. A
    validator returns its argument or raises \<open>ValidationError\<close>.
  \<^item> \<open>World\<close>: the two clocks, the source of opaque ids, and the state of everything outside
    (model provider, tool backends) as a type parameter. \<open>Samples\<close>: concrete inputs.
  \<^item> \<open>Policy\<close> (\<open>policy.py\<close>), \<open>Evidence\<close> (\<open>evidence.py\<close>), \<open>ToolCalls\<close> (\<open>tool_calls.py\<close>),
    \<open>Prompts\<close> (\<open>prompts.py\<close>, the request types of \<open>models.py\<close>), \<open>RunRecords\<close> and \<open>RunFiles\<close>
    (\<open>run_records.py\<close>: events, finalization), \<open>Approvals\<close> (\<open>approvals.py\<close>).
  \<^item> \<open>ToolWrappers\<close> (\<open>tool_wrappers.py\<close>): the reservation ledger of check slots, the window
    clamp, the dispatch of a proposal. Its locale of slot pools is interpreted on the ledger.
  \<^item> \<open>CostLedger\<close> (\<open>pricing.py\<close>, \<open>cost_ledger.py\<close>): prices in binary64 and the spend gate over
    the table, with a fault possible at every SQLite statement.
  \<^item> \<open>GraphState\<close>, \<open>GraphNodes\<close>, \<open>GraphRun\<close> (\<open>graph.py\<close>): state, nodes, routers, supersteps, entry
    points with crash containment. \<open>GraphAsk\<close>: the contract of a stage that asks with one
    repair, a locale interpreted on both asking nodes. \<open>GraphInv\<close>, \<open>GraphFlow\<close>,
    \<open>GraphThms\<close>: the invariant, its preservation by every node, the bound on supersteps, runs
    and results. \<open>GraphOutside\<close>: the locale of what an investigation does to the outside;
    \<open>GraphWorld\<close>: it moves clocks and ids forward only. \<open>GraphSample\<close>: concrete runs.
    \<open>GraphProps\<close>, \<open>BoundaryProps\<close>: the properties.
  \<^item> \<open>LiveModel\<close> (\<open>live_model.py\<close>): the adapter that reserves before it sends and decodes the
    answers. \<open>LiveProps\<close>: sends over a shared ledger. \<open>LiveRun\<close>: whole investigations over it.
  \<^item> \<open>Replay\<close> (the adapters of \<open>models.py\<close>, \<open>runbooks.py\<close>), \<open>ReplayProps\<close>: scripted answers behind the
    interface of a live model; the runbook backend, whose full-text index is a parameter.
  \<^item> \<open>ControlPlane\<close> (\<open>api_runtime.py\<close>, \<open>api.py\<close>): the tables and transactions of the hosted job
    queue. \<open>ControlSpec\<close>: the abstract life cycle of a job and of a delivery. \<open>ControlInv\<close>,
    \<open>ControlProps\<close>: the invariant and the refinement. \<open>ClaimProps\<close>: who holds a claim, and the fence
    around one that ran out. \<open>Workers\<close>, \<open>WorkerProps\<close>, \<open>DeliveryProps\<close>: the passes of both workers
    between steps of other processes. \<open>HttpApi\<close> (\<open>api.py\<close>, \<open>google_identity.py\<close>): owners, routes and
    status codes, exceptions of the owner check included.
  \<^item> \<open>Telemetry\<close> (\<open>telemetry.py\<close>), \<open>Prometheus\<close> (\<open>prometheus.py\<close>): the four backends that read the
    lab. \<open>TelemetryProps\<close>: what their results are worth. \<open>LiveSetup\<close> (\<open>live_setup.py\<close>): switches,
    ceiling, registry; its locale of settling backends is interpreted on two of them.
  \<^item> \<open>Scenario\<close> (\<open>scenario_control.py\<close>), \<open>ScenarioProps\<close>: the controller that brings incidents about, with
    the faults of its clean-up and of its reset.
  \<^item> \<open>Evaluation\<close> (\<open>evaluation.py\<close>), \<open>Report\<close> (\<open>report.py\<close>), \<open>ReportProps\<close>: scores and the printed
    report of a result of the graph.
  \<^item> \<open>Candidate\<close> (\<open>candidate_evaluation.py\<close>, \<open>qwen_evaluate_cli.py\<close>), \<open>CandidateProps\<close>: the batch that
    starts, investigates, finalizes, scores and resets each case of the fixed corpus, and its gates.

  How the model corresponds to the code. State that the code stores as JSON dumps is stored as
  the domain values; reading it back runs the validators again. Closures that mutate locals pass
  a counter record. The LangGraph engine is modelled by its documentation: one node and its
  router per superstep, the update committed when both return, \<open>recursion_limit\<close> supersteps
  (25, the fuel of \<open>run_loop\<close>), a pause that returns the committed state, resume values replayed
  in order. A run needs at most three supersteps per model call beyond the first and six more,
  so 25 are enough for budgets of up to eight model calls, the bound the properties assume. A
  method of the job queue is one transaction; the process can die before any commit, and other
  processes act between any two calls of a worker.

  Parameters: SHA-256, the decimal form of floats, pydantic's dumps and field validation
  (\<open>libs\<close>), JSON, float and timestamp decoding (\<open>decoders\<close>), the reasoning model and the chat
  client, the tool backends where the graph is concerned, the engine's checkpoint ids, the runner and
  its hooks, Google's token validation, the files of a run and the answers of Prometheus (\<open>lab\<close>),
  the answers of the lab's gateway, the rows of the full-text index. What is assumed of them is named where it is used: ids do not
  repeat (\<open>ids_fresh\<close>), the clock does not run backwards and stays in range (\<open>clock_ok\<close>), a dump
  validates back (\<open>dump_roundtrips\<close>).

  What the properties show. Of a whole investigation: it ends with a valid report or a pause for
  every model and every backend; citations are genuine; budgets hold in the report and in every
  checkpoint; a crash becomes a failed-safe report; a pause is settled by the owner's decision;
  a lost run is recovered; its scores and its printed report agree with it; a replayed one follows
  its script. Of the dispatch path: a
  denied proposal reaches no backend, an allowed one only within the incident, every call is
  accounted for; change and topology checks always settle within their bounds, a metric
  result says what was read. Of money: the accounted spend never exceeds the ceiling and keeps its buffer
  up to rounding, a request is sent at most once over any number of investigations. Of the hosted service: the queue
  refines the life cycle, finished reports are immutable, a worker that lost its lease is fenced off, a
  pass gives its claim back, interrupted decisions are recovered, confirmed reports are handed off, only owners reach their
  investigations. Of the lab: one scenario at a time as long as nobody
  cleans up, releases or resets it under its id; a start leaves a usable incident or nothing.
  Of evaluation: finalized investigations are complete and final, a candidate batch leaves the lab
  as it was, but for one run of its own when a reset fails, and its gates rest on clean records. Three properties state where the code loses work: a
  rejection note that is too long, log records with long event codes, a repeated start of a run.

  Not modelled: Firestore, Cloud Storage, MCP transport, Pinecone, building the runbook
  index, the Ollama client, Docker, health checks and the doctor commands (input and
  output of external services); \<open>ReplayGraphJobRunner\<close>, the wiring of the hosted application
  and the command lines, which parse arguments and print around the modelled entry points.
\<close>

end
